(* ===== verification/Prelude.thy ===== *)
theory Prelude
  imports Main "HOL-Library.Word" "HOL-Library.Monad_Syntax"
begin

text \<open>
  What the components share: the machine integer types of the C++ code, the rule
  collections of the development, reads of unsigned fields from a byte buffer, and the
  generic facts about little-endian values, lists and the option monad.

  An access outside an object (undefined behaviour in C++) is \<open>None\<close>; every model that
  reads or writes a buffer returns an option, so that being defined is a theorem.
\<close>

unbundle bit_operations_syntax

type_synonym u8 = "8 word"
type_synonym u16 = "16 word"
type_synonym u32 = "32 word"
type_synonym u64 = "64 word"

named_theorems mem_simps \<open>reads of fields from byte buffers\<close>
named_theorems frame_simps \<open>which record fields an operation leaves alone\<close>
named_theorems step_simps \<open>one unfolding of a loop\<close>

section \<open>Bits of a number\<close>

lemma bit_word_of_nat: "bit (word_of_nat x :: 'a::len word) n \<longleftrightarrow> n < LENGTH('a) \<and> bit x n"
proof -
  have "bit (word_of_int (int x) :: 'a word) n \<longleftrightarrow> n < LENGTH('a) \<and> bit (int x) n"
    by (rule bit_word_of_int_iff)
  then show ?thesis by (simp add: bit_of_nat_iff)
qed

lemma shift_in_byte:
  "push_bit 8 (word_of_nat (x div 256)) OR ucast (word_of_nat x :: u8) = (word_of_nat x :: 'a::len word)"
proof (rule bit_word_eqI)
  fix n
  assume n: "n < LENGTH('a)"
  have "bit (x div 256) (n - 8) = bit x n" if "8 \<le> n"
    using that bit_drop_bit_eq [of 8 x] by (simp add: drop_bit_eq_div)
  then show "bit (push_bit 8 (word_of_nat (x div 256)) OR ucast (word_of_nat x :: u8) :: 'a word) n =
      bit (word_of_nat x :: 'a word) n"
    using n by (auto simp: bit_or_iff bit_push_bit_iff bit_unsigned_iff bit_word_of_nat)
qed

section \<open>Values of byte sequences\<close>

text \<open>The value of a byte sequence stored least significant byte first, and back.\<close>

fun le_val :: "u8 list \<Rightarrow> nat" where
  "le_val [] = 0"
| "le_val (b # bs) = unat b + 256 * le_val bs"

fun le_bytes :: "nat \<Rightarrow> nat \<Rightarrow> u8 list" where
  "le_bytes 0 x = []"
| "le_bytes (Suc n) x = word_of_nat x # le_bytes n (x div 256)"

lemma le_bytes_4:
  "le_bytes 4 x = [word_of_nat x, word_of_nat (x div 256), word_of_nat (x div 256 div 256),
     word_of_nat (x div 256 div 256 div 256)]"
proof -
  have "(4 :: nat) = Suc (Suc (Suc (Suc 0)))" by simp
  then show ?thesis by (simp only: le_bytes.simps)
qed

lemma length_le_bytes [simp]: "length (le_bytes n x) = n"
  by (induction n arbitrary: x) auto

lemma unat_u8_less [simp]: "unat (b :: u8) < 256"
  using unsigned_less [of b] by simp

lemma le_val_less: "le_val bs < 256 ^ length bs"
proof (induction bs)
  case Nil
  then show ?case by simp
next
  case (Cons b bs)
  have "unat b + 256 * le_val bs < 256 * (le_val bs + 1)"
    using unat_u8_less [of b] by simp
  also have "\<dots> \<le> 256 * 256 ^ length bs"
    using Cons.IH by (intro mult_le_mono2) simp
  finally show ?case by simp
qed

lemma le_val_le_bytes [simp]: "le_val (le_bytes n x) = x mod 256 ^ n"
proof (induction n arbitrary: x)
  case 0
  then show ?case by simp
next
  case (Suc n)
  have "x mod 256 + 256 * (x div 256 mod 256 ^ n) = x mod (256 * 256 ^ n)"
    by (simp add: mod_mult2_eq)
  with Suc.IH show ?case
    by (simp add: unat_of_nat)
qed

lemma low_byte: "(word_of_nat (unat b + 256 * x) :: u8) = b"
proof -
  have "(word_of_nat 256 :: u8) = 0" by simp
  then have "word_of_nat (256 * x) = (0 :: u8)"
    by (simp only: of_nat_mult mult_zero_left)
  then show ?thesis by (simp only: of_nat_add) simp
qed

lemma le_bytes_le_val [simp]: "le_bytes (length bs) (le_val bs) = bs"
proof (induction bs)
  case Nil
  then show ?case by simp
next
  case (Cons b bs)
  have "word_of_nat (unat b + 256 * le_val bs) = b" by (rule low_byte)
  moreover have "(unat b + 256 * le_val bs) div 256 = le_val bs"
    using unat_u8_less [of b] by simp
  ultimately show ?case
    using Cons.IH by simp
qed

lemma le_val_append: "le_val (xs @ ys) = le_val xs + 256 ^ length xs * le_val ys"
  by (induction xs) (auto simp: algebra_simps)

section \<open>Reading a field of a packed struct\<close>

text \<open>
  \<open>load n buf off\<close> is the unsigned integer of \<open>n\<close> bytes at offset \<open>off\<close>, on a little-endian
  host: what \<open>*(T * )(buf + off)\<close> reads, when the whole field is inside the buffer.
\<close>

definition load :: "nat \<Rightarrow> u8 list \<Rightarrow> nat \<Rightarrow> 'a::len word option" where
  "load n buf off =
     (if off + n \<le> length buf then Some (word_of_nat (le_val (take n (drop off buf)))) else None)"

definition ld8 :: "u8 list \<Rightarrow> nat \<Rightarrow> u8 option" where
  "ld8 buf off = (if off < length buf then Some (buf ! off) else None)"

abbreviation ld16 :: "u8 list \<Rightarrow> nat \<Rightarrow> u16 option" where
  "ld16 \<equiv> load 2"

abbreviation ld32 :: "u8 list \<Rightarrow> nat \<Rightarrow> u32 option" where
  "ld32 \<equiv> load 4"

lemma load_Some_iff [mem_simps]:
  "(\<exists>v. load n buf off = Some v) \<longleftrightarrow> off + n \<le> length buf"
  by (simp add: load_def)

lemma ld8_Some_iff [mem_simps]: "(\<exists>v. ld8 buf off = Some v) \<longleftrightarrow> off < length buf"
  by (simp add: ld8_def)

lemma load_None_iff [mem_simps]: "load n buf off = None \<longleftrightarrow> length buf < off + n"
  by (auto simp: load_def)

lemma ld8_None_iff [mem_simps]: "ld8 buf off = None \<longleftrightarrow> length buf \<le> off"
  by (auto simp: ld8_def)

lemma load_in: "off + n \<le> length buf \<Longrightarrow>
    load n buf off = Some (word_of_nat (le_val (take n (drop off buf))))"
  by (simp add: load_def)

lemma ld8_in: "off < length buf \<Longrightarrow> ld8 buf off = Some (buf ! off)"
  by (simp add: ld8_def)

text \<open>A field that was stored in its little-endian form is read back.\<close>

lemma load_le_bytes:
  "load n (pre @ le_bytes n (unat (v :: 'a::len word)) @ post) (length pre) = Some v"
  if "LENGTH('a) \<le> 8 * n"
proof -
  have "unat v < 2 ^ LENGTH('a)" by (rule unsigned_less)
  also have "\<dots> \<le> 2 ^ (8 * n)" using that by (rule power_increasing) simp
  also have "\<dots> = 256 ^ n" by (simp add: power_mult)
  finally show ?thesis by (simp add: load_def)
qed

lemma ld32_le_bytes_at:
  "length pre = off \<Longrightarrow> ld32 (pre @ le_bytes 4 (unat v)) off = Some v"
  using load_le_bytes [of 4 pre v "[]"] by simp

section \<open>Writing into a buffer\<close>

text \<open>\<open>memcpy(buf + off, bs, length bs)\<close>; \<open>None\<close> when the copy leaves the buffer.\<close>

definition memcpy_at :: "nat \<Rightarrow> 'a list \<Rightarrow> 'a list \<Rightarrow> 'a list option" where
  "memcpy_at off bs buf =
     (if off + length bs \<le> length buf
      then Some (take off buf @ bs @ drop (off + length bs) buf) else None)"

lemma memcpy_at_in [mem_simps]:
  "off + length bs \<le> length buf \<Longrightarrow>
   memcpy_at off bs buf = Some (take off buf @ bs @ drop (off + length bs) buf)"
  by (simp add: memcpy_at_def)

lemma memcpy_at_length: "memcpy_at off bs buf = Some buf' \<Longrightarrow> length buf' = length buf"
  by (auto simp: memcpy_at_def split: if_splits)

section \<open>Network byte order\<close>

text \<open>
  \<open>htonl\<close> and \<open>ntohl\<close> on a little-endian host: the four bytes in the opposite order.
\<close>

definition htonl :: "u32 \<Rightarrow> u32" where
  "htonl w = word_of_nat (le_val (rev (le_bytes 4 (unat w))))"

abbreviation ntohl :: "u32 \<Rightarrow> u32" where
  "ntohl \<equiv> htonl"

definition be_bytes :: "nat \<Rightarrow> nat \<Rightarrow> u8 list" where
  "be_bytes n x = rev (le_bytes n x)"

definition be_val :: "u8 list \<Rightarrow> nat" where
  "be_val bs = le_val (rev bs)"

lemma length_be_bytes [simp]: "length (be_bytes n x) = n"
  by (simp add: be_bytes_def)

lemma be_val_be_bytes [simp]: "be_val (be_bytes n x) = x mod 256 ^ n"
  by (simp add: be_val_def be_bytes_def)

lemma le_bytes_htonl: "le_bytes 4 (unat (htonl w)) = be_bytes 4 (unat w)"
proof -
  let ?bs = "rev (le_bytes 4 (unat w))"
  have "le_val ?bs < 256 ^ 4" using le_val_less [of ?bs] by simp
  then have "unat (htonl w) = le_val ?bs"
    by (simp add: htonl_def unat_of_nat)
  moreover have "le_bytes (length ?bs) (le_val ?bs) = ?bs" by (rule le_bytes_le_val)
  ultimately show ?thesis by (simp add: be_bytes_def)
qed

lemma ntohl_htonl [simp]: "ntohl (htonl w) = w"
proof -
  have "rev (le_bytes 4 (unat (htonl w))) = le_bytes 4 (unat w)"
    by (simp only: le_bytes_htonl be_bytes_def rev_rev_ident)
  then have "ntohl (htonl w) = word_of_nat (unat w mod 256 ^ 4)"
    unfolding htonl_def [of "htonl w"] by simp
  moreover have "unat w < 256 ^ 4" using unsigned_less [of w] by simp
  ultimately show ?thesis by simp
qed

section \<open>The option monad\<close>

lemma bind_Some_iff [simp]: "Option.bind m f = Some y \<longleftrightarrow> (\<exists>x. m = Some x \<and> f x = Some y)"
  by (cases m) auto

lemma bind_defined_iff: "Option.bind m f \<noteq> None \<longleftrightarrow> (\<exists>x. m = Some x \<and> f x \<noteq> None)"
  by (cases m) auto

text \<open>An element of a \<open>std::vector\<close>.\<close>

definition nth_opt :: "'a list \<Rightarrow> nat \<Rightarrow> 'a option" where
  "nth_opt xs i = (if i < length xs then Some (xs ! i) else None)"

section \<open>Arithmetic of the code\<close>

text \<open>
  Conversions between the integer types: \<open>u16_of x\<close> is the C++ conversion of an \<open>int\<close> to
  \<open>uint16_t\<close> (modulo \<open>2 ^ 16\<close>). Division and remainder of C++ round towards zero.
\<close>

abbreviation u16_of :: "int \<Rightarrow> u16" where
  "u16_of \<equiv> word_of_int"

definition c_div :: "int \<Rightarrow> int \<Rightarrow> int" where
  "c_div a b = sgn a * sgn b * (\<bar>a\<bar> div \<bar>b\<bar>)"

definition c_rem :: "int \<Rightarrow> int \<Rightarrow> int" where
  "c_rem a b = sgn a * (\<bar>a\<bar> mod \<bar>b\<bar>)"

lemma c_rem_nonneg: "0 \<le> a \<Longrightarrow> 0 < b \<Longrightarrow> c_rem a b = a mod b"
  by (cases "a = 0") (simp_all add: c_rem_def)

lemma c_div_nonneg: "0 \<le> a \<Longrightarrow> 0 < b \<Longrightarrow> c_div a b = a div b"
  by (cases "a = 0") (simp_all add: c_div_def)

lemma c_div_rem: "c_div a b * b + c_rem a b = a"
proof (cases "b = 0")
  case True
  then show ?thesis by (simp add: c_div_def c_rem_def sgn_mult_abs)
next
  case False
  have "c_div a b * b = sgn a * (\<bar>a\<bar> div \<bar>b\<bar> * \<bar>b\<bar>)"
    using False by (simp add: c_div_def abs_sgn mult.commute mult.left_commute)
  then have "c_div a b * b + c_rem a b = sgn a * (\<bar>a\<bar> div \<bar>b\<bar> * \<bar>b\<bar> + \<bar>a\<bar> mod \<bar>b\<bar>)"
    by (simp only: c_rem_def distrib_left)
  also have "\<dots> = a" by (simp only: div_mult_mod_eq sgn_mult_abs)
  finally show ?thesis .
qed

lemma c_rem_bounds:
  assumes "- b < a" and "0 < b"
  shows "0 \<le> c_rem (b + a) b" and "c_rem (b + a) b < b"
  using assms by (simp_all add: c_rem_nonneg)

section \<open>Modular addition of indices\<close>

lemma mod_add_inj:
  assumes "i < n" and "j < n" and "(b + i) mod n = (b + j) mod (n :: nat)"
  shows "i = j"
proof -
  have "int n dvd int (b + i) - int (b + j)"
    using assms(3) by (metis mod_eq_dvd_iff of_nat_mod)
  then have "int n dvd int i - int j" by simp
  moreover have "\<bar>int i - int j\<bar> < int n" using assms(1,2) by linarith
  ultimately show ?thesis by (metis dvd_imp_le_int eq_iff_diff_eq_0 linorder_not_less of_nat_eq_iff abs_of_nat)
qed

end
