(* ===== verification/Ring.thy ===== *)
theory Ring
  imports Prelude
begin

text \<open>
  The circular buffer \<open>Ring<T, N>\<close> of \<open>src/libhesai/Container/src/ring.cc\<close>: its array, its
  index arithmetic in \<open>size_t\<close> (64 bits, wrapping), one definition per operation. The
  result \<open>None\<close> is a failed \<open>assert\<close> or an access outside \<open>std::array<T, 0>\<close>.

  \<open>ring_abs\<close> reads a ring as the list of its elements, front first. The locale
  \<open>bounded_deque\<close> states what a bounded double-ended queue promises over such an abstraction
  function, and proves that every sequence of operations behaves as on a list; its
  interpretation shows that \<open>Ring<T, N>\<close> keeps that contract.
\<close>

section \<open>The class\<close>

text \<open>\<open>sz x\<close> is a result of \<open>size_t\<close> arithmetic. \<open>x - 1\<close> is \<open>sz (x + size_max)\<close>.\<close>

definition sz :: "nat \<Rightarrow> nat" where
  "sz x = x mod 18446744073709551616"

abbreviation size_max :: nat where
  "size_max \<equiv> 18446744073709551615"

record 'a ring =
  ring_items :: "'a list"
  ring_begin :: nat
  ring_size :: nat

definition ring_cap :: "('a, 'z) ring_scheme \<Rightarrow> nat" where
  "ring_cap r = length (ring_items r)"

definition ring_new :: "nat \<Rightarrow> 'a \<Rightarrow> 'a ring" where
  "ring_new N d = \<lparr> ring_items = replicate N d, ring_begin = 0, ring_size = 0 \<rparr>"

definition ring_empty :: "('a, 'z) ring_scheme \<Rightarrow> bool" where
  "ring_empty r = (ring_size r = 0)"

definition ring_not_empty :: "('a, 'z) ring_scheme \<Rightarrow> bool" where
  "ring_not_empty r = (\<not> ring_empty r)"

definition ring_full :: "('a, 'z) ring_scheme \<Rightarrow> bool" where
  "ring_full r = (ring_size r \<ge> ring_cap r)"

definition ring_not_full :: "('a, 'z) ring_scheme \<Rightarrow> bool" where
  "ring_not_full r = (\<not> ring_full r)"

text \<open>Slot \<open>i\<close> of the array, for an index the code reduces modulo \<open>N\<close> (\<open>N = 0\<close> divides by 0).\<close>

definition ring_get :: "nat \<Rightarrow> ('a, 'z) ring_scheme \<Rightarrow> 'a option" where
  "ring_get i r = (if i < ring_cap r then Some (ring_items r ! i) else None)"

definition ring_put :: "nat \<Rightarrow> 'a \<Rightarrow> ('a, 'z) ring_scheme \<Rightarrow> ('a, 'z) ring_scheme option" where
  "ring_put i x r =
     (if i < ring_cap r then Some (r \<lparr> ring_items := (ring_items r)[i := x] \<rparr>) else None)"

text \<open>
  \<open>clear\<close> assigns \<open>T()\<close> through the iterators from \<open>begin()\<close> to \<open>end()\<close>, whose step counter is
  reduced modulo \<open>N\<close> at each access.
\<close>

definition ring_clear :: "'a \<Rightarrow> ('a, 'z) ring_scheme \<Rightarrow> ('a, 'z) ring_scheme" where
  "ring_clear d r =
     r \<lparr> ring_items := fold (\<lambda>s xs. xs[s mod ring_cap r := d])
                         [ring_begin r ..< ring_begin r + ring_size r] (ring_items r),
        ring_size := 0, ring_begin := 0 \<rparr>"

definition ring_eff_clear :: "('a, 'z) ring_scheme \<Rightarrow> ('a, 'z) ring_scheme" where
  "ring_eff_clear r = r \<lparr> ring_size := 0, ring_begin := 0 \<rparr>"

definition ring_emplace_back :: "'a \<Rightarrow> ('a, 'z) ring_scheme \<Rightarrow> ('a, 'z) ring_scheme option" where
  "ring_emplace_back x r =
     (if ring_full r then None
      else do {
        r \<leftarrow> ring_put (sz (ring_begin r + ring_size r) mod ring_cap r) x r;
        Some (r \<lparr> ring_size := sz (ring_size r + 1) \<rparr>)
      })"

definition ring_push_back :: "'a \<Rightarrow> ('a, 'z) ring_scheme \<Rightarrow> ('a, 'z) ring_scheme option" where
  "ring_push_back x r =
     (if ring_full r then None
      else do {
        r \<leftarrow> ring_put (sz (ring_begin r + ring_size r) mod ring_cap r) x r;
        Some (r \<lparr> ring_size := sz (ring_size r + 1) \<rparr>)
      })"

definition ring_peek_back :: "('a, 'z) ring_scheme \<Rightarrow> 'a option" where
  "ring_peek_back r =
     (if ring_empty r then None
      else ring_get (sz (ring_begin r + ring_size r + size_max) mod ring_cap r) r)"

definition ring_eff_pop_back :: "('a, 'z) ring_scheme \<Rightarrow> ('a, 'z) ring_scheme" where
  "ring_eff_pop_back r = r \<lparr> ring_size := sz (ring_size r + size_max) \<rparr>"

text \<open>\<open>pop_back\<close> and \<open>pop_front\<close> swap the slot with a default-constructed \<open>T item\<close>.\<close>

definition ring_pop_back :: "'a \<Rightarrow> ('a, 'z) ring_scheme \<Rightarrow> ('a \<times> ('a, 'z) ring_scheme) option" where
  "ring_pop_back d r =
     (if ring_empty r then None
      else do {
        let r1 = r \<lparr> ring_size := sz (ring_size r + size_max) \<rparr>;
        let k = sz (ring_begin r1 + ring_size r1) mod ring_cap r1;
        x \<leftarrow> ring_get k r1;
        r2 \<leftarrow> ring_put k d r1;
        Some (x, r2)
      })"

definition ring_emplace_front :: "'a \<Rightarrow> ('a, 'z) ring_scheme \<Rightarrow> ('a, 'z) ring_scheme option" where
  "ring_emplace_front x r =
     (if ring_full r then None
      else do {
        let b = sz (ring_begin r + ring_cap r + size_max) mod ring_cap r;
        r \<leftarrow> ring_put b x (r \<lparr> ring_begin := b \<rparr>);
        Some (r \<lparr> ring_size := sz (ring_size r + 1) \<rparr>)
      })"

definition ring_push_front :: "'a \<Rightarrow> ('a, 'z) ring_scheme \<Rightarrow> ('a, 'z) ring_scheme option" where
  "ring_push_front x r =
     (if ring_full r then None
      else do {
        let b = sz (ring_begin r + ring_cap r + size_max) mod ring_cap r;
        r \<leftarrow> ring_put b x (r \<lparr> ring_begin := b \<rparr>);
        Some (r \<lparr> ring_size := sz (ring_size r + 1) \<rparr>)
      })"

definition ring_peek_front :: "('a, 'z) ring_scheme \<Rightarrow> 'a option" where
  "ring_peek_front r = (if ring_empty r then None else ring_get (ring_begin r) r)"

definition ring_eff_pop_front :: "('a, 'z) ring_scheme \<Rightarrow> ('a, 'z) ring_scheme" where
  "ring_eff_pop_front r =
     r \<lparr> ring_size := sz (ring_size r + size_max),
        ring_begin := sz (ring_begin r + 1) mod ring_cap r \<rparr>"

definition ring_pop_front :: "'a \<Rightarrow> ('a, 'z) ring_scheme \<Rightarrow> ('a \<times> ('a, 'z) ring_scheme) option" where
  "ring_pop_front d r =
     (if ring_empty r then None
      else do {
        let r1 = r \<lparr> ring_size := sz (ring_size r + size_max) \<rparr>;
        x \<leftarrow> ring_get (ring_begin r1) r1;
        r2 \<leftarrow> ring_put (ring_begin r1) d r1;
        Some (x, r2 \<lparr> ring_begin := sz (ring_begin r2 + 1) mod ring_cap r2 \<rparr>)
      })"

definition ring_at :: "nat \<Rightarrow> ('a, 'z) ring_scheme \<Rightarrow> 'a option" where
  "ring_at k r =
     (if k < ring_size r then ring_get (sz (ring_begin r + k) mod ring_cap r) r else None)"

section \<open>Invariant and abstraction\<close>

text \<open>
  \<open>N\<close> is positive and two arrays fit the address space (a C++ object has at most
  \<open>PTRDIFF_MAX\<close> bytes), so that no index sum wraps.
\<close>

definition ring_wf :: "('a, 'z) ring_scheme \<Rightarrow> bool" where
  "ring_wf r \<longleftrightarrow> 0 < ring_cap r \<and> 2 * ring_cap r < 18446744073709551616 \<and>
     ring_begin r < ring_cap r \<and> ring_size r \<le> ring_cap r"

definition ring_abs :: "('a, 'z) ring_scheme \<Rightarrow> 'a list" where
  "ring_abs r =
     map (\<lambda>k. ring_items r ! ((ring_begin r + k) mod ring_cap r)) [0 ..< ring_size r]"

named_theorems ring_simps \<open>the bounded deque laws of the ring, by cases\<close>

lemma sz_small [simp]: "x < 18446744073709551616 \<Longrightarrow> sz x = x"
  by (simp add: sz_def)

lemma sz_pred [simp]: "0 < x \<Longrightarrow> x < 18446744073709551616 \<Longrightarrow> sz (x + size_max) = x - 1"
proof -
  assume "0 < x" and "x < 18446744073709551616"
  then have "x + size_max = (x - 1) + 18446744073709551616" by simp
  then show ?thesis
    using \<open>x < 18446744073709551616\<close> by (simp only: sz_def mod_add_self2) simp
qed

lemma ring_cap_upd [simp]:
  "ring_cap (r \<lparr> ring_begin := b \<rparr>) = ring_cap r"
  "ring_cap (r \<lparr> ring_size := n \<rparr>) = ring_cap r"
  "ring_cap (r \<lparr> ring_items := xs[i := v] \<rparr>) = length xs"
  by (simp_all add: ring_cap_def)

lemma length_ring_items: "length (ring_items r) = ring_cap r"
  by (simp add: ring_cap_def)

lemma length_ring_abs [simp]: "length (ring_abs r) = ring_size r"
  by (simp add: ring_abs_def)

lemma ring_new_wf [simp]: "0 < N \<Longrightarrow> 2 * N < 18446744073709551616 \<Longrightarrow> ring_wf (ring_new N d)"
  by (simp add: ring_wf_def ring_new_def ring_cap_def)

lemma ring_new_abs [simp]: "ring_abs (ring_new N d) = []"
  by (simp add: ring_abs_def ring_new_def)

lemma ring_new_cap [simp]: "ring_cap (ring_new N d) = N"
  by (simp add: ring_cap_def ring_new_def)

text \<open>The two slots that an operation must not confuse.\<close>

lemma ring_slot_neq:
  assumes "k < n" and "n < N"
  shows "(b + k) mod N \<noteq> (b + n) mod (N :: nat)"
  using assms mod_add_inj [of k N n b] by auto

lemma ring_pred_slot:
  assumes "b < N" and "2 * N < 18446744073709551616"
  shows "(sz (b + N + size_max) mod N + Suc k) mod N = (b + k) mod N"
proof -
  have "sz (b + N + size_max) = b + N - 1"
    using assms by (intro sz_pred) auto
  moreover have "((b + N - 1) mod N + Suc k) mod N = (b + N - 1 + Suc k) mod N"
    by (rule mod_add_left_eq)
  moreover have "b + N - 1 + Suc k = b + k + N"
    using assms by simp
  ultimately show ?thesis by (simp only: mod_add_self2)
qed

lemma ring_next_slot:
  assumes "b < N" and "2 * N < 18446744073709551616"
  shows "(sz (b + 1) mod N + k) mod N = (b + Suc k) mod N"
  using assms by (simp add: mod_add_left_eq)

section \<open>The effect of every operation on the abstract list\<close>

lemma ring_emplace_back_ok:
  assumes "ring_wf r" and "ring_size r < ring_cap r"
  shows "\<exists>r'. ring_emplace_back x r = Some r' \<and> ring_wf r' \<and> ring_cap r' = ring_cap r \<and>
           ring_abs r' = ring_abs r @ [x]"
proof -
  let ?N = "ring_cap r" and ?b = "ring_begin r" and ?n = "ring_size r"
  let ?i = "(?b + ?n) mod ?N"
  let ?r = "r \<lparr> ring_items := (ring_items r)[?i := x], ring_size := Suc ?n \<rparr>"
  have N: "0 < ?N" "?i < ?N" "?b + ?n < 18446744073709551616" "Suc ?n < 18446744073709551616"
    using assms by (auto simp: ring_wf_def)
  then have "ring_emplace_back x r = Some ?r"
    using assms by (simp add: ring_emplace_back_def ring_full_def ring_put_def)
  moreover have "ring_wf ?r" "ring_cap ?r = ?N"
    using assms by (auto simp: ring_wf_def ring_cap_def)
  moreover have "ring_abs ?r = ring_abs r @ [x]"
  proof -
    have "(ring_items r)[?i := x] ! ((?b + k) mod ?N) = ring_items r ! ((?b + k) mod ?N)"
      if "k < ?n" for k
      using ring_slot_neq [OF that assms(2)] by (metis nth_list_update_neq)
    then show ?thesis
      using N by (simp add: ring_abs_def length_ring_items)
  qed
  ultimately show ?thesis by blast
qed

lemma ring_push_back_eq: "ring_push_back = ring_emplace_back"
  by (intro ext) (simp add: ring_push_back_def ring_emplace_back_def)

lemma ring_push_front_eq: "ring_push_front = ring_emplace_front"
  by (intro ext) (simp add: ring_push_front_def ring_emplace_front_def)

lemma ring_emplace_front_ok:
  assumes "ring_wf r" and "ring_size r < ring_cap r"
  shows "\<exists>r'. ring_emplace_front x r = Some r' \<and> ring_wf r' \<and> ring_cap r' = ring_cap r \<and>
           ring_abs r' = x # ring_abs r"
proof -
  let ?N = "ring_cap r" and ?n = "ring_size r"
  let ?b = "sz (ring_begin r + ?N + size_max) mod ?N"
  let ?r = "r \<lparr> ring_begin := ?b, ring_items := (ring_items r)[?b := x], ring_size := Suc ?n \<rparr>"
  have N: "0 < ?N" "?b < ?N" "Suc ?n < 18446744073709551616"
    using assms by (auto simp: ring_wf_def)
  then have "ring_emplace_front x r = Some ?r"
    using assms by (simp add: ring_emplace_front_def ring_full_def ring_put_def Let_def)
  moreover have "ring_wf ?r" "ring_cap ?r = ?N"
    using assms N by (auto simp: ring_wf_def ring_cap_def)
  moreover have "ring_abs ?r = x # ring_abs r"
  proof (rule nth_equalityI)
    fix k
    assume "k < length (ring_abs ?r)"
    then have k: "k < Suc ?n" by simp
    show "ring_abs ?r ! k = (x # ring_abs r) ! k"
    proof (cases k)
      case 0
      then show ?thesis
        using N by (simp add: ring_abs_def length_ring_items del: upt_Suc)
    next
      case (Suc j)
      have "(?b + 0) mod ?N \<noteq> (?b + Suc j) mod ?N"
        using k Suc assms by (intro ring_slot_neq) (auto simp: ring_wf_def)
      moreover have "(?b + Suc j) mod ?N = (ring_begin r + j) mod ?N"
        using assms by (intro ring_pred_slot) (auto simp: ring_wf_def)
      ultimately show ?thesis
        using k Suc N by (simp add: ring_abs_def length_ring_items del: upt_Suc)
    qed
  qed simp
  ultimately show ?thesis by blast
qed

lemma ring_pop_front_ok:
  assumes "ring_wf r" and "0 < ring_size r"
  shows "\<exists>r'. ring_pop_front d r = Some (hd (ring_abs r), r') \<and> ring_wf r' \<and>
           ring_cap r' = ring_cap r \<and> ring_abs r' = tl (ring_abs r)"
proof -
  let ?N = "ring_cap r" and ?b = "ring_begin r" and ?n = "ring_size r"
  let ?c = "sz (?b + 1) mod ?N"
  let ?r = "r \<lparr> ring_size := ?n - 1, ring_items := (ring_items r)[?b := d], ring_begin := ?c \<rparr>"
  have N: "0 < ?N" "?b < ?N" "?n < 18446744073709551616" "ring_items r ! ?b = hd (ring_abs r)"
    using assms by (auto simp: ring_wf_def ring_abs_def hd_map)
  then have "ring_pop_front d r = Some (hd (ring_abs r), ?r)"
    using assms
    by (simp add: ring_pop_front_def ring_empty_def ring_put_def ring_get_def Let_def)
      (simp add: ring_cap_def)
  moreover have "ring_wf ?r" "ring_cap ?r = ?N"
    using assms N by (auto simp: ring_wf_def ring_cap_def)
  moreover have "ring_abs ?r = tl (ring_abs r)"
  proof (rule nth_equalityI)
    fix k
    assume "k < length (ring_abs ?r)"
    then have k: "Suc k < ?n" by simp
    have "(?c + k) mod ?N = (?b + Suc k) mod ?N"
      using assms by (intro ring_next_slot) (auto simp: ring_wf_def)
    moreover have "(?b + 0) mod ?N \<noteq> (?b + Suc k) mod ?N"
      using k assms by (intro ring_slot_neq) (auto simp: ring_wf_def)
    ultimately show "ring_abs ?r ! k = tl (ring_abs r) ! k"
      using k N by (simp add: ring_abs_def nth_tl length_ring_items)
  qed (use assms in simp)
  ultimately show ?thesis by blast
qed

lemma ring_eff_pop_front_ok:
  assumes "ring_wf r" and "0 < ring_size r"
  shows "ring_wf (ring_eff_pop_front r)" and "ring_cap (ring_eff_pop_front r) = ring_cap r"
    and "ring_abs (ring_eff_pop_front r) = tl (ring_abs r)"
proof -
  have "ring_size (ring_eff_pop_front r) = ring_size r - 1"
    using assms by (simp add: ring_eff_pop_front_def ring_wf_def)
  then show "ring_wf (ring_eff_pop_front r)" "ring_abs (ring_eff_pop_front r) = tl (ring_abs r)"
    using assms ring_next_slot [of "ring_begin r" "ring_cap r"]
    by (auto simp: ring_wf_def ring_eff_pop_front_def ring_abs_def nth_tl intro!: nth_equalityI)
qed (simp add: ring_eff_pop_front_def)

lemma ring_peek_front_ok:
  "ring_wf r \<Longrightarrow> 0 < ring_size r \<Longrightarrow> ring_peek_front r = Some (hd (ring_abs r))"
  by (simp add: ring_peek_front_def ring_empty_def ring_get_def ring_wf_def ring_abs_def hd_map)

lemma ring_pop_back_ok:
  assumes "ring_wf r" and "0 < ring_size r"
  shows "\<exists>r'. ring_pop_back d r = Some (last (ring_abs r), r') \<and> ring_wf r' \<and>
           ring_cap r' = ring_cap r \<and> ring_abs r' = butlast (ring_abs r)"
proof -
  let ?N = "ring_cap r" and ?b = "ring_begin r" and ?n = "ring_size r"
  let ?i = "(?b + (?n - 1)) mod ?N"
  let ?r = "r \<lparr> ring_size := ?n - 1, ring_items := (ring_items r)[?i := d] \<rparr>"
  have N: "0 < ?N" "?i < ?N" "?n < 18446744073709551616" "?b + ?n < 18446744073709551616"
    using assms by (auto simp: ring_wf_def)
  moreover have "ring_items r ! ?i = last (ring_abs r)"
    using assms by (simp add: ring_abs_def last_map)
  ultimately have "ring_pop_back d r = Some (last (ring_abs r), ?r)"
    using assms by (simp add: ring_pop_back_def ring_empty_def ring_put_def ring_get_def Let_def)
  moreover have "ring_wf ?r" "ring_cap ?r = ?N"
    using assms N by (auto simp: ring_wf_def ring_cap_def)
  moreover have "ring_abs ?r = butlast (ring_abs r)"
  proof (rule nth_equalityI)
    fix k
    assume "k < length (ring_abs ?r)"
    then have k: "k < ?n - 1" by simp
    have "?n - 1 < ?N" using assms by (auto simp: ring_wf_def)
    from ring_slot_neq [OF k this, THEN not_sym] show "ring_abs ?r ! k = butlast (ring_abs r) ! k"
      using k N by (simp add: ring_abs_def nth_butlast length_ring_items)
  qed (use assms in simp)
  ultimately show ?thesis by blast
qed

lemma ring_peek_back_ok:
  assumes "ring_wf r" and "0 < ring_size r"
  shows "ring_peek_back r = Some (last (ring_abs r))"
proof -
  have "sz (ring_begin r + ring_size r + size_max) = ring_begin r + (ring_size r - 1)"
    using assms by (subst sz_pred) (auto simp: ring_wf_def)
  then show ?thesis
    using assms by (simp add: ring_peek_back_def ring_empty_def ring_get_def ring_wf_def
        ring_abs_def last_map)
qed

lemma ring_at_ok:
  "ring_wf r \<Longrightarrow> k < ring_size r \<Longrightarrow> ring_at k r = Some (ring_abs r ! k)"
  by (simp add: ring_at_def ring_get_def ring_wf_def ring_abs_def)

lemma length_fold_update [simp]:
  "length (fold (\<lambda>s xs. xs[f s := d]) ss xs) = length xs"
  by (induction ss arbitrary: xs) auto

lemma ring_clear_ok:
  assumes "ring_wf r"
  shows "ring_wf (ring_clear d r)" and "ring_abs (ring_clear d r) = []"
    and "ring_cap (ring_clear d r) = ring_cap r"
  using assms by (auto simp: ring_clear_def ring_wf_def ring_abs_def ring_cap_def)

section \<open>The contract of a bounded double-ended queue\<close>

text \<open>One call of the interface, and a client as a sequence of calls.\<close>

datatype 'a dq_call = Push_Back 'a | Push_Front 'a | Pop_Front | Pop_Back

fun dq_run :: "('a \<Rightarrow> 's \<Rightarrow> 's option) \<Rightarrow> ('a \<Rightarrow> 's \<Rightarrow> 's option) \<Rightarrow>
    ('s \<Rightarrow> ('a \<times> 's) option) \<Rightarrow> ('s \<Rightarrow> ('a \<times> 's) option) \<Rightarrow>
    'a dq_call list \<Rightarrow> 's \<Rightarrow> ('a list \<times> 's) option" where
  "dq_run pb pf qf qb [] s = Some ([], s)"
| "dq_run pb pf qf qb (Push_Back x # cs) s = do { s \<leftarrow> pb x s; dq_run pb pf qf qb cs s }"
| "dq_run pb pf qf qb (Push_Front x # cs) s = do { s \<leftarrow> pf x s; dq_run pb pf qf qb cs s }"
| "dq_run pb pf qf qb (Pop_Front # cs) s =
     do { (x, s) \<leftarrow> qf s; (xs, s) \<leftarrow> dq_run pb pf qf qb cs s; Some (x # xs, s) }"
| "dq_run pb pf qf qb (Pop_Back # cs) s =
     do { (x, s) \<leftarrow> qb s; (xs, s) \<leftarrow> dq_run pb pf qf qb cs s; Some (x # xs, s) }"

text \<open>The reference: a list of at most \<open>n\<close> elements.\<close>

definition list_push_back :: "nat \<Rightarrow> 'a \<Rightarrow> 'a list \<Rightarrow> 'a list option" where
  "list_push_back n x xs = (if length xs < n then Some (xs @ [x]) else None)"

definition list_push_front :: "nat \<Rightarrow> 'a \<Rightarrow> 'a list \<Rightarrow> 'a list option" where
  "list_push_front n x xs = (if length xs < n then Some (x # xs) else None)"

definition list_pop_front :: "'a list \<Rightarrow> ('a \<times> 'a list) option" where
  "list_pop_front xs = (case xs of [] \<Rightarrow> None | x # ys \<Rightarrow> Some (x, ys))"

definition list_pop_back :: "'a list \<Rightarrow> ('a \<times> 'a list) option" where
  "list_pop_back xs = (if xs = [] then None else Some (last xs, butlast xs))"

lemma list_pop_front_simps [simp]:
  "list_pop_front [] = None"
  "list_pop_front (x # xs) = Some (x, xs)"
  by (simp_all add: list_pop_front_def)

lemma list_pop_back_simps [simp]:
  "list_pop_back [] = None"
  "xs \<noteq> [] \<Longrightarrow> list_pop_back xs = Some (last xs, butlast xs)"
  by (simp_all add: list_pop_back_def)

abbreviation list_run :: "nat \<Rightarrow> 'a dq_call list \<Rightarrow> 'a list \<Rightarrow> ('a list \<times> 'a list) option" where
  "list_run n \<equiv> dq_run (list_push_back n) (list_push_front n) list_pop_front list_pop_back"

locale bounded_deque =
  fixes inv :: "'s \<Rightarrow> bool"
    and abs :: "'s \<Rightarrow> 'a list"
    and cap :: "'s \<Rightarrow> nat"
    and pb :: "'a \<Rightarrow> 's \<Rightarrow> 's option"
    and pf :: "'a \<Rightarrow> 's \<Rightarrow> 's option"
    and qf :: "'s \<Rightarrow> ('a \<times> 's) option"
    and qb :: "'s \<Rightarrow> ('a \<times> 's) option"
  assumes pb_room: "inv s \<Longrightarrow> length (abs s) < cap s \<Longrightarrow>
      \<exists>s'. pb x s = Some s' \<and> inv s' \<and> cap s' = cap s \<and> abs s' = abs s @ [x]"
    and pb_full: "inv s \<Longrightarrow> \<not> length (abs s) < cap s \<Longrightarrow> pb x s = None"
    and pf_room: "inv s \<Longrightarrow> length (abs s) < cap s \<Longrightarrow>
      \<exists>s'. pf x s = Some s' \<and> inv s' \<and> cap s' = cap s \<and> abs s' = x # abs s"
    and pf_full: "inv s \<Longrightarrow> \<not> length (abs s) < cap s \<Longrightarrow> pf x s = None"
    and qf_some: "inv s \<Longrightarrow> abs s \<noteq> [] \<Longrightarrow>
      \<exists>s'. qf s = Some (hd (abs s), s') \<and> inv s' \<and> cap s' = cap s \<and> abs s' = tl (abs s)"
    and qf_empty: "inv s \<Longrightarrow> abs s = [] \<Longrightarrow> qf s = None"
    and qb_some: "inv s \<Longrightarrow> abs s \<noteq> [] \<Longrightarrow>
      \<exists>s'. qb s = Some (last (abs s), s') \<and> inv s' \<and> cap s' = cap s \<and> abs s' = butlast (abs s)"
    and qb_empty: "inv s \<Longrightarrow> abs s = [] \<Longrightarrow> qb s = None"
begin

text \<open>
  Every sequence of calls gives the same results, the same failures and the same final
  contents as on the list.
\<close>

lemma run_refines:
  assumes "inv s"
  shows "map_option (\<lambda>(out, s'). (out, abs s')) (dq_run pb pf qf qb cs s) =
           list_run (cap s) cs (abs s)"
  using assms
proof (induction cs arbitrary: s)
  case Nil
  then show ?case by simp
next
  case (Cons c cs)
  show ?case
  proof (cases c)
    case (Push_Back x)
    then show ?thesis
      using Cons pb_room [of s x] pb_full [of s x]
      by (cases "length (abs s) < cap s") (auto simp: list_push_back_def)
  next
    case (Push_Front x)
    then show ?thesis
      using Cons pf_room [of s x] pf_full [of s x]
      by (cases "length (abs s) < cap s") (auto simp: list_push_front_def)
  next
    case Pop_Front
    show ?thesis
    proof (cases "abs s")
      case Nil
      then show ?thesis
        using Pop_Front Cons.prems qf_empty by simp
    next
      case (Cons y ys)
      then obtain s' where "qf s = Some (y, s')" "inv s'" "cap s' = cap s" "abs s' = ys"
        using qf_some [OF \<open>inv s\<close>] by auto
      then show ?thesis
        using Pop_Front Cons Cons.IH [of s', symmetric] \<open>inv s'\<close>
        by (cases "dq_run pb pf qf qb cs s'") auto
    qed
  next
    case Pop_Back
    show ?thesis
    proof (cases "abs s = []")
      case True
      then show ?thesis
        using Pop_Back Cons.prems qb_empty by simp
    next
      case False
      then obtain s' where "qb s = Some (last (abs s), s')" "inv s'" "cap s' = cap s"
          "abs s' = butlast (abs s)"
        using qb_some [OF Cons.prems] by auto
      then show ?thesis
        using Pop_Back False Cons.IH [of s', symmetric]
        by (cases "dq_run pb pf qf qb cs s'") auto
    qed
  qed
qed

lemma run_inv:
  "inv s \<Longrightarrow> dq_run pb pf qf qb cs s = Some (out, s') \<Longrightarrow> inv s' \<and> cap s' = cap s"
proof (induction cs arbitrary: s out)
  case Nil
  then show ?case by simp
next
  case (Cons c cs)
  then show ?case
    using pb_room [of s] pb_full [of s] pf_room [of s] pf_full [of s]
      qf_some [of s] qf_empty [of s] qb_some [of s] qb_empty [of s]
    by (cases c) (auto split: prod.splits, (metis option.distinct(1) option.inject prod.inject)+)
qed

end

abbreviation ring_run :: "'a \<Rightarrow> 'a dq_call list \<Rightarrow> 'a ring \<Rightarrow> ('a list \<times> 'a ring) option" where
  "ring_run d \<equiv> dq_run ring_push_back ring_push_front (ring_pop_front d) (ring_pop_back d)"

interpretation ring_dq: bounded_deque "ring_wf :: ('a, 'z) ring_scheme \<Rightarrow> bool" ring_abs ring_cap ring_push_back ring_push_front
    "ring_pop_front d" "ring_pop_back d" for d :: 'a
proof
  fix r :: "('a, 'z) ring_scheme" and x
  assume r: "ring_wf r"
  show "\<exists>s'. ring_push_back x r = Some s' \<and> ring_wf s' \<and> ring_cap s' = ring_cap r \<and>
      ring_abs s' = ring_abs r @ [x]" if "length (ring_abs r) < ring_cap r"
    using ring_emplace_back_ok [OF r] that by (simp add: ring_push_back_eq)
  show "\<exists>s'. ring_push_front x r = Some s' \<and> ring_wf s' \<and> ring_cap s' = ring_cap r \<and>
      ring_abs s' = x # ring_abs r" if "length (ring_abs r) < ring_cap r"
    using ring_emplace_front_ok [OF r] that by (simp add: ring_push_front_eq)
  show "\<exists>s'. ring_pop_front d r = Some (hd (ring_abs r), s') \<and> ring_wf s' \<and>
      ring_cap s' = ring_cap r \<and> ring_abs s' = tl (ring_abs r)" if "ring_abs r \<noteq> []"
    using ring_pop_front_ok [OF r] that by (metis length_greater_0_conv length_ring_abs)
  show "\<exists>s'. ring_pop_back d r = Some (last (ring_abs r), s') \<and> ring_wf s' \<and>
      ring_cap s' = ring_cap r \<and> ring_abs s' = butlast (ring_abs r)" if "ring_abs r \<noteq> []"
    using ring_pop_back_ok [OF r] that by (metis length_greater_0_conv length_ring_abs)
  show "ring_pop_front d r = None" "ring_pop_back d r = None" if "ring_abs r = []"
    using that by (simp_all add: ring_pop_front_def ring_pop_back_def ring_empty_def ring_abs_def)
qed (simp_all add: ring_push_back_def ring_push_front_def ring_full_def)

text \<open>
  C11. Refinement: from any state of the invariant, every sequence of pushes and pops on
  \<open>Ring<T, N>\<close> returns the same elements, fails the same assertion and ends with the same
  contents as on a list of at most \<open>N\<close> elements.
\<close>

theorem ring_refines_list:
  "ring_wf r \<Longrightarrow>
   map_option (\<lambda>(out, r'). (out, ring_abs r')) (ring_run d cs r) =
     list_run (ring_cap r) cs (ring_abs r)"
  by (rule ring_dq.run_refines)

lemma ring_refines_list_witness:
  "map_option (\<lambda>(out, r'). (out, ring_abs r'))
     (ring_run 0 [Push_Back 1, Push_Front 2, Push_Back 3, Pop_Back, Pop_Front]
        (ring_new 3 (0 :: int))) = Some ([3, 2], [1])"
  by (subst ring_refines_list) (simp_all add: list_push_back_def list_push_front_def
      list_pop_front_def list_pop_back_def)

end
