(* ===== verification/Ring2D.thy ===== *)
theory Ring2D
  imports Ring
begin

text \<open>
  \<open>Ring2D_ex<T, N, T2, M>\<close> of \<open>src/libhesai/Container/src/ring_2dex.cc\<close>: a ring of \<open>N\<close> items
  with a second array of \<open>N * M\<close> cells, filled batch by batch. \<open>prepare_emplace_back\<close> drops the
  oldest items until a batch fits, the slots of the batch are written in any order, and
  \<open>finish_emplace_back\<close> publishes them. The operations shared with \<open>Ring\<close> are the same text in
  both files; they are those of theory Ring, on the extended record.

  The lemmas show that the loop of \<open>prepare_emplace_back\<close> ends for every state (its counter is
  a wrapping \<open>size_t\<close>), that it keeps the newest items, and that every cell of the batch is
  inside the second array.
\<close>

record ('a, 'b) ring2d = "'a ring" +
  ring2_items :: "'b list"
  emplace_start :: nat
  emplace_size :: nat
  size_2d :: nat

definition ring2d_new :: "nat \<Rightarrow> nat \<Rightarrow> 'a \<Rightarrow> 'b \<Rightarrow> ('a, 'b) ring2d" where
  "ring2d_new N M d d2 =
     \<lparr> ring_items = replicate N d, ring_begin = 0, ring_size = 0,
       ring2_items = replicate (N * M) d2, emplace_start = 0, emplace_size = 0, size_2d = 0 \<rparr>"

text \<open>The loop \<open>while (_size + s > N) eff_pop_front()\<close>.\<close>

lemma sz_dec:
  assumes "0 < sz (n + s)"
  shows "sz (sz (n + size_max) + s) = sz (n + s) - 1"
proof -
  let ?W = "18446744073709551616 :: nat"
  have "sz (sz (n + size_max) + s) = (n + s + size_max) mod ?W"
    by (simp only: sz_def mod_add_left_eq) (simp add: ac_simps)
  also have "\<dots> = ((n + s) mod ?W + size_max) mod ?W"
    by (simp only: mod_add_left_eq)
  also have "\<dots> = sz (sz (n + s) + size_max)"
    by (simp only: sz_def)
  also have "\<dots> = sz (n + s) - 1"
    using assms by (intro sz_pred) (simp_all add: sz_def)
  finally show ?thesis .
qed

function ring2d_make_room :: "nat \<Rightarrow> ('a, 'z) ring_scheme \<Rightarrow> ('a, 'z) ring_scheme" where
  "ring2d_make_room s r =
     (if sz (ring_size r + s) > ring_cap r then ring2d_make_room s (ring_eff_pop_front r) else r)"
  by auto
termination
  by (relation "measure (\<lambda>(s, r). sz (ring_size r + s))")
    (simp_all add: ring_eff_pop_front_def sz_dec)

declare ring2d_make_room.simps [simp del]

definition ring2d_prepare_emplace_back ::
    "nat \<Rightarrow> nat \<Rightarrow> nat \<Rightarrow> ('a, 'b) ring2d \<Rightarrow> ('a, 'b) ring2d option" where
  "ring2d_prepare_emplace_back M s t r =
     (if s \<le> ring_cap r \<and> t \<le> M then
        (let r = ring2d_make_room s r
         in Some (r \<lparr> emplace_start := sz (ring_begin r + ring_size r) mod ring_cap r,
                     emplace_size := s, size_2d := t \<rparr>))
      else None)"

definition ring2d_emplace_back_at :: "nat \<Rightarrow> 'a \<Rightarrow> ('a, 'b) ring2d \<Rightarrow> ('a, 'b) ring2d option" where
  "ring2d_emplace_back_at i x r =
     (if i < emplace_size r then ring_put (sz (emplace_start r + i) mod ring_cap r) x r else None)"

definition ring2d_peek_back_at :: "nat \<Rightarrow> ('a, 'b) ring2d \<Rightarrow> 'a option" where
  "ring2d_peek_back_at i r =
     (if i < emplace_size r then ring_get (sz (emplace_start r + i) mod ring_cap r) r else None)"

text \<open>The index of cell \<open>(i, j)\<close> of the batch in the second array.\<close>

definition ring2d_cell :: "nat \<Rightarrow> nat \<Rightarrow> ('a, 'b) ring2d \<Rightarrow> nat" where
  "ring2d_cell i j r = sz (sz (emplace_start r + i) mod ring_cap r * size_2d r + j)"

definition ring2d_emplace_back_cell ::
    "nat \<Rightarrow> nat \<Rightarrow> 'b \<Rightarrow> ('a, 'b) ring2d \<Rightarrow> ('a, 'b) ring2d option" where
  "ring2d_emplace_back_cell i j x r =
     (if i < emplace_size r \<and> j < size_2d r \<and> ring2d_cell i j r < length (ring2_items r)
      then Some (r \<lparr> ring2_items := (ring2_items r)[ring2d_cell i j r := x] \<rparr>)
      else None)"

definition ring2d_peek_back_cell :: "nat \<Rightarrow> nat \<Rightarrow> ('a, 'b) ring2d \<Rightarrow> 'b option" where
  "ring2d_peek_back_cell i j r =
     (if i < emplace_size r \<and> j < size_2d r \<and> ring2d_cell i j r < length (ring2_items r)
      then Some (ring2_items r ! ring2d_cell i j r)
      else None)"

definition ring2d_finish_emplace_back :: "('a, 'b) ring2d \<Rightarrow> ('a, 'b) ring2d" where
  "ring2d_finish_emplace_back r = r \<lparr> ring_size := sz (ring_size r + emplace_size r) \<rparr>"

definition ring2d_peek_front_cell :: "nat \<Rightarrow> ('a, 'b) ring2d \<Rightarrow> 'b option" where
  "ring2d_peek_front_cell j r =
     (let k = sz (ring_begin r * size_2d r + j)
      in if \<not> ring_empty r \<and> j < size_2d r \<and> k < length (ring2_items r)
         then Some (ring2_items r ! k) else None)"

section \<open>The loop\<close>

lemma ring2_items_eff_pop_front [simp]:
  "ring2_items (ring_eff_pop_front r) = ring2_items r"
  by (simp add: ring_eff_pop_front_def)

lemma ring_size_eff_pop_front:
  "ring_size (ring_eff_pop_front r) = sz (ring_size r + size_max)"
  by (simp add: ring_eff_pop_front_def)

lemma make_room_ok:
  assumes "ring_wf r" and "s \<le> ring_cap r"
  shows "ring_wf (ring2d_make_room s r) \<and>
    ring_cap (ring2d_make_room s r) = ring_cap r \<and>
    ring_size (ring2d_make_room s r) + s \<le> ring_cap r \<and>
    ring_abs (ring2d_make_room s r) = drop (ring_size r + s - ring_cap r) (ring_abs r)"
  using assms
proof (induction s r rule: ring2d_make_room.induct)
  case (1 s r)
  have *: "ring_size r + s < 18446744073709551616" "ring_size r < 18446744073709551616"
    using "1.prems" by (auto simp: ring_wf_def)
  show ?case
  proof (cases "ring_size r + s > ring_cap r")
    case False
    then show ?thesis
      using * "1.prems" by (subst (1 2 3 4) ring2d_make_room.simps) simp
  next
    case True
    then have pos: "0 < ring_size r" using "1.prems" by simp
    let ?q = "ring_eff_pop_front r"
    note q = ring_eff_pop_front_ok [OF "1.prems"(1) pos]
    have n: "ring_size ?q = ring_size r - 1"
      by (simp only: ring_size_eff_pop_front sz_pred [OF pos *(2)])
    have "ring2d_make_room s r = ring2d_make_room s ?q"
      using True * by (subst ring2d_make_room.simps) simp
    moreover have "drop (ring_size r - 1 + s - ring_cap r) (tl (ring_abs r)) =
        drop (ring_size r + s - ring_cap r) (ring_abs r)"
    proof -
      have "ring_size r + s - ring_cap r = Suc (ring_size r - 1 + s - ring_cap r)"
        using True pos by simp
      then show ?thesis by (simp only: drop_Suc)
    qed
    ultimately show ?thesis
      using "1.IH" True * q n "1.prems" by simp
  qed
qed

lemma make_room_more:
  "ring2_items (ring2d_make_room s (r :: ('a, 'b) ring2d)) = ring2_items r"
  by (induction s r rule: ring2d_make_room.induct)
    (subst ring2d_make_room.simps, auto)

section \<open>Batches\<close>

lemma ring2d_upd [simp]:
  "ring_cap (r \<lparr> emplace_start := a \<rparr>) = ring_cap r"
  "ring_cap (r \<lparr> emplace_size := a \<rparr>) = ring_cap r"
  "ring_cap (r \<lparr> size_2d := a \<rparr>) = ring_cap r"
  "ring_wf (r \<lparr> emplace_start := a \<rparr>) = ring_wf r"
  "ring_wf (r \<lparr> emplace_size := a \<rparr>) = ring_wf r"
  "ring_wf (r \<lparr> size_2d := a \<rparr>) = ring_wf r"
  "ring_abs (r \<lparr> emplace_start := a \<rparr>) = ring_abs r"
  "ring_abs (r \<lparr> emplace_size := a \<rparr>) = ring_abs r"
  "ring_abs (r \<lparr> size_2d := a \<rparr>) = ring_abs r"
  by (simp_all add: ring_wf_def ring_abs_def ring_cap_def)

text \<open>
  C12. A batch of at most \<open>N\<close> rows can always be prepared: the loop ends, the invariant is kept,
  the oldest items are dropped until the batch fits and no newer item is, and every cell
  \<open>(i, j)\<close> of the batch is then inside the array of \<open>N * M\<close> cells.
\<close>

theorem prepare_emplace_back_keeps_newest:
  assumes "ring_wf r" and "s \<le> ring_cap r" and "t \<le> M"
    and "length (ring2_items r) = ring_cap r * M" and "ring_cap r * M < 18446744073709551616"
  shows "\<exists>r'. ring2d_prepare_emplace_back M s t r = Some r' \<and> ring_wf r' \<and>
           ring_abs r' = drop (ring_size r + s - ring_cap r) (ring_abs r) \<and>
           ring_size r' + s \<le> ring_cap r \<and>
           (\<forall>i j x. ring2d_emplace_back_cell i j x r' \<noteq> None \<longleftrightarrow> i < s \<and> j < t)"
proof -
  define m where "m = ring2d_make_room s r"
  define q where "q = m \<lparr> emplace_start := sz (ring_begin m + ring_size m) mod ring_cap m,
                          emplace_size := s, size_2d := t \<rparr>"
  have m: "ring_wf m" "ring_cap m = ring_cap r" "ring_size m + s \<le> ring_cap r"
      "ring_abs m = drop (ring_size r + s - ring_cap r) (ring_abs r)"
      "ring2_items m = ring2_items r"
    using make_room_ok [OF assms(1,2)] make_room_more [of s r] by (simp_all add: m_def)
  have q: "ring_wf q" "ring_cap q = ring_cap r" "ring_abs q = ring_abs m" "emplace_size q = s"
      "size_2d q = t" "ring2_items q = ring2_items r" "ring_size q = ring_size m"
    using m by (simp_all add: q_def)
  have N: "0 < ring_cap r" using assms(1) by (simp add: ring_wf_def)
  have "ring2d_cell i j q < ring_cap r * M" if "j < t" for i j
  proof -
    define k where "k = sz (emplace_start q + i) mod ring_cap r"
    have "k * t + j < k * M + M"
      using that assms(3) by (intro add_le_less_mono) auto
    also have "\<dots> = Suc k * M" by simp
    also have "\<dots> \<le> ring_cap r * M"
      using N by (intro mult_le_mono1) (simp add: Suc_leI k_def)
    finally have "k * t + j < ring_cap r * M" .
    then have "ring2d_cell i j q = k * t + j"
      using q assms(5) by (simp add: ring2d_cell_def k_def)
    with \<open>k * t + j < ring_cap r * M\<close> show ?thesis by simp
  qed
  then have "ring2d_emplace_back_cell i j x q \<noteq> None \<longleftrightarrow> i < s \<and> j < t" for i j x
    using q assms(4) by (auto simp: ring2d_emplace_back_cell_def)
  moreover have "ring2d_prepare_emplace_back M s t r = Some q"
    using assms(2,3) by (simp add: ring2d_prepare_emplace_back_def Let_def m_def q_def)
  ultimately show ?thesis using m q by auto
qed

lemma prepare_emplace_back_keeps_newest_witness:
  "\<exists>r'. ring2d_prepare_emplace_back 4 2 4 (ring2d_new 3 4 (0 :: int) (0 :: int)) = Some r' \<and>
     ring2d_emplace_back_cell 1 3 7 r' \<noteq> None"
proof -
  have wf: "ring_wf (ring2d_new 3 4 (0 :: int) (0 :: int))"
    by (simp add: ring_wf_def ring2d_new_def ring_cap_def)
  show ?thesis
    using prepare_emplace_back_keeps_newest [OF wf, of 2 4 4]
    by (auto simp: ring2d_new_def ring_cap_def)
qed

end
