(* ===== verification/Blocking_Ring.thy ===== *)
theory Blocking_Ring
  imports Ring
begin

text \<open>
  \<open>BlockingRing<T, N>\<close> of \<open>src/libhesai/Container/src/blocking_ring.cc\<close>: the ring behind one
  mutex and one condition variable. Every method holds the lock from its entry to its return,
  except while it waits, so a method is one atomic step from its (re)check of the predicate to
  its return, and a system of threads is a step relation: a thread enters a call, goes to
  sleep when the predicate fails, is woken by a notification, spuriously or by the timeout of
  \<open>try_pop_front\<close>, and \<open>notify_one\<close> wakes any one sleeping thread.

  The state carries the history of the elements that went in and came out, which is what the
  first-in first-out property speaks about.
\<close>

section \<open>The methods\<close>

datatype 'a bcall =
    BEmplace_Back 'a
  | BPush_Back 'a
  | BPush_Front 'a
  | BPop_Front
  | BTry_Pop_Front
  | BPop_Back

text \<open>The predicate a method waits for, and what it does once it holds.\<close>

fun bcall_ready :: "'a bcall \<Rightarrow> 'a ring \<Rightarrow> bool" where
  "bcall_ready (BEmplace_Back x) r = ring_not_full r"
| "bcall_ready (BPush_Back x) r = ring_not_full r"
| "bcall_ready (BPush_Front x) r = ring_not_full r"
| "bcall_ready BPop_Front r = ring_not_empty r"
| "bcall_ready BTry_Pop_Front r = ring_not_empty r"
| "bcall_ready BPop_Back r = ring_not_empty r"

definition bring_push_front :: "'a \<Rightarrow> 'a ring \<Rightarrow> ('a option \<times> 'a ring) option" where
  "bring_push_front x r = do { r \<leftarrow> ring_push_front x r; Some (None, r) }"

definition bring_emplace_back :: "'a \<Rightarrow> 'a ring \<Rightarrow> ('a option \<times> 'a ring) option" where
  "bring_emplace_back x r = do { r \<leftarrow> ring_emplace_back x r; Some (None, r) }"

definition bring_push_back :: "'a \<Rightarrow> 'a ring \<Rightarrow> ('a option \<times> 'a ring) option" where
  "bring_push_back x r = do { r \<leftarrow> ring_push_back x r; Some (None, r) }"

definition bring_pop_front :: "'a \<Rightarrow> 'a ring \<Rightarrow> ('a option \<times> 'a ring) option" where
  "bring_pop_front d r = do { (x, r) \<leftarrow> ring_pop_front d r; Some (Some x, r) }"

definition bring_pop_back :: "'a \<Rightarrow> 'a ring \<Rightarrow> ('a option \<times> 'a ring) option" where
  "bring_pop_back d r = do { (x, r) \<leftarrow> ring_pop_back d r; Some (Some x, r) }"

text \<open>\<open>ret\<close> is the value of \<open>wait_for\<close>: whether the predicate holds at the end of the wait.\<close>

definition bring_try_pop_front :: "bool \<Rightarrow> 'a ring \<Rightarrow> ('a option \<times> 'a ring) option" where
  "bring_try_pop_front ret r =
     (if ret then do { x \<leftarrow> ring_peek_front r; Some (Some x, ring_eff_pop_front r) }
      else Some (None, r))"

definition bring_clear :: "'a \<Rightarrow> 'a ring \<Rightarrow> 'a ring" where
  "bring_clear d r = ring_clear d r"

definition bring_eff_clear :: "'a ring \<Rightarrow> 'a ring" where
  "bring_eff_clear r = ring_eff_clear r"

fun bcall_run :: "'a \<Rightarrow> 'a bcall \<Rightarrow> 'a ring \<Rightarrow> ('a option \<times> 'a ring) option" where
  "bcall_run d (BEmplace_Back x) r = bring_emplace_back x r"
| "bcall_run d (BPush_Back x) r = bring_push_back x r"
| "bcall_run d (BPush_Front x) r = bring_push_front x r"
| "bcall_run d BPop_Front r = bring_pop_front d r"
| "bcall_run d BTry_Pop_Front r = bring_try_pop_front (ring_not_empty r) r"
| "bcall_run d BPop_Back r = bring_pop_back d r"

lemma bcall_run_ok:
  assumes "ring_wf r" and "bcall_ready c r"
  shows "\<exists>out r'. bcall_run d c r = Some (out, r') \<and> ring_wf r' \<and> ring_cap r' = ring_cap r"
proof -
  have room: "ring_not_full r \<Longrightarrow> ring_size r < ring_cap r"
    by (simp add: ring_not_full_def ring_full_def)
  have some: "ring_not_empty r \<Longrightarrow> 0 < ring_size r"
    by (simp add: ring_not_empty_def ring_empty_def)
  show ?thesis
  proof (cases c)
    case (BEmplace_Back x)
    then show ?thesis
      using assms ring_emplace_back_ok [OF assms(1) room, of x]
      by (auto simp: bring_emplace_back_def)
  next
    case (BPush_Back x)
    then show ?thesis
      using assms ring_emplace_back_ok [OF assms(1) room, of x]
      by (auto simp: bring_push_back_def ring_push_back_eq)
  next
    case (BPush_Front x)
    then show ?thesis
      using assms ring_emplace_front_ok [OF assms(1) room, of x]
      by (auto simp: bring_push_front_def ring_push_front_eq)
  next
    case BPop_Front
    then show ?thesis
      using assms ring_pop_front_ok [OF assms(1) some, of d] by (auto simp: bring_pop_front_def)
  next
    case BTry_Pop_Front
    then show ?thesis
      using assms ring_eff_pop_front_ok [OF assms(1) some] ring_peek_front_ok [OF assms(1) some]
      by (auto simp: bring_try_pop_front_def)
  next
    case BPop_Back
    then show ?thesis
      using assms ring_pop_back_ok [OF assms(1) some, of d] by (auto simp: bring_pop_back_def)
  qed
qed

section \<open>A producer and a consumer thread\<close>

text \<open>
  The two queues of the SDK (\<open>Lidar::origin_packets_buffer_\<close>, \<open>PcapSaver::_packets_cache\<close>) are
  used by one thread that appends and one that takes from the front.
\<close>

datatype 'a bthread = Idle | Running "'a bcall" | Sleeping "'a bcall"

record 'a bsystem =
  b_ring :: "'a ring"
  b_producer :: "'a bthread"
  b_consumer :: "'a bthread"
  b_in :: "'a list"
  b_out :: "'a list"

definition bsystem_new :: "nat \<Rightarrow> 'a \<Rightarrow> 'a bsystem" where
  "bsystem_new N d =
     \<lparr> b_ring = ring_new N d, b_producer = Idle, b_consumer = Idle, b_in = [], b_out = [] \<rparr>"

text \<open>\<open>notify_one\<close>, called by one of the two threads: only the other one can be asleep.\<close>

definition wake :: "'a bthread \<Rightarrow> 'a bthread" where
  "wake t = (case t of Sleeping c \<Rightarrow> Running c | _ \<Rightarrow> t)"

inductive bstep :: "'a \<Rightarrow> 'a bsystem \<Rightarrow> 'a bsystem \<Rightarrow> bool" for d :: 'a where
  produce: "b_producer s = Idle \<Longrightarrow>
    bstep d s (s \<lparr> b_producer := Running (BEmplace_Back x) \<rparr>)"
| consume: "b_consumer s = Idle \<Longrightarrow> c \<in> {BPop_Front, BTry_Pop_Front} \<Longrightarrow>
    bstep d s (s \<lparr> b_consumer := Running c \<rparr>)"
| producer_runs: "b_producer s = Running (BEmplace_Back x) \<Longrightarrow>
    bcall_ready (BEmplace_Back x) (b_ring s) \<Longrightarrow>
    bcall_run d (BEmplace_Back x) (b_ring s) = Some (None, r) \<Longrightarrow>
    bstep d s (s \<lparr> b_ring := r, b_producer := Idle, b_consumer := wake (b_consumer s),
                  b_in := b_in s @ [x] \<rparr>)"
| producer_sleeps: "b_producer s = Running c \<Longrightarrow> \<not> bcall_ready c (b_ring s) \<Longrightarrow>
    bstep d s (s \<lparr> b_producer := Sleeping c \<rparr>)"
| producer_spurious: "b_producer s = Sleeping c \<Longrightarrow>
    bstep d s (s \<lparr> b_producer := Running c \<rparr>)"
| consumer_runs: "b_consumer s = Running c \<Longrightarrow> bcall_ready c (b_ring s) \<Longrightarrow>
    bcall_run d c (b_ring s) = Some (Some y, r) \<Longrightarrow>
    bstep d s (s \<lparr> b_ring := r, b_consumer := Idle, b_producer := wake (b_producer s),
                  b_out := b_out s @ [y] \<rparr>)"
| consumer_sleeps: "b_consumer s = Running c \<Longrightarrow> \<not> bcall_ready c (b_ring s) \<Longrightarrow>
    bstep d s (s \<lparr> b_consumer := Sleeping c \<rparr>)"
| consumer_spurious: "b_consumer s = Sleeping c \<Longrightarrow>
    bstep d s (s \<lparr> b_consumer := Running c \<rparr>)"
| consumer_times_out: "b_consumer s = Sleeping BTry_Pop_Front \<Longrightarrow>
    \<not> bcall_ready BTry_Pop_Front (b_ring s) \<Longrightarrow>
    bring_try_pop_front False (b_ring s) = Some (None, r) \<Longrightarrow>
    bstep d s (s \<lparr> b_ring := r, b_consumer := Idle, b_producer := wake (b_producer s) \<rparr>)"

inductive breachable :: "nat \<Rightarrow> 'a \<Rightarrow> 'a bsystem \<Rightarrow> bool" for N :: nat and d :: 'a where
  init: "breachable N d (bsystem_new N d)"
| step: "breachable N d s \<Longrightarrow> bstep d s s' \<Longrightarrow> breachable N d s'"

inductive_cases bstep_cases: "bstep d s s'"

fun producer_ok :: "'a bthread \<Rightarrow> 'a ring \<Rightarrow> bool" where
  "producer_ok Idle r = True"
| "producer_ok (Running c) r = (\<exists>x. c = BEmplace_Back x)"
| "producer_ok (Sleeping c) r = ((\<exists>x. c = BEmplace_Back x) \<and> ring_full r)"

fun consumer_ok :: "'a bthread \<Rightarrow> 'a ring \<Rightarrow> bool" where
  "consumer_ok Idle r = True"
| "consumer_ok (Running c) r = (c \<in> {BPop_Front, BTry_Pop_Front})"
| "consumer_ok (Sleeping c) r = (c \<in> {BPop_Front, BTry_Pop_Front} \<and> ring_empty r)"

text \<open>
  The invariant: the ring is well formed, a sleeping thread sleeps for a reason (no lost
  wakeup), and what came out followed by what is inside is what went in.
\<close>

definition binv :: "nat \<Rightarrow> 'a bsystem \<Rightarrow> bool" where
  "binv N s \<longleftrightarrow> ring_wf (b_ring s) \<and> ring_cap (b_ring s) = N \<and>
     producer_ok (b_producer s) (b_ring s) \<and> consumer_ok (b_consumer s) (b_ring s) \<and>
     b_in s = b_out s @ ring_abs (b_ring s)"

lemma wake_ok [simp]:
  "producer_ok t r \<Longrightarrow> producer_ok (wake t) r'"
  "consumer_ok t r \<Longrightarrow> consumer_ok (wake t) r'"
  by (cases t; auto simp: wake_def)+

lemma binv_producer_runs:
  assumes "binv N s" and "bcall_ready (BEmplace_Back x) (b_ring s)"
    and "bcall_run d (BEmplace_Back x) (b_ring s) = Some (None, r)"
  shows "ring_wf r" and "ring_cap r = N" and "ring_abs r = ring_abs (b_ring s) @ [x]"
  using assms ring_emplace_back_ok [of "b_ring s" x]
  by (auto simp: binv_def bring_emplace_back_def ring_not_full_def ring_full_def)

lemma binv_consumer_runs:
  assumes "binv N s" and "c \<in> {BPop_Front, BTry_Pop_Front}" and "bcall_ready c (b_ring s)"
    and "bcall_run d c (b_ring s) = Some (Some y, r)"
  shows "ring_wf r" and "ring_cap r = N" and "ring_abs (b_ring s) = y # ring_abs r"
proof -
  have r: "ring_wf (b_ring s)" "ring_cap (b_ring s) = N" "0 < ring_size (b_ring s)"
    using assms by (auto simp: binv_def ring_not_empty_def ring_empty_def)
  then have "ring_abs (b_ring s) \<noteq> []" by (metis length_ring_abs length_greater_0_conv)
  then have "ring_wf r \<and> ring_cap r = N \<and> ring_abs (b_ring s) = y # ring_abs r"
    using assms(2-4) r ring_pop_front_ok [OF r(1,3), of d] ring_eff_pop_front_ok [OF r(1,3)]
      ring_peek_front_ok [OF r(1,3)]
    by (auto simp: bring_pop_front_def bring_try_pop_front_def)
  then show "ring_wf r" "ring_cap r = N" "ring_abs (b_ring s) = y # ring_abs r" by blast+
qed

lemma bstep_binv: "bstep d s s' \<Longrightarrow> binv N s \<Longrightarrow> binv N s'"
proof (induction rule: bstep.induct)
  case (producer_runs s x r)
  note r = binv_producer_runs [OF producer_runs(4,2,3)]
  then show ?case
    using producer_runs(4) by (auto simp: binv_def)
next
  case (consumer_runs s c y r)
  then have "c \<in> {BPop_Front, BTry_Pop_Front}" by (auto simp: binv_def)
  note r = binv_consumer_runs [OF consumer_runs(4) this consumer_runs(2,3)]
  then show ?case
    using consumer_runs(4) by (auto simp: binv_def)
qed (auto simp: binv_def bring_try_pop_front_def ring_not_full_def ring_not_empty_def)

lemma breachable_binv:
  assumes "breachable N d s" and "0 < N" and "2 * N < 18446744073709551616"
  shows "binv N s"
  using assms
proof (induction rule: breachable.induct)
  case init
  then show ?case by (simp add: binv_def bsystem_new_def)
next
  case (step s s')
  show ?case by (rule bstep_binv [OF step.hyps(2) step.IH [OF step.prems]])
qed

text \<open>
  C9. First in, first out, and bounded: in every interleaving of a producer and a consumer,
  with timeouts and spurious wakeups, the elements taken out so far followed by the ring's
  contents are exactly the elements put in, in order, and at most \<open>N\<close> are inside.
\<close>

theorem blocking_ring_fifo:
  assumes "breachable N d s" and "0 < N" and "2 * N < 18446744073709551616"
  shows "b_in s = b_out s @ ring_abs (b_ring s) \<and> length (ring_abs (b_ring s)) \<le> N"
  using breachable_binv [OF assms] by (auto simp: binv_def ring_wf_def)

lemma blocking_ring_fifo_witness:
  "\<exists>s. breachable 1 (0 :: int) s \<and> b_in s = [5] \<and> ring_abs (b_ring s) = [5] \<and> b_out s = []"
proof -
  define s1 where "s1 = bsystem_new 1 (0 :: int) \<lparr> b_producer := Running (BEmplace_Back 5) \<rparr>"
  have f: "b_producer s1 = Running (BEmplace_Back 5)" "b_ring s1 = ring_new 1 0"
      "b_in s1 = []" "b_out s1 = []"
    by (simp_all add: s1_def bsystem_new_def)
  have s1: "breachable 1 0 s1"
    unfolding s1_def
    by (rule breachable.step [OF breachable.init]) (rule bstep.produce, simp add: bsystem_new_def)
  have "ring_wf (ring_new 1 (0 :: int))" "ring_size (ring_new 1 (0 :: int)) < ring_cap (ring_new 1 0)"
    by (simp_all add: ring_new_def ring_cap_def ring_wf_def)
  from ring_emplace_back_ok [OF this, of 5]
  obtain r where r: "ring_emplace_back 5 (ring_new 1 (0 :: int)) = Some r" by blast
  define s2 where "s2 = s1 \<lparr> b_ring := r, b_producer := Idle,
      b_consumer := wake (b_consumer s1), b_in := b_in s1 @ [5] \<rparr>"
  have "bcall_ready (BEmplace_Back 5) (b_ring s1)"
    by (simp add: f ring_not_full_def ring_full_def ring_new_def ring_cap_def)
  moreover have "bcall_run 0 (BEmplace_Back 5) (b_ring s1) = Some (None, r)"
    by (simp add: f bring_emplace_back_def r del: One_nat_def)
  ultimately have "bstep 0 s1 s2"
    unfolding s2_def by (rule bstep.producer_runs [OF f(1)])
  then have s2: "breachable 1 0 s2" by (rule breachable.step [OF s1])
  have "b_in s2 = b_out s2 @ ring_abs (b_ring s2)"
    using blocking_ring_fifo [OF s2] by simp
  moreover have "b_in s2 = [5]" "b_out s2 = []" by (simp_all add: s2_def f)
  ultimately show ?thesis using s2 by (metis append_Nil)
qed

text \<open>
  C10. No deadlock: a thread that sleeps in a call could not have returned from it, and the
  producer and the consumer are never both asleep.
\<close>

theorem blocking_ring_no_lost_wakeup:
  assumes "breachable N d s" and "0 < N" and "2 * N < 18446744073709551616"
  shows "(\<forall>c. b_producer s = Sleeping c \<or> b_consumer s = Sleeping c \<longrightarrow>
              \<not> bcall_ready c (b_ring s)) \<and>
         (\<forall>c c'. \<not> (b_producer s = Sleeping c \<and> b_consumer s = Sleeping c'))"
  using breachable_binv [OF assms] assms(2)
  by (auto simp: binv_def ring_not_full_def ring_not_empty_def ring_full_def ring_empty_def)

lemma blocking_ring_no_lost_wakeup_witness:
  "\<exists>s. breachable 1 (0 :: int) s \<and> b_consumer s = Sleeping BPop_Front \<and>
       \<not> bcall_ready BPop_Front (b_ring s)"
proof -
  let ?s0 = "bsystem_new 1 (0 :: int)"
  let ?s1 = "?s0 \<lparr> b_consumer := Running BPop_Front \<rparr>"
  let ?s2 = "?s1 \<lparr> b_consumer := Sleeping BPop_Front \<rparr>"
  have s1: "breachable 1 0 ?s1"
    by (rule breachable.step [OF breachable.init]) (rule bstep.consume, simp_all add: bsystem_new_def)
  have s2: "breachable 1 0 ?s2"
    by (rule breachable.step [OF s1], rule bstep.consumer_sleeps)
      (simp_all add: bsystem_new_def ring_not_empty_def ring_empty_def ring_new_def)
  then show ?thesis
    using blocking_ring_no_lost_wakeup [OF s2] by (intro exI [of _ ?s2]) simp
qed

end
