(* ===== verification/Crc.thy ===== *)
theory Crc
  imports Prelude
begin

text \<open>
  The CRC-32 of the PTC client (\<open>CRCInit\<close> and \<open>CRCCalc\<close> in
  \<open>src/libhesai/PtcClient/src/ptc_client.cc\<close>): the table built by a shift-register loop whose
  end is found by a sentinel bit, and the table-driven sum over a buffer. The reference is the
  bit-serial register (polynomial \<open>0x04c11db7\<close>, most significant bit first, initial value all
  ones, no final inversion); the table-driven sum is proved equal to it on every buffer.
\<close>

unbundle bit_operations_syntax

section \<open>The code\<close>

text \<open>
  The inner loop of \<open>CRCInit\<close>: \<open>for (j = ...; j != 0x80000000; j <<= 1) k = ...\<close>. It runs for
  ever from some \<open>j\<close> (from 0, say); that it ends where the code starts it is a theorem.
\<close>

definition crc_poly :: u32 where
  "crc_poly = 0x04c11db7"

definition crc_next :: "u32 \<Rightarrow> u32 \<Rightarrow> u32" where
  "crc_next j k = push_bit 1 k XOR (if (k XOR j) AND 0x80000000 \<noteq> 0 then crc_poly else 0)"

partial_function (option) crc_row_loop :: "u32 \<Rightarrow> u32 \<Rightarrow> u32 option" where
  "crc_row_loop j k =
     (if j = 0x80000000 then Some k else crc_row_loop (push_bit 1 j) (crc_next j k))"

definition crc_row :: "u32 \<Rightarrow> u32 option" where
  "crc_row i = crc_row_loop (push_bit 24 i OR 0x800000) 0"

fun crc_rows :: "nat list \<Rightarrow> u32 list option" where
  "crc_rows [] = Some []"
| "crc_rows (i # is) = do { k \<leftarrow> crc_row (word_of_nat i); ks \<leftarrow> crc_rows is; Some (k # ks) }"

definition CRCInit :: "u32 list option" where
  "CRCInit = crc_rows [0 ..< 256]"

text \<open>\<open>CRCCalc\<close>, on the bytes of the buffer in order.\<close>

definition crc_index :: "u32 \<Rightarrow> u8 \<Rightarrow> nat" where
  "crc_index i_crc b = unat ((drop_bit 24 i_crc XOR ucast b) AND 0xff)"

fun crc_loop :: "u32 list \<Rightarrow> u32 \<Rightarrow> u8 list \<Rightarrow> u32 option" where
  "crc_loop tbl i_crc [] = Some i_crc"
| "crc_loop tbl i_crc (b # bs) =
     (if crc_index i_crc b < length tbl
      then crc_loop tbl (push_bit 8 i_crc XOR tbl ! crc_index i_crc b) bs
      else None)"

definition CRCCalc :: "u32 list \<Rightarrow> u8 list \<Rightarrow> u32 option" where
  "CRCCalc tbl bytes = crc_loop tbl 0xffffffff bytes"

section \<open>The reference: one shift register\<close>

definition crc_shift :: "u32 \<Rightarrow> u32" where
  "crc_shift s = push_bit 1 s XOR (if bit s 31 then crc_poly else 0)"

definition crc_byte :: "u32 \<Rightarrow> u8 \<Rightarrow> u32" where
  "crc_byte s b = (crc_shift ^^ 8) (s XOR push_bit 24 (ucast b))"

definition crc_ref :: "u8 list \<Rightarrow> u32" where
  "crc_ref bytes = foldl crc_byte 0xffffffff bytes"

section \<open>The register is linear\<close>

lemma top_bit: "(w :: u32) AND 0x80000000 \<noteq> 0 \<longleftrightarrow> bit w 31"
proof -
  have "(0x80000000 :: u32) = push_bit 31 1" by simp
  then show ?thesis
    by (metis and_exp_eq_0_iff_not_bit push_bit_eq_mult mult_1)
qed

lemma crc_shift_xor: "crc_shift (a XOR b) = crc_shift a XOR crc_shift b"
  by (simp add: crc_shift_def bit_xor_iff push_bit_xor xor.assoc xor.left_commute)

lemma crc_shifts_xor: "(crc_shift ^^ n) (a XOR b) = (crc_shift ^^ n) a XOR (crc_shift ^^ n) b"
  by (induction n) (simp_all add: crc_shift_xor)

lemma crc_shifts_low:
  assumes "n \<le> 8" and "\<And>k. 24 \<le> k \<Longrightarrow> \<not> bit w k"
  shows "(crc_shift ^^ n) w = push_bit n w"
  using assms(1)
proof (induction n)
  case 0
  then show ?case by simp
next
  case (Suc n)
  have "\<not> bit (push_bit n w) 31"
    using Suc.prems assms(2) [of "31 - n"] by (simp add: bit_push_bit_iff)
  then have "crc_shift (push_bit n w) = push_bit 1 (push_bit n w)"
    by (simp only: crc_shift_def if_False xor.right_neutral)
  then show ?case
    using Suc by (simp only: funpow.simps o_apply) (simp add: ac_simps)
qed

section \<open>A row of the table\<close>

lemma crc_next_shift:
  assumes "bit j 31 = bit j' 31"
  shows "crc_next j k XOR push_bit 1 j' = crc_shift (k XOR j')"
  using assms
  by (simp add: crc_next_def crc_shift_def top_bit bit_xor_iff push_bit_xor xor.assoc xor.commute
      xor.left_commute)

definition crc_start :: "nat \<Rightarrow> u32" where
  "crc_start i = push_bit 24 (word_of_nat i) OR 0x800000"

lemma bit_sentinel: "bit (0x800000 :: int) n \<longleftrightarrow> n = 23"
  using bit_exp_iff [where 'a = int, of 23 n] by simp

lemma bit_stop: "bit (0x80000000 :: int) n \<longleftrightarrow> n = 31"
  using bit_exp_iff [where 'a = int, of 31 n] by simp

lemma crc_start_8: "push_bit 8 (crc_start i) = 0x80000000"
  by (rule bit_word_eqI)
    (auto simp: crc_start_def bit_push_bit_iff bit_or_iff bit_sentinel bit_stop)

lemma crc_start_neq:
  assumes "n < 8"
  shows "push_bit n (crc_start i) \<noteq> 0x80000000"
proof
  assume "push_bit n (crc_start i) = 0x80000000"
  then have "bit (push_bit n (crc_start i)) (23 + n) = bit (0x80000000 :: u32) (23 + n)" by simp
  then show False
    using assms by (simp add: crc_start_def bit_push_bit_iff bit_or_iff bit_sentinel bit_stop)
qed

lemma crc_start_top:
  "n < 8 \<Longrightarrow> bit (push_bit n (crc_start i)) 31 = bit (push_bit (n + 24) (word_of_nat i :: u32)) 31"
  by (auto simp: crc_start_def bit_push_bit_iff bit_or_iff bit_sentinel)

lemma crc_row_loop_ok:
  assumes "n \<le> 8" and "m = 8 - n"
  shows "crc_row_loop (push_bit m (crc_start i)) k =
           Some ((crc_shift ^^ n) (k XOR push_bit (m + 24) (word_of_nat i)))"
  using assms
proof (induction n arbitrary: m k)
  case 0
  have "push_bit (8 + 24) (word_of_nat i :: u32) = 0"
    by (rule bit_word_eqI) (simp add: bit_push_bit_iff)
  with 0 show ?case
    by (subst crc_row_loop.simps) (simp add: crc_start_8)
next
  case (Suc n)
  let ?j = "push_bit m (crc_start i)" and ?i = "push_bit (m + 24) (word_of_nat i :: u32)"
  have m: "m < 8" "n \<le> 8" "Suc m = 8 - n" using Suc.prems by auto
  have "crc_row_loop ?j k = crc_row_loop (push_bit (Suc m) (crc_start i)) (crc_next ?j k)"
    using crc_start_neq [OF m(1)] by (subst crc_row_loop.simps) simp
  also have "\<dots> = Some ((crc_shift ^^ n) (crc_next ?j k XOR push_bit 1 ?i))"
    using Suc.IH [OF m(2,3), of "crc_next ?j k"] by simp
  also have "\<dots> = Some ((crc_shift ^^ Suc n) (k XOR ?i))"
    using crc_next_shift [OF crc_start_top [OF m(1)]] by (simp add: funpow_swap1)
  finally show ?case .
qed

lemma crc_row_ok: "crc_row (word_of_nat i) = Some ((crc_shift ^^ 8) (push_bit 24 (word_of_nat i)))"
  using crc_row_loop_ok [of 8 0 i 0] by (simp add: crc_row_def crc_start_def)

lemma crc_rows_ok:
  "crc_rows is = Some (map (\<lambda>i. (crc_shift ^^ 8) (push_bit 24 (word_of_nat i))) is)"
  by (induction "is") (simp_all add: crc_row_ok)

lemma CRCInit_ok:
  "CRCInit = Some (map (\<lambda>i. (crc_shift ^^ 8) (push_bit 24 (word_of_nat i))) [0 ..< 256])"
  by (simp only: CRCInit_def crc_rows_ok)

section \<open>The sum\<close>

lemma crc_index_less: "crc_index s b < 256"
proof -
  have "(drop_bit 24 s XOR ucast b) AND (0xff :: u32) \<le> 0xff" by (rule word_and_le1)
  then show ?thesis by (simp add: crc_index_def word_le_nat_alt)
qed

lemma crc_split:
  "s XOR push_bit 24 (ucast (b :: u8)) =
     push_bit 24 ((drop_bit 24 s XOR ucast b) AND 0xff) XOR (s AND (0xffffff :: u32))"
  (is "_ = _ XOR (s AND ?m)")
proof (rule bit_word_eqI)
  fix n
  assume n: "n < LENGTH(32)"
  have m: "?m = mask 24" and f: "(0xff :: u32) = mask 8" by (simp_all add: mask_eq_exp_minus_1)
  have "\<not> bit b k" if "8 \<le> k" for k using that bit_imp_le_length [of b k] by auto
  then show "bit (s XOR push_bit 24 (ucast b)) n =
    bit (push_bit 24 ((drop_bit 24 s XOR ucast b) AND 0xff) XOR (s AND ?m)) n"
    using n unfolding m f
    by (auto simp: bit_xor_iff bit_and_iff bit_push_bit_iff bit_drop_bit_eq bit_mask_iff
        bit_unsigned_iff)
qed

lemma crc_byte_table:
  "crc_byte s b = push_bit 8 s XOR (crc_shift ^^ 8) (push_bit 24 (word_of_nat (crc_index s b)))"
proof -
  let ?lo = "s AND (0xffffff :: u32)"
  have m: "(0xffffff :: u32) = mask 24" by (simp add: mask_eq_exp_minus_1)
  have "(crc_shift ^^ 8) ?lo = push_bit 8 ?lo"
    unfolding m by (rule crc_shifts_low) (simp_all add: bit_and_iff bit_mask_iff)
  also have "\<dots> = push_bit 8 s"
    unfolding m by (rule bit_word_eqI) (auto simp: bit_and_iff bit_push_bit_iff bit_mask_iff)
  finally show ?thesis
    by (simp only: crc_byte_def crc_split crc_shifts_xor crc_index_def of_nat_unat ucast_id)
      (simp add: xor.commute)
qed

lemma crc_loop_ok:
  assumes "tbl = map (\<lambda>i. (crc_shift ^^ 8) (push_bit 24 (word_of_nat i))) [0 ..< 256]"
  shows "crc_loop tbl s bs = Some (foldl crc_byte s bs)"
proof (induction bs arbitrary: s)
  case Nil
  then show ?case by simp
next
  case (Cons b bs)
  then show ?case
    using crc_index_less [of s b] by (simp add: assms crc_byte_table)
qed

text \<open>
  C22. The sentinel loop of \<open>CRCInit\<close> ends for all 256 rows, no table access of \<open>CRCCalc\<close> is out of
  range, and the table-driven sum is the bit-serial CRC-32 of every buffer.
\<close>

theorem CRCCalc_correct:
  "\<exists>tbl. CRCInit = Some tbl \<and> length tbl = 256 \<and> (\<forall>bytes. CRCCalc tbl bytes = Some (crc_ref bytes))"
  using crc_loop_ok [OF refl] by (simp add: CRCInit_ok CRCCalc_def crc_ref_def)

end
