(* ===== verification/Ptc_Parser.thy ===== *)
theory Ptc_Parser
  imports Prelude
begin

text \<open>
  The PTC protocol of \<open>src/libhesai/PtcParser\<close>: the packed headers of versions 1.0 and 2.0,
  the encoders \<open>PtcStreamEncode\<close>, the decoders \<open>PtcStreamDecode\<close> and the class \<open>PtcParser\<close>
  that selects a version. The fields of a header are those of the struct in memory on a
  little-endian host; \<open>payload_len_\<close> holds the length in network order.

  The locale \<open>ptc_format\<close> is what a client of a protocol version relies on: an encoded message
  starts with the two identifiers, has a header of fixed size from which the command, the
  return code and the length are read back, and is followed by the payload. It is interpreted
  on both versions.
\<close>

section \<open>Version 1.0\<close>

record PTCHeader_1_0 =
  h1_identifier0 :: u8
  h1_identifier1 :: u8
  h1_cmd :: u8
  h1_return_code :: u8
  h1_payload_len :: u32

definition h1_init :: "u8 \<Rightarrow> PTCHeader_1_0" where
  "h1_init cmd = \<lparr> h1_identifier0 = 0x47, h1_identifier1 = 0x74, h1_cmd = cmd,
                   h1_return_code = 0, h1_payload_len = 0 \<rparr>"

definition h1_IsValidIdentifier :: "PTCHeader_1_0 \<Rightarrow> bool" where
  "h1_IsValidIdentifier h = (h1_identifier0 h = 0x47 \<and> h1_identifier1 h = 0x74)"

definition h1_IsValidReturnCode :: "PTCHeader_1_0 \<Rightarrow> bool" where
  "h1_IsValidReturnCode h = (h1_IsValidIdentifier h \<and> h1_return_code h = 0)"

definition h1_GetPayloadLen :: "PTCHeader_1_0 \<Rightarrow> u32" where
  "h1_GetPayloadLen h = ntohl (h1_payload_len h)"

definition h1_SetPayloadLen :: "u32 \<Rightarrow> PTCHeader_1_0 \<Rightarrow> PTCHeader_1_0" where
  "h1_SetPayloadLen n h = h \<lparr> h1_payload_len := htonl n \<rparr>"

text \<open>The bytes of the packed struct, and the struct that a buffer holds at its start.\<close>

definition h1_bytes :: "PTCHeader_1_0 \<Rightarrow> u8 list" where
  "h1_bytes h = [h1_identifier0 h, h1_identifier1 h, h1_cmd h, h1_return_code h] @
     le_bytes 4 (unat (h1_payload_len h))"

definition h1_at :: "u8 list \<Rightarrow> PTCHeader_1_0 option" where
  "h1_at buf = do {
     i0 \<leftarrow> ld8 buf 0;
     i1 \<leftarrow> ld8 buf 1;
     c \<leftarrow> ld8 buf 2;
     rc \<leftarrow> ld8 buf 3;
     n \<leftarrow> ld32 buf 4;
     Some \<lparr> h1_identifier0 = i0, h1_identifier1 = i1, h1_cmd = c, h1_return_code = rc,
            h1_payload_len = n \<rparr> }"

text \<open>\<open>payload.size()\<close> is converted to \<open>uint32_t\<close>.\<close>

definition PtcStreamEncode_1_0 :: "u8 list \<Rightarrow> u8 \<Rightarrow> u8 list" where
  "PtcStreamEncode_1_0 payload cmd =
     h1_bytes (h1_SetPayloadLen (word_of_nat (length payload)) (h1_init cmd)) @ payload"

text \<open>
  \<open>res = u8Array_t(payload.begin() + start_pos, payload.begin() + start_pos + length)\<close>; the
  iterators must stay inside the payload.
\<close>

definition PtcStreamDecode_1_0 ::
    "u8 \<Rightarrow> u8 \<Rightarrow> u8 list \<Rightarrow> int \<Rightarrow> int \<Rightarrow> u8 list \<Rightarrow> (bool \<times> u8 list) option" where
  "PtcStreamDecode_1_0 cmd retcode payload start_pos len res =
     (if 0 \<le> start_pos \<and> 0 \<le> len \<and> start_pos + len \<le> int (length payload)
      then Some (True, take (nat len) (drop (nat start_pos) payload))
      else None)"

section \<open>Version 2.0\<close>

record PTCHeader_2_0 =
  h2_identifier0 :: u8
  h2_identifier1 :: u8
  h2_ptc_version :: u8
  h2_cmd :: u8
  h2_return_code :: u8
  h2_reserved :: u8
  h2_integrity_check_type :: u8
  h2_integrity_data_length :: u8
  h2_payload_len :: u32

definition h2_init :: "u8 \<Rightarrow> PTCHeader_2_0" where
  "h2_init cmd = \<lparr> h2_identifier0 = 0x57, h2_identifier1 = 0x75, h2_ptc_version = 1,
     h2_cmd = cmd, h2_return_code = 0, h2_reserved = 0, h2_integrity_check_type = 0,
     h2_integrity_data_length = 0, h2_payload_len = 0 \<rparr>"

definition h2_IsValidIdentifier :: "PTCHeader_2_0 \<Rightarrow> bool" where
  "h2_IsValidIdentifier h = (h2_identifier0 h = 0x57 \<and> h2_identifier1 h = 0x75)"

definition h2_IsValidReturnCode :: "PTCHeader_2_0 \<Rightarrow> bool" where
  "h2_IsValidReturnCode h = (h2_IsValidIdentifier h \<and> h2_return_code h = 0)"

definition h2_GetPayloadLen :: "PTCHeader_2_0 \<Rightarrow> u32" where
  "h2_GetPayloadLen h = ntohl (h2_payload_len h)"

definition h2_SetPayloadLen :: "u32 \<Rightarrow> PTCHeader_2_0 \<Rightarrow> PTCHeader_2_0" where
  "h2_SetPayloadLen n h = h \<lparr> h2_payload_len := htonl n \<rparr>"

definition h2_bytes :: "PTCHeader_2_0 \<Rightarrow> u8 list" where
  "h2_bytes h = [h2_identifier0 h, h2_identifier1 h, h2_ptc_version h, h2_cmd h,
       h2_return_code h, h2_reserved h, h2_integrity_check_type h, h2_integrity_data_length h] @
     le_bytes 4 (unat (h2_payload_len h))"

definition h2_at :: "u8 list \<Rightarrow> PTCHeader_2_0 option" where
  "h2_at buf = do {
     i0 \<leftarrow> ld8 buf 0;
     i1 \<leftarrow> ld8 buf 1;
     v \<leftarrow> ld8 buf 2;
     c \<leftarrow> ld8 buf 3;
     rc \<leftarrow> ld8 buf 4;
     r \<leftarrow> ld8 buf 5;
     ict \<leftarrow> ld8 buf 6;
     idl \<leftarrow> ld8 buf 7;
     n \<leftarrow> ld32 buf 8;
     Some \<lparr> h2_identifier0 = i0, h2_identifier1 = i1, h2_ptc_version = v, h2_cmd = c,
            h2_return_code = rc, h2_reserved = r, h2_integrity_check_type = ict,
            h2_integrity_data_length = idl, h2_payload_len = n \<rparr> }"

definition PtcStreamEncode_2_0 :: "u8 list \<Rightarrow> u8 \<Rightarrow> u8 list" where
  "PtcStreamEncode_2_0 payload cmd =
     h2_bytes (h2_SetPayloadLen (word_of_nat (length payload)) (h2_init cmd)) @ payload"

text \<open>Reads return the payload; a write answered by a payload failed, with the payload as reason.\<close>

definition PtcStreamDecode_2_0 ::
    "u8 \<Rightarrow> u8 \<Rightarrow> u8 list \<Rightarrow> int \<Rightarrow> int \<Rightarrow> u8 list \<Rightarrow> (bool \<times> u8 list) option" where
  "PtcStreamDecode_2_0 cmd retcode payload start_pos len res =
     (if cmd = 0x01 then Some (True, payload)
      else if cmd = 0x02 then
        (if length payload = 0 then Some (True, res) else Some (False, payload))
      else if cmd = 0x03 then Some (True, payload)
      else if cmd = 0x04 then
        (if length payload = 0 then Some (True, res) else Some (False, payload))
      else if cmd = 0x05 then Some (True, payload)
      else if cmd = 0x06 then
        (if length payload = 0 then Some (True, res) else Some (False, payload))
      else if cmd = 0x07 then Some (True, payload)
      else if cmd = 0x08 then
        (if length payload = 0 then Some (True, res) else Some (False, payload))
      else if cmd = 0x09 then Some (True, payload)
      else if cmd = 0x0A then
        (if length payload = 0 \<and> retcode = 0 then Some (True, res)
         else Some (False, res @ [retcode]))
      else Some (True, res))"

section \<open>The class PtcParser\<close>

text \<open>
  The constructor leaves \<open>parser_\<close> uninitialised for any other version; a call through it is
  undefined behaviour.
\<close>

datatype ptc_parser = Parser_Uninit | Parser_1_0 | Parser_2_0

definition PtcParser_new :: "u8 \<Rightarrow> ptc_parser" where
  "PtcParser_new ptc_version =
     (if ptc_version = 1 then Parser_1_0 else if ptc_version = 2 then Parser_2_0
      else Parser_Uninit)"

fun ptc_identifiers :: "ptc_parser \<Rightarrow> (u8 \<times> u8) option" where
  "ptc_identifiers Parser_Uninit = None"
| "ptc_identifiers Parser_1_0 = Some (0x47, 0x74)"
| "ptc_identifiers Parser_2_0 = Some (0x57, 0x75)"

fun ptc_header_size :: "ptc_parser \<Rightarrow> nat option" where
  "ptc_header_size Parser_Uninit = None"
| "ptc_header_size Parser_1_0 = Some 8"
| "ptc_header_size Parser_2_0 = Some 12"

fun PtcStreamEncode :: "ptc_parser \<Rightarrow> u8 list \<Rightarrow> u8 \<Rightarrow> u8 list option" where
  "PtcStreamEncode Parser_Uninit payload cmd = None"
| "PtcStreamEncode Parser_1_0 payload cmd = Some (PtcStreamEncode_1_0 payload cmd)"
| "PtcStreamEncode Parser_2_0 payload cmd = Some (PtcStreamEncode_2_0 payload cmd)"

fun PtcStreamDecode :: "ptc_parser \<Rightarrow>
    u8 \<Rightarrow> u8 \<Rightarrow> u8 list \<Rightarrow> int \<Rightarrow> int \<Rightarrow> u8 list \<Rightarrow> (bool \<times> u8 list) option" where
  "PtcStreamDecode Parser_Uninit cmd rc payload st len res = None"
| "PtcStreamDecode Parser_1_0 cmd rc payload st len res =
     PtcStreamDecode_1_0 cmd rc payload st len res"
| "PtcStreamDecode Parser_2_0 cmd rc payload st len res =
     PtcStreamDecode_2_0 cmd rc payload st len res"

text \<open>
  \<open>SplitFileFrames\<close>: the loop over the remaining length has its body commented out, so on a
  file that is not empty (\<open>int file_length > 0\<close>) the function does not return: \<open>None\<close>.
\<close>

partial_function (option) split_loop :: "int \<Rightarrow> unit option" where
  "split_loop file_length = (if file_length > 0 then split_loop file_length else Some ())"

definition SplitFileFrames :: "u8 list \<Rightarrow> u8 \<Rightarrow> u8 list list \<Rightarrow> (bool \<times> u8 list list) option" where
  "SplitFileFrames file cmd packages = do {
     _ \<leftarrow> split_loop (sint (word_of_nat (length file) :: u32));
     Some (True, packages) }"

section \<open>The format of a version\<close>

text \<open>What the client reads from a header: the check of identifiers and return code, the command
  and the length of the payload.\<close>

type_synonym ptc_info = "bool \<times> u8 \<times> u32"

definition ptc_info_1_0 :: "u8 list \<Rightarrow> ptc_info option" where
  "ptc_info_1_0 buf = do { h \<leftarrow> h1_at buf;
     Some (h1_IsValidReturnCode h, h1_cmd h, h1_GetPayloadLen h) }"

definition ptc_info_2_0 :: "u8 list \<Rightarrow> ptc_info option" where
  "ptc_info_2_0 buf = do { h \<leftarrow> h2_at buf;
     Some (h2_IsValidReturnCode h, h2_cmd h, h2_GetPayloadLen h) }"

locale ptc_format =
  fixes hsize :: nat
    and id0 :: u8
    and id1 :: u8
    and enc :: "u8 list \<Rightarrow> u8 \<Rightarrow> u8 list"
    and info :: "u8 list \<Rightarrow> ptc_info option"
  assumes hsize2: "2 \<le> hsize"
    and ids: "id0 \<noteq> id1"
    and enc_shape: "\<exists>h. enc payload cmd = id0 # id1 # h @ payload \<and> length h + 2 = hsize"
    and info_enc: "info (take hsize (enc payload cmd)) = Some (True, cmd, word_of_nat (length payload))"
    and info_defined: "length buf = hsize \<Longrightarrow> info buf \<noteq> None"
begin

lemma length_enc: "length (enc payload cmd) = hsize + length payload"
  using enc_shape [of payload cmd] by auto

lemma drop_enc: "drop hsize (enc payload cmd) = payload"
proof -
  obtain h where h: "enc payload cmd = (id0 # id1 # h) @ payload" "length h + 2 = hsize"
    using enc_shape [of payload cmd] by auto
  then show ?thesis by (simp flip: h(2))
qed

lemma enc_split:
  obtains h where "enc payload cmd = h @ payload" "length h = hsize" "take 2 h = [id0, id1]"
    "info h = Some (True, cmd, word_of_nat (length payload))"
proof -
  obtain h where h: "enc payload cmd = (id0 # id1 # h) @ payload" "length h + 2 = hsize"
    using enc_shape [of payload cmd] by auto
  moreover have "take hsize (enc payload cmd) = id0 # id1 # h"
    using h(1) by (simp flip: h(2))
  ultimately show ?thesis
    using that [of "id0 # id1 # h"] info_enc [of payload cmd] by simp
qed

lemma decode_encode:
  assumes "length payload < 4294967296"
  shows "\<exists>v c n. info (take hsize (enc payload cmd)) = Some (v, c, n) \<and> v \<and> c = cmd \<and>
           take (unat n) (drop hsize (enc payload cmd)) = payload"
  using info_enc [of payload cmd] assms by (auto simp: drop_enc unat_of_nat)

end

lemma length_h1_bytes [simp]: "length (h1_bytes h) = 8"
  by (simp add: h1_bytes_def)

lemma length_h2_bytes [simp]: "length (h2_bytes h) = 12"
  by (simp add: h2_bytes_def)

lemma h1_at_bytes: "h1_at (h1_bytes h) = Some h"
  using ld32_le_bytes_at [of "[h1_identifier0 h, h1_identifier1 h, h1_cmd h, h1_return_code h]" 4 "h1_payload_len h"]
  by (simp add: h1_at_def h1_bytes_def ld8_def)

lemma h2_at_bytes: "h2_at (h2_bytes h) = Some h"
  using ld32_le_bytes_at [of "[h2_identifier0 h, h2_identifier1 h, h2_ptc_version h, h2_cmd h,
       h2_return_code h, h2_reserved h, h2_integrity_check_type h, h2_integrity_data_length h]" 8 "h2_payload_len h"]
  by (simp add: h2_at_def h2_bytes_def ld8_def)

interpretation ptc1: ptc_format 8 "0x47" "0x74" PtcStreamEncode_1_0 ptc_info_1_0
proof
  fix payload :: "u8 list" and cmd :: u8
  let ?h = "h1_SetPayloadLen (word_of_nat (length payload)) (h1_init cmd)"
  show "\<exists>h. PtcStreamEncode_1_0 payload cmd = 0x47 # 0x74 # h @ payload \<and> length h + 2 = 8"
    by (rule exI [of _ "drop 2 (h1_bytes ?h)"])
      (simp add: PtcStreamEncode_1_0_def h1_bytes_def h1_init_def h1_SetPayloadLen_def)
  have "take 8 (PtcStreamEncode_1_0 payload cmd) = h1_bytes ?h"
    by (simp add: PtcStreamEncode_1_0_def)
  then show "ptc_info_1_0 (take 8 (PtcStreamEncode_1_0 payload cmd)) =
      Some (True, cmd, word_of_nat (length payload))"
    by (simp add: ptc_info_1_0_def h1_at_bytes h1_IsValidReturnCode_def h1_IsValidIdentifier_def
        h1_GetPayloadLen_def) (simp add: h1_SetPayloadLen_def h1_init_def)
  show "ptc_info_1_0 buf \<noteq> None" if "length buf = 8" for buf
    using that by (simp add: ptc_info_1_0_def h1_at_def ld8_in load_in)
qed simp_all

interpretation ptc2: ptc_format 12 "0x57" "0x75" PtcStreamEncode_2_0 ptc_info_2_0
proof
  fix payload :: "u8 list" and cmd :: u8
  let ?h = "h2_SetPayloadLen (word_of_nat (length payload)) (h2_init cmd)"
  show "\<exists>h. PtcStreamEncode_2_0 payload cmd = 0x57 # 0x75 # h @ payload \<and> length h + 2 = 12"
    by (rule exI [of _ "drop 2 (h2_bytes ?h)"])
      (simp add: PtcStreamEncode_2_0_def h2_bytes_def h2_init_def h2_SetPayloadLen_def)
  have "take 12 (PtcStreamEncode_2_0 payload cmd) = h2_bytes ?h"
    by (simp add: PtcStreamEncode_2_0_def)
  then show "ptc_info_2_0 (take 12 (PtcStreamEncode_2_0 payload cmd)) =
      Some (True, cmd, word_of_nat (length payload))"
    by (simp add: ptc_info_2_0_def h2_at_bytes h2_IsValidReturnCode_def h2_IsValidIdentifier_def
        h2_GetPayloadLen_def) (simp add: h2_SetPayloadLen_def h2_init_def)
  show "ptc_info_2_0 buf \<noteq> None" if "length buf = 12" for buf
    using that by (simp add: ptc_info_2_0_def h2_at_def ld8_in load_in)
qed simp_all

text \<open>The wire format: the length is big-endian on the wire.\<close>

lemma PtcStreamEncode_1_0_wire:
  "PtcStreamEncode_1_0 payload cmd =
     [0x47, 0x74, cmd, 0] @ be_bytes 4 (unat (word_of_nat (length payload) :: u32)) @ payload"
  by (simp add: PtcStreamEncode_1_0_def h1_bytes_def h1_SetPayloadLen_def h1_init_def
      le_bytes_htonl)

lemma PtcStreamEncode_2_0_wire:
  "PtcStreamEncode_2_0 payload cmd =
     [0x57, 0x75, 1, cmd, 0, 0, 0, 0] @ be_bytes 4 (unat (word_of_nat (length payload) :: u32)) @
       payload"
  by (simp add: PtcStreamEncode_2_0_def h2_bytes_def h2_SetPayloadLen_def h2_init_def
      le_bytes_htonl)



end
