(* ===== verification/Tcp_Client.thy ===== *)
theory Tcp_Client
  imports Prelude
begin

text \<open>
  \<open>TcpClient\<close> of \<open>src/libhesai/PtcClient/src/tcp_client.cc\<close>: the fields of the class and its
  operations, over a kernel whose answers to the socket calls are a script: the outcome of each
  attempt to connect, the results of \<open>send\<close> and \<open>setsockopt\<close>, and the segments that
  \<open>recv\<close> delivers. \<open>recv\<close> returns at most the requested number of bytes of the first segment
  and leaves the rest; an empty segment is the peer closing the connection; with no segment
  left it times out.

  Logging and the measurement of elapsed time have no effect on the results and are left out;
  the Windows branches are not modelled.
\<close>

datatype open_result =
    Socket_Fails
  | Pton_Fails u32
  | Connect_Fails u32
  | Open_Ok u32

datatype try_result =
    Try_Socket_Fails
  | Try_Pton_Fails u32
  | Try_Connect_Fails u32
  | Try_Select_Fails u32
  | Try_So_Error u32
  | Try_Ok u32

text \<open>\<open>Rx_Fails True\<close> is a result -1 with \<open>errno\<close> one of \<open>EINTR\<close>, \<open>EAGAIN\<close>, \<open>EWOULDBLOCK\<close>.\<close>

datatype rx = Rx "u8 list" | Rx_Fails bool

record kernel =
  k_open :: "open_result list"
  k_try :: "try_result list"
  k_send :: "(int \<times> bool) list"
  k_recv :: "rx list"
  k_sockopt :: "int list"
  k_sent :: "u8 list list"
  k_closed :: "u32 list"

record tcp_client =
  m_sServerIP :: string
  ptc_port :: u16
  m_tcpSock :: u32
  m_bLidarConnected :: bool
  m_u32ReceiveBufferSize :: u32
  m_u32RecTimeout :: u32
  m_u32SendTimeout :: u32

type_synonym conn = "tcp_client \<times> kernel"

definition TcpClient_new :: tcp_client where
  "TcpClient_new = \<lparr> m_sServerIP = [], ptc_port = 0, m_tcpSock = -1, m_bLidarConnected = False,
     m_u32ReceiveBufferSize = 4096, m_u32RecTimeout = 500, m_u32SendTimeout = 500 \<rparr>"

section \<open>The socket calls\<close>

definition sys_send :: "u8 list \<Rightarrow> kernel \<Rightarrow> int \<times> bool \<times> kernel" where
  "sys_send bs k = (let k = k \<lparr> k_sent := k_sent k @ [bs] \<rparr> in
     case k_send k of [] \<Rightarrow> (-1, True, k)
     | (len, transient) # rs \<Rightarrow> (len, transient, k \<lparr> k_send := rs \<rparr>))"

definition sys_recv :: "nat \<Rightarrow> kernel \<Rightarrow> int \<times> bool \<times> u8 list \<times> kernel" where
  "sys_recv n k = (case k_recv k of [] \<Rightarrow> (-1, True, [], k)
     | Rx_Fails transient # rs \<Rightarrow> (-1, transient, [], k \<lparr> k_recv := rs \<rparr>)
     | Rx bs # rs \<Rightarrow> (int (length (take n bs)), True, take n bs,
         k \<lparr> k_recv := (if length bs \<le> n then rs else Rx (drop n bs) # rs) \<rparr>))"

definition sys_setsockopt :: "kernel \<Rightarrow> int \<times> kernel" where
  "sys_setsockopt k =
     (case k_sockopt k of [] \<Rightarrow> (-1, k) | r # rs \<Rightarrow> (r, k \<lparr> k_sockopt := rs \<rparr>))"

section \<open>The operations\<close>

text \<open>\<open>SOCKET\<close> is \<open>unsigned int\<close>: the value -1 that marks no socket is greater than 0.\<close>

definition tcp_Close :: "conn \<Rightarrow> conn" where
  "tcp_Close = (\<lambda>(c, k).
     let c = c \<lparr> m_bLidarConnected := False \<rparr> in
     if m_tcpSock c > 0
     then (c \<lparr> m_tcpSock := -1 \<rparr>, k \<lparr> k_closed := k_closed k @ [m_tcpSock c] \<rparr>)
     else (c, k))"

definition tcp_IsOpened :: "conn \<Rightarrow> bool" where
  "tcp_IsOpened = (\<lambda>(c, k). m_bLidarConnected c)"

definition tcp_Open0 :: "conn \<Rightarrow> bool \<times> conn" where
  "tcp_Open0 = (\<lambda>(c, k).
     case k_open k of
       [] \<Rightarrow> (False, c \<lparr> m_tcpSock := -1 \<rparr>, k)
     | r # rs \<Rightarrow> (let k = k \<lparr> k_open := rs \<rparr> in
         case r of
           Socket_Fails \<Rightarrow> (False, c \<lparr> m_tcpSock := -1 \<rparr>, k)
         | Pton_Fails fd \<Rightarrow> (False, tcp_Close (c \<lparr> m_tcpSock := fd \<rparr>, k))
         | Connect_Fails fd \<Rightarrow> (False, tcp_Close (c \<lparr> m_tcpSock := fd \<rparr>, k))
         | Open_Ok fd \<Rightarrow> (True, c \<lparr> m_tcpSock := fd, m_bLidarConnected := True \<rparr>, k)))"

definition tcp_Open :: "string \<Rightarrow> u16 \<Rightarrow> conn \<Rightarrow> bool \<times> conn" where
  "tcp_Open ip port = (\<lambda>(c, k).
     if tcp_IsOpened (c, k) \<and> m_sServerIP c = ip \<and> port = ptc_port c then (True, c, k)
     else (let (c, k) = tcp_Close (c, k) in
           tcp_Open0 (c \<lparr> m_sServerIP := ip, ptc_port := port \<rparr>, k)))"

definition tcp_TryOpen :: "string \<Rightarrow> u16 \<Rightarrow> conn \<Rightarrow> bool \<times> conn" where
  "tcp_TryOpen ip port = (\<lambda>(c, k).
     if tcp_IsOpened (c, k) \<and> m_sServerIP c = ip \<and> port = ptc_port c then (True, c, k)
     else
       (let (c, k) = (if tcp_IsOpened (c, k) then tcp_Close (c, k) else (c, k));
            c = c \<lparr> m_sServerIP := ip, ptc_port := port \<rparr>
        in case k_try k of
             [] \<Rightarrow> (False, c \<lparr> m_tcpSock := -1 \<rparr>, k)
           | r # rs \<Rightarrow> (let k = k \<lparr> k_try := rs \<rparr> in
               case r of
                 Try_Socket_Fails \<Rightarrow> (False, c \<lparr> m_tcpSock := -1 \<rparr>, k)
               | Try_Pton_Fails fd \<Rightarrow> (False, tcp_Close (c \<lparr> m_tcpSock := fd \<rparr>, k))
               | Try_Connect_Fails fd \<Rightarrow> (False, tcp_Close (c \<lparr> m_tcpSock := fd \<rparr>, k))
               | Try_Select_Fails fd \<Rightarrow> (False, tcp_Close (c \<lparr> m_tcpSock := fd \<rparr>, k))
               | Try_So_Error fd \<Rightarrow> (False, tcp_Close (c \<lparr> m_tcpSock := fd \<rparr>, k))
               | Try_Ok fd \<Rightarrow> (True, c \<lparr> m_tcpSock := fd, m_bLidarConnected := True \<rparr>, k))))"

text \<open>\<open>if (!IsOpened()) ret = Open();\<close>, at the start of \<open>Send\<close> and \<open>Receive\<close>.\<close>

definition tcp_ensure_open :: "conn \<Rightarrow> bool \<times> conn" where
  "tcp_ensure_open s = (if tcp_IsOpened s then (True, s) else tcp_Open0 s)"

text \<open>The length argument of \<open>Send\<close> is a \<open>uint16_t\<close>: a longer buffer is sent in part.\<close>

definition tcp_Send :: "u8 list \<Rightarrow> conn \<Rightarrow> int \<times> conn" where
  "tcp_Send buf s =
     (let u16Len = (word_of_nat (length buf) :: u16);
         (ret, c, k) = tcp_ensure_open s
     in if ret then
          (let (len, transient, k) = sys_send (take (unat u16Len) buf) k
           in if len \<noteq> int (unat u16Len) \<and> \<not> transient then (len, tcp_Close (c, k))
              else (len, c, k))
        else (-1, c, k))"

definition tcp_Receive :: "nat \<Rightarrow> conn \<Rightarrow> int \<times> u8 list \<times> conn" where
  "tcp_Receive u32Len s =
     (let (ret, c, k) = tcp_ensure_open s
     in if ret then
          (let (len, transient, bs, k) = sys_recv u32Len k
           in if len = 0 \<or> (len = -1 \<and> \<not> transient) then (len, bs, tcp_Close (c, k))
              else (len, bs, c, k))
        else (-1, [], c, k))"

definition tcp_SetReceiveTimeout :: "u32 \<Rightarrow> conn \<Rightarrow> bool \<times> conn" where
  "tcp_SetReceiveTimeout t = (\<lambda>(c, k).
     if m_tcpSock c < 0 then (False, c, k)
     else (let (r, k) = sys_setsockopt k in (r = 0, c, k)))"

definition tcp_SetTimeout :: "u32 \<Rightarrow> u32 \<Rightarrow> conn \<Rightarrow> int \<times> conn" where
  "tcp_SetTimeout rx tx = (\<lambda>(c, k).
     if m_tcpSock c < 0 then (-1, c, k)
     else
       (let c = c \<lparr> m_u32RecTimeout := rx, m_u32SendTimeout := tx \<rparr>;
            (r, k) = sys_setsockopt k
        in if r = 0 then (let (r, k) = sys_setsockopt k in (r, c, k)) else (r, c, k)))"

text \<open>\<open>opt\<close> is the answer of \<open>getsockopt\<close>: its result and the size of the buffer.\<close>

definition tcp_SetReceiveBufferSize :: "int \<times> u32 \<Rightarrow> u32 \<Rightarrow> conn \<Rightarrow> conn" where
  "tcp_SetReceiveBufferSize opt n = (\<lambda>(c, k).
     if m_tcpSock c < 0 then (c, k)
     else
       (let c = c \<lparr> m_u32ReceiveBufferSize := n \<rparr>
        in if fst opt = 0 \<and> snd opt < n then (c, snd (sys_setsockopt k)) else (c, k)))"

section \<open>What a transport promises to its client\<close>

text \<open>
  \<open>data\<close> is what is certain to be delivered, \<open>burst\<close> the least that one reception delivers of it
  (if as much is asked for), and \<open>pend\<close> bounds the number of successful receptions to come. The
  lengths are those of an \<open>int\<close>.
\<close>

locale client_base =
  fixes rcv :: "nat \<Rightarrow> 's \<Rightarrow> int \<times> u8 list \<times> 's"
    and data :: "'s \<Rightarrow> u8 list"
    and burst :: "'s \<Rightarrow> nat"
    and pend :: "'s \<Rightarrow> nat"
  assumes rcv_bound: "rcv n s = (len, bs, s') \<Longrightarrow> 0 < len \<Longrightarrow> len = int (length bs) \<and> length bs \<le> n"
    and rcv_pend: "rcv n s = (len, bs, s') \<Longrightarrow> 0 < len \<Longrightarrow> pend s' < pend s"
    and rcv_data: "0 < n \<Longrightarrow> n < 2147483648 \<Longrightarrow> n \<le> length (data s) \<Longrightarrow>
      \<exists>t s'. rcv n s = (int (length t), t, s') \<and> 0 < length t \<and> min n (burst s) \<le> length t \<and>
        data s = t @ data s'"
begin

lemma rcv_some:
  assumes "0 < n" and "n < 2147483648" and "n \<le> length (data s)"
  obtains t s' where "rcv n s = (int (length t), t, s')" and "0 < length t" and "length t \<le> n"
    and "min n (burst s) \<le> length t" and "data s = t @ data s'"
proof -
  obtain t s' where t: "rcv n s = (int (length t), t, s')" "0 < length t" "min n (burst s) \<le> length t"
      "data s = t @ data s'"
    using rcv_data [OF assms] by blast
  moreover have "length t \<le> n" using rcv_bound [OF t(1)] t(2) by simp
  ultimately show thesis using that by blast
qed

end

fun rx_data :: "rx list \<Rightarrow> u8 list list" where
  "rx_data (Rx bs # rs) = (if bs = [] then [] else bs # rx_data rs)"
| "rx_data _ = []"

fun rx_weight :: "rx \<Rightarrow> nat" where
  "rx_weight (Rx bs) = Suc (length bs)"
| "rx_weight (Rx_Fails t) = 1"

definition tcp_segs :: "conn \<Rightarrow> u8 list list" where
  "tcp_segs = (\<lambda>(c, k). if m_bLidarConnected c then rx_data (k_recv k) else [])"

definition tcp_data :: "conn \<Rightarrow> u8 list" where
  "tcp_data s = concat (tcp_segs s)"

definition tcp_burst :: "conn \<Rightarrow> nat" where
  "tcp_burst s = (case tcp_segs s of [] \<Rightarrow> 0 | b # _ \<Rightarrow> length b)"

definition tcp_pend :: "conn \<Rightarrow> nat" where
  "tcp_pend = (\<lambda>(c, k). sum_list (map rx_weight (k_recv k)))"

lemma tcp_Close_kernel [simp]: "tcp_pend (tcp_Close (c, k)) = tcp_pend (c, k)"
  by (simp add: tcp_Close_def tcp_pend_def Let_def)

lemma tcp_Open0_recv: "tcp_Open0 (c, k) = (ret, c', k') \<Longrightarrow> k_recv k' = k_recv k"
  by (auto simp: tcp_Open0_def tcp_Close_def Let_def split: list.splits open_result.splits
      if_splits)

lemma sys_recv_cases:
  assumes "sys_recv n k = (len, tr, bs, k')"
  shows "len \<le> 0 \<or> (len = int (length bs) \<and> length bs \<le> n \<and>
     sum_list (map rx_weight (k_recv k')) < sum_list (map rx_weight (k_recv k)))"
  using assms by (auto simp: sys_recv_def split: list.splits rx.splits if_splits)

lemma tcp_ensure_open_recv: "tcp_ensure_open (c, k) = (ret, c', k') \<Longrightarrow> k_recv k' = k_recv k"
  by (auto simp: tcp_ensure_open_def tcp_Open0_recv split: if_splits)

lemma tcp_Receive_cases:
  assumes "tcp_Receive n s = (len, bs, s')" and "0 < len"
  shows "len = int (length bs) \<and> length bs \<le> n \<and> tcp_pend s' < tcp_pend s"
proof -
  obtain c k where s: "s = (c, k)" by force
  obtain ret c1 k1 where o: "tcp_ensure_open s = (ret, c1, k1)" by (metis prod_cases3)
  obtain l tr b k2 where r: "sys_recv n k1 = (l, tr, b, k2)" by (metis prod_cases4)
  have "len = l \<and> bs = b \<and> s' = (c1, k2)"
    using assms o r by (auto simp: tcp_Receive_def Let_def split: if_splits)
  then show ?thesis
    using sys_recv_cases [OF r] assms(2) tcp_ensure_open_recv o s by (auto simp: tcp_pend_def)
qed

lemma rx_data_nonempty: "[] \<notin> set (rx_data rs)"
  by (induction rs rule: rx_data.induct) auto

lemma tcp_segs_nonempty: "[] \<notin> set (tcp_segs s)"
  by (cases s) (simp add: tcp_segs_def rx_data_nonempty)

text \<open>One reception takes from the first segment and leaves the rest of it.\<close>

lemma tcp_Receive_seg:
  assumes "tcp_segs s = b # rest" and "0 < n"
  shows "\<exists>s'. tcp_Receive n s = (int (length (take n b)), take n b, s') \<and>
           tcp_segs s' = (if length b \<le> n then rest else drop n b # rest)"
proof -
  obtain c k where s: "s = (c, k)" by force
  obtain rs where "m_bLidarConnected c" "k_recv k = Rx b # rs" "rest = rx_data rs" "b \<noteq> []"
    using assms(1) s by (auto simp: tcp_segs_def split: if_splits elim!: rx_data.elims)
  then show ?thesis
    using assms s by (auto simp: tcp_Receive_def tcp_ensure_open_def tcp_IsOpened_def sys_recv_def tcp_segs_def)
qed

interpretation tcp: client_base tcp_Receive tcp_data tcp_burst tcp_pend
proof
  fix n s len bs s'
  assume "tcp_Receive n s = (len, bs, s')" and "0 < len"
  from tcp_Receive_cases [OF this]
  show "len = int (length bs) \<and> length bs \<le> n" and "tcp_pend s' < tcp_pend s" by blast+
next
  fix n :: nat and s :: conn
  assume n: "0 < n" "n \<le> length (tcp_data s)"
  then obtain b rest where b: "tcp_segs s = b # rest" by (cases "tcp_segs s") (auto simp: tcp_data_def)
  then have "b \<noteq> []" using tcp_segs_nonempty [of s] by auto
  with tcp_Receive_seg [OF b n(1)] b n(1)
  show "\<exists>t s'. tcp_Receive n s = (int (length t), t, s') \<and> 0 < length t \<and>
      min n (tcp_burst s) \<le> length t \<and> tcp_data s = t @ tcp_data s'"
    by (auto simp: tcp_data_def tcp_burst_def intro!: exI [of _ "take n b"])
qed

section \<open>The connection flag\<close>

text \<open>
  The kernel hands out valid descriptors, and a connected client holds one.
\<close>

definition tcp_inv :: "conn \<Rightarrow> bool" where
  "tcp_inv = (\<lambda>(c, k). (m_bLidarConnected c \<longrightarrow> m_tcpSock c \<noteq> -1) \<and>
     Open_Ok (-1) \<notin> set (k_open k) \<and> Try_Ok (-1) \<notin> set (k_try k))"

lemma tcp_Close_inv [simp]: "tcp_inv s \<Longrightarrow> tcp_inv (tcp_Close s)"
  by (cases s) (auto simp: tcp_inv_def tcp_Close_def Let_def)

lemma tcp_Close_closed [simp]: "tcp_IsOpened (tcp_Close s) = False"
  by (cases s) (auto simp: tcp_IsOpened_def tcp_Close_def Let_def)

lemma tcp_Open0_inv: "tcp_inv s \<Longrightarrow> \<not> tcp_IsOpened s \<Longrightarrow> tcp_inv (snd (tcp_Open0 s))"
  by (cases s) (auto simp: tcp_inv_def tcp_Open0_def tcp_Close_def tcp_IsOpened_def Let_def
      split: list.splits open_result.splits)

lemma tcp_inv_addr:
  "tcp_inv (c \<lparr> m_sServerIP := ip, ptc_port := p \<rparr>, k) = tcp_inv (c, k)"
  "tcp_IsOpened (c \<lparr> m_sServerIP := ip, ptc_port := p \<rparr>, k) = tcp_IsOpened (c, k)"
  by (simp_all add: tcp_inv_def tcp_IsOpened_def)

lemma tcp_Open_inv:
  assumes "tcp_inv s"
  shows "tcp_inv (snd (tcp_Open ip p s))"
proof -
  obtain c k where s: "s = (c, k)" by force
  obtain c1 k1 where c: "tcp_Close (c, k) = (c1, k1)" by force
  have "tcp_inv (c1, k1)" "\<not> tcp_IsOpened (c1, k1)"
    using assms tcp_Close_inv tcp_Close_closed unfolding s by (metis c)+
  then show ?thesis
    using assms by (simp add: s tcp_Open_def c tcp_inv_addr tcp_Open0_inv)
qed

lemma sys_send_scripts:
  "sys_send bs k = (len, tr, k') \<Longrightarrow> k_open k' = k_open k \<and> k_try k' = k_try k"
  by (auto simp: sys_send_def Let_def split: list.splits)

lemma sys_recv_scripts:
  "sys_recv n k = (len, tr, bs, k') \<Longrightarrow> k_open k' = k_open k \<and> k_try k' = k_try k"
  by (auto simp: sys_recv_def Let_def split: list.splits rx.splits)

lemma sys_setsockopt_scripts:
  "sys_setsockopt k = (r, k') \<Longrightarrow> k_open k' = k_open k \<and> k_try k' = k_try k"
  by (auto simp: sys_setsockopt_def split: list.splits)

lemma tcp_inv_kernel:
  "k_open k' = k_open k \<and> k_try k' = k_try k \<Longrightarrow> tcp_inv (c, k) \<Longrightarrow> tcp_inv (c, k')"
  by (auto simp: tcp_inv_def)

lemma tcp_ensure_open_inv: "tcp_inv s \<Longrightarrow> tcp_ensure_open s = (ret, s') \<Longrightarrow> tcp_inv s'"
  using tcp_Open0_inv [of s] by (auto simp: tcp_ensure_open_def split: if_splits)

lemma tcp_Send_inv:
  assumes "tcp_inv s"
  shows "tcp_inv (snd (tcp_Send buf s))"
proof -
  obtain ret c1 k1 where o: "tcp_ensure_open s = (ret, c1, k1)" by (metis prod_cases3)
  have inv: "tcp_inv (c1, k1)" using tcp_ensure_open_inv [OF assms o] .
  define bs where "bs = take (unat (word_of_nat (length buf) :: u16)) buf"
  obtain len tr k2 where r: "sys_send bs k1 = (len, tr, k2)" by (metis prod_cases3)
  have "tcp_inv (c1, k2)" using tcp_inv_kernel [OF sys_send_scripts [OF r] inv] .
  then show ?thesis
    using o r inv by (simp add: tcp_Send_def Let_def flip: bs_def)
qed

lemma tcp_Receive_inv:
  assumes "tcp_inv s"
  shows "tcp_inv (snd (snd (tcp_Receive n s)))"
proof -
  obtain ret c1 k1 where o: "tcp_ensure_open s = (ret, c1, k1)" by (metis prod_cases3)
  have inv: "tcp_inv (c1, k1)" using tcp_ensure_open_inv [OF assms o] .
  obtain len tr bs k2 where r: "sys_recv n k1 = (len, tr, bs, k2)" by (metis prod_cases4)
  have "tcp_inv (c1, k2)" using tcp_inv_kernel [OF sys_recv_scripts [OF r] inv] .
  then show ?thesis
    using o r inv by (simp add: tcp_Receive_def Let_def)
qed

lemma tcp_SetTimeout_inv: "tcp_inv s \<Longrightarrow> tcp_inv (snd (tcp_SetTimeout rx tx s))"
  by (cases s) (auto simp: tcp_SetTimeout_def tcp_inv_def Let_def sys_setsockopt_def
      split: list.splits)

lemma tcp_try_tail:
  assumes "tcp_inv (c, k)" and "\<not> tcp_IsOpened (c, k)" and "k_try k = r # rs"
  shows "tcp_inv (c \<lparr> m_tcpSock := fd \<rparr>, k \<lparr> k_try := rs \<rparr>)"
    and "r = Try_Ok fd \<Longrightarrow>
      tcp_inv (c \<lparr> m_tcpSock := fd, m_bLidarConnected := True \<rparr>, k \<lparr> k_try := rs \<rparr>)"
  using assms by (auto simp: tcp_inv_def tcp_IsOpened_def)

lemma tcp_TryOpen_inv:
  assumes "tcp_inv s"
  shows "tcp_inv (snd (tcp_TryOpen ip p s))"
proof -
  obtain c k where s: "s = (c, k)" by force
  obtain c1 k1 where s1: "(if tcp_IsOpened (c, k) then tcp_Close (c, k) else (c, k)) = (c1, k1)"
    by force
  have "tcp_inv (c1, k1)" "\<not> tcp_IsOpened (c1, k1)"
    using assms s1 tcp_Close_inv [of "(c, k)"] tcp_Close_closed [of "(c, k)"] unfolding s
    by (cases "tcp_IsOpened (c, k)"; simp)+
  then have c1: "tcp_inv (c1 \<lparr> m_sServerIP := ip, ptc_port := p \<rparr>, k1)"
      "\<not> tcp_IsOpened (c1 \<lparr> m_sServerIP := ip, ptc_port := p \<rparr>, k1)"
    by (simp_all add: tcp_inv_addr)
  have e: "tcp_inv (c1 \<lparr> m_sServerIP := ip, ptc_port := p, m_tcpSock := -1 \<rparr>, k1)"
    using c1 by (simp add: tcp_inv_def tcp_IsOpened_def)
  show ?thesis
    using assms c1 e tcp_try_tail [OF c1] unfolding s tcp_TryOpen_def
    by (auto simp: Let_def s1 split: list.splits try_result.splits)
qed


definition kernel_ex :: kernel where
  "kernel_ex = \<lparr> k_open = [Open_Ok 3], k_try = [Try_Ok 4], k_send = [], k_recv = [Rx []],
     k_sockopt = [], k_sent = [], k_closed = [] \<rparr>"


end
