(* ===== verification/Ptc_Client.thy ===== *)
theory Ptc_Client
  imports Ptc_Parser Tcp_Client
begin

text \<open>
  \<open>PtcClient\<close> of \<open>src/libhesai/PtcClient/src/ptc_client.cc\<close>: one request and its response
  (\<open>QueryCommand\<close>), and the commands built on it. The transport is the virtual class
  \<open>ClientBase\<close>, so the definitions take its \<open>Send\<close> and \<open>Receive\<close> as arguments;
  \<open>PtcClient_query\<close> is the instance on \<open>TcpClient\<close>. The two receive loops are functions into
  an option: \<open>None\<close> is a copy outside a buffer, or a loop that does not end. Both are
  excluded by a theorem for every transport that delivers finitely many segments.

  The locale \<open>ptc_session\<close> joins the contract of a transport with the format of a protocol
  version; the lemmas about the loops are proved there once and interpreted for both versions
  over TCP.
\<close>

section \<open>Receiving a response\<close>

text \<open>The search for the two identifiers in the bytes of one reception.\<close>

fun find_ids :: "u8 \<Rightarrow> u8 \<Rightarrow> u8 list \<Rightarrow> nat option" where
  "find_ids id0 id1 (a # b # bs) =
     (if a = id0 \<and> b = id1 then Some 0 else map_option Suc (find_ids id0 id1 (b # bs)))"
| "find_ids id0 id1 _ = None"

partial_function (option) header_loop ::
    "(nat \<Rightarrow> 's \<Rightarrow> int \<times> u8 list \<times> 's) \<Rightarrow> u8 \<Rightarrow> u8 \<Rightarrow> int \<Rightarrow> bool \<Rightarrow> int \<Rightarrow> u8 list \<Rightarrow> 's \<Rightarrow>
     (int \<times> u8 list \<times> 's) option" where
  "header_loop rcv id0 id1 nLeft bHeaderFound nValidDataLen headerBuf s =
     (if nLeft > 0 then
        (case rcv (nat nLeft) s of (nOnceRecvLen, bs, s) \<Rightarrow>
          if nOnceRecvLen \<le> 0 then Some (nLeft, headerBuf, s)
          else if \<not> bHeaderFound then
            (case find_ids id0 id1 bs of
               None \<Rightarrow> header_loop rcv id0 id1 nLeft False nValidDataLen headerBuf s
             | Some i \<Rightarrow>
                 Option.bind (memcpy_at 0 (drop i bs) headerBuf) (\<lambda>headerBuf.
                   header_loop rcv id0 id1 (nLeft - (nOnceRecvLen - int i)) True
                     (nOnceRecvLen - int i) headerBuf s))
          else
            Option.bind (memcpy_at (nat nValidDataLen) bs headerBuf) (\<lambda>headerBuf.
              header_loop rcv id0 id1 (nLeft - nOnceRecvLen) True
                (nValidDataLen + nOnceRecvLen) headerBuf s))
      else Some (nLeft, headerBuf, s))"

partial_function (option) body_loop ::
    "(nat \<Rightarrow> 's \<Rightarrow> int \<times> u8 list \<times> 's) \<Rightarrow> int \<Rightarrow> nat \<Rightarrow> u8 list \<Rightarrow> 's \<Rightarrow>
     (int \<times> u8 list \<times> 's) option" where
  "body_loop rcv nLeft pBodyBuf buf s =
     (if nLeft > 0 then
        (case rcv (nat nLeft) s of (nOnceRecvLen, bs, s) \<Rightarrow>
          if nOnceRecvLen \<le> 0 then Some (nLeft, buf, s)
          else Option.bind (memcpy_at pBodyBuf bs buf) (\<lambda>buf.
                 body_loop rcv (nLeft - nOnceRecvLen) (pBodyBuf + nat nOnceRecvLen) buf s))
      else Some (nLeft, buf, s))"

text \<open>
  The receiving half of \<open>QueryCommand\<close>; \<open>int nPayLoadLen = GetPayloadLen()\<close> reads the 32-bit
  length as signed.
\<close>

definition query_header :: "(nat \<Rightarrow> 's \<Rightarrow> int \<times> u8 list \<times> 's) \<Rightarrow> u8 \<Rightarrow> u8 \<Rightarrow> nat \<Rightarrow>
    (u8 list \<Rightarrow> ptc_info option) \<Rightarrow> u8 \<Rightarrow> 's \<Rightarrow> (int \<times> int \<times> 's) option" where
  "query_header rcv id0 id1 hsize info cmd s = do {
     (nLeft, hdr, s) \<leftarrow> header_loop rcv id0 id1 (int hsize) False 0 (replicate hsize 0) s;
     if nLeft > 0 then Some (-1, 0, s)
     else do {
       (valid, c, n) \<leftarrow> info hdr;
       if \<not> valid \<or> c \<noteq> cmd then Some (-1, 0, s) else Some (0, sint n, s) } }"

definition query_body :: "(nat \<Rightarrow> 's \<Rightarrow> int \<times> u8 list \<times> 's) \<Rightarrow> int \<Rightarrow> int \<Rightarrow> u8 list \<Rightarrow> 's \<Rightarrow>
    (int \<times> u8 list \<times> 's) option" where
  "query_body rcv ret nPayLoadLen byteStreamOut s =
     (if ret = 0 \<and> nPayLoadLen > 0 then do {
        (nLeft, body, s) \<leftarrow> body_loop rcv nPayLoadLen 0 (replicate (nat nPayLoadLen) 0) s;
        if nLeft > 0 then Some (-1, byteStreamOut, s) else Some (0, body, s) }
      else Some (ret, byteStreamOut, s))"

definition ptc_info :: "u8 \<Rightarrow> u8 list \<Rightarrow> ptc_info option" where
  "ptc_info ptc_version buf = (if ptc_version = 1 then ptc_info_1_0 buf else ptc_info_2_0 buf)"

definition QueryCommand :: "(u8 list \<Rightarrow> 's \<Rightarrow> int \<times> 's) \<Rightarrow> (nat \<Rightarrow> 's \<Rightarrow> int \<times> u8 list \<times> 's) \<Rightarrow>
    u8 \<Rightarrow> u8 list \<Rightarrow> u8 list \<Rightarrow> u8 \<Rightarrow> 's \<Rightarrow> (int \<times> u8 list \<times> 's) option" where
  "QueryCommand send rcv ptc_version byteStreamIn byteStreamOut u8Cmd s = do {
     let parser = PtcParser_new ptc_version;
     encoded \<leftarrow> PtcStreamEncode parser byteStreamIn u8Cmd;
     (id0, id1) \<leftarrow> ptc_identifiers parser;
     hsize \<leftarrow> ptc_header_size parser;
     let (nLen, s) = send encoded s;
     (ret, nPayLoadLen, s) \<leftarrow>
       (if nLen \<noteq> sint (word_of_nat (length encoded) :: u32) then Some (-1, 0, s)
        else query_header rcv id0 id1 hsize (ptc_info ptc_version) u8Cmd s);
     query_body rcv ret nPayLoadLen byteStreamOut s }"

abbreviation PtcClient_query :: "u8 \<Rightarrow> u8 list \<Rightarrow> u8 list \<Rightarrow> u8 \<Rightarrow> conn \<Rightarrow>
    (int \<times> u8 list \<times> conn) option" where
  "PtcClient_query \<equiv> QueryCommand tcp_Send tcp_Receive"

text \<open>\<open>IsValidRsp\<close> drops bytes from the front until the two identifiers lead the stream.\<close>

fun strip_to_ids :: "u8 \<Rightarrow> u8 \<Rightarrow> u8 list \<Rightarrow> u8 list" where
  "strip_to_ids id0 id1 (a # b # bs) =
     (if a \<noteq> id0 \<or> b \<noteq> id1 then strip_to_ids id0 id1 (b # bs) else a # b # bs)"
| "strip_to_ids id0 id1 bs = bs"

definition IsValidRsp :: "u8 \<Rightarrow> u8 list \<Rightarrow> (bool \<times> u8 list) option" where
  "IsValidRsp ptc_version byteStreamIn = do {
     let parser = PtcParser_new ptc_version;
     (id0, id1) \<leftarrow> ptc_identifiers parser;
     hsize \<leftarrow> ptc_header_size parser;
     let bs = strip_to_ids id0 id1 byteStreamIn;
     if length bs < hsize then Some (False, bs)
     else do { (valid, _, _) \<leftarrow> ptc_info ptc_version bs; Some (valid, bs) } }"

section \<open>The loops over a transport\<close>

lemma find_ids_bound: "find_ids id0 id1 bs = Some i \<Longrightarrow> i + 2 \<le> length bs"
  by (induction id0 id1 bs arbitrary: i rule: find_ids.induct) (auto split: if_splits)

lemma find_ids_at:
  "find_ids id0 id1 bs = Some i \<Longrightarrow> bs ! i = id0 \<and> bs ! Suc i = id1"
  by (induction id0 id1 bs arbitrary: i rule: find_ids.induct) (auto split: if_splits)

context client_base
begin

lemma body_loop_defined:
  assumes "0 \<le> nLeft" and "off + nat nLeft = length buf"
  shows "\<exists>nLeft' buf' s'. body_loop rcv nLeft off buf s = Some (nLeft', buf', s') \<and>
           length buf' = length buf \<and> 0 \<le> nLeft'"
  using assms
proof (induction "pend s" arbitrary: nLeft off buf s rule: less_induct)
  case less
  obtain n bs s1 where r: "rcv (nat nLeft) s = (n, bs, s1)" by (metis prod_cases3)
  show ?case
  proof (cases "0 < nLeft \<and> 0 < n")
    case False
    then show ?thesis using r less.prems by (subst body_loop.simps) auto
  next
    case True
    then have n: "n = int (length bs)" "length bs \<le> nat nLeft" "pend s1 < pend s"
      using rcv_bound [OF r] rcv_pend [OF r] by auto
    obtain buf1 where b: "memcpy_at off bs buf = Some buf1"
      using n less.prems by (simp add: memcpy_at_def)
    have l: "length buf1 = length buf" using memcpy_at_length [OF b] .
    have "\<exists>nLeft' buf' s'. body_loop rcv (nLeft - n) (off + nat n) buf1 s1 =
        Some (nLeft', buf', s') \<and> length buf' = length buf1 \<and> 0 \<le> nLeft'"
      using n l less.prems by (intro less.hyps) auto
    moreover have "body_loop rcv nLeft off buf s = body_loop rcv (nLeft - n) (off + nat n) buf1 s1"
      using True r b by (subst body_loop.simps) simp
    ultimately show ?thesis using l by simp
  qed
qed

lemma header_loop_found:
  assumes "0 \<le> valid"
  shows "header_loop rcv id0 id1 nLeft True valid hdr s = body_loop rcv nLeft (nat valid) hdr s"
  using assms
proof (induction "pend s" arbitrary: nLeft valid hdr s rule: less_induct)
  case less
  obtain n bs s1 where r: "rcv (nat nLeft) s = (n, bs, s1)" by (metis prod_cases3)
  show ?case
  proof (cases "0 < nLeft \<and> 0 < n")
    case False
    then show ?thesis using r by (subst header_loop.simps, subst body_loop.simps) auto
  next
    case True
    have "header_loop rcv id0 id1 (nLeft - n) True (valid + n) buf s1 =
        body_loop rcv (nLeft - n) (nat valid + nat n) buf s1" for buf
      using True less rcv_pend [OF r] by (simp add: nat_add_distrib)
    then show ?thesis
      using r True by (subst header_loop.simps, subst body_loop.simps) simp
  qed
qed

lemma header_loop_defined:
  assumes "length hdr = hsize"
  shows "\<exists>nLeft' hdr' s'. header_loop rcv id0 id1 (int hsize) False valid hdr s =
           Some (nLeft', hdr', s') \<and> length hdr' = hsize \<and> 0 \<le> nLeft'"
  using assms
proof (induction "pend s" arbitrary: s rule: less_induct)
  case less
  obtain n bs s1 where r: "rcv (nat (int hsize)) s = (n, bs, s1)" by (metis prod_cases3)
  show ?case
  proof (cases "0 < hsize \<and> 0 < n")
    case False
    then show ?thesis using r less.prems by (subst header_loop.simps) auto
  next
    case True
    then have n: "n = int (length bs)" "length bs \<le> hsize" "pend s1 < pend s"
      using rcv_bound [OF r] rcv_pend [OF r] by auto
    show ?thesis
    proof (cases "find_ids id0 id1 bs")
      case None
      then have "header_loop rcv id0 id1 (int hsize) False valid hdr s =
          header_loop rcv id0 id1 (int hsize) False valid hdr s1"
        using r True by (subst header_loop.simps) simp
      then show ?thesis using less n by simp
    next
      case (Some i)
      note i = find_ids_bound [OF Some]
      have "0 + length (drop i bs) \<le> length hdr" using n less.prems by simp
      then obtain hdr1 where h: "memcpy_at 0 (drop i bs) hdr = Some hdr1"
        using memcpy_at_in by blast
      have "header_loop rcv id0 id1 (int hsize) False valid hdr s =
          body_loop rcv (int hsize - (n - int i)) (nat (n - int i)) hdr1 s1"
        using r True Some h i n header_loop_found [of "n - int i"]
        by (subst header_loop.simps) simp
      moreover have "length hdr1 = hsize" using memcpy_at_length [OF h] less.prems by simp
      ultimately show ?thesis
        using body_loop_defined [of "int hsize - (n - int i)" "nat (n - int i)" hdr1 s1] n i
        by simp
    qed
  qed
qed

text \<open>A transport that has the bytes fills the buffer with them.\<close>

lemma body_loop_fills:
  assumes "k \<le> length (data s)" and "k < 2147483648" and "off + k = length buf"
  shows "\<exists>s'. body_loop rcv (int k) off buf s = Some (0, take off buf @ take k (data s), s') \<and>
           data s' = drop k (data s)"
  using assms
proof (induction k arbitrary: off buf s rule: less_induct)
  case (less k)
  show ?case
  proof (cases "k = 0")
    case True
    then show ?thesis using less.prems by (subst body_loop.simps) auto
  next
    case False
    then have k0: "0 < k" by simp
    obtain t s1 where s1: "rcv k s = (int (length t), t, s1)" "0 < length t" "length t \<le> k"
        "data s = t @ data s1"
      using rcv_some [OF k0 less.prems(2,1)] by metis
    let ?buf = "take off buf @ t @ drop (off + length t) buf"
    have "\<exists>s'. body_loop rcv (int (k - length t)) (off + length t) ?buf s1 =
        Some (0, take (off + length t) ?buf @ take (k - length t) (data s1), s') \<and>
        data s' = drop (k - length t) (data s1)"
      using less.prems s1 k0 by (intro less.IH) auto
    moreover have "body_loop rcv (int k) off buf s =
        body_loop rcv (int (k - length t)) (off + length t) ?buf s1"
      using k0 s1(1-3) less.prems(3)
      by (subst body_loop.simps) (simp add: memcpy_at_def of_nat_diff False)
    ultimately show ?thesis
      using s1(3,4) less.prems(3) by auto
  qed
qed

lemma header_loop_fills:
  assumes "2 \<le> burst s" and "data s = h @ body" and "length h = hsize" and "hsize < 2147483648"
    and "take 2 h = [id0, id1]" and "length buf = hsize"
  shows "\<exists>s'. header_loop rcv id0 id1 (int hsize) False 0 buf s = Some (0, h, s') \<and> data s' = body"
proof -
  have h2: "2 \<le> hsize" using assms(3,5) by (metis length_take length_Cons list.size(3) min.cobounded1 numeral_2_eq_2)
  then have h0: "0 < hsize" "hsize \<le> length (data s)" using assms(2,3) by simp_all
  obtain t s1 where s1: "rcv hsize s = (int (length t), t, s1)" "0 < length t" "length t \<le> hsize"
      "min hsize (burst s) \<le> length t" "data s = t @ data s1"
    using rcv_some [OF h0(1) assms(4) h0(2)] by metis
  have t2: "2 \<le> length t" using s1(4) h2 assms(1) by linarith
  obtain us where us: "h = t @ us" "data s1 = us @ body"
    using s1(3,5) assms(2,3) by (auto simp: append_eq_append_conv2)
  then have t: "h = t @ take (hsize - length t) (data s1)" "body = drop (hsize - length t) (data s1)"
    using assms(3) by auto
  have "t = take (length t) h" using us(1) by simp
  then obtain t' where t': "t = id0 # id1 # t'"
    using assms(5) t2 by (metis append_Cons append_Nil append_take_drop_id min.absorb1 take_take)
  then have ids: "find_ids id0 id1 t = Some 0" by simp
  let ?buf = "t @ drop (length t) buf"
  have hdr: "header_loop rcv id0 id1 (int hsize) False 0 buf s =
      body_loop rcv (int (hsize - length t)) (length t) ?buf s1"
    using s1 h0 ids assms(6) header_loop_found [of "int (length t)"]
    by (subst header_loop.simps) (simp add: memcpy_at_def of_nat_diff)
  have "hsize - length t \<le> length (data s1)" "hsize - length t < 2147483648"
    using s1(5) h0(2) assms(4) by simp_all
  from body_loop_fills [OF this, of "length t" ?buf]
  obtain s' where "body_loop rcv (int (hsize - length t)) (length t) ?buf s1 =
        Some (0, t @ take (hsize - length t) (data s1), s')" "data s' = body"
    using s1(3) assms(4,6) t(2) by auto
  then show ?thesis using hdr t(1) by auto
qed

lemma query_body_defined: "query_body rcv ret n out s \<noteq> None"
proof (cases "ret = 0 \<and> n > 0")
  case True
  then obtain nLeft buf s' where "body_loop rcv n 0 (replicate (nat n) 0) s = Some (nLeft, buf, s')"
    using body_loop_defined [of n 0 "replicate (nat n) 0" s] by auto
  then show ?thesis using True by (simp add: query_body_def del: bind_Some_iff)
qed (auto simp: query_body_def)

end

text \<open>A transport together with a protocol version and its format.\<close>

locale ptc_session = client_base rcv data burst pend + ptc_format hsize id0 id1 enc info
  for rcv :: "nat \<Rightarrow> 's \<Rightarrow> int \<times> u8 list \<times> 's"
    and data :: "'s \<Rightarrow> u8 list"
    and burst :: "'s \<Rightarrow> nat"
    and pend :: "'s \<Rightarrow> nat"
    and hsize :: nat
    and id0 :: u8
    and id1 :: u8
    and enc :: "u8 list \<Rightarrow> u8 \<Rightarrow> u8 list"
    and info :: "u8 list \<Rightarrow> ptc_info option" +
  fixes version :: u8
  assumes version_ids: "ptc_identifiers (PtcParser_new version) = Some (id0, id1)"
    and version_hsize: "ptc_header_size (PtcParser_new version) = Some hsize"
    and version_info: "ptc_info version = info"
    and version_enc: "PtcStreamEncode (PtcParser_new version) payload cmd = Some (enc payload cmd)"
    and hsize_int: "hsize < 2147483648"
begin

lemma query_header_defined: "query_header rcv id0 id1 hsize info cmd s \<noteq> None"
proof -
  obtain nLeft hdr s' where h: "header_loop rcv id0 id1 (int hsize) False 0 (replicate hsize 0) s =
      Some (nLeft, hdr, s')" "length hdr = hsize"
    using header_loop_defined [of "replicate hsize 0" hsize] by (metis length_replicate)
  then obtain v c n where "info hdr = Some (v, c, n)"
    using info_defined [OF h(2)] by (metis option.exhaust prod_cases3)
  then show ?thesis using h(1) by (simp add: query_header_def)
qed

lemma query_response:
  assumes "2 \<le> burst s" and "data s = enc payload cmd @ later"
    and "length payload < 2147483648"
  shows "\<exists>s1 s'. query_header rcv id0 id1 hsize info cmd s = Some (0, int (length payload), s1) \<and>
           query_body rcv 0 (int (length payload)) out s1 =
             Some (0, if payload = [] then out else payload, s') \<and> data s' = later"
proof -
  obtain h where h: "enc payload cmd = h @ payload" "length h = hsize" "take 2 h = [id0, id1]"
      "info h = Some (True, cmd, word_of_nat (length payload))"
    by (rule enc_split)
  have "data s = h @ (payload @ later)" using assms(2) h(1) by simp
  from header_loop_fills [OF assms(1) this h(2) hsize_int h(3), of "replicate hsize 0"]
  obtain s1 where s1: "header_loop rcv id0 id1 (int hsize) False 0 (replicate hsize 0) s =
      Some (0, h, s1)" "data s1 = payload @ later" by auto
  have "sint (word_of_nat (length payload) :: u32) = int (length payload)"
    using assms(3) by (simp add: signed_of_nat signed_take_bit_int_eq_self)
  then have q: "query_header rcv id0 id1 hsize info cmd s = Some (0, int (length payload), s1)"
    using s1(1) h(4) by (simp add: query_header_def)
  show ?thesis
  proof (cases "payload = []")
    case True
    then show ?thesis using q s1 by (simp add: query_body_def)
  next
    case False
    have "length payload \<le> length (data s1)" using s1(2) by simp
    from body_loop_fills [OF this assms(3), of 0 "replicate (length payload) 0"]
    obtain s' where "body_loop rcv (int (length payload)) 0 (replicate (length payload) 0) s1 =
        Some (0, payload, s')" "data s' = later"
      using s1(2) by auto
    then show ?thesis using q False by (simp add: query_body_def)
  qed
qed

text \<open>The whole command, for any way to send.\<close>

lemma QueryCommand_answer:
  assumes "send (enc input cmd) s = (int (length (enc input cmd)), s1)"
    and "length (enc input cmd) < 2147483648" and "length payload < 2147483648"
    and "2 \<le> burst s1" and "data s1 = enc payload cmd @ later"
  shows "\<exists>s'. QueryCommand send rcv version input out cmd s =
           Some (0, if payload = [] then out else payload, s') \<and> data s' = later"
proof -
  have sint: "sint (word_of_nat (length (enc input cmd)) :: u32) = int (length (enc input cmd))"
    using assms(2) by (simp add: signed_of_nat signed_take_bit_int_eq_self)
  from query_response [OF assms(4,5,3), of out] show ?thesis
    using sint by (auto simp: QueryCommand_def Let_def version_ids version_hsize version_info version_enc assms(1))
qed

lemma QueryCommand_defined: "QueryCommand send rcv version input out cmd s \<noteq> None"
proof -
  obtain nLen s1 where n: "send (enc input cmd) s = (nLen, s1)" by (meson surj_pair)
  obtain ret len s2 where "query_header rcv id0 id1 hsize info cmd s1 = Some (ret, len, s2)"
    using query_header_defined [of cmd s1] by (metis option.exhaust prod_cases3)
  then show ?thesis
    using query_body_defined [of _ _ out]
    by (auto simp: QueryCommand_def Let_def n version_ids version_hsize version_info version_enc
        simp del: bind_Some_iff)
qed

end

text \<open>What a parser of each version provides.\<close>

lemma version_1: "ptc_identifiers (PtcParser_new 1) = Some (0x47, 0x74)"
    "ptc_header_size (PtcParser_new 1) = Some 8" "ptc_info 1 = ptc_info_1_0"
    "PtcStreamEncode (PtcParser_new 1) input cmd = Some (PtcStreamEncode_1_0 input cmd)"
  by (simp_all add: PtcParser_new_def ptc_info_def fun_eq_iff)

lemma version_2: "ptc_identifiers (PtcParser_new 2) = Some (0x57, 0x75)"
    "ptc_header_size (PtcParser_new 2) = Some 12" "ptc_info 2 = ptc_info_2_0"
    "PtcStreamEncode (PtcParser_new 2) input cmd = Some (PtcStreamEncode_2_0 input cmd)"
  by (simp_all add: PtcParser_new_def ptc_info_def fun_eq_iff)

interpretation tcp1: ptc_session tcp_Receive tcp_data tcp_burst tcp_pend 8 "0x47" "0x74"
    PtcStreamEncode_1_0 ptc_info_1_0 1
  by unfold_locales (simp_all add: version_1)

interpretation tcp2: ptc_session tcp_Receive tcp_data tcp_burst tcp_pend 12 "0x57" "0x75"
    PtcStreamEncode_2_0 ptc_info_2_0 2
  by unfold_locales (simp_all add: version_2)

section \<open>Queries over TCP\<close>

definition known_version :: "u8 \<Rightarrow> bool" where
  "known_version v = (v = 1 \<or> v = 2)"

lemma encode_known: "PtcStreamEncode (PtcParser_new v) input cmd = Some request \<Longrightarrow> known_version v"
  by (auto simp: PtcParser_new_def known_version_def split: if_splits)



lemma tcp_response:
  assumes "PtcStreamEncode (PtcParser_new v) input cmd = Some request"
    and "PtcStreamEncode (PtcParser_new v) payload cmd = Some response"
    and "length request < 2147483648" and "length payload < 2147483648"
    and "tcp_Send request s = (int (length request), s1)"
    and "tcp_segs s1 = b # rest" and "[] \<notin> set (b # rest)" and "2 \<le> length b"
    and "concat (b # rest) = response @ later"
  shows "\<exists>s'. PtcClient_query v input out cmd s =
           Some (0, if payload = [] then out else payload, s') \<and> concat (tcp_segs s') = later"
proof -
  have d: "2 \<le> tcp_burst s1" "tcp_data s1 = response @ later"
    using assms(6,8,9) by (simp_all add: tcp_burst_def tcp_data_def)
  consider "v = 1" | "v = 2" using encode_known [OF assms(1)] by (auto simp: known_version_def)
  then show ?thesis unfolding tcp_data_def [symmetric]
  proof cases
    case 1
    then have e: "request = PtcStreamEncode_1_0 input cmd" "response = PtcStreamEncode_1_0 payload cmd"
      using assms(1,2) by (simp_all add: version_1)
    show "\<exists>s'. PtcClient_query v input out cmd s =
        Some (0, if payload = [] then out else payload, s') \<and> tcp_data s' = later"
      unfolding 1 using assms(3-5) d unfolding e by (intro tcp1.QueryCommand_answer)
  next
    case 2
    then have e: "request = PtcStreamEncode_2_0 input cmd" "response = PtcStreamEncode_2_0 payload cmd"
      using assms(1,2) by (simp_all add: version_2)
    show "\<exists>s'. PtcClient_query v input out cmd s =
        Some (0, if payload = [] then out else payload, s') \<and> tcp_data s' = later"
      unfolding 2 using assms(3-5) d unfolding e by (intro tcp2.QueryCommand_answer)
  qed
qed


text \<open>A lidar that answers the command 5 with three bytes, in three fragments.\<close>

definition conn_ex :: conn where
  "conn_ex = (TcpClient_new \<lparr> m_bLidarConnected := True, m_tcpSock := 3 \<rparr>,
     kernel_ex \<lparr> k_send := [(8, False)],
       k_recv := [Rx [0x47, 0x74, 5], Rx [0, 0, 0, 0, 3, 9], Rx [8, 7]] \<rparr>)"


end
