(* ===== verification/Float_Model.thy ===== *)
theory Float_Model
  imports Prelude "HOL-Library.Log_Nat"
begin

text \<open>
  The C++ types \<open>float\<close> and \<open>double\<close> as the code uses them: finite values are rationals, every
  operation rounds its exact result to the nearest value of the format, ties to even, with
  subnormals and overflow to infinity. The sign of zero is not represented. The conversion to
  an integer type truncates, and is undefined (\<open>None\<close>) outside the range of the type.

  The lemmas say when no rounding happens (integers below \<open>2 ^ p\<close>) and that rounding does not
  cross an integer bound, which is what the index computations of the parsers rest on.
\<close>

datatype fp = Fin rat | Inf bool | NaN

section \<open>Rounding\<close>

definition rne :: "rat \<Rightarrow> int" where
  "rne x = (let f = \<lfloor>x\<rfloor>; d = x - of_int f
            in if d < 1 / 2 then f else if 1 / 2 < d then f + 1
               else if even f then f else f + 1)"

text \<open>The exponent of a positive number: \<open>2 powi e \<le> x < 2 powi (e + 1)\<close>.\<close>

definition elog :: "rat \<Rightarrow> int" where
  "elog x = (let (a, b) = quotient_of x; k = bitlen a - bitlen b
             in if 2 powi k \<le> x then k else k - 1)"

definition ulp :: "int \<Rightarrow> int \<Rightarrow> rat \<Rightarrow> rat" where
  "ulp p emin x = 2 powi (max (elog \<bar>x\<bar>) emin - p + 1)"

definition round_to :: "int \<Rightarrow> int \<Rightarrow> rat \<Rightarrow> rat" where
  "round_to p emin x = (if x = 0 then 0 else of_int (rne (x / ulp p emin x)) * ulp p emin x)"

definition fp_round :: "int \<Rightarrow> int \<Rightarrow> int \<Rightarrow> rat \<Rightarrow> fp" where
  "fp_round p emin emax x =
     (let r = round_to p emin x in if 2 powi (emax + 1) \<le> \<bar>r\<bar> then Inf (x > 0) else Fin r)"

definition f32 :: "rat \<Rightarrow> fp" where
  "f32 = fp_round 24 (-126) 127"

definition f64 :: "rat \<Rightarrow> fp" where
  "f64 = fp_round 53 (-1022) 1023"

section \<open>Operations\<close>

text \<open>\<open>rnd\<close> is \<open>f32\<close> or \<open>f64\<close>, the type of the operation.\<close>

fun fp_conv :: "(rat \<Rightarrow> fp) \<Rightarrow> fp \<Rightarrow> fp" where
  "fp_conv rnd (Fin x) = rnd x"
| "fp_conv rnd v = v"

fun fp_neg :: "fp \<Rightarrow> fp" where
  "fp_neg (Fin x) = Fin (- x)"
| "fp_neg (Inf s) = Inf (\<not> s)"
| "fp_neg NaN = NaN"

fun fp_add :: "(rat \<Rightarrow> fp) \<Rightarrow> fp \<Rightarrow> fp \<Rightarrow> fp" where
  "fp_add rnd (Fin x) (Fin y) = rnd (x + y)"
| "fp_add rnd (Inf s) (Inf t) = (if s = t then Inf s else NaN)"
| "fp_add rnd (Inf s) (Fin y) = Inf s"
| "fp_add rnd (Fin x) (Inf t) = Inf t"
| "fp_add rnd NaN v = NaN"
| "fp_add rnd v NaN = NaN"

definition fp_sub :: "(rat \<Rightarrow> fp) \<Rightarrow> fp \<Rightarrow> fp \<Rightarrow> fp" where
  "fp_sub rnd a b = fp_add rnd a (fp_neg b)"

fun fp_mul :: "(rat \<Rightarrow> fp) \<Rightarrow> fp \<Rightarrow> fp \<Rightarrow> fp" where
  "fp_mul rnd (Fin x) (Fin y) = rnd (x * y)"
| "fp_mul rnd (Inf s) (Inf t) = Inf (s = t)"
| "fp_mul rnd (Inf s) (Fin y) = (if y = 0 then NaN else Inf (s = (y > 0)))"
| "fp_mul rnd (Fin x) (Inf t) = (if x = 0 then NaN else Inf (t = (x > 0)))"
| "fp_mul rnd NaN v = NaN"
| "fp_mul rnd v NaN = NaN"

text \<open>A division by zero gives an infinity of the sign of the dividend (a positive zero).\<close>

fun fp_div :: "(rat \<Rightarrow> fp) \<Rightarrow> fp \<Rightarrow> fp \<Rightarrow> fp" where
  "fp_div rnd (Fin x) (Fin y) =
     (if y = 0 then (if x = 0 then NaN else Inf (x > 0)) else rnd (x / y))"
| "fp_div rnd (Inf s) (Inf t) = NaN"
| "fp_div rnd (Inf s) (Fin y) = Inf (s = (y \<ge> 0))"
| "fp_div rnd (Fin x) (Inf t) = Fin 0"
| "fp_div rnd NaN v = NaN"
| "fp_div rnd v NaN = NaN"

fun fp_lt :: "fp \<Rightarrow> fp \<Rightarrow> bool" where
  "fp_lt (Fin x) (Fin y) = (x < y)"
| "fp_lt (Inf s) (Inf t) = (\<not> s \<and> t)"
| "fp_lt (Inf s) (Fin y) = (\<not> s)"
| "fp_lt (Fin x) (Inf t) = t"
| "fp_lt NaN v = False"
| "fp_lt v NaN = False"

fun fp_le :: "fp \<Rightarrow> fp \<Rightarrow> bool" where
  "fp_le (Fin x) (Fin y) = (x \<le> y)"
| "fp_le (Inf s) (Inf t) = (\<not> s \<or> t)"
| "fp_le (Inf s) (Fin y) = (\<not> s)"
| "fp_le (Fin x) (Inf t) = t"
| "fp_le NaN v = False"
| "fp_le v NaN = False"

text \<open>Conversions: to \<open>float\<close> and \<open>double\<close> from an integer, and back to an integer type.\<close>

definition f32_of_int :: "int \<Rightarrow> fp" where
  "f32_of_int i = f32 (of_int i)"

definition f64_of_int :: "int \<Rightarrow> fp" where
  "f64_of_int i = f64 (of_int i)"

definition trunc :: "rat \<Rightarrow> int" where
  "trunc x = (if 0 \<le> x then \<lfloor>x\<rfloor> else \<lceil>x\<rceil>)"

fun fp_to_range :: "int \<Rightarrow> int \<Rightarrow> fp \<Rightarrow> int option" where
  "fp_to_range lo hi (Fin x) = (if lo \<le> trunc x \<and> trunc x \<le> hi then Some (trunc x) else None)"
| "fp_to_range lo hi _ = None"

definition fp_to_int :: "fp \<Rightarrow> int option" where
  "fp_to_int = fp_to_range (-2147483648) 2147483647"

definition fp_to_u16 :: "fp \<Rightarrow> int option" where
  "fp_to_u16 = fp_to_range 0 65535"

section \<open>Rounding to the nearest integer\<close>

lemma rne_of_int [simp]: "rne (of_int n) = n"
  by (simp add: rne_def)

lemma rne_le: "x \<le> of_int n \<Longrightarrow> rne x \<le> n"
proof -
  assume x: "x \<le> of_int n"
  then have "\<lfloor>x\<rfloor> \<le> n" by (metis floor_mono floor_of_int)
  moreover have "\<lfloor>x\<rfloor> = n \<Longrightarrow> x = of_int n"
    using x by (metis antisym of_int_floor_le)
  ultimately show ?thesis
    by (cases "\<lfloor>x\<rfloor> = n") (auto simp: rne_def Let_def)
qed

lemma rne_ge: "of_int n \<le> x \<Longrightarrow> n \<le> rne x"
proof -
  assume "of_int n \<le> x"
  then have "n \<le> \<lfloor>x\<rfloor>" by (simp add: le_floor_iff)
  then show ?thesis by (auto simp: rne_def Let_def)
qed

section \<open>The exponent\<close>

lemma bitlen_bounds':
  assumes "0 < (a :: int)"
  shows "2 powi (bitlen a - 1) \<le> (of_int a :: rat)" and "(of_int a :: rat) < 2 powi bitlen a"
proof -
  have "0 < bitlen a"
    using assms bitlen_nonneg [of a] bitlen_eq_zero_iff [of a] by linarith
  then obtain n where n: "bitlen a = int (Suc n)"
    by (metis gr0_conv_Suc zero_less_imp_eq_int)
  have "2 ^ nat (bitlen a - 1) \<le> a \<and> a < 2 ^ nat (bitlen a)"
    using bitlen_bounds [of a] assms by simp
  then have "2 ^ n \<le> a" "a < 2 ^ Suc n" using n by (auto simp: nat_add_distrib)
  then have "(of_int (2 ^ n) :: rat) \<le> of_int a" "(of_int a :: rat) < of_int (2 ^ Suc n)"
    by (simp_all only: of_int_le_iff of_int_less_iff)
  then show "2 powi (bitlen a - 1) \<le> (of_int a :: rat)" "(of_int a :: rat) < 2 powi bitlen a"
    using n by (simp_all add: power_int_def nat_add_distrib)
qed

lemma elog_spec:
  assumes "0 < x"
  shows "2 powi (elog x) \<le> x" and "x < 2 powi (elog x + 1)"
proof -
  obtain a b where q: "quotient_of x = (a, b)" by force
  have b: "0 < b" and x: "x = of_int a / of_int b"
    using q by (simp_all add: quotient_of_denom_pos quotient_of_div)
  have a: "0 < a" using assms x b by (simp add: zero_less_divide_iff)
  define k where "k = bitlen a - bitlen b"
  have up: "x < 2 powi (k + 1)"
  proof -
    have "of_int a < (2 :: rat) powi bitlen a" using bitlen_bounds' [OF a] by simp
    also have "(2 :: rat) powi bitlen a = 2 powi (k + 1) * 2 powi (bitlen b - 1)"
      by (simp add: k_def power_int_add power_int_diff)
    also have "\<dots> \<le> 2 powi (k + 1) * of_int b"
      using bitlen_bounds' [OF b] by (intro mult_left_mono) simp_all
    finally show ?thesis using b by (simp add: x divide_less_eq)
  qed
  have lo: "2 powi (k - 1) \<le> x"
  proof -
    have "2 powi (k - 1) * (of_int b :: rat) \<le> 2 powi (k - 1) * 2 powi bitlen b"
      using bitlen_bounds' [OF b] by (intro mult_left_mono) simp_all
    also have "\<dots> = 2 powi (bitlen a - 1)"
      by (simp add: k_def power_int_add power_int_diff)
    also have "\<dots> \<le> of_int a" using bitlen_bounds' [OF a] by simp
    finally show ?thesis using b by (simp add: x le_divide_eq)
  qed
  show "2 powi (elog x) \<le> x" "x < 2 powi (elog x + 1)"
    using up lo by (auto simp: elog_def q k_def Let_def)
qed

lemma powi_mono: "m \<le> n \<Longrightarrow> (2 :: rat) powi m \<le> 2 powi n"
proof -
  assume "m \<le> n"
  then have "(1 :: rat) \<le> 2 powi (n - m)"
    by (simp add: power_int_def)
  then have "2 powi m * 1 \<le> 2 powi m * (2 :: rat) powi (n - m)"
    by (intro mult_left_mono) simp_all
  then show ?thesis by (simp flip: power_int_add)
qed

lemma elog_less:
  assumes "0 < x" and "x < 2 powi n"
  shows "elog x < n"
proof (rule ccontr)
  assume "\<not> elog x < n"
  then have "(2 :: rat) powi n \<le> 2 powi (elog x)" by (intro powi_mono) simp
  with elog_spec(1) [OF assms(1)] assms(2) show False by linarith
qed

lemma elog_le: "0 < x \<Longrightarrow> x \<le> 2 powi n \<Longrightarrow> elog x \<le> n"
  using elog_less [of x "n + 1"] by (auto simp: power_int_add)

section \<open>When rounding is exact, and what it does not cross\<close>

lemma ulp_fraction:
  assumes "x \<noteq> 0" and "\<bar>x\<bar> < 2 powi p" and "emin < p"
  obtains k :: nat where "ulp p emin x = 1 / 2 ^ k"
proof -
  have "elog \<bar>x\<bar> < p" using assms(1,2) by (intro elog_less) auto
  then have "max (elog \<bar>x\<bar>) emin - p + 1 \<le> 0" using assms(3) by simp
  then obtain k where "max (elog \<bar>x\<bar>) emin - p + 1 = - int k"
    by (metis nonpos_int_cases)
  then have "ulp p emin x = 1 / 2 ^ k"
    by (simp add: ulp_def power_int_minus divide_inverse)
  then show thesis by (rule that)
qed

lemma round_to_int:
  assumes "\<bar>of_int i\<bar> < (2 :: rat) powi p" and "emin < p"
  shows "round_to p emin (of_int i) = of_int i"
proof (cases "i = 0")
  case False
  then obtain k :: nat where k: "ulp p emin (of_int i) = 1 / 2 ^ k"
    using ulp_fraction [of "of_int i" p emin] assms by auto
  have "of_int i / ulp p emin (of_int i) = (of_int (i * 2 ^ k) :: rat)"
    by (simp add: k)
  then show ?thesis using False by (simp only: round_to_def rne_of_int) (simp add: k)
qed (simp add: round_to_def)

text \<open>Rounding does not cross the multiples of \<open>2 powi d\<close> that have at most \<open>p\<close> bits.\<close>

lemma ulp_scaled:
  assumes "x \<noteq> 0" and "\<bar>x\<bar> < 2 powi (p + d)" and "emin < p + d"
  obtains k :: nat where "ulp p emin x = 2 powi d / 2 ^ k"
proof -
  have "elog \<bar>x\<bar> < p + d" using assms(1,2) by (intro elog_less) auto
  then have "max (elog \<bar>x\<bar>) emin - p + 1 - d \<le> 0" using assms(3) by simp
  then obtain k where "max (elog \<bar>x\<bar>) emin - p + 1 - d = - int k"
    by (metis nonpos_int_cases)
  then have "max (elog \<bar>x\<bar>) emin - p + 1 = d - int k" by simp
  then have "ulp p emin x = 2 powi d / 2 ^ k"
    by (simp add: ulp_def power_int_diff)
  then show thesis by (rule that)
qed

lemma round_to_between_scaled:
  assumes lo: "of_int lo * 2 powi d \<le> x" and hi: "x \<le> of_int hi * 2 powi d"
    and "\<bar>of_int lo\<bar> < (2 :: rat) powi p" and "\<bar>of_int hi\<bar> < (2 :: rat) powi p" and "emin < p + d"
  shows "of_int lo * 2 powi d \<le> round_to p emin x \<and> round_to p emin x \<le> of_int hi * 2 powi d"
proof (cases "x = 0")
  case False
  have d: "(0 :: rat) < 2 powi d" by simp
  have "\<bar>of_int lo * 2 powi d\<bar> < (2 :: rat) powi (p + d)" "\<bar>of_int hi * 2 powi d\<bar> < (2 :: rat) powi (p + d)"
    using assms(3,4) by (simp_all add: abs_mult power_int_add)
  then have "\<bar>x\<bar> < 2 powi (p + d)" using lo hi by linarith
  then obtain k :: nat where k: "ulp p emin x = 2 powi d / 2 ^ k"
    using ulp_scaled [of x p d emin] False assms(5) by blast
  have "lo * 2 ^ k \<le> rne (x / ulp p emin x)"
    using lo d by (intro rne_ge) (simp add: k field_simps)
  moreover have "rne (x / ulp p emin x) \<le> hi * 2 ^ k"
    using hi d by (intro rne_le) (simp add: k field_simps)
  ultimately have "(of_int (lo * 2 ^ k) :: rat) \<le> of_int (rne (x / ulp p emin x))"
      "(of_int (rne (x / ulp p emin x)) :: rat) \<le> of_int (hi * 2 ^ k)"
    by (simp_all only: of_int_le_iff)
  then show ?thesis
    using False d by (simp add: round_to_def k field_simps)
qed (use assms in \<open>simp add: round_to_def\<close>)

lemma round_to_between:
  assumes "of_int lo \<le> x" and "x \<le> of_int hi"
    and "\<bar>of_int lo\<bar> < (2 :: rat) powi p" and "\<bar>of_int hi\<bar> < (2 :: rat) powi p" and "emin < p"
  shows "of_int lo \<le> round_to p emin x \<and> round_to p emin x \<le> of_int hi"
  using round_to_between_scaled [of lo 0 x hi p emin] assms by simp

lemma fp_round_int:
  assumes "\<bar>of_int i\<bar> < (2 :: rat) powi p" and "emin < p" and "p \<le> emax + 1"
  shows "fp_round p emin emax (of_int i) = Fin (of_int i)"
proof -
  have "(2 :: rat) powi p \<le> 2 powi (emax + 1)" using assms(3) by (rule powi_mono)
  then show ?thesis
    using assms(1) round_to_int [OF assms(1,2)] by (simp add: fp_round_def)
qed

lemma fp_round_between:
  assumes "of_int lo \<le> x" and "x \<le> of_int hi"
    and "\<bar>of_int lo\<bar> < (2 :: rat) powi p" and "\<bar>of_int hi\<bar> < (2 :: rat) powi p" and "emin < p"
    and "p \<le> emax + 1"
  shows "\<exists>r. fp_round p emin emax x = Fin r \<and> of_int lo \<le> r \<and> r \<le> of_int hi"
proof -
  have r: "of_int lo \<le> round_to p emin x \<and> round_to p emin x \<le> of_int hi"
    by (rule round_to_between [OF assms(1-5)])
  have "(2 :: rat) powi p \<le> 2 powi (emax + 1)" using assms(6) by (rule powi_mono)
  then have "\<not> 2 powi (emax + 1) \<le> \<bar>round_to p emin x\<bar>" using r assms(3,4) by linarith
  then show ?thesis using r by (simp add: fp_round_def)
qed

lemma f32_int: "\<bar>i\<bar> < 16777216 \<Longrightarrow> f32 (of_int i) = Fin (of_int i)"
  unfolding f32_def by (rule fp_round_int) (simp_all flip: of_int_abs)

lemma f64_int: "\<bar>i\<bar> < 9007199254740992 \<Longrightarrow> f64 (of_int i) = Fin (of_int i)"
  unfolding f64_def by (rule fp_round_int) (simp_all flip: of_int_abs)

lemma f32_between:
  "of_int lo \<le> x \<Longrightarrow> x \<le> of_int hi \<Longrightarrow> \<bar>lo\<bar> < 16777216 \<Longrightarrow> \<bar>hi\<bar> < 16777216 \<Longrightarrow>
   \<exists>r. f32 x = Fin r \<and> of_int lo \<le> r \<and> r \<le> of_int hi"
  unfolding f32_def by (rule fp_round_between) (simp_all flip: of_int_abs)

lemma fp_round_between_scaled:
  assumes "of_int lo * 2 powi d \<le> x" "x \<le> of_int hi * 2 powi d"
    and b: "\<bar>of_int lo\<bar> < (2 :: rat) powi p" "\<bar>of_int hi\<bar> < (2 :: rat) powi p" and "emin < p + d" and "p + d \<le> emax + 1"
  shows "\<exists>r. fp_round p emin emax x = Fin r \<and> of_int lo * 2 powi d \<le> r \<and> r \<le> of_int hi * 2 powi d"
proof -
  have r: "of_int lo * 2 powi d \<le> round_to p emin x \<and> round_to p emin x \<le> of_int hi * 2 powi d"
    using round_to_between_scaled [OF assms(1,2) b assms(5)] .
  have "\<bar>of_int lo * 2 powi d\<bar> < (2 :: rat) powi (p + d)" "\<bar>of_int hi * 2 powi d\<bar> < (2 :: rat) powi (p + d)"
    using b by (simp_all add: abs_mult power_int_add)
  moreover have "(2 :: rat) powi (p + d) \<le> 2 powi (emax + 1)" by (rule powi_mono) (rule assms(6))
  ultimately have "\<not> 2 powi (emax + 1) \<le> \<bar>round_to p emin x\<bar>" using r by linarith
  then show ?thesis using r by (simp add: fp_round_def)
qed

lemma f32_between_scaled:
  assumes "of_int lo * 2 powi d \<le> x" "x \<le> of_int hi * 2 powi d" and "\<bar>lo\<bar> < 16777216" "\<bar>hi\<bar> < 16777216"
    and d: "-100 \<le> d" "d \<le> 100"
  shows "\<exists>r. f32 x = Fin r \<and> of_int lo * 2 powi d \<le> r \<and> r \<le> of_int hi * 2 powi d"
  unfolding f32_def using assms by (intro fp_round_between_scaled) (simp_all flip: of_int_abs)

lemma f64_between_scaled:
  assumes "of_int lo * 2 powi d \<le> x" "x \<le> of_int hi * 2 powi d" and "\<bar>lo\<bar> < 9007199254740992" "\<bar>hi\<bar> < 9007199254740992"
    and d: "-900 \<le> d" "d \<le> 900"
  shows "\<exists>r. f64 x = Fin r \<and> of_int lo * 2 powi d \<le> r \<and> r \<le> of_int hi * 2 powi d"
  unfolding f64_def using assms by (intro fp_round_between_scaled) (simp_all flip: of_int_abs)

lemma f32_half: "\<bar>i\<bar> < 16777216 \<Longrightarrow> f32 (of_int i / 2) = Fin (of_int i / 2)"
  using f32_between_scaled [of i "-1" "of_int i / 2" i] by auto

lemma f64_half: "\<bar>i\<bar> < 9007199254740992 \<Longrightarrow> f64 (of_int i / 2) = Fin (of_int i / 2)"
  using f64_between_scaled [of i "-1" "of_int i / 2" i] by auto

lemma f64_between:
  "of_int lo \<le> x \<Longrightarrow> x \<le> of_int hi \<Longrightarrow> \<bar>lo\<bar> < 9007199254740992 \<Longrightarrow>
   \<bar>hi\<bar> < 9007199254740992 \<Longrightarrow> \<exists>r. f64 x = Fin r \<and> of_int lo \<le> r \<and> r \<le> of_int hi"
  unfolding f64_def by (rule fp_round_between) (simp_all flip: of_int_abs)

lemma trunc_of_int [simp]: "trunc (of_int i) = i"
  by (simp add: trunc_def)

lemma trunc_between: "of_int lo \<le> x \<Longrightarrow> x \<le> of_int hi \<Longrightarrow> lo \<le> trunc x \<and> trunc x \<le> hi"
  by (auto simp: trunc_def le_floor_iff floor_le_iff ceiling_le_iff le_ceiling_iff)

lemma fp_to_int_between:
  assumes "of_int lo \<le> x" and "x \<le> of_int hi" and "-2147483648 \<le> lo" and "hi \<le> 2147483647"
  shows "\<exists>i. fp_to_int (Fin x) = Some i \<and> lo \<le> i \<and> i \<le> hi"
  using trunc_between [OF assms(1,2)] assms(3,4) by (simp add: fp_to_int_def)

lemma fp_to_int_of_int [simp]:
  "\<bar>i\<bar> < 2147483648 \<Longrightarrow> fp_to_int (Fin (of_int i)) = Some i"
  by (auto simp: fp_to_int_def abs_less_iff)

section \<open>Bounded values\<close>

text \<open>A finite value of at most \<open>n\<close> in magnitude, with a rule for each operation.\<close>

definition fp_abs :: "int \<Rightarrow> fp \<Rightarrow> bool" where
  "fp_abs n v \<longleftrightarrow> (case v of Fin x \<Rightarrow> \<bar>x\<bar> \<le> of_int n | _ \<Rightarrow> False)"

lemma fp_absI: "-n \<le> i \<Longrightarrow> i \<le> n \<Longrightarrow> fp_abs n (Fin (of_int i))"
  by (simp add: fp_abs_def abs_le_iff flip: of_int_minus)

lemma fp_absE:
  assumes "fp_abs n v"
  obtains x where "v = Fin x" "\<bar>x\<bar> \<le> of_int n"
  using assms by (auto simp: fp_abs_def split: fp.splits)

lemma f32_abs: "\<bar>x\<bar> \<le> of_int n \<Longrightarrow> n < 16777216 \<Longrightarrow> fp_abs n (f32 x)"
proof -
  assume a: "\<bar>x\<bar> \<le> of_int n" "n < 16777216"
  then have "(0 :: rat) \<le> of_int n" by (metis abs_ge_zero order_trans)
  then have "\<bar>n\<bar> < 16777216" "\<bar>-n\<bar> < 16777216" using a(2) by simp_all
  then show ?thesis using f32_between [of "-n" x n] a(1) by (auto simp: fp_abs_def abs_le_iff)
qed

lemma f64_abs: "\<bar>x\<bar> \<le> of_int n \<Longrightarrow> n < 9007199254740992 \<Longrightarrow> fp_abs n (f64 x)"
proof -
  assume a: "\<bar>x\<bar> \<le> of_int n" "n < 9007199254740992"
  then have "(0 :: rat) \<le> of_int n" by (metis abs_ge_zero order_trans)
  then have "\<bar>n\<bar> < 9007199254740992" "\<bar>-n\<bar> < 9007199254740992" using a(2) by simp_all
  then show ?thesis using f64_between [of "-n" x n] a(1) by (auto simp: fp_abs_def abs_le_iff)
qed

lemma fadd_abs: "fp_abs m a \<Longrightarrow> fp_abs n b \<Longrightarrow> m + n < 16777216 \<Longrightarrow> fp_abs (m + n) (fp_add f32 a b)"
  by (elim fp_absE) (auto intro!: f32_abs)

lemma fsub_abs: "fp_abs m a \<Longrightarrow> fp_abs n b \<Longrightarrow> m + n < 16777216 \<Longrightarrow> fp_abs (m + n) (fp_sub f32 a b)"
  by (elim fp_absE) (auto simp: fp_sub_def intro!: f32_abs)

lemma fmul_abs: "fp_abs m a \<Longrightarrow> fp_abs n b \<Longrightarrow> m * n < 16777216 \<Longrightarrow> fp_abs (m * n) (fp_mul f32 a b)"
  by (elim fp_absE) (auto simp: abs_mult intro!: f32_abs mult_mono)

lemma to_int_abs: "fp_abs n v \<Longrightarrow> n \<le> 2147483647 \<Longrightarrow> \<exists>i. fp_to_int v = Some i \<and> \<bar>i\<bar> \<le> n"
proof (elim fp_absE)
  fix x assume "v = Fin x" "\<bar>x\<bar> \<le> of_int n" "n \<le> 2147483647"
  then show ?thesis using fp_to_int_between [of "-n" x n] by (auto simp: abs_le_iff)
qed

end
