(* ===== verification/Text_Input.thy ===== *)
theory Text_Input
  imports Float_Model
begin

text \<open>
  The parts of the C++ library with which the loaders of textual files read: string streams with
  \<open>std::getline\<close>, the extraction of numbers with \<open>>>\<close>, the conversions \<open>std::stoi\<close>, \<open>std::stof\<close>, \<open>std::stod\<close>
  and \<open>atoi\<close>, and \<open>split_string\<close> of \<open>src/libhesai/include/plat_utils.h\<close>. Characters are ASCII and the
  locale is that of C. A string is the list of its characters, a \<open>char *\<close> the list of the bytes that
  may be read behind it.
\<close>

section \<open>Strings\<close>

text \<open>The conversion of a \<open>char *\<close>, which reads up to the first zero.\<close>

definition c_string :: "u8 list \<Rightarrow> string option" where
  "c_string data = (if 0 \<in> set data then Some (map (\<lambda>b. char_of (unat b)) (takeWhile (\<lambda>b. b \<noteq> 0) data)) else None)"

definition chars_of :: "u8 list \<Rightarrow> string" where
  "chars_of = map (\<lambda>b. char_of (unat b))"

definition bytes_of :: "string \<Rightarrow> u8 list" where
  "bytes_of = map (\<lambda>c. word_of_nat (of_char c))"

definition newline :: char where
  "newline = CHR 0x0A"

text \<open>\<open>isspace\<close>\<close>

definition is_space :: "char \<Rightarrow> bool" where
  "is_space c \<longleftrightarrow> (let n = (of_char c :: nat) in n = 32 \<or> 9 \<le> n \<and> n \<le> 13)"

section \<open>Streams\<close>

record istream =
  is_text :: string
  is_eof :: bool
  is_fail :: bool

definition istringstream :: "string \<Rightarrow> istream" where
  "istringstream text = \<lparr> is_text = text, is_eof = False, is_fail = False \<rparr>"

text \<open>
  \<open>std::getline(st, s, d)\<close>: a stream at its end or in an error leaves the string as it is; otherwise
  the string becomes the characters up to the delimiter, which is dropped. It is an error to find no
  character and no delimiter.
\<close>

definition getline :: "char \<Rightarrow> istream \<Rightarrow> string \<Rightarrow> string \<times> istream" where
  "getline d st s =
     (if is_eof st \<or> is_fail st then (s, st \<lparr> is_fail := True \<rparr>)
      else let tok = takeWhile (\<lambda>c. c \<noteq> d) (is_text st) in
        case dropWhile (\<lambda>c. c \<noteq> d) (is_text st) of
          [] \<Rightarrow> (tok, \<lparr> is_text = [], is_eof = True, is_fail = (tok = []) \<rparr>)
        | _ # rest \<Rightarrow> (tok, \<lparr> is_text = rest, is_eof = False, is_fail = False \<rparr>))"

definition is_size :: "istream \<Rightarrow> nat" where
  "is_size st = (if is_eof st \<or> is_fail st then 0 else Suc (length (is_text st)))"

lemma getline_size:
  assumes "getline d st s = (t, st')" and "\<not> is_fail st'"
  shows "is_size st' < is_size st"
proof -
  have "length r < length (is_text st)" if "dropWhile (\<lambda>c. c \<noteq> d) (is_text st) = c # r" for c r
    using that length_dropWhile_le [of "\<lambda>c. c \<noteq> d" "is_text st"] by simp
  with assms show ?thesis by (auto simp: getline_def is_size_def Let_def split: if_splits list.splits)
qed

text \<open>\<open>while (std::getline(st, s, d))\<close>: the strings of the iterations.\<close>

function read_lines :: "char \<Rightarrow> istream \<Rightarrow> string \<Rightarrow> string list" where
  "read_lines d st s = (let (t, st') = getline d st s in if is_fail st' then [] else t # read_lines d st' t)"
  by pat_completeness auto
termination by (relation "measure (\<lambda>(d, st, s). is_size st)") (auto intro: getline_size dest: sym)

declare read_lines.simps [simp del]

definition split_string :: "string \<Rightarrow> char \<Rightarrow> string list" where
  "split_string s delimiter = read_lines delimiter (istringstream s) []"

section \<open>Numbers\<close>

definition digit_value :: "char \<Rightarrow> nat" where
  "digit_value c = (let n = of_char c in
     if 48 \<le> n \<and> n \<le> 57 then n - 48 else if 97 \<le> n \<and> n \<le> 102 then n - 87
     else if 65 \<le> n \<and> n \<le> 70 then n - 55 else 16)"

definition is_digit :: "nat \<Rightarrow> char \<Rightarrow> bool" where
  "is_digit base c \<longleftrightarrow> digit_value c < base"

definition digits_value :: "nat \<Rightarrow> string \<Rightarrow> nat" where
  "digits_value base ds = foldl (\<lambda>v c. v * base + digit_value c) 0 ds"

text \<open>A sign, if there is one.\<close>

definition read_sign :: "string \<Rightarrow> bool \<times> string" where
  "read_sign s = (case s of [] \<Rightarrow> (False, s)
     | c # r \<Rightarrow> if c = CHR ''-'' then (True, r) else if c = CHR ''+'' then (False, r) else (False, s))"

definition with_sign :: "bool \<Rightarrow> 'a::uminus \<Rightarrow> 'a" where
  "with_sign neg x = (if neg then - x else x)"

text \<open>A decimal integer: \<open>None\<close> without digits.\<close>

definition read_int :: "string \<Rightarrow> int option" where
  "read_int s =
     (let (neg, u) = read_sign (dropWhile is_space s); ds = takeWhile (is_digit 10) u
      in if ds = [] then None else Some (with_sign neg (int (digits_value 10 ds))))"

text \<open>
  \<open>std::stringstream(s) >> v\<close> for an \<open>int\<close>: nothing but spaces leaves the variable as it is, no number
  gives 0, a number out of range the end of the range.
\<close>

definition extract_int :: "string \<Rightarrow> int \<Rightarrow> int" where
  "extract_int s old =
     (if dropWhile is_space s = [] then old
      else case read_int s of None \<Rightarrow> 0 | Some v \<Rightarrow> max (-2147483648) (min 2147483647 v))"

text \<open>\<open>std::stoi\<close>: \<open>None\<close> when it throws. \<open>atoi\<close>: \<open>None\<close> when its behaviour is undefined.\<close>

definition stoi :: "string \<Rightarrow> int option" where
  "stoi s = do { v \<leftarrow> read_int s; if -2147483648 \<le> v \<and> v \<le> 2147483647 then Some v else None }"

definition atoi :: "string \<Rightarrow> int option" where
  "atoi s = (case read_int s of None \<Rightarrow> Some 0
     | Some v \<Rightarrow> if -2147483648 \<le> v \<and> v \<le> 2147483647 then Some v else None)"

text \<open>The digits of a number, before and behind the point, and what follows them.\<close>

definition read_mantissa :: "nat \<Rightarrow> string \<Rightarrow> string \<times> string \<times> string" where
  "read_mantissa base u =
     (let ip = takeWhile (is_digit base) u; r = dropWhile (is_digit base) u in
      case r of [] \<Rightarrow> (ip, [], [])
      | c # r' \<Rightarrow> if c = CHR ''.'' then (ip, takeWhile (is_digit base) r', dropWhile (is_digit base) r')
                  else (ip, [], r))"

text \<open>An exponent behind one of the letters \<open>marks\<close>: \<open>None\<close> without a letter, else whether it has digits.\<close>

definition read_exponent :: "char set \<Rightarrow> string \<Rightarrow> (bool \<times> int) option" where
  "read_exponent marks r = (case r of [] \<Rightarrow> None
     | c # r' \<Rightarrow> if c \<notin> marks then None
        else let (neg, w) = read_sign r'; ds = takeWhile (is_digit 10) w
             in Some (ds \<noteq> [], with_sign neg (int (digits_value 10 ds))))"

definition number_value :: "nat \<Rightarrow> rat \<Rightarrow> bool \<Rightarrow> string \<Rightarrow> string \<Rightarrow> int \<Rightarrow> rat" where
  "number_value base ebase neg ip fr e =
     with_sign neg (of_nat (digits_value base (ip @ fr)) / of_nat base ^ length fr * ebase powi e)"

definition max_float :: rat where
  "max_float = (2 ^ 24 - 1) * 2 ^ 104"

text \<open>
  \<open>std::stringstream(s) >> v\<close> for a \<open>float\<close>, whose variable is uninitialised (\<open>None\<close>) in all the code: the
  number is decimal, a letter of an exponent without digits makes it invalid, and a number out of range
  gives the largest one.
\<close>

definition stream_float :: "rat \<Rightarrow> fp" where
  "stream_float x = (case f32 x of Inf pos \<Rightarrow> Fin (if pos then max_float else - max_float) | v \<Rightarrow> v)"

definition extract_float :: "string \<Rightarrow> fp option \<Rightarrow> fp option" where
  "extract_float s old =
     (if dropWhile is_space s = [] then old
      else let (neg, u) = read_sign (dropWhile is_space s); (ip, fr, r) = read_mantissa 10 u;
             value = (\<lambda>e. stream_float (number_value 10 10 neg ip fr e))
           in Some (if ip @ fr = [] then Fin 0
              else case read_exponent {CHR ''e'', CHR ''E''} r of
                None \<Rightarrow> value 0 | Some (ok, e) \<Rightarrow> if ok then value e else Fin 0))"

text \<open>
  \<open>strtof\<close> and \<open>strtod\<close>: decimal and hexadecimal numbers, infinities and \<open>nan\<close>. The result is the exact
  number or a special value; \<open>None\<close> without a conversion.
\<close>

definition lower :: "char \<Rightarrow> char" where
  "lower c = (let n = (of_char c :: nat) in if 65 \<le> n \<and> n \<le> 90 then char_of (n + 32) else c)"

definition read_number :: "string \<Rightarrow> fp option" where
  "read_number s =
     (let (neg, u) = read_sign (dropWhile is_space s);
          special = map lower (take 3 u);
          number = (\<lambda>base ebase marks u.
            let (ip, fr, r) = read_mantissa base u in
            if ip @ fr = [] then None
            else Some (Fin (number_value base ebase neg ip fr
                   (case read_exponent marks r of Some (True, e) \<Rightarrow> e | _ \<Rightarrow> 0))))
      in if special = ''inf'' then Some (Inf (\<not> neg))
         else if special = ''nan'' then Some NaN
         else if map lower (take 2 u) = ''0x'' \<and> number 16 2 {CHR ''p'', CHR ''P''} (drop 2 u) \<noteq> None
         then number 16 2 {CHR ''p'', CHR ''P''} (drop 2 u)
         else number 10 10 {CHR ''e'', CHR ''E''} u)"

text \<open>
  \<open>std::stof\<close> and \<open>std::stod\<close>: \<open>None\<close> when they throw, without a conversion and when the number overflows
  or is so small that it is rounded to a subnormal number. \<open>tiny\<close> is the smallest normal number.
\<close>

definition sto_float :: "(rat \<Rightarrow> fp) \<Rightarrow> rat \<Rightarrow> string \<Rightarrow> fp option" where
  "sto_float rnd tiny s =
     (case read_number s of None \<Rightarrow> None
      | Some (Fin x) \<Rightarrow> (case rnd x of Fin v \<Rightarrow> if \<bar>v\<bar> < tiny \<and> v \<noteq> x then None else Some (Fin v) | _ \<Rightarrow> None)
      | Some v \<Rightarrow> Some v)"

definition stof :: "string \<Rightarrow> fp option" where
  "stof = sto_float f32 (2 powi (-126))"

definition stod :: "string \<Rightarrow> fp option" where
  "stod = sto_float f64 (2 powi (-1022))"

section \<open>Lines and cells\<close>

lemma token:
  assumes "d \<notin> set t"
  shows "takeWhile (\<lambda>c. c \<noteq> d) (t @ d # r) = t" "dropWhile (\<lambda>c. c \<noteq> d) (t @ d # r) = d # r"
    "takeWhile (\<lambda>c. c \<noteq> d) t = t" "dropWhile (\<lambda>c. c \<noteq> d) t = []"
  using assms by (induction t) auto

lemma getline_delim:
  assumes "d \<notin> set t"
  shows "getline d (istringstream (t @ d # r)) s = (t, istringstream r)"
  using assms by (simp add: getline_def istringstream_def token)

lemma getline_last:
  assumes "d \<notin> set t" and "t \<noteq> []"
  shows "getline d (istringstream t) s = (t, \<lparr> is_text = [], is_eof = True, is_fail = False \<rparr>)"
  using assms by (simp add: getline_def istringstream_def token)

lemma getline_empty: "getline d (istringstream []) s = ([], \<lparr> is_text = [], is_eof = True, is_fail = True \<rparr>)"
  by (simp add: getline_def istringstream_def)

lemma istringstream_sel [simp]:
  "is_text (istringstream t) = t" "\<not> is_eof (istringstream t)" "\<not> is_fail (istringstream t)"
  by (simp_all add: istringstream_def)

lemma read_lines_ended: "is_eof st \<or> is_fail st \<Longrightarrow> read_lines d st s = []"
  by (subst read_lines.simps) (auto simp: getline_def)

lemma read_lines_empty [simp]: "read_lines d (istringstream []) s = []"
  by (subst read_lines.simps) (simp add: getline_empty)

lemma read_lines_delim:
  assumes "d \<notin> set t"
  shows "read_lines d (istringstream (t @ d # r)) s = t # read_lines d (istringstream r) t"
  by (subst read_lines.simps) (simp add: getline_delim [OF assms])

lemma read_lines_last:
  assumes "d \<notin> set t" and "t \<noteq> []"
  shows "read_lines d (istringstream t) s = [t]"
  by (subst read_lines.simps) (simp add: getline_last [OF assms] read_lines_ended)

text \<open>A text of complete lines.\<close>

definition unlines :: "char \<Rightarrow> string list \<Rightarrow> string" where
  "unlines d ts = concat (map (\<lambda>t. t @ [d]) ts)"

lemma unlines_simps [simp]: "unlines d [] = []" "unlines d (t # ts) = t @ d # unlines d ts"
  by (simp_all add: unlines_def)

lemma read_lines_unlines: "\<forall>t\<in>set ts. d \<notin> set t \<Longrightarrow> read_lines d (istringstream (unlines d ts)) s = ts"
  by (induction ts arbitrary: s) (simp_all add: read_lines_delim)

lemma split_string_cells:
  "d \<notin> set t \<Longrightarrow> split_string (t @ d # r) d = t # read_lines d (istringstream r) t"
  "d \<notin> set t \<Longrightarrow> t \<noteq> [] \<Longrightarrow> split_string t d = [t]"
  by (simp_all add: split_string_def read_lines_delim read_lines_last)

section \<open>Printed numbers\<close>

fun dec :: "nat \<Rightarrow> string" where
  "dec n = (if n < 10 then [char_of (48 + n)] else dec (n div 10) @ [char_of (48 + n mod 10)])"

declare dec.simps [simp del]

text \<open>A number with a fraction, in fixed notation.\<close>

definition fixed :: "bool \<Rightarrow> nat \<Rightarrow> string \<Rightarrow> string" where
  "fixed neg ip fr = (if neg then ''-'' else []) @ dec ip @ ''.'' @ fr"

definition fixed_value :: "bool \<Rightarrow> nat \<Rightarrow> string \<Rightarrow> rat" where
  "fixed_value neg ip fr = with_sign neg (of_nat ip + of_nat (digits_value 10 fr) / 10 ^ length fr)"

definition is_number_char :: "char \<Rightarrow> bool" where
  "is_number_char c \<longleftrightarrow> is_digit 10 c \<or> c = CHR ''-'' \<or> c = CHR ''.''"

lemma digit_of_nat: "n < 10 \<Longrightarrow> digit_value (char_of (48 + n)) = n"
  by (simp add: digit_value_def Let_def)

lemma digits_value_snoc: "digits_value b (ds @ [c]) = digits_value b ds * b + digit_value c"
  by (simp add: digits_value_def)

lemma digits_value_append: "digits_value b (xs @ ys) = digits_value b xs * b ^ length ys + digits_value b ys"
proof (induction ys rule: rev_induct)
  case (snoc c ys)
  then show ?case by (simp add: digits_value_snoc flip: append_assoc) (simp add: algebra_simps)
qed (simp add: digits_value_def)

lemma dec_digits: "digits_value 10 (dec n) = n" "c \<in> set (dec n) \<Longrightarrow> is_digit 10 c" "dec n \<noteq> []"
proof (induction n rule: dec.induct)
  case (1 n)
  note IH = 1
  { case 1 show ?case using IH(1) by (subst dec.simps) (auto simp: digits_value_snoc digit_of_nat digits_value_def)
  next
    case 2 then show ?case using IH(2)
      by (subst (asm) dec.simps) (auto simp: is_digit_def digit_of_nat split: if_splits)
  next
    case 3 show ?case by (subst dec.simps) simp }
qed

lemma digit_not: "is_digit 10 c \<Longrightarrow> \<not> is_space c \<and> c \<noteq> CHR ''-'' \<and> c \<noteq> CHR ''+'' \<and> c \<noteq> CHR ''.'' \<and> c \<noteq> CHR '','' \<and> c \<noteq> newline"
  by (auto simp: is_digit_def digit_value_def is_space_def Let_def newline_def split: if_splits)

lemma number_char_not: "is_number_char c \<Longrightarrow> c \<noteq> CHR '','' \<and> c \<noteq> newline \<and> of_char c \<noteq> (0::nat) \<and> of_char c < (256::nat)"
  by (auto simp: is_number_char_def is_digit_def digit_value_def Let_def newline_def split: if_splits)

lemma dec_chars: "c \<in> set (dec n) \<Longrightarrow> is_number_char c"
  by (auto simp: is_number_char_def dec_digits(2))

lemma fixed_chars: "\<forall>c\<in>set fr. is_digit 10 c \<Longrightarrow> c \<in> set (fixed neg ip fr) \<Longrightarrow> is_number_char c"
  by (auto simp: fixed_def is_number_char_def dec_digits(2) split: if_splits)

lemma dec_cons: obtains c r where "dec n = c # r" and "is_digit 10 c"
  using dec_digits(2,3) by (metis list.exhaust list.set_intros(1))

lemma no_sign: "is_digit 10 c \<Longrightarrow> read_sign (c # r) = (False, c # r)"
  using digit_not by (auto simp: read_sign_def)

lemma takeWhile_digits:
  assumes "\<forall>c\<in>set ds. P c" and "r = [] \<or> \<not> P (hd r)"
  shows "takeWhile P (ds @ r) = ds" "dropWhile P (ds @ r) = r"
  using assms by (induction ds) (auto simp: takeWhile_eq_Nil_iff dropWhile_eq_self_iff)

lemma dec_start: "dropWhile is_space (dec n) = dec n" "read_sign (dec n) = (False, dec n)"
proof -
  obtain c r where c: "dec n = c # r" "is_digit 10 c" by (rule dec_cons)
  show "dropWhile is_space (dec n) = dec n" "read_sign (dec n) = (False, dec n)"
    unfolding c(1) using digit_not [OF c(2)] no_sign [OF c(2)] by simp_all
qed

lemma read_int_dec: "read_int (dec n) = Some (int n)"
proof -
  have "takeWhile (is_digit 10) (dec n) = dec n" using dec_digits(2) by (simp add: takeWhile_eq_all_conv)
  then show ?thesis unfolding read_int_def dec_start by (simp only: Let_def prod.case) (simp add: dec_digits(1,3) with_sign_def)
qed

lemma int_dec:
  assumes "int n \<le> 2147483647"
  shows "extract_int (dec n) old = int n" "stoi (dec n) = Some (int n)" "atoi (dec n) = Some (int n)"
proof -
  show "extract_int (dec n) old = int n"
    using assms unfolding extract_int_def dec_start read_int_dec by (simp add: dec_digits(3))
  show "stoi (dec n) = Some (int n)" "atoi (dec n) = Some (int n)" using assms by (simp_all add: stoi_def atoi_def read_int_dec)
qed

lemma not_digit: "\<not> is_digit 10 (CHR ''.'')"
  by (simp add: is_digit_def digit_value_def)

lemma mantissa_fixed:
  assumes "\<forall>c\<in>set fr. is_digit 10 c"
  shows "read_mantissa 10 (dec ip @ CHR ''.'' # fr) = (dec ip, fr, [])"
  using assms dec_digits(2) takeWhile_digits [of "dec ip" "is_digit 10" "CHR ''.'' # fr"] takeWhile_digits [of fr "is_digit 10" "[]"]
  by (simp add: read_mantissa_def not_digit)

lemma number_fixed: "number_value 10 10 neg (dec ip) fr 0 = fixed_value neg ip fr"
  by (simp add: number_value_def fixed_value_def with_sign_def digits_value_append dec_digits(1) field_simps)

lemma sign_fixed:
  "dropWhile is_space (fixed neg ip fr) = fixed neg ip fr" "read_sign (fixed neg ip fr) = (neg, dec ip @ CHR ''.'' # fr)"
proof -
  obtain c r where c: "dec ip = c # r" "is_digit 10 c" by (rule dec_cons)
  show "dropWhile is_space (fixed neg ip fr) = fixed neg ip fr"
    using digit_not [OF c(2)] by (simp add: fixed_def c(1) is_space_def)
  show "read_sign (fixed neg ip fr) = (neg, dec ip @ CHR ''.'' # fr)"
    using no_sign [OF c(2)] by (simp add: fixed_def c(1)) (simp add: read_sign_def)
qed

lemma extract_fixed:
  assumes "\<forall>c\<in>set fr. is_digit 10 c"
  shows "extract_float (fixed neg ip fr) old = Some (stream_float (fixed_value neg ip fr))"
proof -
  have "fixed neg ip fr \<noteq> []" by (simp add: fixed_def)
  then show ?thesis
    by (simp add: extract_float_def sign_fixed mantissa_fixed [OF assms] dec_digits(3) read_exponent_def number_fixed)
qed

text \<open>A line of cells.\<close>

fun join :: "string list \<Rightarrow> string" where
  "join [] = []"
| "join [c] = c"
| "join (c # d # cs) = c @ CHR '','' # join (d # cs)"

definition is_cell :: "string \<Rightarrow> bool" where
  "is_cell c \<longleftrightarrow> c \<noteq> [] \<and> CHR '','' \<notin> set c \<and> newline \<notin> set c \<and> (\<forall>x\<in>set c. 0 < (of_char x :: nat))"

lemma read_lines_join:
  "list_all is_cell cs \<Longrightarrow> read_lines CHR '','' (istringstream (join cs)) s = cs"
  by (induction cs arbitrary: s rule: join.induct)
    (simp_all add: is_cell_def read_lines_delim read_lines_last)

lemma split_join: "list_all is_cell cs \<Longrightarrow> split_string (join cs) CHR '','' = cs"
  by (simp add: split_string_def read_lines_join)

lemma join_chars:
  "list_all is_cell cs \<Longrightarrow> x \<in> set (join cs) \<Longrightarrow> x \<noteq> newline \<and> 0 < (of_char x :: nat)"
  by (induction cs rule: join.induct) (auto simp: is_cell_def newline_def)

lemma is_cell_dec: "is_cell (dec n)"
  using dec_digits(3) [of n] dec_chars number_char_not by (auto simp: is_cell_def)

lemma unlines_chars:
  "\<forall>r\<in>set ts. \<forall>x\<in>set r. 0 < (of_char x :: nat) \<Longrightarrow> \<forall>x\<in>set (unlines newline ts). 0 < (of_char x :: nat)"
  by (induction ts) (auto simp: newline_def)

lemma join_line: "list_all is_cell cs \<Longrightarrow> newline \<notin> set (join cs)"
  using join_chars by blast

end
