(* ===== verification/Ptc_Commands.thy ===== *)
theory Ptc_Commands
  imports Ptc_Client Text_Input
begin

text \<open>
  The commands of \<open>PtcClient\<close> (\<open>src/libhesai/PtcClient/src/ptc_client.cc\<close>): the requests they
  build, how they read the response, and what they return. A command takes the query function
  of the client as its argument \<open>q\<close> (the request bytes, the caller's output buffer and the
  command code), so that the same text is the command over any transport and version.

  \<open>None\<close> is a thrown exception of \<open>std::stoi\<close> or a read past the response. The lemmas show the
  round trip of a dotted address into its bytes, the parse of the status record, and what the
  setters return.
\<close>

type_synonym 's query = "u8 list \<Rightarrow> u8 list \<Rightarrow> u8 \<Rightarrow> 's \<Rightarrow> (int \<times> u8 list \<times> 's) option"

section \<open>Command codes\<close>

definition kPTCGetPTPLockOffset :: u8 where "kPTCGetPTPLockOffset = 0x3a"
definition kPTCGetLidarStatus :: u8 where "kPTCGetLidarStatus = 0x09"
definition kPTCGetPTPDiagnostics :: u8 where "kPTCGetPTPDiagnostics = 0x06"
definition kPTCGetLidarCalibration :: u8 where "kPTCGetLidarCalibration = 0x05"
definition kPTCGetLidarFiretimes :: u8 where "kPTCGetLidarFiretimes = 0xA9"
definition kPTCGetLidarChannelConfig :: u8 where "kPTCGetLidarChannelConfig = 0xA8"
definition kPTCSetNet :: u8 where "kPTCSetNet = 0x21"
definition kPTCSetDestinationIPandPort :: u8 where "kPTCSetDestinationIPandPort = 0x20"
definition kPTCSetReturnMode :: u8 where "kPTCSetReturnMode = 0x1E"
definition kPTCSetSyncAngle :: u8 where "kPTCSetSyncAngle = 0x18"
definition kPTCSetStandbyMode :: u8 where "kPTCSetStandbyMode = 0x1C"
definition kPTCSetSpinSpeed :: u8 where "kPTCSetSpinSpeed = 0x17"
definition kPTCSetTemFpgaRegister :: u32 where "kPTCSetTemFpgaRegister = 0x00010031"
definition kPTCSetFpgaRegister :: u8 where "kPTCSetFpgaRegister = 0x0D"

section \<open>Queries that return their payload\<close>

definition SendCommand :: "'s query \<Rightarrow> u8 list \<Rightarrow> u8 \<Rightarrow> 's \<Rightarrow> (int \<times> 's) option" where
  "SendCommand q byteStreamIn u8Cmd s = do {
     (ret, _, s) \<leftarrow> q byteStreamIn [] u8Cmd s;
     Some (ret, s) }"

text \<open>\<open>ret == 0 && !dataOut.empty()\<close> decides between 0 and -1.\<close>

definition GetPTPDiagnostics :: "'s query \<Rightarrow> u8 list \<Rightarrow> u8 \<Rightarrow> 's \<Rightarrow> (int \<times> u8 list \<times> 's) option" where
  "GetPTPDiagnostics q dataOut query_type s = do {
     (ret, dataOut, s) \<leftarrow> q [query_type] dataOut kPTCGetPTPDiagnostics s;
     Some (if ret = 0 \<and> dataOut \<noteq> [] then 0 else -1, dataOut, s) }"

definition GetPTPLockOffset :: "'s query \<Rightarrow> u8 list \<Rightarrow> 's \<Rightarrow> (int \<times> u8 list \<times> 's) option" where
  "GetPTPLockOffset q dataOut s = do {
     (ret, dataOut, s) \<leftarrow> q [] dataOut kPTCGetPTPLockOffset s;
     Some (if ret = 0 \<and> dataOut \<noteq> [] then 0 else -1, dataOut, s) }"

definition GetCorrectionInfo :: "'s query \<Rightarrow> u8 list \<Rightarrow> 's \<Rightarrow> (int \<times> u8 list \<times> 's) option" where
  "GetCorrectionInfo q dataOut s = do {
     (ret, dataOut, s) \<leftarrow> q [] dataOut kPTCGetLidarCalibration s;
     Some (if ret = 0 \<and> dataOut \<noteq> [] then 0 else -1, dataOut, s) }"

definition GetCorrectionInfo0 :: "'s query \<Rightarrow> 's \<Rightarrow> (u8 list \<times> 's) option" where
  "GetCorrectionInfo0 q s = do {
     (ret, dataOut, s) \<leftarrow> q [] [] kPTCGetLidarCalibration s;
     Some (dataOut, s) }"

definition GetFiretimesInfo :: "'s query \<Rightarrow> u8 list \<Rightarrow> 's \<Rightarrow> (int \<times> u8 list \<times> 's) option" where
  "GetFiretimesInfo q dataOut s = do {
     (ret, dataOut, s) \<leftarrow> q [] dataOut kPTCGetLidarFiretimes s;
     Some (if ret = 0 \<and> dataOut \<noteq> [] then 0 else -1, dataOut, s) }"

definition GetChannelConfigInfo :: "'s query \<Rightarrow> u8 list \<Rightarrow> 's \<Rightarrow> (int \<times> u8 list \<times> 's) option" where
  "GetChannelConfigInfo q dataOut s = do {
     (ret, dataOut, s) \<leftarrow> q [] dataOut kPTCGetLidarChannelConfig s;
     Some (if ret = 0 \<and> dataOut \<noteq> [] then 0 else -1, dataOut, s) }"

section \<open>The status record\<close>

text \<open>\<open>extractField<T>\<close>: \<open>sizeof(T)\<close> bytes, most significant first, from a running offset.\<close>

fun extract_loop :: "nat \<Rightarrow> u8 list \<Rightarrow> nat \<Rightarrow> 'a::len word \<Rightarrow> ('a word \<times> nat) option" where
  "extract_loop 0 data offset field = Some (field, offset)"
| "extract_loop (Suc n) data offset field = do {
     b \<leftarrow> ld8 data offset;
     extract_loop n data (offset + 1) (push_bit 8 field OR ucast b) }"

definition extractField :: "u8 list \<Rightarrow> nat \<Rightarrow> ('a::len word \<times> nat) option" where
  "extractField data offset = extract_loop (LENGTH('a) div 8) data offset 0"

fun extract_u32s :: "nat \<Rightarrow> u8 list \<Rightarrow> nat \<Rightarrow> (u32 list \<times> nat) option" where
  "extract_u32s 0 data offset = Some ([], offset)"
| "extract_u32s (Suc n) data offset = do {
     (t, offset) \<leftarrow> extractField data offset;
     (ts, offset) \<leftarrow> extract_u32s n data offset;
     Some (t # ts, offset) }"

record lidar_status =
  systemp_uptime :: u32
  motor_speed :: u16
  temperature :: "u32 list"
  gps_pps_lock :: u8
  gps_gprmc_status :: u8
  startup_times :: u32
  total_operation_time :: u32
  ptp_status :: u8

definition status_fields :: "u8 list \<Rightarrow> (lidar_status \<times> nat) option" where
  "status_fields dataOut = do {
     (up, offset) \<leftarrow> extractField dataOut 0;
     (ms, offset) \<leftarrow> extractField dataOut offset;
     (ts, offset) \<leftarrow> extract_u32s 8 dataOut offset;
     (pps, offset) \<leftarrow> extractField dataOut offset;
     (gprmc, offset) \<leftarrow> extractField dataOut offset;
     (st, offset) \<leftarrow> extractField dataOut offset;
     (tot, offset) \<leftarrow> extractField dataOut offset;
     (ptp, offset) \<leftarrow> extractField dataOut offset;
     Some (\<lparr> systemp_uptime = up, motor_speed = ms, temperature = ts, gps_pps_lock = pps,
             gps_gprmc_status = gprmc, startup_times = st, total_operation_time = tot,
             ptp_status = ptp \<rparr>, offset) }"

text \<open>The printed record is the second component of the result.\<close>

definition GetLidarStatus :: "'s query \<Rightarrow> 's \<Rightarrow> (int \<times> lidar_status option \<times> 's) option" where
  "GetLidarStatus q s = do {
     (ret, dataOut, s) \<leftarrow> q [] [] kPTCGetLidarStatus s;
     if ret = 0 \<and> dataOut \<noteq> [] then do {
       (st, offset) \<leftarrow> status_fields dataOut;
       Some (0, Some st, s) }
     else Some (-1, None, s) }"

section \<open>Addresses\<close>

text \<open>The segments that \<open>while (std::getline(stream, byte, '.'))\<close> yields.\<close>

definition getline_dots :: "string \<Rightarrow> string list" where
  "getline_dots str = read_lines CHR ''.'' (istringstream str) []"

fun stoi_bytes :: "string list \<Rightarrow> u8 list option" where
  "stoi_bytes [] = Some []"
| "stoi_bytes (seg # segs) = do {
     v \<leftarrow> stoi seg;
     bs \<leftarrow> stoi_bytes segs;
     Some (word_of_int v # bs) }"

definition address_bytes :: "string \<Rightarrow> u8 list option" where
  "address_bytes str = stoi_bytes (getline_dots str)"

section \<open>Setters\<close>

text \<open>\<open>static_cast<uint8_t>(x >> k)\<close>, and the conversion of the \<open>int\<close> of the query to \<open>bool\<close>.\<close>

definition byte_at :: "nat \<Rightarrow> 'a::len word \<Rightarrow> u8" where
  "byte_at k x = ucast (drop_bit k x)"

definition set_command :: "'s query \<Rightarrow> u8 list \<Rightarrow> u8 \<Rightarrow> 's \<Rightarrow> (bool \<times> 's) option" where
  "set_command q input cmd s = do { (ret, _, s) \<leftarrow> q input [] cmd s; Some (ret \<noteq> 0, s) }"

definition SetNet ::
    "'s query \<Rightarrow> string \<Rightarrow> string \<Rightarrow> string \<Rightarrow> u8 \<Rightarrow> u16 \<Rightarrow> 's \<Rightarrow> (bool \<times> 's) option" where
  "SetNet q IP netmask getway vlan_flag vlan_ID s = do {
     a \<leftarrow> address_bytes IP;
     m \<leftarrow> address_bytes netmask;
     g \<leftarrow> address_bytes getway;
     set_command q (a @ m @ g @ [vlan_flag, byte_at 8 vlan_ID, byte_at 0 vlan_ID]) kPTCSetNet s }"

definition SetDesIpandPort ::
    "'s query \<Rightarrow> string \<Rightarrow> u16 \<Rightarrow> u16 \<Rightarrow> 's \<Rightarrow> (bool \<times> 's) option" where
  "SetDesIpandPort q des port GPS_port s = do {
     d \<leftarrow> address_bytes des;
     set_command q (d @ [byte_at 8 port, byte_at 0 port, byte_at 8 GPS_port, byte_at 0 GPS_port])
       kPTCSetDestinationIPandPort s }"

definition SetReturnMode :: "'s query \<Rightarrow> u8 \<Rightarrow> 's \<Rightarrow> (bool \<times> 's) option" where
  "SetReturnMode q return_mode s = set_command q [return_mode] kPTCSetReturnMode s"

definition SetSyncAngle :: "'s query \<Rightarrow> u8 \<Rightarrow> u16 \<Rightarrow> 's \<Rightarrow> (bool \<times> 's) option" where
  "SetSyncAngle q enable_flag sync_angle s =
     set_command q [enable_flag, byte_at 8 sync_angle, byte_at 0 sync_angle] kPTCSetSyncAngle s"

definition SetTmbFPGARegister :: "'s query \<Rightarrow> u32 \<Rightarrow> u32 \<Rightarrow> 's \<Rightarrow> (bool \<times> 's) option" where
  "SetTmbFPGARegister q address data s =
     set_command q
       [byte_at 24 kPTCSetTemFpgaRegister, byte_at 16 kPTCSetTemFpgaRegister,
        byte_at 8 kPTCSetTemFpgaRegister, byte_at 0 kPTCSetTemFpgaRegister,
        byte_at 24 address, byte_at 16 address, byte_at 8 address, byte_at 0 address,
        byte_at 24 data, byte_at 16 data, byte_at 8 data, byte_at 0 data] 0xff s"

definition SetFPGARegister :: "'s query \<Rightarrow> u32 \<Rightarrow> u32 \<Rightarrow> 's \<Rightarrow> (bool \<times> 's) option" where
  "SetFPGARegister q address data s =
     set_command q
       [byte_at 24 address, byte_at 16 address, byte_at 8 address, byte_at 0 address,
        byte_at 24 data, byte_at 16 data, byte_at 8 data, byte_at 0 data] kPTCSetFpgaRegister s"

definition SetStandbyMode :: "'s query \<Rightarrow> u32 \<Rightarrow> 's \<Rightarrow> (bool \<times> 's) option" where
  "SetStandbyMode q standby_mode s = set_command q [byte_at 0 standby_mode] kPTCSetStandbyMode s"

definition SetSpinSpeed :: "'s query \<Rightarrow> u32 \<Rightarrow> 's \<Rightarrow> (bool \<times> 's) option" where
  "SetSpinSpeed q speed s = set_command q [byte_at 8 speed, byte_at 0 speed] kPTCSetSpinSpeed s"

section \<open>Addresses are read back\<close>

text \<open>The dotted decimal notation of an address, the inverse the parse is compared with.\<close>

fun dotted :: "u8 list \<Rightarrow> string" where
  "dotted [] = []"
| "dotted [b] = dec (unat b)"
| "dotted (b # bs) = dec (unat b) @ CHR ''.'' # dotted bs"

lemma dec_no_dot: "CHR ''.'' \<notin> set (dec n)"
  using dec_digits(2) digit_not by blast

lemma read_dotted: "read_lines CHR ''.'' (istringstream (dotted bs)) s = map (\<lambda>b. dec (unat b)) bs"
  by (induction bs arbitrary: s rule: dotted.induct)
    (simp_all add: read_lines_last read_lines_delim dec_no_dot dec_digits(3))

lemma stoi_bytes_dec: "stoi_bytes (map (\<lambda>b. dec (unat b)) bs) = Some bs"
proof (induction bs)
  case (Cons b bs)
  have "int (unat b) \<le> 2147483647" using unat_u8_less [of b] by linarith
  with Cons show ?case by (simp add: int_dec(2))
qed simp

text \<open>
  Round trip of addresses: the dotted decimal notation of any byte sequence (an IP address,
  a mask, a gateway) is parsed by the \<open>getline\<close> and \<open>stoi\<close> loops into exactly these bytes.
\<close>

theorem address_roundtrip: "address_bytes (dotted bs) = Some bs"
  by (simp add: address_bytes_def getline_dots_def read_dotted stoi_bytes_dec)

section \<open>The status record is decoded\<close>

text \<open>The layout the lidar sends: every field most significant byte first, 49 bytes in all.\<close>

definition status_bytes :: "lidar_status \<Rightarrow> u8 list" where
  "status_bytes st = be_bytes 4 (unat (systemp_uptime st)) @ be_bytes 2 (unat (motor_speed st)) @
     concat (map (\<lambda>t. be_bytes 4 (unat t)) (temperature st)) @
     be_bytes 1 (unat (gps_pps_lock st)) @ be_bytes 1 (unat (gps_gprmc_status st)) @
     be_bytes 4 (unat (startup_times st)) @ be_bytes 4 (unat (total_operation_time st)) @
     be_bytes 1 (unat (ptp_status st))"

lemma be_bytes_Suc: "be_bytes (Suc n) x = be_bytes n (x div 256) @ [word_of_nat x]"
  by (simp add: be_bytes_def)

lemma extract_loop_snoc:
  "extract_loop (Suc n) data off field =
     Option.bind (extract_loop n data off field) (\<lambda>(v, off').
       Option.bind (ld8 data off') (\<lambda>b. Some (push_bit 8 v OR ucast b, off' + 1)))"
proof (induction n arbitrary: off field)
  case (Suc n)
  show ?case
  proof (cases "ld8 data off")
    case None
    then show ?thesis by simp
  next
    case (Some a)
    let ?f = "push_bit 8 field OR ucast a"
    have 1: "extract_loop (Suc (Suc n)) data off field = extract_loop (Suc n) data (off + 1) ?f"
      by (subst extract_loop.simps(2)) (simp add: Some)
    have 2: "extract_loop (Suc n) data off field = extract_loop n data (off + 1) ?f"
      by (subst extract_loop.simps(2)) (simp add: Some)
    show ?thesis unfolding 1 2 by (rule Suc.IH)
  qed
qed simp

lemma extract_loop_be:
  assumes "x < 256 ^ n"
  shows "extract_loop n (pre @ be_bytes n x @ post) (length pre) 0 =
           Some (word_of_nat x :: 'a::len word, length pre + n)"
  using assms
proof (induction n arbitrary: x post)
  case (Suc n)
  have "x div 256 < 256 ^ n" using Suc.prems by (simp add: less_mult_imp_div_less mult.commute)
  from Suc.IH [OF this, of "word_of_nat x # post"]
  have "extract_loop n (pre @ be_bytes (Suc n) x @ post) (length pre) 0 =
      Some (word_of_nat (x div 256) :: 'a word, length pre + n)"
    by (simp add: be_bytes_Suc)
  moreover have "ld8 (pre @ be_bytes (Suc n) x @ post) (length pre + n) = Some (word_of_nat x)"
    by (simp add: ld8_def be_bytes_Suc nth_append)
  ultimately show ?case
    by (simp only: extract_loop_snoc) (simp add: shift_in_byte)
qed simp

lemma extractField_be:
  assumes "LENGTH('a) = 8 * n" and "length pre = off"
  shows "extractField (pre @ be_bytes n (unat (v :: 'a::len word)) @ post) off =
           Some (v, off + n)"
proof -
  have "unat v < 256 ^ n"
    using unsigned_less [of v, where 'a = nat] assms(1) by (simp add: power_mult)
  from extract_loop_be [OF this, of pre post, where 'a = 'a] assms
  show ?thesis by (simp add: extractField_def)
qed

lemma extract_u32s_be:
  "length pre = off \<Longrightarrow> length ts = n \<Longrightarrow>
   extract_u32s n (pre @ concat (map (\<lambda>t. be_bytes 4 (unat t)) ts) @ post) off =
     Some (ts, off + 4 * n)"
proof (induction ts arbitrary: pre off n)
  case (Cons t ts)
  let ?rest = "concat (map (\<lambda>t. be_bytes 4 (unat t)) ts) @ post"
  obtain m where n: "n = Suc m" "length ts = m" using Cons.prems by (cases n) auto
  have "extractField (pre @ be_bytes 4 (unat t) @ ?rest) off = Some (t, off + 4)"
    using Cons.prems by (intro extractField_be) auto
  moreover have "extract_u32s m ((pre @ be_bytes 4 (unat t)) @ ?rest) (off + 4) =
      Some (ts, off + 4 + 4 * m)"
    using Cons.prems n by (intro Cons.IH) auto
  ultimately show ?case by (simp add: n)
qed simp

text \<open>The fields one after the other: each is read where the previous one ended.\<close>

lemma status_fields_bytes:
  assumes "length (temperature st) = 8"
  shows "status_fields (status_bytes st @ post) = Some (st, 49)"
proof -
  let ?up = "be_bytes 4 (unat (systemp_uptime st))" and ?ms = "be_bytes 2 (unat (motor_speed st))"
    and ?ts = "concat (map (\<lambda>t. be_bytes 4 (unat t)) (temperature st))"
    and ?pps = "be_bytes 1 (unat (gps_pps_lock st))"
    and ?gp = "be_bytes 1 (unat (gps_gprmc_status st))"
    and ?st = "be_bytes 4 (unat (startup_times st))"
    and ?tot = "be_bytes 4 (unat (total_operation_time st))"
    and ?ptp = "be_bytes 1 (unat (ptp_status st))"
  let ?d = "status_bytes st @ post"
  have ts: "length ?ts = 32" using assms by (simp add: length_concat sum_list_triv o_def)
  have "extractField ?d 0 = Some (systemp_uptime st, 4)"
    using extractField_be [of 4 "[]" 0 "systemp_uptime st"] by (simp add: status_bytes_def)
  moreover have "extractField ?d 4 = Some (motor_speed st, 6)"
    using extractField_be [of 2 ?up 4 "motor_speed st"] by (simp add: status_bytes_def)
  moreover have "extract_u32s 8 ?d 6 = Some (temperature st, 38)"
    using extract_u32s_be [of "?up @ ?ms" 6 "temperature st" 8] assms by (simp add: status_bytes_def)
  moreover have "extractField ?d 38 = Some (gps_pps_lock st, 39)"
    using extractField_be [of 1 "?up @ ?ms @ ?ts" 38 "gps_pps_lock st"] ts
    by (simp add: status_bytes_def)
  moreover have "extractField ?d 39 = Some (gps_gprmc_status st, 40)"
    using extractField_be [of 1 "?up @ ?ms @ ?ts @ ?pps" 39 "gps_gprmc_status st"] ts
    by (simp add: status_bytes_def)
  moreover have "extractField ?d 40 = Some (startup_times st, 44)"
    using extractField_be [of 4 "?up @ ?ms @ ?ts @ ?pps @ ?gp" 40 "startup_times st"] ts
    by (simp add: status_bytes_def)
  moreover have "extractField ?d 44 = Some (total_operation_time st, 48)"
    using extractField_be [of 4 "?up @ ?ms @ ?ts @ ?pps @ ?gp @ ?st" 44 "total_operation_time st"] ts
    by (simp add: status_bytes_def)
  moreover have "extractField ?d 48 = Some (ptp_status st, 49)"
    using extractField_be [of 1 "?up @ ?ms @ ?ts @ ?pps @ ?gp @ ?st @ ?tot" 48 "ptp_status st"] ts
    by (simp add: status_bytes_def)
  ultimately show ?thesis by (simp add: status_fields_def)
qed

text \<open>
  C24. Round trip of the status record: when the lidar answers the status command with the
  49-byte record (or a longer one that starts with it), \<open>GetLidarStatus\<close> returns 0 and the
  fields are those the lidar encoded.
\<close>

theorem GetLidarStatus_fields:
  assumes "q [] [] kPTCGetLidarStatus s = Some (0, status_bytes st @ post, s')"
    and "length (temperature st) = 8"
  shows "GetLidarStatus q s = Some (0, Some st, s')"
proof -
  have "status_bytes st \<noteq> []" by (simp add: status_bytes_def be_bytes_def le_bytes_4)
  then show ?thesis
    using assms status_fields_bytes [OF assms(2), of post] by (simp add: GetLidarStatus_def)
qed

definition status_ex :: lidar_status where
  "status_ex = \<lparr> systemp_uptime = 7, motor_speed = 600, temperature = replicate 8 2500,
     gps_pps_lock = 1, gps_gprmc_status = 1, startup_times = 3, total_operation_time = 99,
     ptp_status = 2 \<rparr>"

lemma GetLidarStatus_fields_witness:
  "GetLidarStatus (\<lambda>i out c s. Some (0, status_bytes status_ex, s)) () = Some (0, Some status_ex, ())"
  by (rule GetLidarStatus_fields [where post = "[]"]) (simp_all add: status_ex_def)

section \<open>What the setters return\<close>

text \<open>
  The setters report the opposite of what \<open>ptc_client.h\<close> documents ("true: set
  successful"): over TCP, when the request goes out and the lidar acknowledges the command with
  a well-formed empty response, \<open>SetReturnMode\<close> returns false, because the \<open>int\<close> 0 of
  \<open>QueryCommand\<close> is converted to \<open>bool\<close>; when the connection cannot send, it returns true.
\<close>

theorem SetReturnMode_inverted:
  assumes "PtcStreamEncode (PtcParser_new v) [mode] kPTCSetReturnMode = Some request"
    and "PtcStreamEncode (PtcParser_new v) [] kPTCSetReturnMode = Some response"
    and "tcp_Send request s = (len, s1)"
  shows "(len = int (length request) \<and> (\<exists>b rest. tcp_segs s1 = b # rest \<and> [] \<notin> set (b # rest) \<and>
            2 \<le> length b \<and> concat (b # rest) = response) \<longrightarrow>
            (\<exists>s'. SetReturnMode (PtcClient_query v) mode s = Some (False, s'))) \<and>
         (len = -1 \<longrightarrow> (\<exists>s'. SetReturnMode (PtcClient_query v) mode s = Some (True, s')))"
proof -
  have len: "length request < 2147483648"
    using assms(1) by (auto simp: PtcParser_new_def PtcStreamEncode_1_0_wire
        PtcStreamEncode_2_0_wire split: if_splits)
  have fail: "PtcClient_query v [mode] [] kPTCSetReturnMode s = Some (-1, [], s1)" if "len = -1"
  proof -
    have "sint (word_of_nat (length request) :: u32) = int (length request)"
      using len by (simp add: signed_of_nat signed_take_bit_int_eq_self)
    then show ?thesis
      using assms(1,3) that
      by (cases s1) (auto simp: QueryCommand_def query_body_def PtcParser_new_def Let_def
          split: if_splits)
  qed
  have ok: "\<exists>s'. PtcClient_query v [mode] [] kPTCSetReturnMode s = Some (0, [], s')"
    if "len = int (length request)" "tcp_segs s1 = b # rest" "[] \<notin> set (b # rest)" "2 \<le> length b"
      "concat (b # rest) = response" for b rest
    using tcp_response [where v = v and input = "[mode]" and payload = "[]" and s = s and out = "[]"
        and later = "[]", OF assms(1,2) len _ _ that(2-4)] assms(3) that by auto
  show ?thesis
    using ok fail by (auto simp: SetReturnMode_def set_command_def)
qed

lemma SetReturnMode_inverted_witness:
  "\<exists>s'. SetReturnMode (PtcClient_query 1) 0x37 (TcpClient_new \<lparr> m_bLidarConnected := True \<rparr>,
     kernel_ex) = Some (True, s')"
proof -
  obtain request where 1: "PtcStreamEncode (PtcParser_new 1) [0x37] kPTCSetReturnMode = Some request"
    by (simp add: PtcParser_new_def)
  obtain response where 2: "PtcStreamEncode (PtcParser_new 1) [] kPTCSetReturnMode = Some response"
    by (simp add: PtcParser_new_def)
  obtain s1 where 3: "tcp_Send request (TcpClient_new \<lparr> m_bLidarConnected := True \<rparr>, kernel_ex) =
      (-1, s1)"
    by (simp add: tcp_Send_def tcp_ensure_open_def tcp_IsOpened_def sys_send_def kernel_ex_def
        Let_def)
  show ?thesis using SetReturnMode_inverted [OF 1 2 3] by simp
qed

end
