(* ===== verification/Tcp_Ssl_Client.thy ===== *)
theory Tcp_Ssl_Client
  imports Ptc_Client
begin

text \<open>
  \<open>TcpSslClient\<close> of \<open>src/libhesai/PtcClient/src/tcp_ssl_client.cc\<close>: the TLS transport of the PTC
  client. The kernel and OpenSSL are scripts of answers, one for every function that is called; a
  call whose script is exhausted fails. Contexts and sessions are the numbers under which they are
  created, a null pointer is \<open>None\<close>. What the client does to them and to descriptors is recorded in
  the order in which it happens. An answer of \<open>SSL_read\<close> is a piece of data, of which it returns at
  most what is asked for, or an error, with \<open>True\<close> when \<open>errno\<close> is \<open>EINTR\<close>.

  Logging, the measurement of elapsed time and the Windows branches are not modelled.
\<close>

section \<open>OpenSSL and the kernel\<close>

datatype ssl_rx = Ssl_Data "u8 list" | Ssl_Fails bool

datatype ssl_event =
    Closed u32
  | Set_Verify nat
  | Set_Fd nat u32
  | Ctx_Freed nat
  | Shut_Down nat

record ssl_kernel =
  t_open :: "open_result list"
  t_try :: "try_result list"
  t_ctx :: "bool list"
  t_load :: "int list"
  t_new :: "bool list"
  t_connect :: "int list"
  t_verify :: "int list"
  t_write :: "(int \<times> bool) list"
  t_read :: "ssl_rx list"
  t_sockopt :: "int list"
  t_sent :: "u8 list list"
  t_created :: nat
  t_log :: "ssl_event list"

definition answer :: "'a \<Rightarrow> 'a list \<Rightarrow> 'a \<times> 'a list" where
  "answer failure xs = (case xs of [] \<Rightarrow> (failure, []) | x # xs \<Rightarrow> (x, xs))"

definition ssl_note :: "ssl_event \<Rightarrow> ssl_kernel \<Rightarrow> ssl_kernel" where
  "ssl_note e k = k \<lparr> t_log := t_log k @ [e] \<rparr>"

text \<open>A created object, and the null pointer when it is not created.\<close>

definition ssl_create :: "bool \<Rightarrow> ssl_kernel \<Rightarrow> nat option \<times> ssl_kernel" where
  "ssl_create ok k = (if ok then (Some (t_created k), k \<lparr> t_created := Suc (t_created k) \<rparr>) else (None, k))"

definition SSL_CTX_new :: "ssl_kernel \<Rightarrow> nat option \<times> ssl_kernel" where
  "SSL_CTX_new k = (let (ok, rs) = answer False (t_ctx k) in ssl_create ok (k \<lparr> t_ctx := rs \<rparr>))"

definition SSL_new :: "ssl_kernel \<Rightarrow> nat option \<times> ssl_kernel" where
  "SSL_new k = (let (ok, rs) = answer False (t_new k) in ssl_create ok (k \<lparr> t_new := rs \<rparr>))"

text \<open>\<open>SSL_CTX_load_verify_locations\<close>, \<open>SSL_CTX_use_certificate_file\<close> and the like.\<close>

definition ssl_load :: "ssl_kernel \<Rightarrow> int \<times> ssl_kernel" where
  "ssl_load k = (let (r, rs) = answer 0 (t_load k) in (r, k \<lparr> t_load := rs \<rparr>))"

definition SSL_connect :: "ssl_kernel \<Rightarrow> int \<times> ssl_kernel" where
  "SSL_connect k = (let (r, rs) = answer 0 (t_connect k) in (r, k \<lparr> t_connect := rs \<rparr>))"

text \<open>\<open>X509_V_OK\<close> is 0.\<close>

definition SSL_get_verify_result :: "ssl_kernel \<Rightarrow> int \<times> ssl_kernel" where
  "SSL_get_verify_result k = (let (r, rs) = answer 1 (t_verify k) in (r, k \<lparr> t_verify := rs \<rparr>))"

definition SSL_write :: "u8 list \<Rightarrow> ssl_kernel \<Rightarrow> int \<times> bool \<times> ssl_kernel" where
  "SSL_write bs k =
     (let ((len, transient), rs) = answer (-1, False) (t_write k)
      in (len, transient, k \<lparr> t_write := rs, t_sent := t_sent k @ [bs] \<rparr>))"

definition SSL_read :: "nat \<Rightarrow> ssl_kernel \<Rightarrow> int \<times> bool \<times> u8 list \<times> ssl_kernel" where
  "SSL_read n k = (case t_read k of [] \<Rightarrow> (-1, False, [], k)
     | Ssl_Fails eintr # rs \<Rightarrow> (-1, eintr, [], k \<lparr> t_read := rs \<rparr>)
     | Ssl_Data bs # rs \<Rightarrow> (int (length (take n bs)), False, take n bs,
         k \<lparr> t_read := (if length bs \<le> n then rs else Ssl_Data (drop n bs) # rs) \<rparr>))"

definition ssl_setsockopt :: "ssl_kernel \<Rightarrow> int \<times> ssl_kernel" where
  "ssl_setsockopt k = (let (r, rs) = answer (-1) (t_sockopt k) in (r, k \<lparr> t_sockopt := rs \<rparr>))"

section \<open>Opening a socket\<close>

text \<open>
  Both functions close the descriptor themselves when they fail. \<open>tcp_try_open\<close> returns \<open>false\<close>, the
  descriptor 0, when the connection is refused. The results are \<open>int\<close>s, stored into an unsigned
  \<open>SOCKET\<close>.
\<close>

definition tcp_try_open :: "ssl_kernel \<Rightarrow> u32 \<times> ssl_kernel" where
  "tcp_try_open k =
     (let (r, rs) = answer Try_Socket_Fails (t_try k); k = k \<lparr> t_try := rs \<rparr> in
      case r of
        Try_Socket_Fails \<Rightarrow> (-1, k)
      | Try_Pton_Fails fd \<Rightarrow> (-1, ssl_note (Closed fd) k)
      | Try_Connect_Fails fd \<Rightarrow> (-1, ssl_note (Closed fd) k)
      | Try_Select_Fails fd \<Rightarrow> (-1, ssl_note (Closed fd) k)
      | Try_So_Error fd \<Rightarrow> (0, ssl_note (Closed fd) k)
      | Try_Ok fd \<Rightarrow> (fd, k))"

definition tcp_open :: "ssl_kernel \<Rightarrow> u32 \<times> ssl_kernel" where
  "tcp_open k =
     (let (r, rs) = answer Socket_Fails (t_open k); k = k \<lparr> t_open := rs \<rparr> in
      case r of
        Socket_Fails \<Rightarrow> (-1, k)
      | Pton_Fails fd \<Rightarrow> (-1, ssl_note (Closed fd) k)
      | Connect_Fails fd \<Rightarrow> (-1, ssl_note (Closed fd) k)
      | Open_Ok fd \<Rightarrow> (fd, k))"

section \<open>The client\<close>

text \<open>The fields that the class has in common with \<open>TcpClient\<close> have their names there.\<close>

record ssl_client = tcp_client +
  ssl_ctx :: "nat option"
  ssl_session :: "nat option"
  ssl_cert :: "string option"
  ssl_private_key :: "string option"
  ssl_ca :: "string option"

type_synonym ssl_conn = "ssl_client \<times> ssl_kernel"

text \<open>The constructor leaves the three paths uninitialised; nothing reads them before they are set.\<close>

definition TcpSslClient_new :: ssl_client where
  "TcpSslClient_new = tcp_client.extend TcpClient_new
     \<lparr> ssl_ctx = None, ssl_session = None, ssl_cert = None, ssl_private_key = None, ssl_ca = None \<rparr>"

definition InitSslClient :: "string option \<Rightarrow> string option \<Rightarrow> string option \<Rightarrow> ssl_kernel \<Rightarrow>
    nat option \<times> ssl_kernel" where
  "InitSslClient cert private_key ca k =
     (case SSL_CTX_new k of
        (None, k) \<Rightarrow> (None, k)
      | (Some ctx, k) \<Rightarrow>
          let (r, k) = (if ca \<noteq> None then ssl_load k else (1, k)) in
          if r = 0 then (None, k)
          else if cert \<noteq> None \<and> private_key \<noteq> None then
            (let (r, k) = ssl_load (ssl_note (Set_Verify ctx) k) in
             if r = 0 then (None, k)
             else let (r, k) = ssl_load k in
             if r = 0 then (None, k)
             else let (r, k) = ssl_load k in
             if r = 0 then (None, k) else (Some ctx, k))
          else (Some ctx, k))"

definition ssl_Close :: "ssl_conn \<Rightarrow> ssl_conn" where
  "ssl_Close = (\<lambda>(c, k).
     let c = c \<lparr> m_bLidarConnected := False \<rparr>;
         (c, k) = (if m_tcpSock c > 0
                   then (c \<lparr> m_tcpSock := -1 \<rparr>, ssl_note (Closed (m_tcpSock c)) k) else (c, k));
         (c, k) = (case ssl_ctx c of None \<Rightarrow> (c, k) | Some x \<Rightarrow> (c \<lparr> ssl_ctx := None \<rparr>, ssl_note (Ctx_Freed x) k))
     in case ssl_session c of None \<Rightarrow> (c, k) | Some x \<Rightarrow> (c \<lparr> ssl_session := None \<rparr>, ssl_note (Shut_Down x) k))"

definition ssl_IsOpened :: "ssl_conn \<Rightarrow> bool" where
  "ssl_IsOpened = (\<lambda>(c, k). m_bLidarConnected c)"

text \<open>From the test of the descriptor to the end, the same text in \<open>TryOpen\<close> and \<open>Open\<close>.\<close>

definition ssl_handshake :: "ssl_conn \<Rightarrow> bool \<times> ssl_conn" where
  "ssl_handshake = (\<lambda>(c, k).
     if m_tcpSock c < 0 then (False, ssl_Close (c, k))
     else case SSL_new k of
       (None, k) \<Rightarrow> (False, ssl_Close (c \<lparr> ssl_session := None \<rparr>, k))
     | (Some ssl, k) \<Rightarrow>
         let c = c \<lparr> ssl_session := Some ssl \<rparr>;
             (r, k) = SSL_connect (ssl_note (Set_Fd ssl (m_tcpSock c)) k)
         in if r = 0 then (False, ssl_Close (c, k))
            else let (v, k) = SSL_get_verify_result k
            in if v \<noteq> 0 then (False, ssl_Close (c, k))
               else (True, c \<lparr> m_bLidarConnected := True \<rparr>, k))"

definition ssl_Open0 :: "ssl_conn \<Rightarrow> bool \<times> ssl_conn" where
  "ssl_Open0 = (\<lambda>(c, k).
     let (ctx, k) = InitSslClient (ssl_cert c) (ssl_private_key c) (ssl_ca c) k;
         c = c \<lparr> ssl_ctx := ctx \<rparr>
     in if ctx = None then (False, c, k)
        else let (fd, k) = tcp_open k in ssl_handshake (c \<lparr> m_tcpSock := fd \<rparr>, k))"

definition ssl_set_peer :: "string \<Rightarrow> u16 \<Rightarrow> string option \<Rightarrow> string option \<Rightarrow> string option \<Rightarrow>
    ssl_client \<Rightarrow> ssl_client" where
  "ssl_set_peer ip port cert private_key ca c =
     c \<lparr> m_sServerIP := ip, ptc_port := port, ssl_cert := cert, ssl_private_key := private_key, ssl_ca := ca \<rparr>"

definition ssl_Open :: "string \<Rightarrow> u16 \<Rightarrow> string option \<Rightarrow> string option \<Rightarrow> string option \<Rightarrow>
    ssl_conn \<Rightarrow> bool \<times> ssl_conn" where
  "ssl_Open ip port cert private_key ca = (\<lambda>(c, k).
     if ssl_IsOpened (c, k) \<and> m_sServerIP c = ip \<and> port = ptc_port c then (True, c, k)
     else let (c, k) = ssl_Close (c, k) in ssl_Open0 (ssl_set_peer ip port cert private_key ca c, k))"

definition ssl_TryOpen :: "string \<Rightarrow> u16 \<Rightarrow> string option \<Rightarrow> string option \<Rightarrow> string option \<Rightarrow>
    ssl_conn \<Rightarrow> bool \<times> ssl_conn" where
  "ssl_TryOpen ip port cert private_key ca = (\<lambda>(c, k).
     if ssl_IsOpened (c, k) \<and> m_sServerIP c = ip \<and> port = ptc_port c then (True, c, k)
     else
       (let (c, k) = (if ssl_IsOpened (c, k) then ssl_Close (c, k) else (c, k));
            c = ssl_set_peer ip port cert private_key ca c;
            (ctx, k) = InitSslClient cert private_key ca k;
            c = c \<lparr> ssl_ctx := ctx \<rparr>
        in if ctx = None then (False, c, k)
           else let (fd, k) = tcp_try_open k in ssl_handshake (c \<lparr> m_tcpSock := fd \<rparr>, k)))"

definition ssl_ensure_open :: "ssl_conn \<Rightarrow> bool \<times> ssl_conn" where
  "ssl_ensure_open s = (if ssl_IsOpened s then (True, s) else ssl_Open0 s)"

definition ssl_Send :: "u8 list \<Rightarrow> ssl_conn \<Rightarrow> int \<times> ssl_conn" where
  "ssl_Send buf s =
     (let u16Len = (word_of_nat (length buf) :: u16);
         (ret, c, k) = ssl_ensure_open s
     in if ret then
          (let (len, transient, k) = SSL_write (take (unat u16Len) buf) k
           in if len \<noteq> int (unat u16Len) \<and> \<not> transient then (-1, ssl_Close (c, k))
              else (len, c, k))
        else (-1, c, k))"

text \<open>
  The loop of \<open>sys_readn_by_ssl\<close>: \<open>None\<close> is the return of -1 on an error; an interrupted read is
  repeated, and the end of the stream leaves the loop with what is left to read.
\<close>

definition ssl_rx_weight :: "ssl_kernel \<Rightarrow> nat" where
  "ssl_rx_weight k = sum_list (map (\<lambda>r. case r of Ssl_Data bs \<Rightarrow> Suc (length bs) | Ssl_Fails _ \<Rightarrow> 1) (t_read k))"

lemma SSL_read_weight:
  assumes "SSL_read n k = (nread, eintr, bs, k')" and "0 < nread \<or> eintr"
  shows "ssl_rx_weight k' < ssl_rx_weight k"
  using assms by (auto simp: SSL_read_def ssl_rx_weight_def split: list.splits ssl_rx.splits if_splits)

function ssl_read_loop :: "int \<Rightarrow> u8 list \<Rightarrow> ssl_kernel \<Rightarrow> int option \<times> u8 list \<times> ssl_kernel" where
  "ssl_read_loop nleft buf k =
     (if nleft > 0 then
        (case SSL_read (nat nleft) k of (nread, eintr, bs, k') \<Rightarrow>
          if nread < 0 then if eintr then ssl_read_loop nleft buf k' else (None, buf, k')
          else if nread = 0 then (Some nleft, buf, k')
          else ssl_read_loop (nleft - nread) (buf @ bs) k')
      else (Some nleft, buf, k))"
  by pat_completeness auto
termination
  by (relation "measure (\<lambda>(_, _, k). ssl_rx_weight k)") (auto dest: SSL_read_weight [OF sym])

declare ssl_read_loop.simps [simp del]

definition sys_readn_by_ssl :: "int \<Rightarrow> ssl_kernel \<Rightarrow> int \<times> u8 list \<times> ssl_kernel" where
  "sys_readn_by_ssl n k =
     (case ssl_read_loop n [] k of
        (None, bs, k) \<Rightarrow> (-1, bs, k)
      | (Some nleft, bs, k) \<Rightarrow> (n - nleft, bs, k))"

definition ssl_Receive :: "nat \<Rightarrow> ssl_conn \<Rightarrow> int \<times> u8 list \<times> ssl_conn" where
  "ssl_Receive u32Len s =
     (let (ret, c, k) = ssl_ensure_open s; n = sint (word_of_nat u32Len :: u32)
     in if ret then
          (let (len, bs, k) = sys_readn_by_ssl n k
           in if len \<noteq> n then (-1, bs, ssl_Close (c, k)) else (len, bs, c, k))
        else (-1, [], c, k))"

definition ssl_SetReceiveTimeout :: "u32 \<Rightarrow> ssl_conn \<Rightarrow> bool \<times> ssl_conn" where
  "ssl_SetReceiveTimeout t = (\<lambda>(c, k).
     if m_tcpSock c < 0 then (False, c, k)
     else let (r, k) = ssl_setsockopt k in (r = 0, c, k))"

definition ssl_SetTimeout :: "u32 \<Rightarrow> u32 \<Rightarrow> ssl_conn \<Rightarrow> int \<times> ssl_conn" where
  "ssl_SetTimeout rx tx = (\<lambda>(c, k).
     if m_tcpSock c < 0 then (-1, c, k)
     else
       (let c = c \<lparr> m_u32RecTimeout := rx, m_u32SendTimeout := tx \<rparr>;
            (r, k) = ssl_setsockopt k
        in if r = 0 then (let (r, k) = ssl_setsockopt k in (r, c, k)) else (r, c, k)))"

definition ssl_SetReceiveBufferSize :: "int \<times> u32 \<Rightarrow> u32 \<Rightarrow> ssl_conn \<Rightarrow> ssl_conn" where
  "ssl_SetReceiveBufferSize opt n = (\<lambda>(c, k).
     if m_tcpSock c < 0 then (c, k)
     else
       (let c = c \<lparr> m_u32ReceiveBufferSize := n \<rparr>
        in if fst opt = 0 \<and> snd opt < n then (c, snd (ssl_setsockopt k)) else (c, k)))"

section \<open>The transport that the PTC client needs\<close>

text \<open>The data up to the first error or the end of the stream; interruptions do not count.\<close>

fun ssl_stream :: "ssl_rx list \<Rightarrow> u8 list" where
  "ssl_stream [] = []"
| "ssl_stream (Ssl_Data bs # rs) = (if bs = [] then [] else bs @ ssl_stream rs)"
| "ssl_stream (Ssl_Fails eintr # rs) = (if eintr then ssl_stream rs else [])"

definition ssl_data :: "ssl_conn \<Rightarrow> u8 list" where
  "ssl_data = (\<lambda>(c, k). if m_bLidarConnected c then ssl_stream (t_read k) else [])"

definition ssl_burst :: "ssl_conn \<Rightarrow> nat" where
  "ssl_burst s = length (ssl_data s)"

definition ssl_pend :: "ssl_conn \<Rightarrow> nat" where
  "ssl_pend = (\<lambda>(c, k). ssl_rx_weight k)"

lemma ssl_read_loop_step:
  assumes "SSL_read (nat nleft) k = (nread, eintr, bs, k')"
  shows "nleft \<le> 0 \<Longrightarrow> ssl_read_loop nleft buf k = (Some nleft, buf, k)"
    "0 < nleft \<Longrightarrow> nread < 0 \<Longrightarrow> ssl_read_loop nleft buf k = (if eintr then ssl_read_loop nleft buf k' else (None, buf, k'))"
    "0 < nleft \<Longrightarrow> nread = 0 \<Longrightarrow> ssl_read_loop nleft buf k = (Some nleft, buf, k')"
    "0 < nleft \<Longrightarrow> 0 < nread \<Longrightarrow> ssl_read_loop nleft buf k = ssl_read_loop (nleft - nread) (buf @ bs) k'"
  using assms by (subst ssl_read_loop.simps; simp)+

lemma ssl_read_loop_stream:
  assumes "n \<le> length (ssl_stream (t_read k))"
  shows "\<exists>k'. ssl_read_loop (int n) buf k = (Some 0, buf @ take n (ssl_stream (t_read k)), k') \<and>
           ssl_stream (t_read k') = drop n (ssl_stream (t_read k))"
  using assms
proof (induction "ssl_rx_weight k" arbitrary: n buf k rule: less_induct)
  case less
  show ?case
  proof (cases "n = 0")
    case True
    then show ?thesis by (subst ssl_read_loop.simps) auto
  next
    case False
    then obtain r rs where k: "t_read k = r # rs" using less.prems by (cases "t_read k") auto
    obtain nread eintr bs k1 where q: "SSL_read n k = (nread, eintr, bs, k1)" by (metis prod_cases4)
    show ?thesis
    proof (cases r)
      case (Ssl_Fails e)
      then have e: "e" using less.prems k False by (cases e) auto
      then have f: "nread = -1" "eintr" "t_read k1 = rs" using q k Ssl_Fails by (auto simp: SSL_read_def)
      have s: "ssl_stream (t_read k1) = ssl_stream (t_read k)" using k Ssl_Fails e f(3) by simp
      have "ssl_rx_weight k1 < ssl_rx_weight k" using SSL_read_weight [OF q] f(2) by blast
      moreover have "ssl_read_loop (int n) buf k = ssl_read_loop (int n) buf k1"
        using False q f(1,2) by (subst ssl_read_loop.simps) simp
      ultimately show ?thesis using less.hyps [of k1 n buf] less.prems s by simp
    next
      case (Ssl_Data ds)
      then have d: "ds \<noteq> []" using less.prems k False by auto
      then have f: "nread = int (length (take n ds))" "bs = take n ds" "\<not> eintr"
          "t_read k1 = (if length ds \<le> n then rs else Ssl_Data (drop n ds) # rs)" "0 < nread"
        using q k Ssl_Data False by (auto simp: SSL_read_def)
      have s: "ssl_stream (t_read k) = take n ds @ ssl_stream (t_read k1)"
        using k Ssl_Data d f(4) by auto
      have l: "int n - nread = int (n - length (take n ds))" using f(1) by auto
      have "ssl_rx_weight k1 < ssl_rx_weight k" using SSL_read_weight [OF q] f(5) by blast
      moreover have "ssl_read_loop (int n) buf k =
          ssl_read_loop (int (n - length (take n ds))) (buf @ take n ds) k1"
        using ssl_read_loop_step(4) [of "int n"] False q f(2,5) l by simp
      moreover have "n - length (take n ds) \<le> length (ssl_stream (t_read k1))"
        using less.prems s by simp
      ultimately show ?thesis
        using less.hyps [of k1 "n - length (take n ds)" "buf @ take n ds"] s by auto
    qed
  qed
qed

lemma ssl_read_loop_bound:
  assumes "ssl_read_loop n buf k = (Some l, bs, k')"
  shows "l \<le> n \<and> (0 \<le> n \<longrightarrow> 0 \<le> l) \<and> int (length bs) = int (length buf) + n - l \<and>
    ssl_rx_weight k' \<le> ssl_rx_weight k \<and> (l < n \<longrightarrow> ssl_rx_weight k' < ssl_rx_weight k)"
  using assms
proof (induction n buf k rule: ssl_read_loop.induct)
  case (1 nleft buf k)
  obtain nread eintr d k1 where q: "SSL_read (nat nleft) k = (nread, eintr, d, k1)" by (metis prod_cases4)
  have d: "0 \<le> nread \<Longrightarrow> nread = int (length d) \<and> length d \<le> nat nleft"
      "ssl_rx_weight k1 \<le> ssl_rx_weight k"
    using q by (auto simp: SSL_read_def ssl_rx_weight_def split: list.splits ssl_rx.splits)
  consider "nleft \<le> 0" | "nleft > 0" "nread < 0" "eintr" | "nleft > 0" "nread < 0" "\<not> eintr"
    | "nleft > 0" "nread = 0" | "nleft > 0" "nread > 0" by linarith
  then show ?case
  proof cases
    case 2
    then have "ssl_read_loop nleft buf k1 = (Some l, bs, k')"
      using 1(3) ssl_read_loop_step(2) [OF q] by simp
    from 1(1) [OF 2(1) q [symmetric] refl refl 2(2,3) this] d(2) show ?thesis by auto
  next
    case 5
    then have r: "ssl_read_loop (nleft - nread) (buf @ d) k1 = (Some l, bs, k')"
      using 1(3) ssl_read_loop_step(4) [OF q] by simp
    have n: "\<not> nread < 0" "nread \<noteq> 0" using 5 by auto
    from 1(2) [OF 5(1) q [symmetric] refl refl n r] d 5 SSL_read_weight [OF q] show ?thesis by auto
  qed (use 1(3) ssl_read_loop_step [OF q] d in auto)
qed

section \<open>The life of the objects\<close>

fun released_of :: "ssl_event \<Rightarrow> nat list" where
  "released_of (Ctx_Freed x) = [x]"
| "released_of (Shut_Down x) = [x]"
| "released_of _ = []"

definition released :: "ssl_kernel \<Rightarrow> nat list" where
  "released k = concat (map released_of (t_log k))"

text \<open>A call that neither reads nor releases an object.\<close>

definition quiet :: "ssl_kernel \<Rightarrow> ssl_kernel \<Rightarrow> bool" where
  "quiet k k' \<longleftrightarrow> t_read k' = t_read k \<and> t_created k \<le> t_created k' \<and> released k' = released k"

lemma quiet_refl [simp]: "quiet k k"
  by (simp add: quiet_def)

lemma quiet_trans [trans]: "quiet k k' \<Longrightarrow> quiet k' k'' \<Longrightarrow> quiet k k''"
  by (simp add: quiet_def)

lemma released_note [simp]: "released (ssl_note e k) = released k @ released_of e"
    "t_read (ssl_note e k) = t_read k" "t_created (ssl_note e k) = t_created k"
  by (simp_all add: released_def ssl_note_def)

lemma quiet_note: "released_of e = [] \<Longrightarrow> quiet k (ssl_note e k)"
  by (simp add: quiet_def)

lemma quiet_calls:
  "ssl_load k = (r, k') \<Longrightarrow> quiet k k'" "SSL_connect k = (r, k') \<Longrightarrow> quiet k k'"
  "SSL_get_verify_result k = (r, k') \<Longrightarrow> quiet k k'" "ssl_setsockopt k = (r, k') \<Longrightarrow> quiet k k'"
  "SSL_write bs k = (r, tr, k') \<Longrightarrow> quiet k k'"
  by (auto simp: ssl_load_def SSL_connect_def SSL_get_verify_result_def ssl_setsockopt_def SSL_write_def
      quiet_def released_def split: prod.splits)

lemma quiet_new:
  assumes "SSL_CTX_new k = (x, k') \<or> SSL_new k = (x, k')"
  shows "quiet k k' \<and> (\<forall>y. x = Some y \<longrightarrow> t_created k \<le> y \<and> y < t_created k')"
  using assms
  by (auto simp: SSL_CTX_new_def SSL_new_def ssl_create_def quiet_def released_def Let_def
      split: prod.splits if_splits)

lemma quiet_open:
  "tcp_open k = (fd, k') \<Longrightarrow> quiet k k'" "tcp_try_open k = (fd, k') \<Longrightarrow> quiet k k'"
  by (auto simp: tcp_open_def tcp_try_open_def quiet_def released_def ssl_note_def Let_def
      split: prod.splits open_result.splits try_result.splits)

text \<open>The files are read after the context is created, which is the only object that is.\<close>

definition loads :: "ssl_kernel \<Rightarrow> ssl_kernel \<Rightarrow> bool" where
  "loads k k' \<longleftrightarrow> k' \<lparr> t_load := t_load k, t_log := t_log k \<rparr> = k \<and> released k' = released k"

lemma loads_trans [trans]: "loads k k' \<Longrightarrow> loads k' k'' \<Longrightarrow> loads k k''"
  by (cases k; cases k'; cases k'') (simp add: loads_def)

lemma loads_load: "ssl_load k = (r, k') \<Longrightarrow> loads k k'"
  by (auto simp: ssl_load_def loads_def released_def split: prod.splits)

lemma loads_refl: "loads k k"
  by (simp add: loads_def)

lemma loads_note: "released_of e = [] \<Longrightarrow> loads k (ssl_note e k)"
  by (simp add: loads_def) (simp add: ssl_note_def)

lemma loads_same:
  assumes "loads k k'"
  shows "t_read k' = t_read k" "t_created k' = t_created k" "released k' = released k"
    "t_new k' = t_new k" "t_connect k' = t_connect k" "t_verify k' = t_verify k"
  using assms by (cases k; cases k'; simp add: loads_def)+

lemma InitSslClient_loads:
  assumes "SSL_CTX_new k = (Some x, k1)" and "InitSslClient cert key ca k = (ctx, k')"
  shows "loads k1 k' \<and> (ctx = None \<or> ctx = Some x)"
proof -
  obtain r0 a0 where a0: "(if ca \<noteq> None then ssl_load k1 else (1, k1)) = (r0, a0)" by force
  obtain r1 a1 where a1: "ssl_load (ssl_note (Set_Verify x) a0) = (r1, a1)" by force
  obtain r2 a2 where a2: "ssl_load a1 = (r2, a2)" by force
  obtain r3 a3 where a3: "ssl_load a2 = (r3, a3)" by force
  have q0: "loads k1 a0" using a0 loads_load loads_refl by (auto split: if_splits)
  also have q1: "loads a0 (ssl_note (Set_Verify x) a0)" by (simp add: loads_note)
  also have "loads (ssl_note (Set_Verify x) a0) a1" by (rule loads_load [OF a1])
  finally have q1: "loads k1 a1" .
  have q2: "loads k1 a2" using q1 loads_load [OF a2] by (rule loads_trans)
  have q3: "loads k1 a3" using q2 loads_load [OF a3] by (rule loads_trans)
  have "k' \<in> {a0, a1, a2, a3} \<and> (ctx = None \<or> ctx = Some x)"
    using assms(2) unfolding InitSslClient_def assms(1)
    by (simp only: option.case prod.case Let_def a0 a1 a2 a3) (auto split: if_splits)
  then show ?thesis using q0 q1 q2 q3 by auto
qed

lemma InitSslClient_null: "SSL_CTX_new k = (None, k1) \<Longrightarrow> InitSslClient cert key ca k = (None, k1)"
  by (simp add: InitSslClient_def)

lemma loads_quiet: "loads k k' \<Longrightarrow> quiet k k'"
  by (simp add: loads_same quiet_def)

lemma InitSslClient_quiet:
  assumes "InitSslClient cert key ca k = (ctx, k')"
  shows "quiet k k' \<and> (\<forall>x. ctx = Some x \<longrightarrow> t_created k \<le> x \<and> x < t_created k')"
proof -
  obtain y k1 where n: "SSL_CTX_new k = (y, k1)" by force
  show ?thesis
  proof (cases y)
    case None
    then show ?thesis using assms n InitSslClient_null quiet_new by simp blast
  next
    case (Some x)
    then have "quiet k k1" "t_created k \<le> x" "x < t_created k1" using quiet_new n by blast+
    moreover have "loads k1 k'" "ctx = None \<or> ctx = Some x"
      using InitSslClient_loads [OF n [unfolded Some] assms] by blast+
    ultimately show ?thesis by (auto simp: quiet_def loads_same)
  qed
qed

text \<open>
  The objects that the client holds and those that were released are different, and all of them were
  created; a client that is connected holds a context and a session, another one holds none.
\<close>

definition ssl_held :: "ssl_client \<Rightarrow> nat list" where
  "ssl_held c = (case ssl_ctx c of None \<Rightarrow> [] | Some x \<Rightarrow> [x]) @
     (case ssl_session c of None \<Rightarrow> [] | Some x \<Rightarrow> [x])"

definition ssl_objects :: "ssl_conn \<Rightarrow> bool" where
  "ssl_objects = (\<lambda>(c, k). distinct (released k @ ssl_held c) \<and>
     (\<forall>x\<in>set (released k @ ssl_held c). x < t_created k))"

definition ssl_inv :: "ssl_conn \<Rightarrow> bool" where
  "ssl_inv = (\<lambda>(c, k). ssl_objects (c, k) \<and>
     (if m_bLidarConnected c then ssl_ctx c \<noteq> None \<and> ssl_session c \<noteq> None else ssl_held c = []))"

text \<open>Closing releases what the client holds.\<close>

lemma ssl_Close_eq:
  assumes "ssl_Close (c, k) = (c', k')"
  shows "\<not> m_bLidarConnected c' \<and> ssl_held c' = [] \<and> released k' = released k @ ssl_held c \<and>
    t_created k' = t_created k \<and> t_read k' = t_read k"
  using assms by (auto simp: ssl_Close_def Let_def ssl_held_def split: option.splits if_splits)

lemma ssl_Close_inv: "ssl_objects s \<Longrightarrow> ssl_inv (ssl_Close s)"
  using ssl_Close_eq by (cases s; cases "ssl_Close s") (auto simp: ssl_inv_def ssl_objects_def)

lemma ssl_inv_objects: "ssl_inv s \<Longrightarrow> ssl_objects s"
  by (cases s) (simp add: ssl_inv_def)

lemma quiet_inv:
  assumes "quiet k k'"
  shows "ssl_objects (c, k) \<Longrightarrow> ssl_objects (c, k')" "ssl_inv (c, k) \<Longrightarrow> ssl_inv (c, k')"
  using assms by (auto simp: ssl_inv_def ssl_objects_def quiet_def intro: less_le_trans)

lemma ssl_set_peer_simps [simp]:
  "ssl_held (ssl_set_peer ip port cert key ca c) = ssl_held c"
  "m_bLidarConnected (ssl_set_peer ip port cert key ca c) = m_bLidarConnected c"
  by (simp_all add: ssl_set_peer_def ssl_held_def)

lemma ssl_handshake_inv:
  assumes "ssl_objects (c, k)" and "ssl_ctx c \<noteq> None" and "ssl_session c = None"
  shows "ssl_inv (snd (ssl_handshake (c, k)))"
proof -
  obtain x where x: "ssl_held c = [x]" "ssl_ctx c = Some x" using assms by (auto simp: ssl_held_def)
  obtain ssl k1 where n: "SSL_new k = (ssl, k1)" by force
  have k1: "quiet k k1" "\<forall>y. ssl = Some y \<longrightarrow> t_created k \<le> y \<and> y < t_created k1" using quiet_new n by blast+
  show ?thesis
  proof (cases ssl)
    case None
    have "ssl_held (c \<lparr> ssl_session := None \<rparr>) = [x]" using x by (simp add: ssl_held_def)
    then have "ssl_objects (c \<lparr> ssl_session := None \<rparr>, k1)"
      using quiet_inv(1) [OF k1(1) assms(1)] x by (simp add: ssl_objects_def)
    then show ?thesis using n None assms by (simp add: ssl_handshake_def ssl_Close_inv)
  next
    case (Some y)
    let ?c = "c \<lparr> ssl_session := Some y \<rparr>"
    have held: "ssl_held ?c = [x, y]" using x by (simp add: ssl_held_def)
    obtain r k2 where q2: "SSL_connect (ssl_note (Set_Fd y (m_tcpSock c)) k1) = (r, k2)" by force
    obtain v k3 where q3: "SSL_get_verify_result k2 = (v, k3)" by force
    have k2: "quiet k1 k2" using quiet_note [of "Set_Fd y (m_tcpSock c)" k1] quiet_calls(2) [OF q2] by (auto intro: quiet_trans)
    have k3: "quiet k1 k3" using k2 quiet_calls(3) [OF q3] by (rule quiet_trans)
    have "ssl_objects (?c, k1)"
      using assms(1) k1 x Some unfolding ssl_objects_def prod.case held quiet_def by fastforce
    then have o: "ssl_objects (?c, k2)" "ssl_objects (?c, k3)" using quiet_inv(1) k2 k3 by blast+
    then have "ssl_inv (?c \<lparr> m_bLidarConnected := True \<rparr>, k3)"
      using x by (auto simp: ssl_inv_def ssl_objects_def ssl_held_def)
    then show ?thesis
      using assms(1) o n Some q2 q3 by (simp add: ssl_handshake_def Let_def ssl_Close_inv ssl_inv_objects)
  qed
qed

text \<open>A context, then a socket, then the session.\<close>

lemma ssl_open_inv:
  assumes "ssl_inv (c, k)" and "\<not> m_bLidarConnected c"
    and "InitSslClient cert key ca k = (ctx, k1)" and "quiet k1 k2"
  shows "ssl_inv (c \<lparr> ssl_ctx := None \<rparr>, k1)"
    and "ctx = Some x \<Longrightarrow> ssl_inv (snd (ssl_handshake (c \<lparr> ssl_ctx := Some x, m_tcpSock := fd \<rparr>, k2)))"
proof -
  have c: "ssl_held c = []" "ssl_ctx c = None" "ssl_session c = None"
    using assms(1,2) by (auto simp: ssl_inv_def ssl_held_def split: option.splits)
  have k1: "quiet k k1" "ctx = Some x \<Longrightarrow> t_created k \<le> x \<and> x < t_created k1"
    using InitSslClient_quiet [OF assms(3)] by blast+
  then have inv: "ssl_inv (c, k1)" using assms(1) quiet_inv(2) by blast
  then show "ssl_inv (c \<lparr> ssl_ctx := None \<rparr>, k1)"
    using c assms(2) by (simp add: ssl_inv_def ssl_objects_def ssl_held_def)
  assume x: "ctx = Some x"
  let ?c = "c \<lparr> ssl_ctx := Some x, m_tcpSock := fd \<rparr>"
  have held: "ssl_held ?c = [x]" using c by (simp add: ssl_held_def)
  have "ssl_objects (?c, k1)"
    using assms(1) k1(1) k1(2) [OF x] c(1)
    unfolding ssl_objects_def ssl_inv_def prod.case held quiet_def by fastforce
  then have "ssl_objects (?c, k2)" using quiet_inv(1) [OF assms(4)] by blast
  then show "ssl_inv (snd (ssl_handshake (?c, k2)))" using c by (intro ssl_handshake_inv) simp_all
qed

lemma ssl_Open0_inv:
  assumes "ssl_inv s" and "\<not> ssl_IsOpened s"
  shows "ssl_inv (snd (ssl_Open0 s))"
proof -
  obtain c k where s: "s = (c, k)" by force
  then have c: "ssl_inv (c, k)" "\<not> m_bLidarConnected c" using assms by (auto simp: ssl_IsOpened_def)
  obtain ctx k1 where i: "InitSslClient (ssl_cert c) (ssl_private_key c) (ssl_ca c) k = (ctx, k1)" by force
  obtain fd k2 where o: "tcp_open k1 = (fd, k2)" by force
  show ?thesis
    using ssl_open_inv [OF c i quiet_open(1) [OF o]]
    by (cases ctx) (simp_all add: ssl_Open0_def s i o Let_def)
qed

lemma ssl_inv_peer: "ssl_inv (ssl_set_peer ip port cert key ca c, k) = ssl_inv (c, k)"
  by (simp add: ssl_inv_def ssl_objects_def) (simp add: ssl_set_peer_def)

lemma ssl_Close_closed: "\<not> ssl_IsOpened (ssl_Close s)"
  using ssl_Close_eq by (cases s; cases "ssl_Close s") (auto simp: ssl_IsOpened_def)

lemma ssl_Open_inv: "ssl_inv s \<Longrightarrow> ssl_inv (snd (ssl_Open ip port cert key ca s))"
proof -
  assume s: "ssl_inv s"
  obtain c k where c: "s = (c, k)" by force
  obtain c1 k1 where c1: "ssl_Close (c, k) = (c1, k1)" by force
  have "ssl_inv (c1, k1)" "\<not> ssl_IsOpened (c1, k1)"
    using ssl_Close_inv [OF ssl_inv_objects [OF s]] ssl_Close_closed [of "(c, k)"] c1 c by simp_all
  then have "ssl_inv (snd (ssl_Open0 (ssl_set_peer ip port cert key ca c1, k1)))"
    by (intro ssl_Open0_inv) (simp_all add: ssl_inv_peer ssl_IsOpened_def)
  then show ?thesis using s c by (simp add: ssl_Open_def c1)
qed

lemma ssl_TryOpen_inv: "ssl_inv s \<Longrightarrow> ssl_inv (snd (ssl_TryOpen ip port cert key ca s))"
proof -
  assume s: "ssl_inv s"
  obtain c k where c: "s = (c, k)" by force
  obtain c1 k1 where c1: "(if ssl_IsOpened (c, k) then ssl_Close (c, k) else (c, k)) = (c1, k1)" by force
  have "ssl_inv (c1, k1)" "\<not> ssl_IsOpened (c1, k1)"
    using ssl_Close_inv [OF ssl_inv_objects [OF s]] ssl_Close_closed [of "(c, k)"] s c1 c
    by (auto split: if_splits)
  then have p: "ssl_inv (ssl_set_peer ip port cert key ca c1, k1)"
      "\<not> m_bLidarConnected (ssl_set_peer ip port cert key ca c1)"
    by (simp_all add: ssl_inv_peer ssl_IsOpened_def)
  obtain ctx k2 where i: "InitSslClient cert key ca k1 = (ctx, k2)" by force
  obtain fd k3 where o: "tcp_try_open k2 = (fd, k3)" by force
  show ?thesis
    using s c ssl_open_inv [OF p i quiet_open(2) [OF o]]
    by (cases ctx) (simp_all add: ssl_TryOpen_def c1 i o)
qed

lemma ssl_ensure_open_inv: "ssl_inv s \<Longrightarrow> ssl_ensure_open s = (ret, s') \<Longrightarrow> ssl_inv s'"
  using ssl_Open0_inv [of s] by (auto simp: ssl_ensure_open_def split: if_splits)

lemma ssl_read_loop_quiet: "ssl_read_loop n buf k = (r, bs, k') \<Longrightarrow>
    t_created k' = t_created k \<and> released k' = released k"
proof (induction n buf k rule: ssl_read_loop.induct)
  case (1 nleft buf k)
  obtain nread eintr d k1 where q: "SSL_read (nat nleft) k = (nread, eintr, d, k1)" by (metis prod_cases4)
  then have k1: "t_created k1 = t_created k \<and> released k1 = released k"
    by (auto simp: SSL_read_def released_def split: list.splits ssl_rx.splits if_splits)
  consider "nleft \<le> 0" | "nleft > 0" "nread < 0" "eintr" | "nleft > 0" "nread < 0" "\<not> eintr"
    | "nleft > 0" "nread = 0" | "nleft > 0" "nread > 0" by linarith
  then show ?case
  proof cases
    case 2
    then show ?thesis
      using 1(1) [OF 2(1) q [symmetric] refl refl 2(2,3)] 1(3) ssl_read_loop_step(2) [OF q] k1 by simp
  next
    case 5
    then have n: "\<not> nread < 0" "nread \<noteq> 0" by auto
    show ?thesis
      using 1(2) [OF 5(1) q [symmetric] refl refl n] 1(3) ssl_read_loop_step(4) [OF q] k1 5 by simp
  qed (use 1(3) ssl_read_loop_step [OF q] k1 in auto)
qed

lemma sys_readn_quiet: "sys_readn_by_ssl n k = (len, bs, k') \<Longrightarrow>
    t_created k' = t_created k \<and> released k' = released k"
  by (auto simp: sys_readn_by_ssl_def dest: ssl_read_loop_quiet split: prod.splits option.splits)

lemma ssl_Send_inv: "ssl_inv s \<Longrightarrow> ssl_inv (snd (ssl_Send buf s))"
proof -
  assume s: "ssl_inv s"
  obtain ret c k where o: "ssl_ensure_open s = (ret, c, k)" by (metis prod_cases3)
  obtain len tr k1 where w: "SSL_write (take (unat (word_of_nat (length buf) :: u16)) buf) k = (len, tr, k1)"
    by (metis prod_cases3)
  have i: "ssl_inv (c, k)" using ssl_ensure_open_inv [OF s o] .
  then have "ssl_inv (c, k1)" using quiet_calls(5) [OF w] quiet_inv(2) by blast
  then show ?thesis using i by (simp add: ssl_Send_def Let_def o w ssl_Close_inv ssl_inv_objects)
qed

lemma ssl_Receive_inv: "ssl_inv s \<Longrightarrow> ssl_inv (snd (snd (ssl_Receive n s)))"
proof -
  assume s: "ssl_inv s"
  obtain ret c k where o: "ssl_ensure_open s = (ret, c, k)" by (metis prod_cases3)
  obtain len bs k1 where r: "sys_readn_by_ssl (sint (word_of_nat n :: u32)) k = (len, bs, k1)"
    by (metis prod_cases3)
  have i: "ssl_inv (c, k)" using ssl_ensure_open_inv [OF s o] .
  then have "ssl_inv (c, k1)"
    using sys_readn_quiet [OF r] by (simp add: ssl_inv_def ssl_objects_def)
  then show ?thesis using i by (simp add: ssl_Receive_def Let_def o r ssl_Close_inv ssl_inv_objects)
qed

lemma ssl_SetTimeout_inv: "ssl_inv s \<Longrightarrow> ssl_inv (snd (ssl_SetTimeout rx tx s))"
proof -
  assume s: "ssl_inv s"
  obtain c k where c: "s = (c, k)" by force
  obtain r1 k1 where k1: "ssl_setsockopt k = (r1, k1)" by force
  obtain r2 k2 where k2: "ssl_setsockopt k1 = (r2, k2)" by force
  let ?c = "c \<lparr> m_u32RecTimeout := rx, m_u32SendTimeout := tx \<rparr>"
  have i0: "ssl_inv (?c, k)"
    using s c unfolding ssl_inv_def ssl_objects_def ssl_held_def by simp
  have i1: "ssl_inv (?c, k1)" by (rule quiet_inv(2) [OF quiet_calls(4) [OF k1] i0])
  have "ssl_inv (?c, k2)" by (rule quiet_inv(2) [OF quiet_calls(4) [OF k2] i1])
  with i1 show ?thesis using s c by (simp add: ssl_SetTimeout_def k1 k2 Let_def)
qed

lemma ssl_option_inv: "ssl_inv s \<Longrightarrow> ssl_inv (snd (ssl_SetReceiveTimeout rx s))"
    "ssl_inv s \<Longrightarrow> ssl_inv (ssl_SetReceiveBufferSize opt n s)"
proof -
  assume s: "ssl_inv s"
  obtain c k where c: "s = (c, k)" by force
  obtain r1 k1 where k1: "ssl_setsockopt k = (r1, k1)" by force
  have i: "ssl_inv (c, k1)" using s c quiet_inv(2) [OF quiet_calls(4) [OF k1]] by blast
  show "ssl_inv (snd (ssl_SetReceiveTimeout rx s))"
    using s c i by (simp add: ssl_SetReceiveTimeout_def k1)
  have "ssl_inv (c \<lparr> m_u32ReceiveBufferSize := n \<rparr>, k')" if "ssl_inv (c, k')" for k'
    using that unfolding ssl_inv_def ssl_objects_def ssl_held_def by simp
  then show "ssl_inv (ssl_SetReceiveBufferSize opt n s)"
    using s c i by (simp add: ssl_SetReceiveBufferSize_def k1 Let_def)
qed


text \<open>
  A lidar that refuses the connection: the handshake on the descriptor 0 fails with -1, and without a
  certificate of the peer there is nothing wrong with the verification.
\<close>

definition ssl_refused :: ssl_kernel where
  "ssl_refused = \<lparr> t_open = [], t_try = [Try_So_Error 5], t_ctx = [True], t_load = [1], t_new = [True],
     t_connect = [-1], t_verify = [0], t_write = [], t_read = [], t_sockopt = [], t_sent = [],
     t_created = 0, t_log = [] \<rparr>"

lemma ssl_new_inv: "ssl_inv (TcpSslClient_new, ssl_refused)"
  by (simp add: ssl_inv_def ssl_objects_def ssl_held_def TcpSslClient_new_def TcpClient_new_def
      tcp_client.defs ssl_refused_def released_def)


section \<open>What it takes to be connected\<close>

lemma SSL_new_result:
  assumes "SSL_new k = (x, k')"
  shows "(x \<noteq> None \<longleftrightarrow> fst (answer False (t_new k))) \<and> t_connect k' = t_connect k \<and> t_verify k' = t_verify k"
  using assms by (auto simp: SSL_new_def ssl_create_def Let_def split: prod.splits if_splits)

lemma SSL_connect_result:
  assumes "SSL_connect k = (r, k')"
  shows "r = fst (answer 0 (t_connect k)) \<and> t_verify k' = t_verify k"
  using assms by (auto simp: SSL_connect_def split: prod.splits)

lemma ssl_handshake_result:
  assumes "ssl_handshake (c, k) = (ret, s')"
  shows "(ret \<longleftrightarrow> fst (answer False (t_new k)) \<and> fst (answer 0 (t_connect k)) \<noteq> 0 \<and>
      fst (answer 1 (t_verify k)) = 0) \<and> ssl_IsOpened s' = ret"
proof -
  obtain y k1 where n: "SSL_new k = (y, k1)" by force
  note k1 = SSL_new_result [OF n]
  show ?thesis
  proof (cases y)
    case None
    then show ?thesis using assms n k1 ssl_Close_closed by (auto simp: ssl_handshake_def)
  next
    case (Some x)
    obtain r k2 where q2: "SSL_connect (ssl_note (Set_Fd x (m_tcpSock c)) k1) = (r, k2)" by force
    have k2: "r = fst (answer 0 (t_connect k))" "t_verify k2 = t_verify k"
      using SSL_connect_result [OF q2] k1 by (simp_all add: ssl_note_def)
    obtain v k3 where q3: "SSL_get_verify_result k2 = (v, k3)" by force
    have k3: "v = fst (answer 1 (t_verify k))"
      using q3 k2(2) by (auto simp: SSL_get_verify_result_def split: prod.splits)
    have h: "ssl_handshake (c, k) =
        (if r = 0 then (False, ssl_Close (c \<lparr> ssl_session := Some x \<rparr>, k2))
         else if v \<noteq> 0 then (False, ssl_Close (c \<lparr> ssl_session := Some x \<rparr>, k3))
         else (True, c \<lparr> ssl_session := Some x, m_bLidarConnected := True \<rparr>, k3))"
      by (simp add: ssl_handshake_def n Some q2 q3)
    show ?thesis
      using assms k1 Some k2(1) k3 ssl_Close_closed [of "(c \<lparr> ssl_session := Some x \<rparr>, k2)"]
        ssl_Close_closed [of "(c \<lparr> ssl_session := Some x \<rparr>, k3)"] unfolding h
      by (cases "r = 0"; cases "v = 0") (auto simp: ssl_IsOpened_def)
  qed
qed

lemma ssl_open_scripts:
  "tcp_open k = (fd, k') \<Longrightarrow> t_new k' = t_new k \<and> t_connect k' = t_connect k \<and> t_verify k' = t_verify k"
  "tcp_try_open k = (fd, k') \<Longrightarrow> t_new k' = t_new k \<and> t_connect k' = t_connect k \<and> t_verify k' = t_verify k"
  by (auto simp: tcp_open_def tcp_try_open_def ssl_note_def Let_def
      split: prod.splits open_result.splits try_result.splits)

lemma InitSslClient_scripts:
  assumes "InitSslClient cert key ca k = (ctx, k')"
  shows "t_new k' = t_new k \<and> t_connect k' = t_connect k \<and> t_verify k' = t_verify k"
proof -
  obtain y k1 where n: "SSL_CTX_new k = (y, k1)" by force
  then have k1: "t_new k1 = t_new k \<and> t_connect k1 = t_connect k \<and> t_verify k1 = t_verify k"
    by (auto simp: SSL_CTX_new_def ssl_create_def Let_def split: prod.splits if_splits)
  show ?thesis
  proof (cases y)
    case None
    then show ?thesis using assms n InitSslClient_null k1 by simp
  next
    case (Some x)
    then have "loads k1 k'" using InitSslClient_loads [OF n [unfolded Some] assms] by blast
    then show ?thesis using k1 by (simp add: loads_same)
  qed
qed

text \<open>
  C15. The connection is not looked at: a client that is not connected opens the transport exactly when
  the context and the session can be created, \<open>SSL_connect\<close> does not return 0 and the verification
  result is 0. The outcome of the connection of the socket is not part of the condition, because a failed
  one gives the descriptor 0 or, in an unsigned variable, -1, and an error of the handshake is not
  noticed, because it is -1.
\<close>

theorem ssl_open_condition:
  assumes "\<not> ssl_IsOpened (c, k)"
    and "ssl_TryOpen ip port cert key ca (c, k) = (ret, s)"
  shows "(ret \<longleftrightarrow> fst (InitSslClient cert key ca k) \<noteq> None \<and> fst (answer False (t_new k)) \<and>
      fst (answer 0 (t_connect k)) \<noteq> 0 \<and> fst (answer 1 (t_verify k)) = 0) \<and> ssl_IsOpened s = ret"
proof -
  obtain ctx k1 where i: "InitSslClient cert key ca k = (ctx, k1)" by force
  obtain fd k2 where o: "tcp_try_open k1 = (fd, k2)" by force
  let ?c = "ssl_set_peer ip port cert key ca c \<lparr> ssl_ctx := ctx \<rparr>"
  have r: "(ret, s) = (if ctx = None then (False, ?c, k1) else ssl_handshake (?c \<lparr> m_tcpSock := fd \<rparr>, k2))"
    using assms(1) unfolding assms(2) [symmetric]
    by (cases ctx) (simp_all add: ssl_TryOpen_def i o Let_def)
  show ?thesis
  proof (cases ctx)
    case None
    then show ?thesis using r i assms(1) by (simp add: ssl_IsOpened_def)
  next
    case (Some x)
    then have h: "ssl_handshake (?c \<lparr> m_tcpSock := fd \<rparr>, k2) = (ret, s)" using r by simp
    show ?thesis
      using ssl_handshake_result [OF h] ssl_open_scripts(2) [OF o] InitSslClient_scripts [OF i] i Some
      by simp
  qed
qed

lemma ssl_open_condition_witness:
  "fst (ssl_TryOpen ''192.168.1.201'' 9347 None None None (TcpSslClient_new, ssl_refused)) \<and>
   ssl_IsOpened (snd (ssl_TryOpen ''192.168.1.201'' 9347 None None None (TcpSslClient_new, ssl_refused))) \<and>
   m_tcpSock (fst (snd (ssl_TryOpen ''192.168.1.201'' 9347 None None None (TcpSslClient_new, ssl_refused)))) = 0"
    (is "?o \<and> ?i \<and> ?s")
proof -
  have c: "\<not> ssl_IsOpened (TcpSslClient_new, ssl_refused)"
    by (simp add: ssl_IsOpened_def TcpSslClient_new_def TcpClient_new_def tcp_client.defs)
  have "?o" "?i"
    using ssl_open_condition [OF c surjective_pairing]
    by (simp_all add: InitSslClient_def SSL_CTX_new_def ssl_create_def answer_def ssl_refused_def)
  moreover have ?s by code_simp
  ultimately show ?thesis by blast
qed

section \<open>Queries over TLS\<close>

lemma ssl_Open0_stream: "ssl_Open0 (c, k) = (ret, c', k') \<Longrightarrow> t_read k' = t_read k"
proof -
  assume o: "ssl_Open0 (c, k) = (ret, c', k')"
  have close: "t_read (snd (ssl_Close x)) = t_read (snd x)" for x
    using ssl_Close_eq by (cases x; cases "ssl_Close x") auto
  have shake: "t_read (snd (snd (ssl_handshake (c, k)))) = t_read k" for c k
    by (auto simp: ssl_handshake_def SSL_new_def ssl_create_def SSL_connect_def SSL_get_verify_result_def
        ssl_note_def Let_def close split: prod.splits if_splits)
  obtain ctx k1 where i: "InitSslClient (ssl_cert c) (ssl_private_key c) (ssl_ca c) k = (ctx, k1)" by force
  obtain fd k2 where f: "tcp_open k1 = (fd, k2)" by force
  have "t_read k1 = t_read k" "t_read k2 = t_read k1"
    using InitSslClient_quiet [OF i] quiet_open(1) [OF f] by (simp_all add: quiet_def)
  then show ?thesis
    using o shake [of "c \<lparr> ssl_ctx := ctx, m_tcpSock := fd \<rparr>" k2]
    by (cases ctx) (auto simp: ssl_Open0_def i f)
qed

lemma ssl_Receive_cases:
  assumes "ssl_Receive n s = (len, bs, s')" and "0 < len"
  shows "len = int (length bs) \<and> length bs \<le> n \<and> ssl_pend s' < ssl_pend s"
proof -
  obtain c k where s: "s = (c, k)" by force
  obtain ret c1 k1 where o: "ssl_ensure_open s = (ret, c1, k1)" by (metis prod_cases3)
  let ?n = "sint (word_of_nat n :: u32)"
  obtain l b k2 where r: "sys_readn_by_ssl ?n k1 = (l, b, k2)" by (metis prod_cases3)
  have e: "len = ?n \<and> l = ?n \<and> bs = b \<and> s' = (c1, k2)"
    using assms o r by (auto simp: ssl_Receive_def Let_def split: if_splits)
  have k1: "t_read k1 = t_read k"
    using o s ssl_Open0_stream by (auto simp: ssl_ensure_open_def split: if_splits)
  obtain left where loop: "ssl_read_loop ?n [] k1 = (Some left, b, k2)" "?n - left = ?n"
    using r e assms(2) by (auto simp: sys_readn_by_ssl_def split: prod.splits option.splits)
  have "int (length b) = ?n" "ssl_rx_weight k2 < ssl_rx_weight k1"
    using ssl_read_loop_bound [OF loop(1)] loop(2) e assms(2) by auto
  moreover have "?n \<le> int n"
  proof -
    have "?n = signed_take_bit 31 (int n)" by (simp add: signed_of_nat)
    also have "... \<le> take_bit 32 (int n)" by (simp add: signed_take_bit_eq_take_bit_minus)
    also have "... \<le> int n" by (simp add: take_bit_int_less_eq_self_iff)
    finally show ?thesis .
  qed
  moreover have "ssl_rx_weight k1 = ssl_rx_weight k" using k1 by (simp add: ssl_rx_weight_def)
  ultimately show ?thesis using e s by (simp add: ssl_pend_def)
qed

lemma ssl_Receive_data:
  assumes "0 < n" and "n < 2147483648" and "n \<le> length (ssl_data s)"
  shows "\<exists>s'. ssl_Receive n s = (int n, take n (ssl_data s), s') \<and> ssl_data s' = drop n (ssl_data s)"
proof -
  obtain c k where s: "s = (c, k)" "m_bLidarConnected c"
    using assms(1,3) by (cases s) (auto simp: ssl_data_def split: if_splits)
  have n: "sint (word_of_nat n :: u32) = int n"
    using assms(2) by (simp add: signed_of_nat signed_take_bit_int_eq_self)
  have "n \<le> length (ssl_stream (t_read k))" using assms(3) s by (simp add: ssl_data_def)
  from ssl_read_loop_stream [OF this, of "[]"] obtain k' where k': "ssl_read_loop (int n) [] k =
      (Some 0, take n (ssl_data s), k')" "ssl_stream (t_read k') = drop n (ssl_data s)"
    using s by (auto simp: ssl_data_def)
  have "ssl_Receive n s = (int n, take n (ssl_data s), c, k')"
    using s n k' by (simp add: ssl_Receive_def ssl_ensure_open_def ssl_IsOpened_def sys_readn_by_ssl_def)
  moreover have "ssl_data (c, k') = drop n (ssl_data s)" using s k'(2) by (simp add: ssl_data_def)
  ultimately show ?thesis by blast
qed

interpretation tls: client_base ssl_Receive ssl_data ssl_burst ssl_pend
proof
  fix n s len bs s'
  assume "ssl_Receive n s = (len, bs, s')" and "0 < len"
  from ssl_Receive_cases [OF this]
  show "len = int (length bs) \<and> length bs \<le> n" and "ssl_pend s' < ssl_pend s" by blast+
next
  fix n :: nat and s :: ssl_conn
  assume n: "0 < n" "n < 2147483648" "n \<le> length (ssl_data s)"
  from ssl_Receive_data [OF this] n(1,3)
  show "\<exists>t s'. ssl_Receive n s = (int (length t), t, s') \<and> 0 < length t \<and>
      min n (ssl_burst s) \<le> length t \<and> ssl_data s = t @ ssl_data s'"
    by (auto intro!: exI [of _ "take n (ssl_data s)"])
qed

interpretation tls1: ptc_session ssl_Receive ssl_data ssl_burst ssl_pend 8 "0x47" "0x74"
    PtcStreamEncode_1_0 ptc_info_1_0 1
  by unfold_locales (simp_all add: version_1)

interpretation tls2: ptc_session ssl_Receive ssl_data ssl_burst ssl_pend 12 "0x57" "0x75"
    PtcStreamEncode_2_0 ptc_info_2_0 2
  by unfold_locales (simp_all add: version_2)

abbreviation PtcClient_query_ssl :: "u8 \<Rightarrow> u8 list \<Rightarrow> u8 list \<Rightarrow> u8 \<Rightarrow> ssl_conn \<Rightarrow>
    (int \<times> u8 list \<times> ssl_conn) option" where
  "PtcClient_query_ssl \<equiv> QueryCommand ssl_Send ssl_Receive"

lemma ssl_query_safe: "known_version v \<Longrightarrow> PtcClient_query_ssl v input out cmd s \<noteq> None"
  using tls1.QueryCommand_defined tls2.QueryCommand_defined unfolding known_version_def by metis

lemma ssl_query_answer:
  assumes "PtcStreamEncode (PtcParser_new v) input cmd = Some request"
    and "PtcStreamEncode (PtcParser_new v) payload cmd = Some response"
    and "length request < 2147483648" and "length payload < 2147483648"
    and "ssl_Send request s = (int (length request), s1)"
    and "2 \<le> ssl_burst s1" and "ssl_data s1 = response @ later"
  shows "\<exists>s'. PtcClient_query_ssl v input out cmd s =
           Some (0, if payload = [] then out else payload, s') \<and> ssl_data s' = later"
proof -
  consider "v = 1" | "v = 2" using encode_known [OF assms(1)] by (auto simp: known_version_def)
  then show ?thesis
  proof cases
    case 1
    then have e: "request = PtcStreamEncode_1_0 input cmd" "response = PtcStreamEncode_1_0 payload cmd"
      using assms(1,2) by (simp_all add: version_1)
    show ?thesis unfolding 1 using assms(3-7) unfolding e by (intro tls1.QueryCommand_answer)
  next
    case 2
    then have e: "request = PtcStreamEncode_2_0 input cmd" "response = PtcStreamEncode_2_0 payload cmd"
      using assms(1,2) by (simp_all add: version_2)
    show ?thesis unfolding 2 using assms(3-7) unfolding e by (intro tls2.QueryCommand_answer)
  qed
qed

text \<open>
  C7. A query over TLS: for both protocol versions and whatever arrives, \<open>QueryCommand\<close> returns and its
  copies stay in their buffers; if the request goes out and the lidar answers with a well-formed message
  for the same command, then the output is the payload, however the message is cut into records and
  however often a read is interrupted. Bytes behind the message stay in the stream.
\<close>

theorem ssl_query_response:
  assumes "PtcStreamEncode (PtcParser_new v) input cmd = Some request"
    and "PtcStreamEncode (PtcParser_new v) payload cmd = Some response"
    and "length request < 2147483648" and "length payload < 2147483648"
  shows "PtcClient_query_ssl v input out cmd s \<noteq> None \<and>
    (\<forall>s1 later. ssl_Send request s = (int (length request), s1) \<and> ssl_data s1 = response @ later \<longrightarrow>
      (\<exists>s'. PtcClient_query_ssl v input out cmd s =
         Some (0, if payload = [] then out else payload, s') \<and> ssl_data s' = later))"
proof (intro conjI allI impI)
  show "PtcClient_query_ssl v input out cmd s \<noteq> None"
    by (rule ssl_query_safe [OF encode_known [OF assms(1)]])
  fix s1 later
  assume a: "ssl_Send request s = (int (length request), s1) \<and> ssl_data s1 = response @ later"
  have "2 \<le> length response"
    using assms(2) encode_known [OF assms(1)]
    by (auto simp: known_version_def version_1 version_2 PtcStreamEncode_1_0_wire PtcStreamEncode_2_0_wire)
  then have "2 \<le> ssl_burst s1" using a by (simp add: ssl_burst_def)
  then show "\<exists>s'. PtcClient_query_ssl v input out cmd s =
      Some (0, if payload = [] then out else payload, s') \<and> ssl_data s' = later"
    using ssl_query_answer [OF assms] a by blast
qed

text \<open>A lidar that answers the command 5 with two bytes in three records, with one interruption.\<close>

definition ssl_ex :: ssl_conn where
  "ssl_ex = (TcpSslClient_new \<lparr> m_bLidarConnected := True, m_tcpSock := 3, ssl_ctx := Some 0, ssl_session := Some 1 \<rparr>,
     ssl_refused \<lparr> t_write := [(8, False)], t_created := 2,
       t_read := [Ssl_Data [0x47], Ssl_Fails True, Ssl_Data [0x74, 5, 0, 0, 0, 0], Ssl_Data [2, 9, 8]] \<rparr>)"

lemma ssl_query_response_witness: "\<exists>s'. PtcClient_query_ssl 1 [] [] 5 ssl_ex = Some (0, [9, 8], s')"
proof -
  have req: "PtcStreamEncode (PtcParser_new 1) [] 5 = Some [0x47, 0x74, 5, 0, 0, 0, 0, 0]"
    by (simp add: PtcParser_new_def PtcStreamEncode_1_0_wire be_bytes_def le_bytes_4)
  have rsp: "PtcStreamEncode (PtcParser_new 1) [9, 8] 5 = Some [0x47, 0x74, 5, 0, 0, 0, 0, 2, 9, 8]"
    by (simp add: PtcParser_new_def PtcStreamEncode_1_0_wire be_bytes_def le_bytes_4)
  define s1 where "s1 = (fst ssl_ex,
      snd ssl_ex \<lparr> t_sent := [[0x47, 0x74, 5, 0, 0, 0, 0, 0]], t_write := [] \<rparr>)"
  have send: "ssl_Send [0x47, 0x74, 5, 0, 0, 0, 0, 0] ssl_ex = (int (length
      [0x47, 0x74, 5, 0, 0, 0, 0, 0 :: u8]), s1)"
    unfolding s1_def by code_simp
  have "ssl_data s1 = [0x47, 0x74, 5, 0, 0, 0, 0, 2, 9, 8] @ []"
    by (simp add: s1_def ssl_ex_def ssl_data_def)
  with ssl_query_response [OF req rsp, of "[]" ssl_ex] send show ?thesis by fastforce
qed

end
