(* ===== verification/Polling.thy ===== *)
theory Polling
  imports Prelude
begin

text \<open>
  Loops that wait: \<open>while (c) ...\<close> where the condition and the body change the state, and read what other
  threads provide. \<open>c i s\<close> is the \<open>i\<close>-th iteration in the state \<open>s\<close>: \<open>None\<close> when it is undefined,
  \<open>Some (True, s')\<close> when the loop goes on with \<open>s'\<close>, and \<open>Some (False, s')\<close> when it is left. \<open>None\<close> as the
  result of \<open>spin\<close> is a loop that is undefined or does not end.
\<close>

partial_function (option) spin :: "(nat \<Rightarrow> 's \<Rightarrow> (bool \<times> 's) option) \<Rightarrow> nat \<Rightarrow> 's \<Rightarrow> (nat \<times> 's) option" where
  "spin c i s = Option.bind (c i s) (\<lambda>r. if fst r then spin c (Suc i) (snd r) else Some (i, snd r))"

text \<open>The state before the \<open>i\<close>-th iteration, if there is one.\<close>

primrec spin_at :: "(nat \<Rightarrow> 's \<Rightarrow> (bool \<times> 's) option) \<Rightarrow> nat \<Rightarrow> 's \<Rightarrow> 's option" where
  "spin_at c 0 s = Some s"
| "spin_at c (Suc i) s = Option.bind (spin_at c i s) (\<lambda>t. Option.bind (c i t) (\<lambda>r. if fst r then Some (snd r) else None))"

lemma spin_from: "spin_at c i s = Some t \<Longrightarrow> spin c 0 s = spin c i t"
proof (induction i arbitrary: t)
  case (Suc i)
  then obtain u r where u: "spin_at c i s = Some u" "c i u = Some r" "fst r" "t = snd r"
    by (auto split: if_splits)
  have "spin c 0 s = spin c i u" using Suc.IH [OF u(1)] .
  also have "\<dots> = spin c (Suc i) t" using u by (subst spin.simps) simp
  finally show ?case .
qed simp

lemma spin_ends:
  assumes "spin c j t = Some r" and "spin_at c j s = Some t"
  shows "\<exists>u. spin_at c (fst r) s = Some u \<and> c (fst r) u = Some (False, snd r)"
proof -
  have "\<forall>s. spin_at c j s = Some t \<longrightarrow> (\<exists>u. spin_at c (fst r) s = Some u \<and> c (fst r) u = Some (False, snd r))"
    using assms(1)
  proof (induction rule: spin.raw_induct [rotated 1, consumes 1, case_names step])
    case (step f c i t r)
    then obtain q where q: "c i t = Some q" "(if fst q then f c (Suc i) (snd q) else Some (i, snd q)) = Some r"
      by auto
    show ?case
    proof (cases "fst q")
      case True
      then have "f c (Suc i) (snd q) = Some r" using q(2) by simp
      note step(1) [OF this]
      moreover have "spin_at c (Suc i) s = Some (snd q)" if "spin_at c i s = Some t" for s
        using that q(1) True by simp
      ultimately show ?thesis by blast
    next
      case False
      then show ?thesis using q by (cases q) auto
    qed
  qed
  then show ?thesis using assms(2) by blast
qed

text \<open>A loop is left in the first iteration whose condition fails.\<close>

lemma spin_iff: "spin c 0 s = Some (i, s') \<longleftrightarrow> (\<exists>t. spin_at c i s = Some t \<and> c i t = Some (False, s'))"
proof
  assume "spin c 0 s = Some (i, s')"
  from spin_ends [OF this, of s] show "\<exists>t. spin_at c i s = Some t \<and> c i t = Some (False, s')" by simp
next
  assume "\<exists>t. spin_at c i s = Some t \<and> c i t = Some (False, s')"
  then obtain t where t: "spin_at c i s = Some t" "c i t = Some (False, s')" by blast
  have "spin c i t = Some (i, s')" using t(2) by (subst spin.simps) simp
  then show "spin c 0 s = Some (i, s')" using spin_from [OF t(1)] by simp
qed

text \<open>A loop whose state does not change while it waits.\<close>

lemma spin_idle:
  assumes "\<And>i. c i s = Some (\<not> stop i, s)"
  shows "spin c 0 s = (if \<exists>i. stop i then Some (LEAST i. stop i, s) else None)"
proof -
  have at: "spin_at c i s = (if \<forall>j<i. \<not> stop j then Some s else None)" for i
    by (induction i) (auto simp: assms less_Suc_eq)
  show ?thesis
  proof (cases "\<exists>i. stop i")
    case True
    define n where "n = (LEAST i. stop i)"
    have "stop n" unfolding n_def using True by (rule LeastI_ex)
    moreover have "\<forall>j<n. \<not> stop j" unfolding n_def by (auto dest: not_less_Least)
    ultimately have "spin_at c n s = Some s \<and> c n s = Some (False, s)" by (simp add: at assms)
    then have "spin c 0 s = Some (n, s)" unfolding spin_iff by blast
    then show ?thesis using True by (simp add: n_def)
  next
    case False
    have "spin c 0 s = None"
    proof (cases "spin c 0 s")
      case (Some r)
      obtain i s' where r: "r = (i, s')" by force
      then obtain t where t: "spin_at c i s = Some t" "c i t = Some (False, s')"
        using Some by (auto simp: spin_iff)
      then have "t = s" by (simp add: at split: if_splits)
      then show ?thesis using t(2) assms False by simp
    qed
    then show ?thesis using False by simp
  qed
qed

end
