(* ===== verification/Ptc_Connect.thy ===== *)
theory Ptc_Connect
  imports Polling Tcp_Ssl_Client Crc
begin

text \<open>
  The life of a \<open>PtcClient\<close> (\<open>src/libhesai/PtcClient/src/ptc_client.cc\<close>): the constructor, the thread that
  opens the transport, and the operations that go straight to it. The thread runs \<open>TryOpen\<close>: it creates the
  transport and tries to open it until this succeeds or the destructor clears \<open>InitOpen\<close>; \<open>init i\<close> is
  what the thread reads from it in its \<open>i\<close>-th test. Until then \<open>client_\<close> is a null pointer.
\<close>

datatype PtcMode = Mode_tcp | Mode_tcp_ssl

datatype transport = Tcp conn | Tls ssl_conn

record ptc_client =
  pc_lidar_ip :: string
  pc_tcp_port :: u16
  pc_auto_receive :: bool
  pc_client_mode :: PtcMode
  pc_ptc_version :: u8
  pc_cert :: "string option"
  pc_private_key :: "string option"
  pc_ca :: "string option"
  pc_recv_timeout_ms :: u32
  pc_send_timeout_ms :: u32
  pc_client :: "transport option"
  pc_ptc_parser :: ptc_parser
  pc_CRCTable :: "u32 list"

text \<open>The constructor starts the thread and does not wait for it; \<open>None\<close> if \<open>CRCInit\<close> did not end.\<close>

definition PtcClient_new :: "string \<Rightarrow> u16 \<Rightarrow> bool \<Rightarrow> PtcMode \<Rightarrow> u8 \<Rightarrow> string option \<Rightarrow> string option \<Rightarrow>
    string option \<Rightarrow> u32 \<Rightarrow> u32 \<Rightarrow> ptc_client option" where
  "PtcClient_new ip port auto_receive mode version cert private_key ca rx tx = do {
     table \<leftarrow> CRCInit;
     Some \<lparr> pc_lidar_ip = ip, pc_tcp_port = port, pc_auto_receive = auto_receive, pc_client_mode = mode,
       pc_ptc_version = version, pc_cert = cert, pc_private_key = private_key, pc_ca = ca,
       pc_recv_timeout_ms = rx, pc_send_timeout_ms = tx, pc_client = None,
       pc_ptc_parser = PtcParser_new version, pc_CRCTable = table \<rparr> }"

text \<open>\<open>while (InitOpen && !client_->TryOpen(...)) sleep\<close>\<close>

definition try_open :: "('s \<Rightarrow> bool \<times> 's) \<Rightarrow> (nat \<Rightarrow> bool) \<Rightarrow> nat \<Rightarrow> 's \<Rightarrow> (bool \<times> 's) option" where
  "try_open attempt init i s =
     (if init i then (let (ok, s') = attempt s in Some (\<not> ok, s')) else Some (False, s))"

definition ptc_TryOpen :: "(nat \<Rightarrow> bool) \<Rightarrow> kernel \<Rightarrow> ssl_kernel \<Rightarrow> ptc_client \<Rightarrow> ptc_client option" where
  "ptc_TryOpen init k sk pc =
     (let timeouts = pc_recv_timeout_ms pc \<noteq> 0 \<and> pc_send_timeout_ms pc \<noteq> 0;
          rx = pc_recv_timeout_ms pc; tx = pc_send_timeout_ms pc
      in case pc_client_mode pc of
        Mode_tcp \<Rightarrow> do {
          (_, s) \<leftarrow> spin (try_open (tcp_TryOpen (pc_lidar_ip pc) (pc_tcp_port pc)) init) 0 (TcpClient_new, k);
          Some (pc \<lparr> pc_client := Some (Tcp (if timeouts then snd (tcp_SetTimeout rx tx s) else s)) \<rparr>) }
      | Mode_tcp_ssl \<Rightarrow> do {
          (_, s) \<leftarrow> spin (try_open (ssl_TryOpen (pc_lidar_ip pc) (pc_tcp_port pc) (pc_cert pc)
                            (pc_private_key pc) (pc_ca pc)) init) 0 (TcpSslClient_new, sk);
          Some (pc \<lparr> pc_client := Some (Tls (if timeouts then snd (ssl_SetTimeout rx tx s) else s)) \<rparr>) })"

text \<open>Both dereference \<open>client_\<close>, which is \<open>None\<close> before the thread has run.\<close>

definition ptc_IsOpen :: "ptc_client \<Rightarrow> bool option" where
  "ptc_IsOpen pc = do {
     t \<leftarrow> pc_client pc;
     Some (case t of Tcp s \<Rightarrow> tcp_IsOpened s | Tls s \<Rightarrow> ssl_IsOpened s) }"

definition ptc_SetSocketTimeout :: "u32 \<Rightarrow> u32 \<Rightarrow> ptc_client \<Rightarrow> (int \<times> ptc_client) option" where
  "ptc_SetSocketTimeout rx tx pc = do {
     t \<leftarrow> pc_client pc;
     Some (case t of
         Tcp s \<Rightarrow> (let (r, s) = tcp_SetTimeout rx tx s in (r, pc \<lparr> pc_client := Some (Tcp s) \<rparr>))
       | Tls s \<Rightarrow> (let (r, s) = ssl_SetTimeout rx tx s in (r, pc \<lparr> pc_client := Some (Tls s) \<rparr>))) }"

section \<open>The thread ends when it should\<close>

text \<open>The transport after a number of attempts.\<close>

primrec attempts :: "('s \<Rightarrow> bool \<times> 's) \<Rightarrow> nat \<Rightarrow> 's \<Rightarrow> 's" where
  "attempts attempt 0 s = s"
| "attempts attempt (Suc i) s = snd (attempt (attempts attempt i s))"

lemma try_open_eq: "try_open attempt init i t =
    (if init i \<and> \<not> fst (attempt t) then Some (True, snd (attempt t))
     else Some (False, if init i then snd (attempt t) else t))"
  by (cases "attempt t") (simp add: try_open_def)

lemma spin_try_open:
  "spin_at (try_open attempt init) i s =
     (if \<forall>j<i. init j \<and> \<not> fst (attempt (attempts attempt j s)) then Some (attempts attempt i s) else None)"
proof (induction i)
  case (Suc i)
  show ?case unfolding spin_at.simps Suc All_less_Suc
    by (cases "init i \<and> \<not> fst (attempt (attempts attempt i s))") (auto simp: try_open_eq)
qed simp

lemma try_open_ends:
  "spin (try_open attempt init) 0 s \<noteq> None \<longleftrightarrow>
     (\<exists>i. \<not> init i \<or> fst (attempt (attempts attempt i s)))" (is "_ \<longleftrightarrow> (\<exists>i. ?stop i)")
proof
  assume "spin (try_open attempt init) 0 s \<noteq> None"
  then obtain i s' where "spin (try_open attempt init) 0 s = Some (i, s')" by auto
  then obtain t where t: "spin_at (try_open attempt init) i s = Some t" "try_open attempt init i t = Some (False, s')"
    unfolding spin_iff by blast
  then have "t = attempts attempt i s" by (simp add: spin_try_open split: if_splits)
  then have "?stop i" using t(2) by (auto simp: try_open_eq split: if_splits)
  then show "\<exists>i. ?stop i" by blast
next
  assume ex: "\<exists>i. ?stop i"
  define n where "n = (LEAST i. ?stop i)"
  have n: "?stop n" unfolding n_def using ex by (rule LeastI_ex)
  have "\<forall>j<n. init j \<and> \<not> fst (attempt (attempts attempt j s))"
    unfolding n_def using not_less_Least [of _ ?stop] by blast
  then have "spin_at (try_open attempt init) n s = Some (attempts attempt n s)" by (simp add: spin_try_open)
  moreover obtain s' where "try_open attempt init n (attempts attempt n s) = Some (False, s')"
    using n by (auto simp: try_open_eq)
  ultimately have "spin (try_open attempt init) 0 s = Some (n, s')" unfolding spin_iff by blast
  then show "spin (try_open attempt init) 0 s \<noteq> None" by simp
qed



end
