(* ===== verification/Lidar_Types.thy ===== *)
theory Lidar_Types
  imports Float_Model
begin

text \<open>
  The data of \<open>src/libhesai/Lidar/lidar_types.h\<close>: a received packet, the decoded points of a
  frame and the computed points. A frame is one block of memory with three arrays, as large as
  \<open>kMaxPacketNumPerFrame\<close> packets of \<open>kMaxPointsNumPerPacket\<close> points; an array is a function of
  its index, and a write outside it is \<open>None\<close>. The point type \<open>T_Point\<close> is the one with all
  fields (\<open>LidarPointXYZICRT\<close>).
\<close>

definition kMaxPointsNumPerPacket :: nat where "kMaxPointsNumPerPacket = 512"
definition kMaxPacketNumPerFrame :: nat where "kMaxPacketNumPerFrame = 5000"
definition kMaxPointsNumPerFrame :: nat where "kMaxPointsNumPerFrame = 2560000"
definition kBufSize :: nat where "kBufSize = 1500"

record LidarPoint =
  lp_x :: fp
  lp_y :: fp
  lp_z :: fp
  lp_intensity :: fp
  lp_confidence :: fp
  lp_ring :: u16
  lp_timestamp :: fp

text \<open>The point after \<open>memset(&point, 0, sizeof(T_Point))\<close>.\<close>

definition LidarPoint_zero :: LidarPoint where
  "LidarPoint_zero = \<lparr> lp_x = Fin 0, lp_y = Fin 0, lp_z = Fin 0, lp_intensity = Fin 0,
     lp_confidence = Fin 0, lp_ring = 0, lp_timestamp = Fin 0 \<rparr>"

record LidarDecodeConfig =
  fov_start :: int
  fov_end :: int

definition LidarDecodeConfig_new :: LidarDecodeConfig where
  "LidarDecodeConfig_new = \<lparr> fov_start = -1, fov_end = -1 \<rparr>"

record PointDecodeData =
  pd_azimuth :: fp
  pd_elevation :: fp
  pd_distances :: u16
  pd_reflectivities :: u8
  pd_confidence :: u8
  pd_chn_index :: u8
  pd_mirror_index :: u8

record LidarDecodedFrame =
  f_host_timestamp :: u64
  f_sensor_timestamp :: "nat \<Rightarrow> u64"
  f_major_version :: u8
  f_minor_version :: u8
  f_return_mode :: u16
  f_spin_speed :: u16
  f_points_num :: u32
  f_packet_num :: u32
  f_points :: "nat \<Rightarrow> LidarPoint"
  f_pointData :: "nat \<Rightarrow> PointDecodeData"
  f_block_num :: u16
  f_laser_num :: u16
  f_per_points_num :: u32
  f_scan_complete :: bool
  f_distance_unit :: fp
  f_frame_index :: int
  f_lidar_state :: int
  f_work_mode :: int
  f_use_timestamp_type :: u16
  f_config :: LidarDecodeConfig

text \<open>The constructor leaves the contents of the arrays as it finds them (\<open>mem\<close>).\<close>

definition LidarDecodedFrame_new :: "LidarDecodedFrame \<Rightarrow> LidarDecodedFrame" where
  "LidarDecodedFrame_new mem = mem \<lparr> f_host_timestamp := 0, f_major_version := 0,
     f_minor_version := 0, f_return_mode := 0, f_spin_speed := 0, f_points_num := 0,
     f_packet_num := 0, f_block_num := 0, f_laser_num := 0, f_per_points_num := 0,
     f_scan_complete := False, f_distance_unit := Fin 0, f_frame_index := 0,
     f_lidar_state := -1, f_work_mode := -1, f_use_timestamp_type := 0,
     f_config := LidarDecodeConfig_new \<rparr>"

definition frame_Update :: "LidarDecodedFrame \<Rightarrow> LidarDecodedFrame" where
  "frame_Update f = f \<lparr> f_host_timestamp := 0, f_major_version := 0, f_minor_version := 0,
     f_return_mode := 0, f_spin_speed := 0, f_points_num := 0, f_packet_num := 0,
     f_block_num := 0, f_laser_num := 0, f_per_points_num := 0, f_scan_complete := False,
     f_distance_unit := Fin 0, f_lidar_state := -1, f_work_mode := -1,
     f_frame_index := f_frame_index f + 1 \<rparr>"

text \<open>Checked accesses to the arrays.\<close>

definition put_point_data ::
    "nat \<Rightarrow> (PointDecodeData \<Rightarrow> PointDecodeData) \<Rightarrow> LidarDecodedFrame \<Rightarrow> LidarDecodedFrame option" where
  "put_point_data i upd f =
     (if i < kMaxPointsNumPerFrame
      then Some (f \<lparr> f_pointData := (f_pointData f)(i := upd (f_pointData f i)) \<rparr>) else None)"

definition put_point ::
    "nat \<Rightarrow> (LidarPoint \<Rightarrow> LidarPoint) \<Rightarrow> LidarDecodedFrame \<Rightarrow> LidarDecodedFrame option" where
  "put_point i upd f =
     (if i < kMaxPointsNumPerFrame
      then Some (f \<lparr> f_points := (f_points f)(i := upd (f_points f i)) \<rparr>) else None)"

definition get_point_data :: "nat \<Rightarrow> LidarDecodedFrame \<Rightarrow> PointDecodeData option" where
  "get_point_data i f = (if i < kMaxPointsNumPerFrame then Some (f_pointData f i) else None)"

definition put_timestamp :: "nat \<Rightarrow> u64 \<Rightarrow> LidarDecodedFrame \<Rightarrow> LidarDecodedFrame option" where
  "put_timestamp i t f =
     (if i < kMaxPacketNumPerFrame
      then Some (f \<lparr> f_sensor_timestamp := (f_sensor_timestamp f)(i := t) \<rparr>) else None)"

definition get_timestamp :: "nat \<Rightarrow> LidarDecodedFrame \<Rightarrow> u64 option" where
  "get_timestamp i f = (if i < kMaxPacketNumPerFrame then Some (f_sensor_timestamp f i) else None)"

section \<open>Received packets\<close>

record UdpPacket =
  up_buffer :: "u8 list"
  up_packet_len :: int
  up_is_timeout :: bool
  up_recv_timestamp :: u64
  up_ip :: u32
  up_port :: u16

text \<open>
  The constructor: \<open>packet_len\<close> is an \<open>int16_t\<close>, and \<open>memcpy\<close> takes it as its length, so a size
  of \<open>2 ^ 15\<close> or more, which is negative there, is a copy out of bounds like one above 1500.
  The rest of the buffer is not initialised (\<open>mem\<close>).
\<close>

definition UdpPacket_new ::
    "u8 list \<Rightarrow> u8 list option \<Rightarrow> u32 \<Rightarrow> u64 \<Rightarrow> u32 \<Rightarrow> u32 \<Rightarrow> UdpPacket option" where
  "UdpPacket_new mem data len32 tm i_ip i_port =
     (let len = sint (ucast len32 :: u16);
          pkt = (\<lambda>buf. \<lparr> up_buffer = buf, up_packet_len = len, up_is_timeout = False,
                   up_recv_timestamp = tm, up_ip = i_ip, up_port = ucast i_port \<rparr>)
      in case data of
           None \<Rightarrow> Some (pkt mem)
         | Some bs \<Rightarrow>
             (if 0 \<le> len \<and> nat len \<le> length bs
              then do { buf \<leftarrow> memcpy_at 0 (take (nat len) bs) mem; Some (pkt buf) }
              else None))"

definition packet_wf :: "UdpPacket \<Rightarrow> bool" where
  "packet_wf p \<longleftrightarrow> length (up_buffer p) = kBufSize"

lemma packet_wf_length: "packet_wf p \<Longrightarrow> length (up_buffer p) = 1500"
  by (simp add: packet_wf_def kBufSize_def)

text \<open>A packet of at most 1500 bytes is stored whole, at the start of the buffer.\<close>

lemma UdpPacket_new_ok:
  assumes "length mem = 1500" and "length bs \<le> 1500"
  shows "\<exists>p. UdpPacket_new mem (Some bs) (word_of_nat (length bs)) tm ip port = Some p \<and>
           packet_wf p \<and> take (length bs) (up_buffer p) = bs \<and>
           up_packet_len p = int (length bs)"
proof -
  have "sint (ucast (word_of_nat (length bs) :: u32) :: u16) = int (length bs)"
    using assms(2) by (simp add: unsigned_of_nat signed_of_nat signed_take_bit_int_eq_self
        take_bit_nat_eq_self)
  then show ?thesis
    using assms by (simp add: UdpPacket_new_def Let_def memcpy_at_def packet_wf_def kBufSize_def)
qed

end
