(* ===== verification/General_Parser.thy ===== *)
theory General_Parser
  imports Lidar_Types
begin

text \<open>
  The base class \<open>GeneralParser\<close> of \<open>src/libhesai/UdpParser\<close> (\<open>general_parser.h\<close> and
  \<open>general_parser.cc\<close>): the fields of a parser, the constructor, the setters, the statistics of
  lost and late packets, and the geometry shared by all parsers. Classes without
  fields of their own are this record; the others extend it in their theories.

  The mathematical functions of the C library are a parameter (\<open>libm\<close>), and so is the clock:
  \<open>tick k\<close> is what the \<open>k\<close>-th call of \<open>GetMicroTickCount\<close> in an operation returns. The
  expressions are evaluated in the types of the source, without contraction.
\<close>

definition CIRCLE :: int where "CIRCLE = 9216000"
definition MAX_LASER_NUM :: int where "MAX_LASER_NUM = 512"

text \<open>The double nearest to pi, \<open>M_PI\<close>.\<close>

definition M_PI :: fp where "M_PI = Fin (884279719003555 / 281474976710656)"

abbreviation fmul :: "fp \<Rightarrow> fp \<Rightarrow> fp" where "fmul \<equiv> fp_mul f32"
abbreviation fadd :: "fp \<Rightarrow> fp \<Rightarrow> fp" where "fadd \<equiv> fp_add f32"
abbreviation fsub :: "fp \<Rightarrow> fp \<Rightarrow> fp" where "fsub \<equiv> fp_sub f32"
abbreviation fdiv :: "fp \<Rightarrow> fp \<Rightarrow> fp" where "fdiv \<equiv> fp_div f32"
abbreviation dmul :: "fp \<Rightarrow> fp \<Rightarrow> fp" where "dmul \<equiv> fp_mul f64"
abbreviation dadd :: "fp \<Rightarrow> fp \<Rightarrow> fp" where "dadd \<equiv> fp_add f64"
abbreviation ddiv :: "fp \<Rightarrow> fp \<Rightarrow> fp" where "ddiv \<equiv> fp_div f64"
abbreviation to_float :: "fp \<Rightarrow> fp" where "to_float \<equiv> fp_conv f32"

record libm =
  m_sin :: "fp \<Rightarrow> fp"
  m_cos :: "fp \<Rightarrow> fp"
  m_sinf :: "fp \<Rightarrow> fp"
  m_cosf :: "fp \<Rightarrow> fp"
  m_atanf :: "fp \<Rightarrow> fp"
  m_asinf :: "fp \<Rightarrow> fp"
  m_sqrtf :: "fp \<Rightarrow> fp"
  m_tan :: "fp \<Rightarrow> fp"
  m_tanf :: "fp \<Rightarrow> fp"

section \<open>State\<close>

record Transform =
  t_x :: fp
  t_y :: fp
  t_z :: fp
  t_roll :: fp
  t_pitch :: fp
  t_yaw :: fp

datatype DistanceCorrectionType = OpticalCenter | GeometricCenter

record LidarOpticalCenter =
  oc_x :: fp
  oc_y :: fp
  oc_z :: fp

definition LidarOpticalCenter_new :: LidarOpticalCenter where
  "LidarOpticalCenter_new = \<lparr> oc_x = Fin 0, oc_y = Fin 0, oc_z = Fin 0 \<rparr>"

record PacketSeqnumLossMessage =
  sl_start_seqnum :: u32
  sl_last_seqnum :: u32
  sl_loss_count :: u32
  sl_start_time :: u32
  sl_total_loss_count :: u32
  sl_total_start_seqnum :: u32
  sl_is_packet_loss :: bool

definition PacketSeqnumLossMessage_new :: PacketSeqnumLossMessage where
  "PacketSeqnumLossMessage_new = \<lparr> sl_start_seqnum = 0, sl_last_seqnum = 0, sl_loss_count = 0,
     sl_start_time = 0, sl_total_loss_count = 0, sl_total_start_seqnum = 0,
     sl_is_packet_loss = False \<rparr>"

record PacketTimeLossMessage =
  tl_start_timestamp :: u64
  tl_last_timestamp :: u64
  tl_timeloss_count :: u32
  tl_timeloss_start_time :: u32
  tl_total_timeloss_count :: u32
  tl_total_start_timestamp :: u64
  tl_last_total_package_count :: u32

definition PacketTimeLossMessage_new :: PacketTimeLossMessage where
  "PacketTimeLossMessage_new = \<lparr> tl_start_timestamp = 0, tl_last_timestamp = 0,
     tl_timeloss_count = 0, tl_timeloss_start_time = 0, tl_total_timeloss_count = 0,
     tl_total_start_timestamp = 0, tl_last_total_package_count = 0 \<rparr>"

record parser =
  elevation_correction :: "fp list"
  azimuth_collection :: "fp list"
  total_packet_count :: u32
  seqnum_loss :: PacketSeqnumLossMessage
  time_loss :: PacketTimeLossMessage
  monitor_info1 :: "u8 \<Rightarrow> u16"
  monitor_info2 :: "u8 \<Rightarrow> u16"
  monitor_info3 :: "u8 \<Rightarrow> u16"
  cos_all_angle :: "nat \<Rightarrow> fp"
  sin_all_angle :: "nat \<Rightarrow> fp"
  enable_update_monitor_info :: bool
  return_mode :: int
  motor_speed :: int
  get_correction_file :: bool
  get_firetime_file :: bool
  is_dual_return :: bool
  spin_speed :: u16
  use_angle :: bool
  last_azimuth :: int
  last_last_azimuth :: int
  firetime_correction :: "nat \<Rightarrow> fp"
  enable_distance_correction :: bool
  enable_packet_loss_tool :: bool
  enable_packet_timeloss_tool :: bool
  packet_timeloss_tool_continue :: bool
  lidar_type :: string
  transform :: Transform
  frame_start_azimuth :: fp
  optical_center :: LidarOpticalCenter
  compute_packet_num :: u32
  rotation_flag :: int

text \<open>
  The constructor, with the initialisers of the class: the other fields keep what the memory of
  the object held (\<open>mem\<close>), among them \<open>get_correction_file_\<close> and \<open>frame_start_azimuth_\<close>.
\<close>

definition angle_of_index :: "nat \<Rightarrow> fp" where
  "angle_of_index i = ddiv (dmul (f64_of_int (int i * 2)) M_PI) (f64_of_int CIRCLE)"

definition GeneralParser_new :: "libm \<Rightarrow> parser \<Rightarrow> parser" where
  "GeneralParser_new lm mem = mem \<lparr> elevation_correction := [Fin 0], azimuth_collection := [Fin 0],
     seqnum_loss := PacketSeqnumLossMessage_new, time_loss := PacketTimeLossMessage_new,
     use_angle := True, optical_center := LidarOpticalCenter_new, rotation_flag := 1,
     motor_speed := 0, return_mode := 0, enable_update_monitor_info := False,
     last_azimuth := 0, last_last_azimuth := 0, total_packet_count := 0,
     enable_packet_loss_tool := False, enable_packet_timeloss_tool := False,
     packet_timeloss_tool_continue := False,
     sin_all_angle := (\<lambda>i. if int i < CIRCLE then to_float (m_sin lm (angle_of_index i))
                           else sin_all_angle mem i),
     cos_all_angle := (\<lambda>i. if int i < CIRCLE then to_float (m_cos lm (angle_of_index i))
                           else cos_all_angle mem i) \<rparr>"

section \<open>Setters\<close>

definition FrameNumAdd :: "parser \<Rightarrow> parser" where
  "FrameNumAdd p = p \<lparr> compute_packet_num := compute_packet_num p + 1 \<rparr>"

definition setComputePacketNumToZero :: "parser \<Rightarrow> parser" where
  "setComputePacketNumToZero p = p \<lparr> compute_packet_num := 0 \<rparr>"

definition SetFrameAzimuth :: "fp \<Rightarrow> parser \<Rightarrow> parser" where
  "SetFrameAzimuth a p = p \<lparr> frame_start_azimuth := a \<rparr>"

definition EnableUpdateMonitorInfo :: "parser \<Rightarrow> parser" where
  "EnableUpdateMonitorInfo p = p \<lparr> enable_update_monitor_info := True \<rparr>"

definition DisableUpdateMonitorInfo :: "parser \<Rightarrow> parser" where
  "DisableUpdateMonitorInfo p = p \<lparr> enable_update_monitor_info := False \<rparr>"

definition EnablePacketLossTool :: "bool \<Rightarrow> parser \<Rightarrow> parser" where
  "EnablePacketLossTool b p = p \<lparr> enable_packet_loss_tool := b \<rparr>"

definition EnablePacketTimeLossTool :: "bool \<Rightarrow> parser \<Rightarrow> parser" where
  "EnablePacketTimeLossTool b p = p \<lparr> enable_packet_timeloss_tool := b \<rparr>"

definition PacketTimeLossToolContinue :: "bool \<Rightarrow> parser \<Rightarrow> parser" where
  "PacketTimeLossToolContinue b p = p \<lparr> packet_timeloss_tool_continue := b \<rparr>"

definition SetLidarType :: "string \<Rightarrow> parser \<Rightarrow> parser" where
  "SetLidarType ty p = p \<lparr> lidar_type := ty \<rparr>"

definition SetEnableDistanceCorrection :: "bool \<Rightarrow> parser \<Rightarrow> parser" where
  "SetEnableDistanceCorrection b p = p \<lparr> enable_distance_correction := b \<rparr>"

definition SetTransformPara :: "fp \<Rightarrow> fp \<Rightarrow> fp \<Rightarrow> fp \<Rightarrow> fp \<Rightarrow> fp \<Rightarrow> parser \<Rightarrow> parser" where
  "SetTransformPara x y z roll pitch yaw p = p \<lparr> transform := \<lparr> t_x = x, t_y = y, t_z = z,
     t_roll = roll, t_pitch = pitch, t_yaw = yaw \<rparr> \<rparr>"

text \<open>\<open>optical_center.x = -10.0 / 1000.0\<close>: a quotient of doubles, stored as a float.\<close>

definition mm :: "rat \<Rightarrow> fp" where
  "mm q = to_float (ddiv (f64 q) (f64 1000))"

definition optical :: "rat \<Rightarrow> rat \<Rightarrow> LidarOpticalCenter" where
  "optical x y = \<lparr> oc_x = mm x, oc_y = mm y, oc_z = mm 0 \<rparr>"

definition SetOpticalCenterCoordinates :: "string \<Rightarrow> parser \<Rightarrow> parser" where
  "SetOpticalCenterCoordinates ty p =
     (let p = SetEnableDistanceCorrection True p in
      if ty \<in> {''Pandar128E4X'', ''OT''} then p \<lparr> optical_center := optical (-10) 45 \<rparr>
      else if ty \<in> {''Pandar128E3X'', ''Pandar64E3X'', ''Pandar40E3X'', ''Pandar90E3X''}
        then p \<lparr> optical_center := optical (-12) (4356 / 100) \<rparr>
      else if ty \<in> {''Pandar64E2X'', ''Pandar40E2X''}
        then p \<lparr> optical_center := optical (-12) (3873 / 100) \<rparr>
      else if ty = ''PandarQT'' then p \<lparr> optical_center := optical (-72 / 10) (298 / 10) \<rparr>
      else if ty = ''QT128C2X'' then p \<lparr> optical_center := optical (72 / 10) (354 / 10) \<rparr>
      else if ty \<in> {''PandarXT32M1'', ''PandarXT16M1''}
        then p \<lparr> optical_center := optical (-13) (315 / 10) \<rparr>
      else if ty \<in> {''PandarXT32M2X'', ''XTM''}
        then p \<lparr> optical_center := optical (-13) (305 / 10) \<rparr>
      else SetEnableDistanceCorrection False p)"

section \<open>Packet statistics\<close>

definition CalPktLoss :: "(nat \<Rightarrow> u32) \<Rightarrow> u32 \<Rightarrow> parser \<Rightarrow> parser" where
  "CalPktLoss tick PacketSeqnum p =
     (if \<not> enable_packet_loss_tool p then p
      else
        let m = seqnum_loss p;
            p = (if PacketSeqnum > sl_last_seqnum m \<and> sl_last_seqnum m \<noteq> 0
                 then p \<lparr> total_packet_count := total_packet_count p +
                            (PacketSeqnum - sl_last_seqnum m) \<rparr> else p);
            m = m \<lparr> sl_is_packet_loss := False \<rparr>
        in if sl_start_seqnum m = 0
           then p \<lparr> seqnum_loss := m \<lparr> sl_loss_count := 0, sl_total_loss_count := 0,
                    sl_start_time := tick 0, sl_start_seqnum := PacketSeqnum,
                    sl_last_seqnum := PacketSeqnum, sl_total_start_seqnum := PacketSeqnum \<rparr> \<rparr>
           else
             let m = (if PacketSeqnum - sl_last_seqnum m > 1
                      then m \<lparr> sl_loss_count := sl_loss_count m +
                                  (PacketSeqnum - sl_last_seqnum m - 1),
                               sl_total_loss_count := sl_total_loss_count m +
                                  (PacketSeqnum - sl_last_seqnum m - 1),
                               sl_is_packet_loss := True \<rparr> else m);
                 m = (if sl_loss_count m \<noteq> 0 \<and> tick 0 - sl_start_time m \<ge> 1000000
                      then m \<lparr> sl_loss_count := 0, sl_start_time := tick 1,
                               sl_start_seqnum := PacketSeqnum \<rparr> else m)
             in p \<lparr> seqnum_loss := m \<lparr> sl_last_seqnum := PacketSeqnum \<rparr> \<rparr>)"

definition CalPktTimeLoss :: "(nat \<Rightarrow> u32) \<Rightarrow> u64 \<Rightarrow> parser \<Rightarrow> parser" where
  "CalPktTimeLoss tick PacketTimestamp p =
     (let m = time_loss p in
      if \<not> enable_packet_timeloss_tool p then p
      else if \<not> packet_timeloss_tool_continue p \<and> tl_total_timeloss_count m \<noteq> 0 then p
      else if tl_start_timestamp m = 0
        then p \<lparr> time_loss := m \<lparr> tl_timeloss_count := 0, tl_total_timeloss_count := 0,
                 tl_timeloss_start_time := tick 0, tl_start_timestamp := PacketTimestamp,
                 tl_last_timestamp := PacketTimestamp,
                 tl_total_start_timestamp := PacketTimestamp \<rparr> \<rparr>
      else if sl_is_packet_loss (seqnum_loss p)
        then p \<lparr> time_loss := m \<lparr> tl_timeloss_count := 0, tl_timeloss_start_time := tick 0,
                 tl_start_timestamp := PacketTimestamp, tl_last_timestamp := PacketTimestamp,
                 tl_last_total_package_count := total_packet_count p \<rparr> \<rparr>
      else
        let m = (if PacketTimestamp \<le> tl_last_timestamp m
                 then m \<lparr> tl_timeloss_count := tl_timeloss_count m + 1,
                          tl_total_timeloss_count := tl_total_timeloss_count m + 1 \<rparr> else m);
            m = (if tl_timeloss_count m \<noteq> 0 \<and> tick 0 - tl_timeloss_start_time m \<ge> 1000000
                 then m \<lparr> tl_timeloss_count := 0, tl_timeloss_start_time := tick 1,
                          tl_start_timestamp := PacketTimestamp,
                          tl_last_total_package_count := total_packet_count p \<rparr> else m)
        in p \<lparr> time_loss := m \<lparr> tl_last_timestamp := PacketTimestamp \<rparr> \<rparr>)"

section \<open>Geometry\<close>

text \<open>A read of one of the angle tables, which have \<open>CIRCLE\<close> entries.\<close>

definition tab :: "(nat \<Rightarrow> fp) \<Rightarrow> int \<Rightarrow> fp option" where
  "tab t i = (if 0 \<le> i \<and> i < CIRCLE then Some (t (nat i)) else None)"

definition GetFiretimesCorrection :: "int \<Rightarrow> fp \<Rightarrow> parser \<Rightarrow> fp option" where
  "GetFiretimesCorrection laserId speed p =
     (if 0 \<le> laserId \<and> laserId < MAX_LASER_NUM
      then Some (dmul (dmul (firetime_correction p (nat laserId)) speed) (f64 (6 / 1000000)))
      else None)"

text \<open>\<open>int(... * kHalfCircleFloat * kFineResolutionFloat / M_PI + CIRCLE) % CIRCLE\<close>.\<close>

definition angle_to_index :: "fp \<Rightarrow> int option" where
  "angle_to_index a = do {
     i \<leftarrow> fp_to_int (dadd (ddiv (fmul (fmul a (Fin 18000)) (Fin 256)) M_PI) (f64_of_int CIRCLE));
     Some (c_rem i CIRCLE) }"

definition GetDistanceCorrection ::
    "libm \<Rightarrow> parser \<Rightarrow> int \<Rightarrow> int \<Rightarrow> fp \<Rightarrow> DistanceCorrectionType \<Rightarrow> (int \<times> int \<times> fp) option" where
  "GetDistanceCorrection lm p azimuth elevation distance type =
     (if fp_le distance (f64 (9 / 100)) then Some (azimuth, elevation, distance)
      else do {
        let azimuth = c_rem (azimuth + CIRCLE) CIRCLE;
        let elevation = c_rem (elevation + CIRCLE) CIRCLE;
        ce \<leftarrow> tab (cos_all_angle p) elevation;
        sa \<leftarrow> tab (sin_all_angle p) azimuth;
        ca \<leftarrow> tab (cos_all_angle p) azimuth;
        se \<leftarrow> tab (sin_all_angle p) elevation;
        let tx = fmul ce sa;
        let ty = fmul ce ca;
        let tz = se;
        let d = distance;
        let ox = oc_x (optical_center p);
        let oy = oc_y (optical_center p);
        let oz = oc_z (optical_center p);
        case type of
          GeometricCenter \<Rightarrow> do {
            let B = fadd (fadd (fmul (fmul (Fin 2) tx) ox) (fmul (fmul (Fin 2) ty) oy))
                      (fmul (fmul (Fin 2) tz) oz);
            let C = fsub (fadd (fadd (fmul ox ox) (fmul oy oy)) (fmul oz oz)) (fmul d d);
            let d_opitcal = fsub (m_sqrtf lm (fsub (fdiv (fmul B B) (Fin 4)) C)) (fdiv B (Fin 2));
            let x = fadd (fmul d_opitcal tx) ox;
            let y = fadd (fmul d_opitcal ty) oy;
            let z = fadd (fmul d_opitcal tz) oz;
            a \<leftarrow> angle_to_index (m_atanf lm (fdiv x y));
            e \<leftarrow> angle_to_index (m_asinf lm (fdiv z d));
            Some (a, e, d) }
        | OpticalCenter \<Rightarrow> do {
            let x = fadd (fmul d tx) ox;
            let y = fadd (fmul d ty) oy;
            let z = fadd (fmul d tz) oz;
            let dg = m_sqrtf lm (fadd (fadd (fmul x x) (fmul y y)) (fmul z z));
            a \<leftarrow> angle_to_index (m_atanf lm (fdiv x y));
            e \<leftarrow> angle_to_index (m_asinf lm (fdiv z dg));
            Some (a, e, dg) } })"

definition TransformPoint :: "libm \<Rightarrow> parser \<Rightarrow> fp \<times> fp \<times> fp \<Rightarrow> fp \<times> fp \<times> fp" where
  "TransformPoint lm p = (\<lambda>(x, y, z).
     let t = transform p;
         cosa = m_cosf lm (t_roll t);
         sina = m_sinf lm (t_roll t);
         cosb = m_cosf lm (t_pitch t);
         sinb = m_sinf lm (t_pitch t);
         cosc = m_cosf lm (t_yaw t);
         sinc = m_sinf lm (t_yaw t);
         x' = fadd (fadd (fadd (fmul (fmul cosb cosc) x)
                (fmul (fsub (fmul (fmul sina sinb) cosc) (fmul cosa sinc)) y))
                (fmul (fadd (fmul sina sinc) (fmul (fmul cosa sinb) cosc)) z)) (t_x t);
         y' = fadd (fadd (fadd (fmul (fmul cosb sinc) x)
                (fmul (fadd (fmul cosa cosc) (fmul (fmul sina sinb) sinc)) y))
                (fmul (fsub (fmul (fmul cosa sinb) sinc) (fmul sina cosc)) z)) (t_y t);
         z' = fadd (fadd (fadd (fmul (fp_neg sinb) x) (fmul (fmul sina cosb) y))
                (fmul (fmul cosa cosb) z)) (t_z t)
     in (x', y', z'))"

end
