(* ===== verification/Packet_Stats.thy ===== *)
theory Packet_Stats
  imports General_Parser
begin

text \<open>
  What the packet statistics of \<open>GeneralParser\<close> (\<open>CalPktLoss\<close> in
  \<open>src/libhesai/UdpParser/src/general_parser.cc\<close>) count: on a stream in order the exact number
  of missing sequence numbers, and after one swapped pair a number near \<open>2 ^ 32\<close>.
\<close>

text \<open>A stream of packets, each with its own readings of the clock.\<close>

fun loss_run :: "((nat \<Rightarrow> u32) \<times> u32) list \<Rightarrow> parser \<Rightarrow> parser" where
  "loss_run [] p = p"
| "loss_run ((tick, n) # ps) p = loss_run ps (CalPktLoss tick n p)"

lemma CalPktLoss_enabled [frame_simps]:
  "enable_packet_loss_tool (CalPktLoss tick n p) = enable_packet_loss_tool p"
  by (simp add: CalPktLoss_def Let_def)

text \<open>One packet after another, when the statistics have started.\<close>

lemma CalPktLoss_next:
  assumes "enable_packet_loss_tool p" and "sl_start_seqnum (seqnum_loss p) \<noteq> 0"
    and "sl_last_seqnum (seqnum_loss p) \<noteq> 0" and "sl_last_seqnum (seqnum_loss p) < n"
  shows "sl_last_seqnum (seqnum_loss (CalPktLoss tick n p)) = n"
    and "sl_start_seqnum (seqnum_loss (CalPktLoss tick n p)) \<noteq> 0"
    and "sl_total_loss_count (seqnum_loss (CalPktLoss tick n p)) =
           sl_total_loss_count (seqnum_loss p) + (n - sl_last_seqnum (seqnum_loss p) - 1)"
    and "total_packet_count (CalPktLoss tick n p) =
           total_packet_count p + (n - sl_last_seqnum (seqnum_loss p))"
    and "sl_is_packet_loss (seqnum_loss (CalPktLoss tick n p)) \<longleftrightarrow>
           n \<noteq> sl_last_seqnum (seqnum_loss p) + 1"
proof -
  define d where "d = n - sl_last_seqnum (seqnum_loss p)"
  have n: "n = sl_last_seqnum (seqnum_loss p) + d" by (simp add: d_def)
  have nz: "n \<noteq> 0" using assms(4) by auto
  have "d \<noteq> 0" using assms(4) by (auto simp: d_def)
  then have one: "\<not> d > 1 \<longleftrightarrow> d = 1"
    by (auto simp: word_less_nat_alt word_unat_eq_iff)
  show "sl_last_seqnum (seqnum_loss (CalPktLoss tick n p)) = n"
    "sl_start_seqnum (seqnum_loss (CalPktLoss tick n p)) \<noteq> 0"
    using assms nz by (simp_all add: CalPktLoss_def Let_def)
  show "sl_total_loss_count (seqnum_loss (CalPktLoss tick n p)) =
      sl_total_loss_count (seqnum_loss p) + (n - sl_last_seqnum (seqnum_loss p) - 1)"
    "total_packet_count (CalPktLoss tick n p) =
      total_packet_count p + (n - sl_last_seqnum (seqnum_loss p))"
    "sl_is_packet_loss (seqnum_loss (CalPktLoss tick n p)) \<longleftrightarrow>
      n \<noteq> sl_last_seqnum (seqnum_loss p) + 1"
    using assms one by (auto simp: CalPktLoss_def Let_def simp flip: d_def) (auto simp: n)
qed

lemma CalPktLoss_first:
  assumes "enable_packet_loss_tool p" and "sl_start_seqnum (seqnum_loss p) = 0" and "n \<noteq> 0"
    and "sl_last_seqnum (seqnum_loss p) = 0"
  shows "sl_last_seqnum (seqnum_loss (CalPktLoss tick n p)) = n"
    and "sl_start_seqnum (seqnum_loss (CalPktLoss tick n p)) = n"
    and "sl_total_loss_count (seqnum_loss (CalPktLoss tick n p)) = 0"
    and "total_packet_count (CalPktLoss tick n p) = total_packet_count p"
  using assms by (simp_all add: CalPktLoss_def Let_def)

lemma loss_run_started:
  assumes "enable_packet_loss_tool p" and "sl_start_seqnum (seqnum_loss p) \<noteq> 0"
    and "sl_last_seqnum (seqnum_loss p) \<noteq> 0"
    and "sorted_wrt (<) (sl_last_seqnum (seqnum_loss p) # map snd ps)"
  shows "sl_total_loss_count (seqnum_loss (loss_run ps p)) =
           sl_total_loss_count (seqnum_loss p) +
           (last (sl_last_seqnum (seqnum_loss p) # map snd ps) - sl_last_seqnum (seqnum_loss p) -
            word_of_nat (length ps)) \<and>
         total_packet_count (loss_run ps p) = total_packet_count p +
           (last (sl_last_seqnum (seqnum_loss p) # map snd ps) - sl_last_seqnum (seqnum_loss p))"
  using assms
proof (induction ps arbitrary: p)
  case Nil
  then show ?case by simp
next
  case (Cons a ps)
  obtain tick n where a: "a = (tick, n)" by force
  have lt: "sl_last_seqnum (seqnum_loss p) < n" using Cons.prems(4) by (simp add: a)
  note step = CalPktLoss_next [OF Cons.prems(1-3) lt, of tick]
  have "n \<noteq> 0" using lt by auto
  then have "sl_total_loss_count (seqnum_loss (loss_run ps (CalPktLoss tick n p))) =
      sl_total_loss_count (seqnum_loss (CalPktLoss tick n p)) +
        (last (n # map snd ps) - n - word_of_nat (length ps)) \<and>
      total_packet_count (loss_run ps (CalPktLoss tick n p)) =
        total_packet_count (CalPktLoss tick n p) + (last (n # map snd ps) - n)"
    using Cons.IH [of "CalPktLoss tick n p"] Cons.prems step by (simp add: a frame_simps)
  then show ?case by (simp add: a step(3,4))
qed


definition parser_ex :: parser where
  "parser_ex = \<lparr> elevation_correction = [Fin 0], azimuth_collection = [Fin 0],
     total_packet_count = 0, seqnum_loss = PacketSeqnumLossMessage_new,
     time_loss = PacketTimeLossMessage_new, monitor_info1 = (\<lambda>_. 0), monitor_info2 = (\<lambda>_. 0),
     monitor_info3 = (\<lambda>_. 0), cos_all_angle = (\<lambda>_. Fin 0),
     sin_all_angle = (\<lambda>_. Fin 0), enable_update_monitor_info = False, return_mode = 0,
     motor_speed = 0, get_correction_file = True, get_firetime_file = False,
     is_dual_return = False, spin_speed = 0, use_angle = True, last_azimuth = 0,
     last_last_azimuth = 0, firetime_correction = (\<lambda>_. Fin 0),
     enable_distance_correction = False, enable_packet_loss_tool = True,
     enable_packet_timeloss_tool = False, packet_timeloss_tool_continue = False,
     lidar_type = [], transform = \<lparr> t_x = Fin 0, t_y = Fin 0, t_z = Fin 0, t_roll = Fin 0,
       t_pitch = Fin 0, t_yaw = Fin 0 \<rparr>, frame_start_azimuth = Fin 0,
     optical_center = LidarOpticalCenter_new, compute_packet_num = 0, rotation_flag = 1 \<rparr>"


text \<open>
  A packet that arrives late breaks the statistics: if a packet with the sequence number
  just below the last one arrives, the subtraction wraps, the packet is counted as a loss, and
  the total loss count changes by \<open>2 ^ 32 - 2\<close>, that is, it becomes 4294967294 when it was 0.
\<close>

theorem packet_reorder_miscounted:
  assumes "enable_packet_loss_tool p" and "sl_start_seqnum (seqnum_loss p) \<noteq> 0"
    and "1 < sl_last_seqnum (seqnum_loss p)"
  shows "sl_total_loss_count (seqnum_loss (CalPktLoss tick (sl_last_seqnum (seqnum_loss p) - 1) p)) =
           sl_total_loss_count (seqnum_loss p) + 4294967294 \<and>
         sl_is_packet_loss (seqnum_loss (CalPktLoss tick (sl_last_seqnum (seqnum_loss p) - 1) p))"
proof -
  have "(-1 :: u32) > 1"
    by (simp add: word_less_nat_alt unsigned_minus_1_eq_mask mask_eq_exp_minus_1)
  moreover have "(-1 :: u32) - 1 = 4294967294" by simp
  ultimately show ?thesis
    using assms by (simp add: CalPktLoss_def Let_def)
qed

lemma packet_reorder_miscounted_witness:
  "sl_total_loss_count (seqnum_loss (CalPktLoss (\<lambda>_. 0) 11
     (loss_run [(\<lambda>_. 0, 11), (\<lambda>_. 0, 12)] parser_ex))) = 4294967294"
proof -
  let ?p = "loss_run [(\<lambda>_. 0, 11), (\<lambda>_. 0, 12)] parser_ex"
  have p: "enable_packet_loss_tool ?p" "sl_start_seqnum (seqnum_loss ?p) = 11"
      "sl_last_seqnum (seqnum_loss ?p) = 12" "sl_total_loss_count (seqnum_loss ?p) = 0"
    by (simp_all add: parser_ex_def CalPktLoss_def PacketSeqnumLossMessage_new_def Let_def)
  then show ?thesis
    using packet_reorder_miscounted [of ?p "\<lambda>_. 0"] by simp
qed

end
