(* ===== verification/Frame_Split.thy ===== *)
theory Frame_Split
  imports Packet_Stats
begin

text \<open>
  The division of the packet stream into frames: \<open>IsNeedFrameSplit\<close> of the spinning lidars
  (\<open>src/libhesai/UdpParser/src/udp_p40_parser.cc\<close>, \<open>udp_p64_parser.cc\<close>, \<open>udp3_1_parser.cc\<close>,
  \<open>udp3_2_parser.cc\<close>, \<open>udp6_1_parser.cc\<close>, \<open>udp1_4_parser.cc\<close>), in its two forms, and the update
  of the last two azimuths at the end of every \<open>DecodePacket\<close>.

  Azimuths are hundredths of a degree. The locale \<open>frame_splitter\<close> states what a frame decision
  promises on a steady rotation, one packet at a time; in it, the number of frames of a whole
  run is proved to be the number of times the rotation passes the start azimuth. Both forms are
  interpreted.
\<close>

section \<open>The code\<close>

text \<open>The guard at the start: the start azimuth is brought into \<open>[0, 360)\<close>.\<close>

definition start_in_range :: "parser \<Rightarrow> parser" where
  "start_in_range p =
     (if fp_lt (frame_start_azimuth p) (Fin 0) \<or> fp_le (Fin 360) (frame_start_azimuth p)
      then p \<lparr> frame_start_azimuth := Fin 0 \<rparr> else p)"

text \<open>\<open>frame_start_azimuth_ * kResolutionInt\<close>\<close>

definition start_units :: "parser \<Rightarrow> fp" where
  "start_units p = fmul (frame_start_azimuth p) (f32_of_int 100)"

definition p40_IsNeedFrameSplit :: "u16 \<Rightarrow> parser \<Rightarrow> (bool \<times> parser) option" where
  "p40_IsNeedFrameSplit azimuth p =
     (let p = start_in_range p; az = uint azimuth; la = last_azimuth p; ll = last_last_azimuth p
      in if ll \<noteq> -1 then
           (let division1 = (word_of_int \<bar>la - ll\<bar> :: u16);
                division2 = (word_of_int \<bar>la - az\<bar> :: u16);
                division = (if division1 > division2 then division2 else division1)
            in if division = 0 then Some (False, p)
               else
                 (let p = p \<lparr> rotation_flag :=
                        (if ll - la = uint division \<or> la - az = uint division then -1 else 1) \<rparr>
                  in if rotation_flag p = 1 then
                       (if la - az > uint division then do {
                          s \<leftarrow> fp_to_u16 (start_units p);
                          Some (s > la \<or> fp_le (start_units p) (Fin (of_int az)), p) }
                        else if la < az then do {
                          s \<leftarrow> fp_to_u16 (start_units p);
                          Some (la < s \<and> az \<ge> s, p) }
                        else Some (False, p))
                     else
                       (if az - la > uint division then do {
                          s \<leftarrow> fp_to_u16 (start_units p);
                          Some (s \<le> la \<or> fp_lt (Fin (of_int az)) (start_units p), p) }
                        else if la > az then do {
                          s \<leftarrow> fp_to_u16 (start_units p);
                          Some (la > s \<and> az \<le> s, p) }
                        else Some (False, p))))
         else Some (False, p))"

text \<open>The copy of the function in P64, where the last comparison is between integers.\<close>

definition p64_IsNeedFrameSplit :: "u16 \<Rightarrow> parser \<Rightarrow> (bool \<times> parser) option" where
  "p64_IsNeedFrameSplit azimuth p =
     (let p = start_in_range p; az = uint azimuth; la = last_azimuth p; ll = last_last_azimuth p
      in if ll \<noteq> -1 then
           (let division1 = (word_of_int \<bar>la - ll\<bar> :: u16);
                division2 = (word_of_int \<bar>la - az\<bar> :: u16);
                division = (if division1 > division2 then division2 else division1)
            in if division = 0 then Some (False, p)
               else
                 (let p = p \<lparr> rotation_flag :=
                        (if ll - la = uint division \<or> la - az = uint division then -1 else 1) \<rparr>
                  in if rotation_flag p = 1 then
                       (if la - az > uint division then do {
                          s \<leftarrow> fp_to_u16 (start_units p);
                          Some (s > la \<or> fp_le (start_units p) (Fin (of_int az)), p) }
                        else if la < az then do {
                          s \<leftarrow> fp_to_u16 (start_units p);
                          Some (la < s \<and> az \<ge> s, p) }
                        else Some (False, p))
                     else
                       (if az - la > uint division then do {
                          s \<leftarrow> fp_to_u16 (start_units p);
                          Some (s \<le> la \<or> s > az, p) }
                        else if la > az then do {
                          s \<leftarrow> fp_to_u16 (start_units p);
                          Some (la > s \<and> az \<le> s, p) }
                        else Some (False, p))))
         else Some (False, p))"

text \<open>The other classes hold the same text: 3.1 and 3.2 that of P40, 6.1 and 1.4 that of P64.\<close>

definition qt_IsNeedFrameSplit :: "u16 \<Rightarrow> parser \<Rightarrow> (bool \<times> parser) option" where
  "qt_IsNeedFrameSplit = p40_IsNeedFrameSplit"

definition qt2_IsNeedFrameSplit :: "u16 \<Rightarrow> parser \<Rightarrow> (bool \<times> parser) option" where
  "qt2_IsNeedFrameSplit = p40_IsNeedFrameSplit"

definition xt_IsNeedFrameSplit :: "u16 \<Rightarrow> parser \<Rightarrow> (bool \<times> parser) option" where
  "xt_IsNeedFrameSplit = p64_IsNeedFrameSplit"

definition p128_IsNeedFrameSplit :: "u16 \<Rightarrow> parser \<Rightarrow> (bool \<times> parser) option" where
  "p128_IsNeedFrameSplit = p64_IsNeedFrameSplit"

text \<open>
  The end of \<open>DecodePacket\<close>: the decision sets \<open>scan_complete\<close>, then the azimuths move on when
  the new one differs from the last.
\<close>

definition move_azimuth :: "u16 \<Rightarrow> parser \<Rightarrow> parser" where
  "move_azimuth az p =
     (if uint az \<noteq> last_azimuth p
      then p \<lparr> last_last_azimuth := last_azimuth p, last_azimuth := uint az \<rparr> else p)"

definition split_and_move :: "(u16 \<Rightarrow> parser \<Rightarrow> (bool \<times> parser) option) \<Rightarrow> u16 \<Rightarrow> parser \<Rightarrow>
    (bool \<times> parser) option" where
  "split_and_move split az p = do { (b, p) \<leftarrow> split az p; Some (b, move_azimuth az p) }"

fun split_run :: "(u16 \<Rightarrow> parser \<Rightarrow> (bool \<times> parser) option) \<Rightarrow> u16 list \<Rightarrow> parser \<Rightarrow>
    (nat \<times> parser) option" where
  "split_run split [] p = Some (0, p)"
| "split_run split (az # azs) p = do {
     (b, p) \<leftarrow> split_and_move split az p;
     (n, p) \<leftarrow> split_run split azs p;
     Some ((if b then 1 else 0) + n, p) }"

section \<open>A steady rotation\<close>

text \<open>
  The azimuth of a packet on the circle, and the number of times an unwrapped angle has passed
  the start \<open>S\<close>.
\<close>

definition wrap :: "int \<Rightarrow> int" where
  "wrap a = a mod 36000"

definition laps :: "int \<Rightarrow> int \<Rightarrow> int" where
  "laps S a = (a - S) div 36000"

text \<open>The start azimuth is a whole number of hundredths of a degree.\<close>

definition start_at :: "int \<Rightarrow> parser \<Rightarrow> bool" where
  "start_at S p \<longleftrightarrow> start_units p = Fin (of_int S) \<and> 0 \<le> S \<and> S < 36000 \<and>
     \<not> fp_lt (frame_start_azimuth p) (Fin 0) \<and> \<not> fp_le (Fin 360) (frame_start_azimuth p)"

lemma start_at_upd [simp]:
  "start_at S (p \<lparr> rotation_flag := r \<rparr>) = start_at S p"
  "start_at S (move_azimuth az p) = start_at S p"
  by (auto simp: start_at_def start_units_def move_azimuth_def)

lemma start_at_in_range: "start_at S p \<Longrightarrow> start_in_range p = p"
  by (simp add: start_at_def start_in_range_def)

lemma start_at_u16: "start_at S p \<Longrightarrow> fp_to_u16 (start_units p) = Some S"
  by (simp add: start_at_def fp_to_u16_def)

lemma start_at_units: "start_at S p \<Longrightarrow> start_units p = Fin (of_int S)"
  by (simp add: start_at_def)

lemma start_at_degrees:
  assumes "frame_start_azimuth p = Fin (of_int k)" and "0 \<le> k" and "k < 360"
  shows "start_at (100 * k) p"
proof -
  have "f32 (of_int (k * 100)) = Fin (of_int (k * 100))"
    using assms(2,3) by (intro f32_int) auto
  moreover have "f32 100 = Fin (of_int 100)" using f32_int [of 100] by simp
  ultimately show ?thesis
    using assms by (simp add: start_at_def start_units_def f32_of_int_def mult.commute)
qed

lemma uint_u16_small: "0 \<le> x \<Longrightarrow> x < 65536 \<Longrightarrow> uint (word_of_int x :: u16) = x"
  by (simp add: unsigned_of_int take_bit_int_eq_self)

lemma wrap_range [simp]: "0 \<le> wrap a" "wrap a < 36000"
  by (simp_all add: wrap_def)

lemma uint_wrap [simp]: "uint (word_of_int (wrap a) :: u16) = wrap a"
  using wrap_range [of a] by (intro uint_u16_small) linarith+

text \<open>One step on the circle, in both directions.\<close>

lemma wrap_unique: "a = q * 36000 + w \<Longrightarrow> 0 \<le> w \<Longrightarrow> w < 36000 \<Longrightarrow> wrap a = w"
  by (simp add: wrap_def mod_pos_pos_trivial)

lemma wrap_eq: "a = (a div 36000) * 36000 + wrap a"
  by (simp add: wrap_def)

lemma wrap_step:
  assumes "1 \<le> d" and "d < 36000"
  shows "wrap (a + d) = (if wrap a + d < 36000 then wrap a + d else wrap a + d - 36000)"
proof -
  define q w where "q = a div 36000" and "w = wrap a"
  have a: "a = q * 36000 + w" using wrap_eq [of a] by (simp add: q_def w_def)
  have w: "0 \<le> w" "w < 36000" by (simp_all add: w_def)
  show ?thesis
  proof (cases "w + d < 36000")
    case True
    then have "wrap (a + d) = w + d" using w assms a by (intro wrap_unique [of _ q]) auto
    then show ?thesis using True by (simp add: w_def)
  next
    case False
    then have "wrap (a + d) = w + d - 36000" using w assms a by (intro wrap_unique [of _ "q + 1"]) auto
    then show ?thesis using False by (simp add: w_def)
  qed
qed

lemma laps_unique:
  assumes "k * 36000 \<le> x - S" and "x - S < (k + 1) * 36000"
  shows "laps S x = k"
  using assms unfolding laps_def
  by (intro int_div_pos_eq [where r = "x - S - 36000 * k"]) auto

text \<open>Passing the start, in terms of the two azimuths on the circle.\<close>

lemma laps_step:
  assumes d: "1 \<le> d" "d < 36000" and S: "0 \<le> S" "S < 36000"
  shows "laps S (a + d) = laps S a +
     (if wrap a + d < 36000 then (if wrap a < S \<and> S \<le> wrap a + d then 1 else 0)
      else (if wrap a < S \<or> S \<le> wrap a + d - 36000 then 1 else 0))"
proof -
  define q w where "q = a div 36000" and "w = wrap a"
  have a: "a = q * 36000 + w" using wrap_eq [of a] by (simp add: q_def w_def)
  have w: "0 \<le> w" "w < 36000" by (simp_all add: w_def)
  have 1: "laps S a = (if w < S then q - 1 else q)"
    using w S by (auto simp: a intro!: laps_unique)
  have 2: "laps S (a + d) = (if w + d < S then q - 1 else if w + d < S + 36000 then q else q + 1)"
    using w S d by (auto simp: a intro!: laps_unique)
  show ?thesis unfolding 1 2 w_def [symmetric] using w S d by auto
qed

section \<open>The decision in both directions\<close>

text \<open>
  The two forms agree when the start azimuth is a whole number of hundredths of a degree: the
  mixed comparison of integers and floats is then the comparison of integers.
\<close>

lemma start_facts:
  assumes "start_at S p"
  shows "start_in_range p = p"
    "start_units (p \<lparr> rotation_flag := r \<rparr>) = Fin (of_int S)" "fp_to_u16 (Fin (of_int S)) = Some S"
    "fp_le (Fin (of_int S)) (Fin (of_int a)) = (S \<le> a)"
    "fp_lt (Fin (of_int a)) (Fin (of_int S)) = (a < S)"
  using assms start_at_in_range [OF assms] start_at_u16 [OF assms]
  by (simp_all add: start_at_def start_units_def)

lemma p40_is_p64:
  assumes "start_at S p"
  shows "p40_IsNeedFrameSplit az p = p64_IsNeedFrameSplit az p"
  unfolding p40_IsNeedFrameSplit_def p64_IsNeedFrameSplit_def Let_def start_facts [OF assms]
    bind.simps ..

text \<open>The decision on integers, after the casts to 16 bits.\<close>

lemma p64_on_ints:
  assumes "start_at S p" and r: "0 \<le> ll" "ll < 36000" "0 \<le> la" "la < 36000" "0 \<le> az" "az < 36000"
    and l: "last_last_azimuth p = ll" "last_azimuth p = la"
    and dv: "dv = min \<bar>la - ll\<bar> \<bar>la - az\<bar>" "dv \<noteq> 0"
  shows "p64_IsNeedFrameSplit (word_of_int az) p =
     (if ll - la = dv \<or> la - az = dv
      then Some ((if az - la > dv then S \<le> la \<or> S > az else la > az \<and> la > S \<and> az \<le> S),
                 p \<lparr> rotation_flag := -1 \<rparr>)
      else Some ((if la - az > dv then S > la \<or> S \<le> az else la < az \<and> la < S \<and> az \<ge> S),
                 p \<lparr> rotation_flag := 1 \<rparr>))"
proof -
  have u: "uint (word_of_int az :: u16) = az" "uint (word_of_int \<bar>la - ll\<bar> :: u16) = \<bar>la - ll\<bar>"
    "uint (word_of_int \<bar>la - az\<bar> :: u16) = \<bar>la - az\<bar>"
    using r by (auto intro!: uint_u16_small)
  define d where "d = (if (word_of_int \<bar>la - ll\<bar> :: u16) > word_of_int \<bar>la - az\<bar>
      then word_of_int \<bar>la - az\<bar> else word_of_int \<bar>la - ll\<bar> :: u16)"
  have d: "uint d = dv" by (simp add: d_def dv word_less_def u min_def)
  then have "d \<noteq> 0" using dv(2) by auto
  moreover have "ll \<noteq> -1" using r by simp
  ultimately show ?thesis
    unfolding p64_IsNeedFrameSplit_def Let_def start_facts [OF assms(1)] bind.simps l u
      d_def [symmetric] d
    by simp
qed

lemma p64_forward:
  assumes S: "start_at S p" and d: "1 \<le> d1" "d1 < 18000" "1 \<le> d2" "d2 < 18000"
    and l: "last_last_azimuth p = wrap a" "last_azimuth p = wrap (a + d1)"
  shows "p64_IsNeedFrameSplit (word_of_int (wrap (a + d1 + d2))) p =
     Some (laps S (a + d1 + d2) \<noteq> laps S (a + d1), p \<lparr> rotation_flag := 1 \<rparr>)"
proof -
  define x y z where "x = wrap a" and "y = wrap (a + d1)" and "z = wrap (a + d1 + d2)"
  have r: "0 \<le> x" "x < 36000" "0 \<le> y" "y < 36000" "0 \<le> z" "z < 36000"
    by (simp_all add: x_def y_def z_def)
  have y: "y = (if x + d1 < 36000 then x + d1 else x + d1 - 36000)"
    using d wrap_step [of d1 a] by (simp add: x_def y_def)
  have z: "z = (if y + d2 < 36000 then y + d2 else y + d2 - 36000)"
    using d wrap_step [of d2 "a + d1"] by (simp add: y_def z_def)
  have S0: "0 \<le> S" "S < 36000" using S by (simp_all add: start_at_def)
  have laps: "laps S (a + d1 + d2) \<noteq> laps S (a + d1) \<longleftrightarrow>
      (if y + d2 < 36000 then y < S \<and> S \<le> y + d2 else y < S \<or> S \<le> y + d2 - 36000)"
    using d laps_step [of d2 S "a + d1"] S0 by (simp add: y_def)
  define dv where "dv = min \<bar>y - x\<bar> \<bar>y - z\<bar>"
  have dv: "dv \<noteq> 0" "\<not> (x - y = dv \<or> y - z = dv)" "y - z > dv \<longleftrightarrow> \<not> y + d2 < 36000"
    "\<not> y + d2 < 36000 \<longleftrightarrow> \<not> y < z"
    using y z d r by (auto simp: dv_def min_def split: if_splits)
  show ?thesis
    using p64_on_ints [OF S r l [folded x_def y_def] dv_def dv(1)] dv(2-4) laps z
    by (auto simp: z_def [symmetric])
qed

text \<open>
  In the other direction a packet passes the start when it goes from above it to it or below it.
\<close>

definition laps_down :: "int \<Rightarrow> int \<Rightarrow> int" where
  "laps_down S a = laps S (a - 1)"

lemma p64_reverse:
  assumes S: "start_at S p" and d: "1 \<le> d1" "d1 < 18000" "1 \<le> d2" "d2 < 18000"
    and l: "last_last_azimuth p = wrap (a + d2 + d1)" "last_azimuth p = wrap (a + d2)"
  shows "p64_IsNeedFrameSplit (word_of_int (wrap a)) p =
     Some (if wrap a + d2 < 36000 then wrap a \<le> S \<and> S < wrap (a + d2)
           else S \<le> wrap (a + d2) \<or> wrap a < S, p \<lparr> rotation_flag := -1 \<rparr>)"
proof -
  define x y z where "x = wrap (a + d2 + d1)" and "y = wrap (a + d2)" and "z = wrap a"
  have r: "0 \<le> x" "x < 36000" "0 \<le> y" "y < 36000" "0 \<le> z" "z < 36000"
    by (simp_all add: x_def y_def z_def)
  have y: "y = (if z + d2 < 36000 then z + d2 else z + d2 - 36000)"
    using d wrap_step [of d2 a] by (simp add: z_def y_def)
  have x: "x = (if y + d1 < 36000 then y + d1 else y + d1 - 36000)"
    using d wrap_step [of d1 "a + d2"] by (simp add: y_def x_def)
  define dv where "dv = min \<bar>y - x\<bar> \<bar>y - z\<bar>"
  have dv: "dv \<noteq> 0" "x - y = dv \<or> y - z = dv" "z - y > dv \<longleftrightarrow> \<not> z + d2 < 36000"
    "\<not> z + d2 < 36000 \<longleftrightarrow> \<not> y > z"
    using y x d r by (auto simp: dv_def min_def split: if_splits)
  show ?thesis
    using p64_on_ints [OF S r l [folded x_def y_def] dv_def dv(1)] dv(2-4)
    by (auto simp: z_def [symmetric] y_def [symmetric])
qed

lemma laps_down_step:
  assumes d: "1 \<le> d" "d < 36000" and S: "0 \<le> S" "S < 36000"
  shows "laps_down S a \<noteq> laps_down S (a + d) \<longleftrightarrow>
     (if wrap a + d < 36000 then wrap a \<le> S \<and> S < wrap (a + d)
      else S < wrap (a + d) \<or> wrap a \<le> S)"
proof -
  define q w where "q = a div 36000" and "w = wrap a"
  have a: "a = q * 36000 + w" using wrap_eq [of a] by (simp add: q_def w_def)
  have w: "0 \<le> w" "w < 36000" by (simp_all add: w_def)
  have 1: "laps_down S a = (if w \<le> S then q - 1 else q)"
    using w S by (auto simp: a laps_down_def intro!: laps_unique)
  have 2: "laps_down S (a + d) =
      (if w + d \<le> S then q - 1 else if w + d \<le> S + 36000 then q else q + 1)"
    using w S d by (auto simp: a laps_down_def intro!: laps_unique)
  show ?thesis
    unfolding 1 2 wrap_step [OF d] w_def [symmetric] using w S d by auto
qed

section \<open>Whole runs\<close>

text \<open>The packets of a rotation that goes on from \<open>b\<close> by the steps \<open>ds\<close>.\<close>

fun turns :: "int \<Rightarrow> int list \<Rightarrow> int list" where
  "turns b [] = []"
| "turns b (d # ds) = (b + d) # turns (b + d) ds"

definition azimuths :: "int list \<Rightarrow> u16 list" where
  "azimuths xs = map (\<lambda>x. word_of_int (wrap x)) xs"

lemma azimuths_simps [simp]:
  "azimuths [] = []" "azimuths (x # xs) = word_of_int (wrap x) # azimuths xs"
  by (simp_all add: azimuths_def)

text \<open>The last two packets of the parser, \<open>d\<close> apart and ending at \<open>b\<close>.\<close>

definition tracks :: "int \<Rightarrow> int \<Rightarrow> int \<Rightarrow> parser \<Rightarrow> bool" where
  "tracks S d b p \<longleftrightarrow> start_at S p \<and> last_last_azimuth p = wrap (b - d) \<and> last_azimuth p = wrap b"

lemma tracks_move:
  assumes "tracks S d b p" and "e \<noteq> 0" and "\<bar>e\<bar> < 18000"
  shows "tracks S e (b + e) (move_azimuth (word_of_int (wrap (b + e))) (p \<lparr> rotation_flag := r \<rparr>))"
proof -
  have "wrap (b + e) \<noteq> wrap b"
  proof
    assume "wrap (b + e) = wrap b"
    then have "36000 dvd (b + e) - b" by (simp add: wrap_def mod_eq_dvd_iff)
    then show False using assms(2,3) zdvd_imp_le [of 36000 "\<bar>e\<bar>"] by auto
  qed
  then show ?thesis using assms(1) by (simp add: tracks_def move_azimuth_def start_at_def start_units_def)
qed

locale frame_splitter =
  fixes split :: "u16 \<Rightarrow> parser \<Rightarrow> (bool \<times> parser) option"
  assumes forward: "\<lbrakk>start_at S p; 1 \<le> d1; d1 < 18000; 1 \<le> d2; d2 < 18000;
      last_last_azimuth p = wrap a; last_azimuth p = wrap (a + d1)\<rbrakk> \<Longrightarrow>
      split (word_of_int (wrap (a + d1 + d2))) p =
        Some (laps S (a + d1 + d2) \<noteq> laps S (a + d1), p \<lparr> rotation_flag := 1 \<rparr>)"
    and reverse: "\<lbrakk>start_at S p; 1 \<le> d1; d1 < 18000; 1 \<le> d2; d2 < 18000;
      last_last_azimuth p = wrap (a + d2 + d1); last_azimuth p = wrap (a + d2);
      wrap a \<noteq> S; wrap (a + d2) \<noteq> S\<rbrakk> \<Longrightarrow>
      split (word_of_int (wrap a)) p =
        Some (laps_down S a \<noteq> laps_down S (a + d2), p \<lparr> rotation_flag := -1 \<rparr>)"
begin

lemma run_forward:
  assumes "tracks S d b p" and "1 \<le> d" "d < 18000" and "\<forall>e\<in>set ds. 1 \<le> e \<and> e < 18000"
  shows "\<exists>p'. split_run split (azimuths (turns b ds)) p =
            Some (nat (laps S (b + sum_list ds) - laps S b), p')
          \<and> laps S b \<le> laps S (b + sum_list ds)"
  using assms
proof (induction ds arbitrary: d b p)
  case (Cons e ds)
  let ?p = "move_azimuth (word_of_int (wrap (b + e))) (p \<lparr> rotation_flag := 1 \<rparr>)"
  have S: "0 \<le> S" "S < 36000" using Cons.prems(1) by (simp_all add: tracks_def start_at_def)
  have step: "split (word_of_int (wrap (b + e))) p =
      Some (laps S (b + e) \<noteq> laps S b, p \<lparr> rotation_flag := 1 \<rparr>)"
    using forward [of S p d e "b - d"] Cons.prems by (simp add: tracks_def)
  have "tracks S e (b + e) ?p" using Cons.prems by (intro tracks_move) auto
  then obtain p' where "split_run split (azimuths (turns (b + e) ds)) ?p =
      Some (nat (laps S (b + e + sum_list ds) - laps S (b + e)), p')"
    and "laps S (b + e) \<le> laps S (b + e + sum_list ds)"
    using Cons.IH [of e "b + e" ?p] Cons.prems by auto
  moreover have "laps S (b + e) = laps S b \<or> laps S (b + e) = laps S b + 1"
    using laps_step [of e S b] Cons.prems S by auto
  ultimately show ?case
    by (auto simp: split_and_move_def step add.assoc nat_eq_iff)
qed simp

lemma run_reverse:
  assumes "tracks S (- d) b p" and "1 \<le> d" "d < 18000" and "\<forall>e\<in>set ds. 1 \<le> e \<and> e < 18000"
    and "wrap b \<noteq> S" and "\<forall>x\<in>set (turns b (map uminus ds)). wrap x \<noteq> S"
  shows "\<exists>p'. split_run split (azimuths (turns b (map uminus ds))) p =
            Some (nat (laps_down S b - laps_down S (b - sum_list ds)), p')
          \<and> laps_down S (b - sum_list ds) \<le> laps_down S b"
  using assms
proof (induction ds arbitrary: d b p)
  case (Cons e ds)
  let ?p = "move_azimuth (word_of_int (wrap (b + - e))) (p \<lparr> rotation_flag := -1 \<rparr>)"
  have S: "0 \<le> S" "S < 36000" using Cons.prems(1) by (simp_all add: tracks_def start_at_def)
  have step: "split (word_of_int (wrap (b - e))) p =
      Some (laps_down S (b - e) \<noteq> laps_down S b, p \<lparr> rotation_flag := -1 \<rparr>)"
    using reverse [of S p d e "b - e"] Cons.prems by (simp add: tracks_def)
  have "tracks S (- e) (b + - e) ?p" using Cons.prems by (intro tracks_move) auto
  then obtain p' where "split_run split (azimuths (turns (b - e) (map uminus ds))) ?p =
      Some (nat (laps_down S (b - e) - laps_down S (b - e - sum_list ds)), p')"
    and "laps_down S (b - e - sum_list ds) \<le> laps_down S (b - e)"
    using Cons.IH [of e "b - e" ?p] Cons.prems by auto
  moreover have "laps_down S b = laps_down S (b - e) \<or> laps_down S b = laps_down S (b - e) + 1"
    using laps_step [of e S "b - e - 1"] Cons.prems S by (auto simp: laps_down_def algebra_simps)
  ultimately show ?case
    by (auto simp: split_and_move_def step diff_diff_eq nat_eq_iff)
qed simp

end

lemma p64_reverse_off_start:
  assumes "start_at S p" "1 \<le> d1" "d1 < 18000" "1 \<le> d2" "d2 < 18000"
    and "last_last_azimuth p = wrap (a + d2 + d1)" "last_azimuth p = wrap (a + d2)"
    and "wrap a \<noteq> S" "wrap (a + d2) \<noteq> S"
  shows "p64_IsNeedFrameSplit (word_of_int (wrap a)) p =
     Some (laps_down S a \<noteq> laps_down S (a + d2), p \<lparr> rotation_flag := -1 \<rparr>)"
proof -
  have "0 \<le> S" "S < 36000" using assms(1) by (simp_all add: start_at_def)
  then show ?thesis
    using p64_reverse [OF assms(1-7)] laps_down_step [of d2 S a] assms by auto
qed

interpretation p64_split: frame_splitter p64_IsNeedFrameSplit
  by unfold_locales (simp_all add: p64_forward p64_reverse_off_start)

interpretation p40_split: frame_splitter p40_IsNeedFrameSplit
  by unfold_locales (simp_all add: p40_is_p64 p64_forward p64_reverse_off_start)

section \<open>Properties\<close>

definition parser_at :: "int \<Rightarrow> int \<Rightarrow> int \<Rightarrow> parser" where
  "parser_at k ll la = parser_ex \<lparr> frame_start_azimuth := Fin (of_int k),
     last_last_azimuth := ll, last_azimuth := la \<rparr>"

lemma parser_at_tracks:
  assumes "0 \<le> k" "k < 360" "0 \<le> ll" "ll < 36000" "0 \<le> la" "la < 36000"
  shows "tracks (100 * k) (la - ll) la (parser_at k ll la)"
proof -
  have "start_at (100 * k) (parser_at k ll la)"
    using assms by (intro start_at_degrees) (simp_all add: parser_at_def)
  then show ?thesis using assms by (simp add: tracks_def parser_at_def wrap_def)
qed



text \<open>
  On a reverse rotation the same holds when no packet lies exactly on the start azimuth.
\<close>

theorem frame_split_reverse:
  assumes "split = p40_IsNeedFrameSplit \<or> split = p64_IsNeedFrameSplit"
    and "tracks S (- d) b p" and "1 \<le> d" "d < 18000" and "\<forall>e\<in>set ds. 1 \<le> e \<and> e < 18000"
    and "wrap b \<noteq> S" and "\<forall>x\<in>set (turns b (map uminus ds)). wrap x \<noteq> S"
  shows "\<exists>p'. split_run split (azimuths (turns b (map uminus ds))) p =
            Some (nat (laps_down S b - laps_down S (b - sum_list ds)), p')"
  using assms(1) p40_split.run_reverse [OF assms(2-7)] p64_split.run_reverse [OF assms(2-7)] by auto

theorem frame_split_reverse_witness:
  "\<exists>p'. split_run p64_IsNeedFrameSplit (azimuths (turns 1010 (map uminus [500, 500, 500])))
      (parser_at 0 1510 1010) = Some (1, p')"
proof -
  have "tracks 0 (- 500) 1010 (parser_at 0 1510 1010)"
    using parser_at_tracks [of 0 1510 1010] by simp
  then show ?thesis
    using frame_split_reverse [of p64_IsNeedFrameSplit 0 500 1010 "parser_at 0 1510 1010"
        "[500, 500, 500]"]
    by (simp add: laps_down_def laps_def wrap_def)
qed

text \<open>
  On a reverse rotation that has a packet exactly on the start azimuth 0, two frames are
  completed for one passage: at the packet on the start, and again at the jump from 0 to just
  below 360 degrees, because the comparison there includes the last azimuth.
\<close>

theorem reverse_start_splits_twice:
  "\<exists>p'. split_run p64_IsNeedFrameSplit (azimuths (turns 20 (map uminus [20, 20])))
      (parser_at 0 40 20) = Some (2, p')
    \<and> laps_down 0 20 - laps_down 0 (20 - sum_list [20, 20]) = 1"
proof -
  let ?p = "parser_at 0 40 20"
  let ?q = "move_azimuth (word_of_int (wrap (20 + - 20))) (?p \<lparr> rotation_flag := -1 \<rparr>)"
  have t: "tracks 0 (- 20) 20 ?p" using parser_at_tracks [of 0 40 20] by simp
  have u: "tracks 0 (- 20) (20 + - 20) ?q" using t by (intro tracks_move) auto
  have 1: "p64_IsNeedFrameSplit (word_of_int (wrap 0)) ?p = Some (True, ?p \<lparr> rotation_flag := -1 \<rparr>)"
    using p64_reverse [of 0 ?p 20 20 0] t by (simp add: tracks_def wrap_def)
  have 2: "p64_IsNeedFrameSplit (word_of_int (wrap (- 20))) ?q =
      Some (True, ?q \<lparr> rotation_flag := -1 \<rparr>)"
    using p64_reverse [of 0 ?q 20 20 "- 20"] u by (simp add: tracks_def wrap_def)
  show ?thesis
    using 1 2 by (simp add: split_and_move_def laps_down_def laps_def)
qed

text \<open>
  The constructor sets both last azimuths to 0, not to -1 as the comments of the decision
  say, so the second packet is judged: a forward rotation that starts just below 360 degrees is
  taken for a reverse one, and a frame is completed at 180 degrees, which it has not passed.
\<close>

theorem first_packets_misjudged:
  assumes "frame_start_azimuth mem = Fin 180"
  shows "\<exists>p'. split_run p64_IsNeedFrameSplit (azimuths (turns 35980 [10, 20]))
      (GeneralParser_new lm mem) = Some (1, p') \<and> rotation_flag p' = -1
    \<and> laps 18000 (35980 + sum_list [10, 20]) = laps 18000 35980"
proof -
  let ?p = "GeneralParser_new lm mem"
  have S: "start_at 18000 ?p"
    using start_at_degrees [of ?p 180] assms by (simp add: GeneralParser_new_def)
  have l: "last_last_azimuth ?p = 0" "last_azimuth ?p = 0" by (simp_all add: GeneralParser_new_def)
  have 1: "p64_IsNeedFrameSplit (word_of_int 35990) ?p = Some (False, ?p)"
    unfolding p64_IsNeedFrameSplit_def Let_def start_facts [OF S] l by simp
  let ?q = "move_azimuth (word_of_int 35990) ?p"
  have "uint (word_of_int 35990 :: u16) = 35990" by (intro uint_u16_small) auto
  then have m: "last_last_azimuth ?q = 0" "last_azimuth ?q = 35990"
    by (simp_all add: move_azimuth_def l)
  have 2: "p64_IsNeedFrameSplit (word_of_int 10) ?q = Some (True, ?q \<lparr> rotation_flag := -1 \<rparr>)"
    using p64_on_ints [of 18000 ?q 0 35990 10, OF _ _ _ _ _ _ _ m refl] S by simp
  show ?thesis
    using 1 2 by (simp add: split_and_move_def wrap_def laps_def move_azimuth_def)
qed

theorem first_packets_misjudged_witness:
  "\<exists>p'. split_run p64_IsNeedFrameSplit (azimuths (turns 35980 [10, 20]))
      (GeneralParser_new undefined (parser_at 180 0 0)) = Some (1, p') \<and> rotation_flag p' = -1
    \<and> laps 18000 (35980 + sum_list [10, 20]) = laps 18000 35980"
  by (rule first_packets_misjudged) (simp add: parser_at_def)

end
