(* ===== verification/Lidar_Time.thy ===== *)
theory Lidar_Time
  imports Prelude
begin

text \<open>
  The time of a packet: \<open>GetMicroLidarTimeU64\<close> of the packet tails under
  \<open>src/libhesai/UdpProtocol\<close>, in its three forms, which differ in the year. The tail holds
  six bytes (year, month, day, hour, minute, second) and a microsecond count; when the first
  byte is 0, bytes 2 to 5 are the seconds since 1970 in network order.

  \<open>mktime\<close> is modelled after POSIX with \<open>tm_isdst = 0\<close>: the broken-down time, its fields of
  any value, taken as a local standard time \<open>tz\<close> seconds west of Greenwich; \<open>tz\<close> is the global
  \<open>timezone\<close>. The code adds a day and subtracts it again. The properties compare the result
  with a count of days through the calendar, year by year and month by month.
\<close>

section \<open>The C library\<close>

record tm =
  tm_year :: int
  tm_mon :: int
  tm_mday :: int
  tm_hour :: int
  tm_min :: int
  tm_sec :: int

definition leap :: "int \<Rightarrow> bool" where
  "leap y \<longleftrightarrow> 4 dvd y \<and> (\<not> 100 dvd y \<or> 400 dvd y)"

definition days_to_year :: "int \<Rightarrow> int" where
  "days_to_year y =
     365 * (y - 1970) + ((y - 1) div 4 - (y - 1) div 100 + (y - 1) div 400) - 477"

definition days_to_month :: "int \<Rightarrow> int \<Rightarrow> int" where
  "days_to_month y m =
     [0, 31, 59, 90, 120, 151, 181, 212, 243, 273, 304, 334] ! nat m +
     (if leap y \<and> 2 \<le> m then 1 else 0)"

definition mktime :: "int \<Rightarrow> tm \<Rightarrow> int" where
  "mktime tz t =
     (let y = tm_year t + 1900 + tm_mon t div 12; m = tm_mon t mod 12
      in 86400 * (days_to_year y + days_to_month y m + tm_mday t - 1) +
         3600 * tm_hour t + 60 * tm_min t + tm_sec t + tz)"

section \<open>The code\<close>

text \<open>
  The common part: from the year to the result, which is converted from \<open>long\<close> to
  \<open>uint64_t\<close>.
\<close>

definition time_from_utc :: "int \<Rightarrow> int \<Rightarrow> u8 list \<Rightarrow> u32 \<Rightarrow> u64" where
  "time_from_utc tz year u ts =
     (let t = \<lparr> tm_year = year, tm_mon = uint (u ! 1) - 1, tm_mday = uint (u ! 2) + 1,
                tm_hour = uint (u ! 3), tm_min = uint (u ! 4), tm_sec = uint (u ! 5) \<rparr>
      in word_of_int ((mktime tz t - tz - 86400) * 1000000 + uint ts))"

definition time_from_seconds :: "u8 list \<Rightarrow> u32 \<Rightarrow> u64" where
  "time_from_seconds u ts =
     (let unix_second = (word_of_nat (be_val (take 4 (drop 2 u))) :: u64)
      in unix_second * 1000000 + ucast ts)"

text \<open>P40, P64, 3.1, 3.2, 6.1 and 7.2: the byte counts from 2000, or from 1900 when it is 100 or more.\<close>

definition lidar_time_p40 :: "int \<Rightarrow> u8 list \<Rightarrow> u32 \<Rightarrow> u64" where
  "lidar_time_p40 tz u ts =
     (if u ! 0 \<noteq> 0 then
        (let y = uint (u ! 0) + 100; y = (if y \<ge> 200 then y - 100 else y)
         in time_from_utc tz y u ts)
      else time_from_seconds u ts)"

definition lidar_time_p64 :: "int \<Rightarrow> u8 list \<Rightarrow> u32 \<Rightarrow> u64" where
  "lidar_time_p64 = lidar_time_p40"

definition lidar_time_3_1 :: "int \<Rightarrow> u8 list \<Rightarrow> u32 \<Rightarrow> u64" where
  "lidar_time_3_1 = lidar_time_p40"

definition lidar_time_3_2 :: "int \<Rightarrow> u8 list \<Rightarrow> u32 \<Rightarrow> u64" where
  "lidar_time_3_2 = lidar_time_p40"

definition lidar_time_6_1 :: "int \<Rightarrow> u8 list \<Rightarrow> u32 \<Rightarrow> u64" where
  "lidar_time_6_1 = lidar_time_p40"

definition lidar_time_7_2 :: "int \<Rightarrow> u8 list \<Rightarrow> u32 \<Rightarrow> u64" where
  "lidar_time_7_2 = lidar_time_p40"

text \<open>1.4: the byte counts from 1900, and years before 1970 give 0.\<close>

definition lidar_time_1_4 :: "int \<Rightarrow> u8 list \<Rightarrow> u32 \<Rightarrow> u64" where
  "lidar_time_1_4 tz u ts =
     (if u ! 0 \<noteq> 0 then
        (if uint (u ! 0) < 70 then 0 else time_from_utc tz (uint (u ! 0)) u ts)
      else time_from_seconds u ts)"

text \<open>2.4, 2.5, 2.6, 4.3 and 4.7: the byte counts from 1900, from 1800 when it is 200 or more.\<close>

definition lidar_time_4_3 :: "int \<Rightarrow> u8 list \<Rightarrow> u32 \<Rightarrow> u64" where
  "lidar_time_4_3 tz u ts =
     (if u ! 0 \<noteq> 0 then
        (let y = uint (u ! 0); y = (if y \<ge> 200 then y - 100 else y)
         in time_from_utc tz y u ts)
      else time_from_seconds u ts)"

definition lidar_time_2_4 :: "int \<Rightarrow> u8 list \<Rightarrow> u32 \<Rightarrow> u64" where
  "lidar_time_2_4 = lidar_time_4_3"

definition lidar_time_2_5 :: "int \<Rightarrow> u8 list \<Rightarrow> u32 \<Rightarrow> u64" where
  "lidar_time_2_5 = lidar_time_4_3"

definition lidar_time_2_6 :: "int \<Rightarrow> u8 list \<Rightarrow> u32 \<Rightarrow> u64" where
  "lidar_time_2_6 = lidar_time_4_3"

definition lidar_time_4_7 :: "int \<Rightarrow> u8 list \<Rightarrow> u32 \<Rightarrow> u64" where
  "lidar_time_4_7 = lidar_time_4_3"

section \<open>The calendar, day by day\<close>

definition year_length :: "int \<Rightarrow> int" where
  "year_length y = (if leap y then 366 else 365)"

definition month_length :: "int \<Rightarrow> nat \<Rightarrow> int" where
  "month_length y m =
     (if m = 2 then (if leap y then 29 else 28) else if m \<in> {4, 6, 9, 11} then 30 else 31)"

text \<open>Seconds from 1970-01-01 00:00:00 to the given UTC time.\<close>

definition unix_seconds :: "nat \<Rightarrow> nat \<Rightarrow> int \<Rightarrow> int \<Rightarrow> int \<Rightarrow> int \<Rightarrow> int" where
  "unix_seconds y m d hh mm ss =
     86400 * ((\<Sum>k\<leftarrow>[1970 ..< y]. year_length (int k)) +
              (\<Sum>k\<leftarrow>[1 ..< m]. month_length (int y) k) + (d - 1)) +
     3600 * hh + 60 * mm + ss"

lemma div_pred:
  assumes "0 < (n :: int)"
  shows "y div n - (y - 1) div n = (if n dvd y then 1 else 0)"
proof (cases "n dvd y")
  case True
  then obtain k where y: "y = n * k" by (elim dvdE)
  have "(y - 1) div n = k - 1"
    by (rule int_div_pos_eq [where r = "n - 1"]) (use assms y in \<open>auto simp: algebra_simps\<close>)
  then show ?thesis using True assms y by simp
next
  case False
  have "y mod n \<noteq> 0" using False by (simp add: dvd_eq_mod_eq_0)
  then have r: "0 < y mod n" "y mod n < n"
    using pos_mod_sign [OF assms, of y] pos_mod_bound [OF assms, of y] by linarith+
  have "(y - 1) div n = y div n"
    by (rule int_div_pos_eq [where r = "y mod n - 1"])
      (use assms r mult_div_mod_eq [of n y] in auto)
  then show ?thesis using False by simp
qed

lemma days_to_year_step: "days_to_year (y + 1) = days_to_year y + year_length y"
proof -
  define b4 b100 b400 :: int where "b4 = (if 4 dvd y then 1 else 0)"
    and "b100 = (if 100 dvd y then 1 else 0)" and "b400 = (if 400 dvd y then 1 else 0)"
  have "y div 4 - (y - 1) div 4 = b4" "y div 100 - (y - 1) div 100 = b100"
      "y div 400 - (y - 1) div 400 = b400"
    by (simp_all add: div_pred b4_def b100_def b400_def)
  then have step: "days_to_year (y + 1) = days_to_year y + 365 + b4 - b100 + b400"
    by (simp add: days_to_year_def)
  have "(4 :: int) dvd 100" "(100 :: int) dvd 400" by simp_all
  then have "100 dvd y \<Longrightarrow> 4 dvd y" "400 dvd y \<Longrightarrow> 100 dvd y" by (blast intro: dvd_trans)+
  then have "year_length y = 365 + b4 - b100 + b400"
    by (cases "4 dvd y"; cases "100 dvd y"; cases "400 dvd y")
      (simp_all add: year_length_def leap_def b4_def b100_def b400_def)
  with step show ?thesis by simp
qed

lemma days_to_year_sum:
  "1970 \<le> y \<Longrightarrow> days_to_year (int y) = (\<Sum>k\<leftarrow>[1970 ..< y]. year_length (int k))"
proof (induction y rule: nat_induct_at_least)
  case base
  then show ?case by (simp add: days_to_year_def)
next
  case (Suc n)
  then show ?case using days_to_year_step [of "int n"] by (simp add: add.commute)
qed

lemma days_to_month_sum:
  assumes "m \<in> {1, 2, 3, 4, 5, 6, 7, 8, 9, 10, 11, 12}"
  shows "days_to_month y (int m - 1) = (\<Sum>k\<leftarrow>[1 ..< m]. month_length y k)"
  using assms by (auto simp: days_to_month_def month_length_def numeral_eq_Suc)

lemma time_from_utc_calendar:
  assumes "uint (u ! 1) = int m" and "m \<in> {1, 2, 3, 4, 5, 6, 7, 8, 9, 10, 11, 12}"
    and "year + 1900 = int y" and "1970 \<le> y"
  shows "time_from_utc tz year u ts =
           word_of_int (unix_seconds y m (uint (u ! 2)) (uint (u ! 3)) (uint (u ! 4)) (uint (u ! 5))
             * 1000000 + uint ts)"
proof -
  have m: "(int m - 1) div 12 = 0" "(int m - 1) mod 12 = int m - 1"
    using assms(2) by auto
  show ?thesis
    using assms(3,4) days_to_month_sum [OF assms(2), of "int y"] days_to_year_sum [OF assms(4)]
    by (simp add: time_from_utc_def mktime_def Let_def assms(1) assms(1) [unfolded One_nat_def] m unix_seconds_def
        algebra_simps)
qed



end
