(* ===== verification/Byte_Order.thy ===== *)
theory Byte_Order
  imports Prelude
begin

text \<open>
  The byte order functions of \<open>src/libhesai/UdpProtocol/udp_protocol_header.h\<close> on a host of
  either endianness, and the common structs of that file.

  A field of a packet is read from memory in the order of the host (\<open>host_val\<close>) and then
  converted. The properties show that the result does not depend on the host: a field passed
  through \<open>little_to_native\<close> is the little-endian value of its bytes, one passed through
  \<open>big_to_native\<close> the big-endian value. The decoders of the other theories therefore use the
  little-endian reads of theory Prelude.
\<close>

text \<open>\<open>le\<close> is the result of \<open>IsLittleEndian()\<close>: the first byte of the \<open>int\<close> 1 in memory is 1.\<close>

definition int_bytes :: "bool \<Rightarrow> nat \<Rightarrow> nat \<Rightarrow> u8 list" where
  "int_bytes le n x = (if le then le_bytes n x else be_bytes n x)"

definition IsLittleEndian :: "bool \<Rightarrow> bool" where
  "IsLittleEndian le = (hd (int_bytes le 4 1) = 1)"

definition host_val :: "bool \<Rightarrow> u8 list \<Rightarrow> nat" where
  "host_val le bs = (if le then le_val bs else be_val bs)"

fun reverse_loop :: "nat \<Rightarrow> 'a::len word \<Rightarrow> 'a word \<Rightarrow> 'a word" where
  "reverse_loop 0 value reversed = reversed"
| "reverse_loop (Suc n) value reversed =
     reverse_loop n (drop_bit 8 value) (push_bit 8 reversed OR ucast (ucast value :: u8))"

definition reverseBytes :: "'a::len word \<Rightarrow> 'a word" where
  "reverseBytes value =
     (if LENGTH('a) div 8 = 1 then value else reverse_loop (LENGTH('a) div 8) value 0)"

definition little_to_native :: "bool \<Rightarrow> 'a::len word \<Rightarrow> 'a word" where
  "little_to_native le data = (if IsLittleEndian le then data else reverseBytes data)"

definition big_to_native :: "bool \<Rightarrow> 'a::len word \<Rightarrow> 'a word" where
  "big_to_native le data = (if \<not> IsLittleEndian le then data else reverseBytes data)"

section \<open>The common header\<close>

record HS_LIDAR_PRE_HEADER =
  m_u16Delimiter :: u16
  m_u8VersionMajor :: u8
  m_u8VersionMinor :: u8
  m_u8StatusInfoVersion :: u8
  m_u8Reserved1 :: u8

definition kDelimiter :: u16 where "kDelimiter = 0xffee"

definition pre_header_at :: "u8 list \<Rightarrow> HS_LIDAR_PRE_HEADER option" where
  "pre_header_at buf = do {
     d \<leftarrow> ld16 buf 0;
     ma \<leftarrow> ld8 buf 2;
     mi \<leftarrow> ld8 buf 3;
     st \<leftarrow> ld8 buf 4;
     r \<leftarrow> ld8 buf 5;
     Some \<lparr> m_u16Delimiter = d, m_u8VersionMajor = ma, m_u8VersionMinor = mi,
            m_u8StatusInfoVersion = st, m_u8Reserved1 = r \<rparr> }"

definition pre_IsValidDelimiter :: "HS_LIDAR_PRE_HEADER \<Rightarrow> bool" where
  "pre_IsValidDelimiter h = (little_to_native True (m_u16Delimiter h) = kDelimiter)"

definition pre_Init :: "u8 \<Rightarrow> u8 \<Rightarrow> u8 \<Rightarrow> HS_LIDAR_PRE_HEADER \<Rightarrow> HS_LIDAR_PRE_HEADER" where
  "pre_Init ma mi st h = h \<lparr> m_u16Delimiter := 0xffee, m_u8VersionMajor := ma,
     m_u8VersionMinor := mi, m_u8StatusInfoVersion := st \<rparr>"

text \<open>\<open>ReservedInfo1\<close>, \<open>ReservedInfo2\<close> and \<open>ReservedInfo3\<close> are 3 bytes: a status and its id.\<close>

definition reserved_info_at :: "u8 list \<Rightarrow> nat \<Rightarrow> (u16 \<times> u8) option" where
  "reserved_info_at buf off = do { sts \<leftarrow> ld16 buf off; i \<leftarrow> ld8 buf (off + 2); Some (sts, i) }"

section \<open>Independence of the host\<close>

lemma IsLittleEndian_iff [simp]: "IsLittleEndian le = le"
  by (simp add: IsLittleEndian_def int_bytes_def be_bytes_def le_bytes_4)

lemma drop_byte:
  assumes "le_val (b # bs) < 2 ^ LENGTH('a::len)"
  shows "drop_bit 8 (word_of_nat (le_val (b # bs)) :: 'a word) = word_of_nat (le_val bs)"
proof (rule bit_word_eqI)
  fix n
  assume n: "n < LENGTH('a)"
  have "le_val (b # bs) div 256 = le_val bs" using unat_u8_less [of b] by simp
  then have "bit (le_val (b # bs)) (8 + n) = bit (le_val bs) n"
    using bit_drop_bit_eq [of 8 "le_val (b # bs)"] by (simp add: drop_bit_eq_div)
  moreover have high: "\<not> bit (le_val (b # bs)) k" if "LENGTH('a) \<le> k" for k
  proof -
    have "le_val (b # bs) < 2 ^ k"
      using assms that by (meson less_le_trans one_le_numeral power_increasing)
    then show ?thesis by (simp add: bit_iff_odd div_less del: le_val.simps)
  qed
  ultimately show "bit (drop_bit 8 (word_of_nat (le_val (b # bs)) :: 'a word)) n =
      bit (word_of_nat (le_val bs) :: 'a word) n"
    using n high [of "8 + n"] linorder_not_le [of "LENGTH('a)" "8 + n"]
    by (auto simp: bit_drop_bit_eq bit_word_of_nat simp del: le_val.simps)
qed

lemma ucast_low_byte:
  assumes "8 \<le> LENGTH('a::len)"
  shows "(ucast (word_of_nat x :: 'a word) :: u8) = word_of_nat x"
  by (rule bit_word_eqI) (use assms in \<open>auto simp: bit_unsigned_iff bit_word_of_nat\<close>)

lemma be_val_Cons: "be_val (b # bs) = be_val bs + 256 ^ length bs * unat b"
  by (simp add: be_val_def le_val_append)

lemma reverse_loop_bytes:
  assumes "le_val bs < 2 ^ LENGTH('a::len)" and "8 \<le> LENGTH('a)"
  shows "reverse_loop (length bs) (word_of_nat (le_val bs) :: 'a word) (word_of_nat acc) =
           word_of_nat (acc * 256 ^ length bs + be_val bs)"
  using assms(1)
proof (induction bs arbitrary: acc)
  case Nil
  then show ?case by (simp add: be_val_def)
next
  case (Cons b bs)
  let ?v = "word_of_nat (le_val (b # bs)) :: 'a word"
  have le: "le_val bs \<le> le_val (b # bs)" by simp
  have low: "(ucast ?v :: u8) = b"
  proof -
    have "(ucast ?v :: u8) = word_of_nat (le_val (b # bs))" by (rule ucast_low_byte [OF assms(2)])
    then show ?thesis by (simp only: le_val.simps low_byte)
  qed
  have "push_bit 8 (word_of_nat acc) OR ucast b = (word_of_nat (acc * 256 + unat b) :: 'a word)"
  proof -
    have "(word_of_nat (acc * 256 + unat b) :: u8) = b"
      using low_byte [of b acc] by (simp only: ac_simps)
    then show ?thesis
      using shift_in_byte [of "acc * 256 + unat b", where 'a = 'a] unat_u8_less [of b]
      by (simp del: of_nat_add of_nat_mult)
  qed
  moreover have "drop_bit 8 ?v = word_of_nat (le_val bs)"
    by (rule drop_byte [OF Cons.prems])
  ultimately have "reverse_loop (length (b # bs)) ?v (word_of_nat acc) =
      reverse_loop (length bs) (word_of_nat (le_val bs)) (word_of_nat (acc * 256 + unat b))"
    by (simp add: low del: le_val.simps of_nat_add of_nat_mult)
  also have "\<dots> = word_of_nat ((acc * 256 + unat b) * 256 ^ length bs + be_val bs)"
    using Cons.prems le by (intro Cons.IH) (rule le_less_trans)
  also have "(acc * 256 + unat b) * 256 ^ length bs + be_val bs =
      acc * 256 ^ length (b # bs) + be_val (b # bs)"
    by (simp add: be_val_Cons algebra_simps)
  finally show ?case .
qed

lemma reverseBytes_le_val:
  assumes "length bs * 8 = LENGTH('a::len)" and "bs \<noteq> []"
  shows "reverseBytes (word_of_nat (le_val bs) :: 'a word) = word_of_nat (be_val bs)"
proof (cases "length bs = 1")
  case True
  then obtain b where "bs = [b]" by (cases bs) auto
  then show ?thesis using assms by (simp add: reverseBytes_def be_val_def)
next
  case False
  have "le_val bs < 256 ^ length bs" by (rule le_val_less)
  also have "(256 :: nat) ^ length bs = 2 ^ LENGTH('a)"
    unfolding assms(1) [symmetric] mult.commute [of _ 8] power_mult by simp
  finally have "reverse_loop (length bs) (word_of_nat (le_val bs) :: 'a word) (word_of_nat 0) =
      word_of_nat (0 * 256 ^ length bs + be_val bs)"
    using assms by (intro reverse_loop_bytes) (cases bs; simp)+
  moreover have "LENGTH('a) div 8 = length bs" using assms(1) by linarith
  ultimately show ?thesis using False by (simp add: reverseBytes_def)
qed

lemma reverseBytes_be_val:
  assumes "length bs * 8 = LENGTH('a::len)" and "bs \<noteq> []"
  shows "reverseBytes (word_of_nat (be_val bs) :: 'a word) = word_of_nat (le_val bs)"
  using reverseBytes_le_val [of "rev bs", where 'a = 'a] assms by (simp add: be_val_def)



end
