(* ===== verification/Packet_Decoder.thy ===== *)
theory Packet_Decoder
  imports Frame_Split Lidar_Time Byte_Order
begin

text \<open>
  What the packet decoders of \<open>src/libhesai/UdpParser/src\<close> have in common. \<open>DecodePacket\<close> of
  every spinning lidar walks over the blocks of a packet and the channels of a block, with a
  pointer to the current struct, and writes one entry of \<open>pointData\<close> per channel. The two loops
  are written once here, with the sizes of the structs and the channel struct's fields as
  arguments; the theories of the protocols supply them and the code around the loops.

  A read outside of the 1500 bytes of the packet buffer, or a write outside of the arrays of the
  frame, is \<open>None\<close>. The host is little-endian, so a field is its little-endian value
  (theory Byte\_Order). The locale \<open>packet_layout\<close> has the laws of a channel struct; in it the
  loops are shown to be defined within the bounds, and to write exactly the points of the
  packet.
\<close>

section \<open>The host\<close>

text \<open>
  What the decoders ask of the host: the offset of its time zone, the values of
  \<open>GetMicroTickCount\<close> in the two packet statistics, and that of \<open>GetMicroTickCountU64\<close>.
\<close>

record host =
  h_timezone :: int
  h_loss_tick :: "nat \<Rightarrow> u32"
  h_time_tick :: "nat \<Rightarrow> u32"
  h_now :: u64

definition bytes_at :: "nat \<Rightarrow> u8 list \<Rightarrow> nat \<Rightarrow> u8 list option" where
  "bytes_at n buf off = (if off + n \<le> length buf then Some (take n (drop off buf)) else None)"

lemma bytes_at_in: "off + n \<le> length buf \<Longrightarrow> bytes_at n buf off = Some (take n (drop off buf))"
  by (simp add: bytes_at_def)

text \<open>An \<open>int\<close> used as an index of an array, and an \<open>int\<close> result of an addition.\<close>

definition nat_index :: "int \<Rightarrow> nat option" where
  "nat_index i = (if 0 \<le> i then Some (nat i) else None)"

definition int_ok :: "int \<Rightarrow> int option" where
  "int_ok i = (if -2147483648 \<le> i \<and> i \<le> 2147483647 then Some i else None)"

lemma nat_index_of_nat [simp]: "nat_index (int n) = Some n"
  by (simp add: nat_index_def)

section \<open>The loops\<close>

text \<open>
  \<open>u16Azimuth + rotation_flag * GetFiretimesCorrection(i, spin_speed_) * kResolutionFloat\<close>, which
  is a double, stored as a float; without a firetime file the azimuth itself.
\<close>

definition point_azimuth :: "parser \<Rightarrow> u16 \<Rightarrow> nat \<Rightarrow> fp option" where
  "point_azimuth p az i =
     (if get_firetime_file p then do {
        c \<leftarrow> GetFiretimesCorrection (int i) (f64_of_int (uint (spin_speed p))) p;
        Some (to_float (dadd (f64_of_int (uint az))
                (dmul (dmul (f64_of_int (rotation_flag p)) c) (Fin 100)))) }
      else Some (f32_of_int (uint az)))"

type_synonym channel_reader = "u8 list \<Rightarrow> nat \<Rightarrow> (PointDecodeData \<Rightarrow> PointDecodeData) option"

text \<open>\<open>for (int i = 0; i < laserNum; i++)\<close>: \<open>n\<close> channels are left, \<open>off\<close> is \<open>pChnUnit\<close>.\<close>

fun decode_channels :: "channel_reader \<Rightarrow> nat \<Rightarrow> parser \<Rightarrow> u8 list \<Rightarrow> u16 \<Rightarrow> nat \<Rightarrow> nat \<Rightarrow> nat \<Rightarrow>
    int \<Rightarrow> LidarDecodedFrame \<Rightarrow> (int \<times> LidarDecodedFrame) option" where
  "decode_channels rd usz p buf az 0 i off index f = Some (index, f)"
| "decode_channels rd usz p buf az (Suc n) i off index f = do {
     a \<leftarrow> point_azimuth p az i;
     upd \<leftarrow> rd buf off;
     k \<leftarrow> nat_index index;
     f \<leftarrow> put_point_data k (\<lambda>d. upd (d \<lparr> pd_azimuth := a \<rparr>)) f;
     decode_channels rd usz p buf az n (Suc i) (off + usz) (index + 1) f }"

text \<open>
  \<open>for (int blockid = 0; blockid < blockNum; blockid++)\<close>: \<open>pa\<close> is \<open>pAzimuth\<close>, a struct of \<open>asz\<close>
  bytes with the azimuth at \<open>azo\<close>. The azimuth of the last block is the result.
\<close>

fun decode_blocks :: "channel_reader \<Rightarrow> nat \<Rightarrow> nat \<Rightarrow> nat \<Rightarrow> nat \<Rightarrow> parser \<Rightarrow> u8 list \<Rightarrow> nat \<Rightarrow> u16 \<Rightarrow>
    nat \<Rightarrow> int \<Rightarrow> LidarDecodedFrame \<Rightarrow> (u16 \<times> LidarDecodedFrame) option" where
  "decode_blocks rd usz azo asz laser p buf 0 az pa index f = Some (az, f)"
| "decode_blocks rd usz azo asz laser p buf (Suc n) az pa index f = do {
     az \<leftarrow> ld16 buf (pa + azo);
     (index, f) \<leftarrow> decode_channels rd usz p buf az laser 0 (pa + asz) index f;
     decode_blocks rd usz azo asz laser p buf n az (pa + asz + usz * laser) index f }"

text \<open>The end of \<open>DecodePacket\<close>: frame division, last azimuths, packet count.\<close>

definition finish_packet :: "(u16 \<Rightarrow> parser \<Rightarrow> (bool \<times> parser) option) \<Rightarrow> u16 \<Rightarrow>
    LidarDecodedFrame \<Rightarrow> parser \<Rightarrow> (LidarDecodedFrame \<times> parser) option" where
  "finish_packet split az f p = do {
     (b, p) \<leftarrow> split_and_move split az p;
     Some ((if b then f \<lparr> f_scan_complete := True \<rparr> else f) \<lparr> f_packet_num := f_packet_num f + 1 \<rparr>,
           p) }"

section \<open>What the loops write\<close>

lemma point_azimuth_defined: "i < 512 \<Longrightarrow> \<exists>a. point_azimuth p az i = Some a"
  by (simp add: point_azimuth_def GetFiretimesCorrection_def MAX_LASER_NUM_def)

text \<open>
  The entries of the channels of one block, from entry \<open>k\<close> on; \<open>off\<close> is the first channel.
\<close>

definition block_points :: "channel_reader \<Rightarrow> nat \<Rightarrow> parser \<Rightarrow> u8 list \<Rightarrow> u16 \<Rightarrow> nat \<Rightarrow> nat \<Rightarrow> nat \<Rightarrow>
    nat \<Rightarrow> (nat \<Rightarrow> PointDecodeData) \<Rightarrow> nat \<Rightarrow> PointDecodeData" where
  "block_points rd usz p buf az i0 off k n m j =
     (if k \<le> j \<and> j < k + n
      then the (rd buf (off + usz * (j - k)))
             (m j \<lparr> pd_azimuth := the (point_azimuth p az (i0 + (j - k))) \<rparr>)
      else m j)"

text \<open>
  The entries of \<open>n\<close> blocks of \<open>laser\<close> channels: entry \<open>k + b * laser + c\<close> is channel \<open>c\<close> of
  block \<open>b\<close>, whose struct starts at \<open>pa + b * (asz + usz * laser)\<close>.
\<close>

definition packet_points :: "channel_reader \<Rightarrow> nat \<Rightarrow> nat \<Rightarrow> nat \<Rightarrow> nat \<Rightarrow> parser \<Rightarrow> u8 list \<Rightarrow> nat \<Rightarrow>
    nat \<Rightarrow> nat \<Rightarrow> (nat \<Rightarrow> PointDecodeData) \<Rightarrow> nat \<Rightarrow> PointDecodeData" where
  "packet_points rd usz azo asz laser p buf n pa k m j =
     (if k \<le> j \<and> j < k + n * laser
      then let c = (j - k) mod laser; pb = pa + (j - k) div laser * (asz + usz * laser)
           in the (rd buf (pb + asz + usz * c))
                (m j \<lparr> pd_azimuth := the (point_azimuth p (the (ld16 buf (pb + azo))) c) \<rparr>)
      else m j)"

lemma packet_points_0: "packet_points rd usz azo asz laser p buf 0 pa k m = m"
  by (auto simp: packet_points_def fun_eq_iff)

lemma packet_points_Suc:
  "packet_points rd usz azo asz laser p buf (Suc n) pa k m =
   packet_points rd usz azo asz laser p buf n (pa + asz + usz * laser) (k + laser)
     (block_points rd usz p buf (the (ld16 buf (pa + azo))) 0 (pa + asz) k laser m)"
proof
  fix j
  let ?m = "block_points rd usz p buf (the (ld16 buf (pa + azo))) 0 (pa + asz) k laser m"
  show "packet_points rd usz azo asz laser p buf (Suc n) pa k m j =
    packet_points rd usz azo asz laser p buf n (pa + asz + usz * laser) (k + laser) ?m j"
  proof (cases "k + laser \<le> j \<and> j < k + laser + n * laser")
    case True
    then obtain i where i: "j = k + laser + i" "i < n * laser"
      by (metis le_Suc_ex nat_add_left_cancel_less)
    then have "0 < laser" by (cases laser) auto
    then have "j - k = i + laser" "(i + laser) div laser = Suc (i div laser)"
      "(i + laser) mod laser = i mod laser" "?m j = m j"
      using i by (auto simp: block_points_def)
    then show ?thesis
      using i by (simp add: packet_points_def Let_def algebra_simps)
  next
    case False
    show ?thesis
    proof (cases "k \<le> j \<and> j < k + laser")
      case True
      then have "(j - k) div laser = 0" "(j - k) mod laser = j - k" by auto
      then show ?thesis
        using True False by (simp add: packet_points_def block_points_def Let_def trans_less_add1)
    next
      case out: False
      then show ?thesis using False by (auto simp: packet_points_def block_points_def)
    qed
  qed
qed

locale packet_layout =
  fixes rd :: channel_reader and usz :: nat
  assumes rd_in: "off + usz \<le> length buf \<Longrightarrow> \<exists>u. rd buf off = Some u"
begin

lemma channels:
  assumes "off + usz * n \<le> length buf" and "i + n \<le> 512" and "k + n \<le> 2560000"
  shows "decode_channels rd usz p buf az n i off (int k) f =
     Some (int (k + n),
           f \<lparr> f_pointData := block_points rd usz p buf az i off k n (f_pointData f) \<rparr>)"
  using assms
proof (induction n arbitrary: i off k f)
  case 0
  have "block_points rd usz p buf az i off k 0 (f_pointData f) = f_pointData f"
    by (auto simp: block_points_def fun_eq_iff)
  then show ?case by simp
next
  case (Suc n)
  obtain a where a: "point_azimuth p az i = Some a"
    using point_azimuth_defined [of i p az] Suc.prems(2) by auto
  obtain u where u: "rd buf off = Some u" using rd_in [of off buf] Suc.prems(1) by auto
  define g where "g = f \<lparr> f_pointData := (f_pointData f)(k := u (f_pointData f k \<lparr> pd_azimuth := a \<rparr>)) \<rparr>"
  have "block_points rd usz p buf az (Suc i) (off + usz) (Suc k) n (f_pointData g) =
      block_points rd usz p buf az i off k (Suc n) (f_pointData f)"
  proof
    fix j
    show "block_points rd usz p buf az (Suc i) (off + usz) (Suc k) n (f_pointData g) j =
      block_points rd usz p buf az i off k (Suc n) (f_pointData f) j"
    proof (cases "Suc k \<le> j \<and> j < Suc k + n")
      case True
      then have "j - k = Suc (j - Suc k)" by auto
      then show ?thesis using True by (simp add: block_points_def g_def add.assoc)
    next
      case False
      then show ?thesis by (auto simp: block_points_def g_def a u)
    qed
  qed
  moreover have "decode_channels rd usz p buf az n (Suc i) (off + usz) (int (Suc k)) g =
      Some (int (Suc k + n), g \<lparr> f_pointData := block_points rd usz p buf az (Suc i) (off + usz)
        (Suc k) n (f_pointData g) \<rparr>)"
    using Suc.prems by (intro Suc.IH) auto
  moreover have "put_point_data k (\<lambda>d. u (d \<lparr> pd_azimuth := a \<rparr>)) f = Some g"
    using Suc.prems(3) by (simp add: put_point_data_def kMaxPointsNumPerFrame_def g_def)
  ultimately show ?case by (simp add: a u g_def add.commute)
qed

lemma blocks:
  assumes "pa + n * (asz + usz * laser) \<le> length buf" and "azo + 2 \<le> asz" and "laser \<le> 512"
    and "k + n * laser \<le> 2560000"
  shows "decode_blocks rd usz azo asz laser p buf n az pa (int k) f =
     Some (if n = 0 then az else the (ld16 buf (pa + (n - 1) * (asz + usz * laser) + azo)),
           f \<lparr> f_pointData := packet_points rd usz azo asz laser p buf n pa k (f_pointData f) \<rparr>)"
  using assms(1,4)
proof (induction n arbitrary: az pa k f)
  case 0
  then show ?case by (simp add: packet_points_0)
next
  case (Suc n)
  let ?f = "f \<lparr> f_pointData := block_points rd usz p buf (the (ld16 buf (pa + azo))) 0 (pa + asz)
    k laser (f_pointData f) \<rparr>"
  have az: "ld16 buf (pa + azo) = Some (the (ld16 buf (pa + azo)))"
    using Suc.prems(1) assms(2) by (simp add: load_def)
  have ch: "decode_channels rd usz p buf (the (ld16 buf (pa + azo))) laser 0 (pa + asz) (int k) f =
      Some (int (k + laser), ?f)"
    using Suc.prems assms(3) by (intro channels) auto
  have "decode_blocks rd usz azo asz laser p buf n (the (ld16 buf (pa + azo)))
      (pa + asz + usz * laser) (int (k + laser)) ?f =
     Some (if n = 0 then the (ld16 buf (pa + azo))
           else the (ld16 buf (pa + asz + usz * laser + (n - 1) * (asz + usz * laser) + azo)),
           ?f \<lparr> f_pointData := packet_points rd usz azo asz laser p buf n (pa + asz + usz * laser)
             (k + laser) (f_pointData ?f) \<rparr>)"
    using Suc.prems by (intro Suc.IH) auto
  moreover have "(if n = 0 then the (ld16 buf (pa + azo))
      else the (ld16 buf (pa + asz + usz * laser + (n - 1) * (asz + usz * laser) + azo))) =
      (the (ld16 buf (pa + n * (asz + usz * laser) + azo)) :: u16)"
    by (cases n) (simp_all add: add.assoc)
  ultimately show ?case
    by (subst decode_blocks.simps(2), subst az)
      (simp add: ch packet_points_Suc del: of_nat_add)
qed

end

text \<open>The entry of channel \<open>c\<close> of block \<open>b\<close>.\<close>

lemma packet_points_at:
  assumes "b < n" and "c < laser"
  shows "packet_points rd usz azo asz laser p buf n pa k m (k + b * laser + c) =
     the (rd buf (pa + b * (asz + usz * laser) + asz + usz * c))
       (m (k + b * laser + c) \<lparr> pd_azimuth := the (point_azimuth p
          (the (ld16 buf (pa + b * (asz + usz * laser) + azo))) c) \<rparr>)"
proof -
  have "b * laser + c < n * laser"
    using assms mult_le_mono1 [of "Suc b" n laser] by simp
  moreover have "(b * laser + c) div laser = b" "(b * laser + c) mod laser = c"
    using assms(2) by auto
  ultimately show ?thesis by (simp add: packet_points_def Let_def)
qed

lemma packet_points_elsewhere:
  "j < k \<or> k + n * laser \<le> j \<Longrightarrow> packet_points rd usz azo asz laser p buf n pa k m j = m j"
  by (auto simp: packet_points_def)

section \<open>The first entry of a packet\<close>

text \<open>\<open>int index = frame.packet_num * blockNum * laserNum\<close>, a product of \<open>uint32_t\<close>.\<close>

definition first_index :: "u32 \<Rightarrow> u8 \<Rightarrow> u8 \<Rightarrow> int" where
  "first_index packet_num blocks lasers = sint (packet_num * ucast blocks * ucast lasers)"

lemma sint_u32_small: "x < 2147483648 \<Longrightarrow> sint (word_of_nat x :: u32) = int x"
  by (simp add: signed_of_nat signed_take_bit_int_eq_self)

lemma first_index_small:
  assumes "unat n < 5000" and "unat b * unat l \<le> 512"
  shows "first_index n b l = int (unat n * (unat b * unat l))"
proof -
  have "unat n * (unat b * unat l) \<le> 5000 * 512" using assms by (intro mult_le_mono) auto
  moreover have "n * ucast b * ucast l = (word_of_nat (unat n * (unat b * unat l)) :: u32)"
    by (simp add: unsigned_ucast_eq ac_simps)
  ultimately show ?thesis by (simp add: first_index_def sint_u32_small del: of_nat_mult)
qed

lemma points_fit:
  assumes "n < 5000" and "m \<le> 512"
  shows "n * m + m \<le> (2560000 :: nat)"
  using mult_le_mono [of "Suc n" 5000 m 512] assms by simp

section \<open>The decision at the end is defined\<close>

lemma start_defined:
  assumes "frame_start_azimuth p = Fin q"
  shows "\<exists>s. fp_to_u16 (start_units (start_in_range p \<lparr> rotation_flag := r \<rparr>)) = Some s"
proof -
  obtain q' where q': "frame_start_azimuth (start_in_range p) = Fin q'" "0 \<le> q'" "q' < 360"
    using assms by (cases "q < 0 \<or> 360 \<le> q") (auto simp: start_in_range_def)
  obtain x where x: "f32 (q' * 100) = Fin x" "of_int 0 \<le> x" "x \<le> of_int 36000"
    using f32_between [of 0 "q' * 100" 36000] q'(2,3) by auto
  have "f32 100 = Fin (of_int 100)" using f32_int [of 100] by simp
  then have "start_units (start_in_range p \<lparr> rotation_flag := r \<rparr>) = Fin x"
    using q' x(1) by (simp add: start_units_def f32_of_int_def)
  moreover have "0 \<le> trunc x \<and> trunc x \<le> 36000" using x(2,3) by (rule trunc_between)
  ultimately show ?thesis by (simp add: fp_to_u16_def)
qed

lemma if_defined: "(c \<Longrightarrow> x \<noteq> None) \<Longrightarrow> (\<not> c \<Longrightarrow> y \<noteq> None) \<Longrightarrow> (if c then x else y) \<noteq> None"
  by simp

lemma split_defined:
  assumes "frame_start_azimuth p = Fin q"
  shows "p40_IsNeedFrameSplit az p \<noteq> None" and "p64_IsNeedFrameSplit az p \<noteq> None"
proof -
  obtain s where s: "\<And>r. fp_to_u16 (start_units (start_in_range p \<lparr> rotation_flag := r \<rparr>)) = Some (s r)"
    using start_defined [OF assms] by metis
  show "p40_IsNeedFrameSplit az p \<noteq> None"
    unfolding p40_IsNeedFrameSplit_def Let_def s bind.simps by (intro if_defined) simp_all
  show "p64_IsNeedFrameSplit az p \<noteq> None"
    unfolding p64_IsNeedFrameSplit_def Let_def s bind.simps by (intro if_defined) simp_all
qed

text \<open>What the last step of \<open>DecodePacket\<close> does to the frame.\<close>

lemma finish_packet_frame:
  assumes "split az p \<noteq> None"
  shows "\<exists>f' p'. finish_packet split az f p = Some (f', p') \<and> f_packet_num f' = f_packet_num f + 1 \<and>
     f_pointData f' = f_pointData f \<and> f_sensor_timestamp f' = f_sensor_timestamp f \<and>
     f_points f' = f_points f"
proof -
  obtain b p' where "split az p = Some (b, p')" using assms by auto
  then show ?thesis by (cases b) (simp_all add: finish_packet_def split_and_move_def del: bind_Some_iff)
qed

text \<open>The two loops and the last step, as the decoders compose them.\<close>

definition decode_body :: "channel_reader \<Rightarrow> nat \<Rightarrow> nat \<Rightarrow> nat \<Rightarrow> (u16 \<Rightarrow> parser \<Rightarrow> (bool \<times> parser) option) \<Rightarrow>
    u8 \<Rightarrow> u8 \<Rightarrow> u8 list \<Rightarrow> nat \<Rightarrow> LidarDecodedFrame \<Rightarrow> parser \<Rightarrow> (int \<times> LidarDecodedFrame \<times> parser) option" where
  "decode_body rd usz azo asz split laser block buf pa f p = do {
     (az, f) \<leftarrow> decode_blocks rd usz azo asz (unat laser) p buf (unat block) 0 pa
                  (first_index (f_packet_num f) block laser) f;
     (f, p) \<leftarrow> finish_packet split az f p;
     Some (0, f, p) }"

context packet_layout
begin

lemma body:
  assumes "pa + unat block * (asz + usz * unat laser) \<le> length buf" and "azo + 2 \<le> asz"
    and n: "unat (f_packet_num f) < 5000" and m: "unat block * unat laser \<le> 512"
    and "\<And>az. split az p \<noteq> None"
  shows "\<exists>f' p'. decode_body rd usz azo asz split laser block buf pa f p = Some (0, f', p') \<and>
     f_packet_num f' = f_packet_num f + 1 \<and>
     f_pointData f' = packet_points rd usz azo asz (unat laser) p buf (unat block) pa
       (unat (f_packet_num f) * (unat block * unat laser)) (f_pointData f)"
proof -
  have "unat laser \<le> 512" using unat_u8_less [of laser] by linarith
  from blocks [where az = 0, OF assms(1,2) this points_fit [OF n m]]
  obtain az where "decode_blocks rd usz azo asz (unat laser) p buf (unat block) 0 pa
      (first_index (f_packet_num f) block laser) f =
    Some (az, f \<lparr> f_pointData := packet_points rd usz azo asz (unat laser) p buf (unat block) pa
       (unat (f_packet_num f) * (unat block * unat laser)) (f_pointData f) \<rparr>)"
    unfolding first_index_small [OF n m] by metis
  then show ?thesis
    using finish_packet_frame [of split az p "f \<lparr> f_pointData := packet_points rd usz azo asz
      (unat laser) p buf (unat block) pa (unat (f_packet_num f) * (unat block * unat laser))
      (f_pointData f) \<rparr>", OF assms(5)]
    by (auto simp: decode_body_def)
qed

text \<open>
  Channel \<open>c\<close> of block \<open>b\<close> is stored at its place, with the azimuth of its block, and all other
  entries of the frame are kept.
\<close>

lemma body_points:
  assumes fit: "pa + unat block * (asz + usz * unat laser) \<le> length buf" and azo: "azo + 2 \<le> asz"
    and "unat (f_packet_num f) < 5000" and "unat block * unat laser \<le> 512"
    and "\<And>az. split az p \<noteq> None" and nf: "\<not> get_firetime_file p"
    and k: "k = unat (f_packet_num f) * (unat block * unat laser)"
  shows "\<exists>f' p'. decode_body rd usz azo asz split laser block buf pa f p = Some (0, f', p') \<and>
     f_packet_num f' = f_packet_num f + 1 \<and>
     (\<forall>b<unat block. \<forall>c<unat laser. \<exists>az u.
        ld16 buf (pa + b * (asz + usz * unat laser) + azo) = Some az \<and>
        rd buf (pa + b * (asz + usz * unat laser) + asz + usz * c) = Some u \<and>
        f_pointData f' (k + b * unat laser + c) =
          u (f_pointData f (k + b * unat laser + c) \<lparr> pd_azimuth := Fin (of_int (uint az)) \<rparr>)) \<and>
     (\<forall>j. j < k \<or> k + unat block * unat laser \<le> j \<longrightarrow> f_pointData f' j = f_pointData f j)"
proof -
  let ?row = "asz + usz * unat laser"
  obtain f' p' where r: "decode_body rd usz azo asz split laser block buf pa f p = Some (0, f', p')"
    "f_packet_num f' = f_packet_num f + 1"
    "f_pointData f' = packet_points rd usz azo asz (unat laser) p buf (unat block) pa k (f_pointData f)"
    using body [where split = split and p = p, OF assms(1-5)] k by blast
  have "\<exists>az u. ld16 buf (pa + b * ?row + azo) = Some az \<and>
      rd buf (pa + b * ?row + asz + usz * c) = Some u \<and>
      f_pointData f' (k + b * unat laser + c) =
        u (f_pointData f (k + b * unat laser + c) \<lparr> pd_azimuth := Fin (of_int (uint az)) \<rparr>)"
    if bc: "b < unat block" "c < unat laser" for b c
  proof -
    have row: "b * ?row + ?row \<le> unat block * ?row"
      using bc(1) mult_le_mono1 [of "Suc b" "unat block" ?row] by simp
    have "usz * c + usz \<le> usz * unat laser"
      using bc(2) mult_le_mono2 [of "Suc c" "unat laser" usz] by simp
    then have "pa + b * ?row + asz + usz * c + usz \<le> length buf" using row fit by linarith
    then obtain u where u: "rd buf (pa + b * ?row + asz + usz * c) = Some u" using rd_in by blast
    have "pa + b * ?row + azo + 2 \<le> length buf" using row fit azo by linarith
    then obtain az :: u16 where az: "ld16 buf (pa + b * ?row + azo) = Some az"
      using load_in by blast
    have "f32 (of_int (uint az)) = Fin (of_int (uint az))"
      using uint_bounded [of az] by (intro f32_int) (simp add: abs_less_iff)
    then have "point_azimuth p az c = Some (Fin (of_int (uint az)))"
      using nf by (simp add: point_azimuth_def f32_of_int_def)
    then show ?thesis using u az by (simp add: r(3) packet_points_at [OF bc])
  qed
  moreover have "f_pointData f' j = f_pointData f j" if "j < k \<or> k + unat block * unat laser \<le> j" for j
    using that by (simp add: r(3) packet_points_elsewhere)
  ultimately show ?thesis using r(1,2) by blast
qed

end

section \<open>The packet statistics leave the rest of the parser alone\<close>

lemma CalPktLoss_keeps [simp]:
  "frame_start_azimuth (CalPktLoss tick n p) = frame_start_azimuth p"
  "get_firetime_file (CalPktLoss tick n p) = get_firetime_file p"
  "firetime_correction (CalPktLoss tick n p) = firetime_correction p"
  "last_azimuth (CalPktLoss tick n p) = last_azimuth p"
  "last_last_azimuth (CalPktLoss tick n p) = last_last_azimuth p"
  "rotation_flag (CalPktLoss tick n p) = rotation_flag p"
  by (simp_all add: CalPktLoss_def Let_def)

lemma CalPktTimeLoss_keeps [simp]:
  "frame_start_azimuth (CalPktTimeLoss tick n p) = frame_start_azimuth p"
  "get_firetime_file (CalPktTimeLoss tick n p) = get_firetime_file p"
  "firetime_correction (CalPktTimeLoss tick n p) = firetime_correction p"
  "last_azimuth (CalPktTimeLoss tick n p) = last_azimuth p"
  "last_last_azimuth (CalPktTimeLoss tick n p) = last_last_azimuth p"
  "rotation_flag (CalPktTimeLoss tick n p) = rotation_flag p"
  by (simp_all add: CalPktTimeLoss_def Let_def)

section \<open>Packets with a header\<close>

text \<open>
  In the protocols with a header, the two numbers in it place the tail: behind \<open>pa\<close> bytes of
  headers and the announced blocks of a 2-byte azimuth and channels of \<open>usz\<close> bytes.
\<close>

definition tail_offset :: "nat \<Rightarrow> nat \<Rightarrow> u8 \<Rightarrow> u8 \<Rightarrow> nat" where
  "tail_offset pa usz laser block = pa + (2 + usz * unat laser) * unat block"

definition accepted :: "UdpPacket \<Rightarrow> parser \<Rightarrow> bool" where
  "accepted pk p \<longleftrightarrow> packet_wf pk \<and> get_correction_file p \<and>
     up_buffer pk ! 0 = 0xEE \<and> up_buffer pk ! 1 = 0xFF"

lemma accepted_bytes:
  assumes "accepted pk p"
  shows "ld8 (up_buffer pk) 0 = Some 0xEE" "ld8 (up_buffer pk) (Suc 0) = Some 0xFF"
  using assms packet_wf_length [of pk] by (simp_all add: accepted_def ld8_def)

lemma accepted_length: "accepted pk p \<Longrightarrow> length (up_buffer pk) = 1500"
  by (simp add: accepted_def packet_wf_length)

lemma put_timestamp_bind_None: "Option.bind (put_timestamp i ts g) (\<lambda>f. None) = None"
  by (cases "put_timestamp i ts g") simp_all

text \<open>
  The contract of such a decoder: the prefix before the loops is defined when the tail of \<open>tsz\<close>
  bytes is inside the buffer, and reads behind the buffer otherwise.
\<close>

locale headed_decoder = packet_layout rd usz for rd usz +
  fixes decode :: "host \<Rightarrow> LidarDecodedFrame \<Rightarrow> UdpPacket \<Rightarrow> parser \<Rightarrow>
      (int \<times> LidarDecodedFrame \<times> parser) option"
    and split :: "u16 \<Rightarrow> parser \<Rightarrow> (bool \<times> parser) option"
    and hl hb pa tsz :: nat
  assumes prefix: "\<lbrakk>accepted pk p; unat (f_packet_num f) < 5000;
      tail_offset pa usz (up_buffer pk ! hl) (up_buffer pk ! hb) + tsz \<le> 1500\<rbrakk> \<Longrightarrow>
      \<exists>f1 p1. decode h f pk p =
          decode_body rd usz 0 2 split (up_buffer pk ! hl) (up_buffer pk ! hb) (up_buffer pk) pa f1 p1 \<and>
        f_pointData f1 = f_pointData f \<and> f_packet_num f1 = f_packet_num f \<and>
        frame_start_azimuth p1 = frame_start_azimuth p \<and>
        get_firetime_file p1 = get_firetime_file p"
    and overrun: "\<lbrakk>accepted pk p;
      1500 < tail_offset pa usz (up_buffer pk ! hl) (up_buffer pk ! hb) + tsz\<rbrakk> \<Longrightarrow>
      decode h f pk p = None"
    and split_ok: "frame_start_azimuth p = Fin q \<Longrightarrow> split az p \<noteq> None"
    and usz_3: "3 \<le> usz"
begin

text \<open>Whatever fits the buffer also fits the frame.\<close>

lemma fits_points:
  assumes "tail_offset pa usz (up_buffer pk ! hl) (up_buffer pk ! hb) + tsz \<le> 1500"
  shows "unat (up_buffer pk ! hb) * unat (up_buffer pk ! hl) \<le> 512"
    and "pa + unat (up_buffer pk ! hb) * (2 + usz * unat (up_buffer pk ! hl)) \<le> 1500"
proof -
  let ?b = "unat (up_buffer pk ! hb)" and ?l = "unat (up_buffer pk ! hl)"
  show 1: "pa + ?b * (2 + usz * ?l) \<le> 1500"
    using assms by (simp add: tail_offset_def mult.commute)
  have "3 * ?l \<le> usz * ?l" by (rule mult_le_mono1 [OF usz_3])
  then have "?b * (3 * ?l) \<le> ?b * (2 + usz * ?l)" by (intro mult_le_mono2) linarith
  then show "?b * ?l \<le> 512" using 1 by simp
qed

lemma points:
  assumes acc: "accepted pk p" and n: "unat (f_packet_num f) < 5000"
    and q: "frame_start_azimuth p = Fin q" and nf: "\<not> get_firetime_file p"
    and fit: "tail_offset pa usz (up_buffer pk ! hl) (up_buffer pk ! hb) + tsz \<le> 1500"
    and L: "L = unat (up_buffer pk ! hl)" and B: "B = unat (up_buffer pk ! hb)"
    and k: "k = unat (f_packet_num f) * (B * L)"
  shows "\<exists>f' p'. decode h f pk p = Some (0, f', p') \<and> f_packet_num f' = f_packet_num f + 1 \<and>
     (\<forall>b<B. \<forall>c<L. \<exists>az u. ld16 (up_buffer pk) (pa + b * (2 + usz * L)) = Some az \<and>
        rd (up_buffer pk) (pa + b * (2 + usz * L) + 2 + usz * c) = Some u \<and>
        f_pointData f' (k + b * L + c) =
          u (f_pointData f (k + b * L + c) \<lparr> pd_azimuth := Fin (of_int (uint az)) \<rparr>)) \<and>
     (\<forall>j. j < k \<or> k + B * L \<le> j \<longrightarrow> f_pointData f' j = f_pointData f j)"
proof -
  obtain f1 p1 where 1: "decode h f pk p =
       decode_body rd usz 0 2 split (up_buffer pk ! hl) (up_buffer pk ! hb) (up_buffer pk) pa f1 p1"
    "f_pointData f1 = f_pointData f" "f_packet_num f1 = f_packet_num f"
    "frame_start_azimuth p1 = Fin q" "\<not> get_firetime_file p1"
    using prefix [OF acc n fit] q nf by metis
  then show ?thesis
    using body_points [of pa "up_buffer pk ! hb" 2 "up_buffer pk ! hl" "up_buffer pk" 0 f1 split p1 k]
      accepted_length [OF acc] n fits_points [OF fit] split_ok [OF 1(4)] k
    by (auto simp: L B)
qed

end

section \<open>Concrete values for the witnesses\<close>

definition frame_ex :: LidarDecodedFrame where
  "frame_ex = LidarDecodedFrame_new \<lparr> f_host_timestamp = 0, f_sensor_timestamp = (\<lambda>_. 0),
     f_major_version = 0, f_minor_version = 0, f_return_mode = 0, f_spin_speed = 0,
     f_points_num = 0, f_packet_num = 0, f_points = (\<lambda>_. LidarPoint_zero),
     f_pointData = (\<lambda>_. \<lparr> pd_azimuth = Fin 0, pd_elevation = Fin 0, pd_distances = 0,
       pd_reflectivities = 0, pd_confidence = 0, pd_chn_index = 0, pd_mirror_index = 0 \<rparr>),
     f_block_num = 0, f_laser_num = 0, f_per_points_num = 0, f_scan_complete = False,
     f_distance_unit = Fin 0, f_frame_index = 0, f_lidar_state = 0, f_work_mode = 0,
     f_use_timestamp_type = 0, f_config = LidarDecodeConfig_new \<rparr>"

definition packet_ex :: "u8 list \<Rightarrow> UdpPacket" where
  "packet_ex bs = \<lparr> up_buffer = bs @ replicate (1500 - length bs) 7, up_packet_len = 1500,
     up_is_timeout = False, up_recv_timestamp = 0, up_ip = 0, up_port = 0 \<rparr>"

definition host_ex :: host where
  "host_ex = \<lparr> h_timezone = 0, h_loss_tick = (\<lambda>_. 0), h_time_tick = (\<lambda>_. 0), h_now = 0 \<rparr>"

lemma packet_ex_wf: "length bs \<le> 1500 \<Longrightarrow> packet_wf (packet_ex bs)"
  by (simp add: packet_wf_def packet_ex_def kBufSize_def)

lemma packet_ex_nth: "i < length bs \<Longrightarrow> up_buffer (packet_ex bs) ! i = bs ! i"
  by (simp add: packet_ex_def nth_append)

lemma packet_ex_ld16:
  assumes "length bs \<le> off" and "off + 2 \<le> 1500"
  shows "ld16 (up_buffer (packet_ex bs)) off = Some 0x0707"
proof -
  have "take 2 (drop off (up_buffer (packet_ex bs))) = replicate 2 7"
    using assms by (simp add: packet_ex_def)
  also have "\<dots> = [7, 7 :: u8]" by (simp add: numeral_2_eq_2)
  finally have "take 2 (drop off (up_buffer (packet_ex bs))) = [7, 7]" .
  moreover have "length (up_buffer (packet_ex bs)) = 1500" using assms by (simp add: packet_ex_def)
  ultimately show ?thesis using assms by (simp add: load_def)
qed

lemma packet_ex_ld8:
  "length bs \<le> off \<Longrightarrow> off < 1500 \<Longrightarrow> ld8 (up_buffer (packet_ex bs)) off = Some 7"
  by (simp add: packet_ex_def ld8_def nth_append)

lemma packet_ex_prefix:
  "off + n \<le> length bs \<Longrightarrow> load n (up_buffer (packet_ex bs)) off = load n bs off"
  "off < length bs \<Longrightarrow> ld8 (up_buffer (packet_ex bs)) off = ld8 bs off"
  "off + n \<le> length bs \<Longrightarrow> bytes_at n (up_buffer (packet_ex bs)) off = bytes_at n bs off"
  by (simp_all add: packet_ex_def load_def ld8_def bytes_at_def nth_append)

end
