(* ===== verification/Udp_P40.thy ===== *)
theory Udp_P40
  imports Packet_Decoder
begin

text \<open>
  The decoder of Pandar40 (\<open>src/libhesai/UdpParser/src/udp_p40_parser.cc\<close>, with the structs of
  \<open>UdpProtocol/udp_protocol_p40.h\<close>). A packet has no header: 10 blocks of an azimuth struct and
  40 channels, a tail and a sequence number, all at constant offsets.
\<close>

section \<open>The structs\<close>

definition p40_BLOCKNUM :: u8 where "p40_BLOCKNUM = 10"
definition p40_LASERNUM :: u8 where "p40_LASERNUM = 40"

text \<open>\<open>#define DISTANCEUNIT 0.004\<close>\<close>

definition p40_DISTANCEUNIT :: fp where "p40_DISTANCEUNIT = f64 (4 / 1000)"

text \<open>\<open>HS_LIDAR_BODY_CHN_UNIT_L40\<close>, 3 bytes, as the decoder stores it.\<close>

definition p40_channel :: channel_reader where
  "p40_channel buf off = do {
     d \<leftarrow> ld16 buf off;
     r \<leftarrow> ld8 buf (off + 2);
     Some (\<lambda>x. x \<lparr> pd_distances := d, pd_reflectivities := r \<rparr>) }"

record HS_LIDAR_TAIL_L40 =
  l40_reservedInfo1 :: "u16 \<times> u8"
  l40_Reserved0 :: "u8 list"
  l40_Shutdown :: u8
  l40_ErrorCode :: u16
  l40_MotorSpeed :: u16
  l40_Timestamp :: u32
  l40_ReturnMode :: u8
  l40_FactoryInfo :: u8
  l40_UTC :: "u8 list"

definition l40_tail_at :: "u8 list \<Rightarrow> nat \<Rightarrow> HS_LIDAR_TAIL_L40 option" where
  "l40_tail_at buf off = do {
     ri \<leftarrow> reserved_info_at buf off;
     r0 \<leftarrow> bytes_at 2 buf (off + 3);
     sd \<leftarrow> ld8 buf (off + 5);
     ec \<leftarrow> ld16 buf (off + 6);
     ms \<leftarrow> ld16 buf (off + 8);
     ts \<leftarrow> ld32 buf (off + 10);
     rm \<leftarrow> ld8 buf (off + 14);
     fi \<leftarrow> ld8 buf (off + 15);
     utc \<leftarrow> bytes_at 6 buf (off + 16);
     Some \<lparr> l40_reservedInfo1 = ri, l40_Reserved0 = r0, l40_Shutdown = sd, l40_ErrorCode = ec,
            l40_MotorSpeed = ms, l40_Timestamp = ts, l40_ReturnMode = rm, l40_FactoryInfo = fi,
            l40_UTC = utc \<rparr> }"

section \<open>The decoder\<close>

definition p40_DecodePacket :: "host \<Rightarrow> LidarDecodedFrame \<Rightarrow> UdpPacket \<Rightarrow> parser \<Rightarrow>
    (int \<times> LidarDecodedFrame \<times> parser) option" where
  "p40_DecodePacket h f pk p =
     (let buf = up_buffer pk in
      if \<not> get_correction_file p then Some (-1, f, p)
      else do {
        b0 \<leftarrow> ld8 buf 0;
        b1 \<leftarrow> ld8 buf 1;
        if b0 \<noteq> 0xFF \<or> b1 \<noteq> 0xEE then Some (-1, f, p)
        else do {
          let tail = (4 + 3 * unat p40_LASERNUM) * unat p40_BLOCKNUM;
          pTail \<leftarrow> l40_tail_at buf tail;
          seq \<leftarrow> ld32 buf (tail + 22);
          let time = lidar_time_p40 (h_timezone h) (l40_UTC pTail) (l40_Timestamp pTail);
          let p = CalPktLoss (h_loss_tick h) seq p;
          let p = CalPktTimeLoss (h_time_tick h) time p;
          let p = p \<lparr> spin_speed := l40_MotorSpeed pTail \<rparr>;
          let f = f \<lparr> f_spin_speed := l40_MotorSpeed pTail,
                      f_lidar_state := uint (l40_Shutdown pTail),
                      f_return_mode := ucast (l40_ReturnMode pTail),
                      f_per_points_num := ucast p40_BLOCKNUM * ucast p40_LASERNUM,
                      f_scan_complete := False,
                      f_block_num := ucast p40_BLOCKNUM,
                      f_laser_num := ucast p40_LASERNUM,
                      f_distance_unit := p40_DISTANCEUNIT \<rparr>;
          f \<leftarrow> put_timestamp (unat (f_packet_num f))
                (if f_use_timestamp_type f = 0 then time else up_recv_timestamp pk) f;
          let f = f \<lparr> f_host_timestamp := h_now h \<rparr>;
          decode_body p40_channel 3 2 4 p40_IsNeedFrameSplit p40_LASERNUM p40_BLOCKNUM buf 0 f p } })"

section \<open>Behaviour\<close>

interpretation p40_layout: packet_layout p40_channel 3
  by unfold_locales (auto simp: p40_channel_def load_def ld8_def)

lemma l40_tail_defined: "off + 22 \<le> length buf \<Longrightarrow> \<exists>t. l40_tail_at buf off = Some t"
  by (simp add: l40_tail_at_def reserved_info_at_def bytes_at_def load_def ld8_def)

text \<open>Everything before the loops: what it needs, and what it keeps.\<close>

lemma p40_DecodePacket_body:
  assumes "packet_wf pk" and "get_correction_file p" and "up_buffer pk ! 0 = 0xFF"
    and "up_buffer pk ! 1 = 0xEE" and "unat (f_packet_num f) < 5000"
  shows "\<exists>f1 p1. p40_DecodePacket h f pk p = decode_body p40_channel 3 2 4 p40_IsNeedFrameSplit
       p40_LASERNUM p40_BLOCKNUM (up_buffer pk) 0 f1 p1 \<and>
     f_pointData f1 = f_pointData f \<and> f_packet_num f1 = f_packet_num f \<and>
     frame_start_azimuth p1 = frame_start_azimuth p \<and> get_firetime_file p1 = get_firetime_file p"
proof -
  have len: "length (up_buffer pk) = 1500" by (rule packet_wf_length [OF assms(1)])
  obtain t where t: "l40_tail_at (up_buffer pk) 1240 = Some t"
    using l40_tail_defined [of 1240 "up_buffer pk"] len by auto
  obtain seq where seq: "ld32 (up_buffer pk) 1262 = Some seq" using len by (simp add: load_def)
  have b: "ld8 (up_buffer pk) 0 = Some 0xFF" "ld8 (up_buffer pk) (Suc 0) = Some 0xEE"
    using len assms(3,4) by (simp_all add: ld8_def)
  show ?thesis
    using assms(2,5)
    by (cases "f_use_timestamp_type f = 0")
      (simp add: p40_DecodePacket_def Let_def b t seq put_timestamp_def kMaxPacketNumPerFrame_def
        p40_LASERNUM_def p40_BLOCKNUM_def del: bind_Some_iff,
       (rule exI)+, rule conjI, rule refl, simp)+
qed

text \<open>
  The points of a Pandar40 packet: a packet that starts with 0xFF 0xEE is decoded without any
  access out of bounds, whatever else it holds, as long as the frame has fewer than 5000
  packets. Entry \<open>400 * packet_num + 40 * b + c\<close> of the frame is then channel \<open>c\<close> of block \<open>b\<close>,
  and the entries of other packets are unchanged.
\<close>

theorem p40_DecodePacket_points:
  assumes "packet_wf pk" and "get_correction_file p" and "up_buffer pk ! 0 = 0xFF"
    and "up_buffer pk ! 1 = 0xEE" and n: "unat (f_packet_num f) < 5000"
    and q: "frame_start_azimuth p = Fin q" and "\<not> get_firetime_file p"
  shows "\<exists>f' p'. p40_DecodePacket h f pk p = Some (0, f', p') \<and>
     f_packet_num f' = f_packet_num f + 1 \<and>
     (\<forall>b<10. \<forall>c<40. \<exists>az. ld16 (up_buffer pk) (124 * b + 2) = Some az \<and>
        (let d = f_pointData f' (400 * unat (f_packet_num f) + 40 * b + c); off = 124 * b + 4 + 3 * c
         in pd_azimuth d = Fin (of_int (uint az)) \<and>
            ld16 (up_buffer pk) off = Some (pd_distances d) \<and>
            ld8 (up_buffer pk) (off + 2) = Some (pd_reflectivities d))) \<and>
     (\<forall>j. j < 400 * unat (f_packet_num f) \<or> 400 * unat (f_packet_num f) + 400 \<le> j \<longrightarrow>
        f_pointData f' j = f_pointData f j)"
proof -
  let ?k = "400 * unat (f_packet_num f)"
  obtain f1 p1 where 1: "p40_DecodePacket h f pk p = decode_body p40_channel 3 2 4
       p40_IsNeedFrameSplit p40_LASERNUM p40_BLOCKNUM (up_buffer pk) 0 f1 p1"
    "f_pointData f1 = f_pointData f" "f_packet_num f1 = f_packet_num f"
    "frame_start_azimuth p1 = Fin q" "\<not> get_firetime_file p1"
    using p40_DecodePacket_body [OF assms(1-5)] q assms(7) by metis
  have len: "length (up_buffer pk) = 1500" by (rule packet_wf_length [OF assms(1)])
  have bl: "unat p40_BLOCKNUM = 10" "unat p40_LASERNUM = 40"
    by (simp_all add: p40_BLOCKNUM_def p40_LASERNUM_def)
  obtain f' p' where 2: "p40_DecodePacket h f pk p = Some (0, f', p')"
    "f_packet_num f' = f_packet_num f + 1"
    and pts: "\<forall>b<10. \<forall>c<40. \<exists>az u. ld16 (up_buffer pk) (b * 124 + 2) = Some az \<and>
        p40_channel (up_buffer pk) (b * 124 + 4 + 3 * c) = Some u \<and>
        f_pointData f' (?k + b * 40 + c) =
          u (f_pointData f (?k + b * 40 + c) \<lparr> pd_azimuth := Fin (of_int (uint az)) \<rparr>)"
    and rest: "\<forall>j. j < ?k \<or> ?k + 400 \<le> j \<longrightarrow> f_pointData f' j = f_pointData f j"
    using p40_layout.body_points [of 0 p40_BLOCKNUM 4 p40_LASERNUM "up_buffer pk" 2 f1
        p40_IsNeedFrameSplit p1 ?k] len n 1 split_defined(1) [OF 1(4)]
    by (auto simp: bl)
  have "\<exists>az. ld16 (up_buffer pk) (124 * b + 2) = Some az \<and>
      (let d = f_pointData f' (?k + 40 * b + c); off = 124 * b + 4 + 3 * c
       in pd_azimuth d = Fin (of_int (uint az)) \<and> ld16 (up_buffer pk) off = Some (pd_distances d) \<and>
          ld8 (up_buffer pk) (off + 2) = Some (pd_reflectivities d))"
    if "b < 10" "c < 40" for b c
    using pts [rule_format, OF that] by (auto simp: p40_channel_def Let_def mult.commute)
  then show ?thesis using 2 rest by blast
qed

theorem p40_DecodePacket_points_witness:
  "\<exists>f' p'. p40_DecodePacket host_ex frame_ex (packet_ex [0xFF, 0xEE]) (parser_at 0 0 0) =
     Some (0, f', p') \<and> f_packet_num f' = 1 \<and>
     pd_distances (f_pointData f' 41) = 0x0707 \<and> pd_reflectivities (f_pointData f' 41) = 7"
proof -
  let ?pk = "packet_ex [0xFF, 0xEE]" and ?p = "parser_at 0 0 0"
  have "packet_wf ?pk" by (simp add: packet_ex_wf)
  moreover have "get_correction_file ?p" "frame_start_azimuth ?p = Fin 0" "\<not> get_firetime_file ?p"
    by (simp_all add: parser_at_def parser_ex_def)
  moreover have "up_buffer ?pk ! 0 = 0xFF" "up_buffer ?pk ! 1 = 0xEE"
    by (simp_all add: packet_ex_nth)
  moreover have n: "f_packet_num frame_ex = 0"
    by (simp add: frame_ex_def LidarDecodedFrame_new_def)
  ultimately obtain f' p' where r: "p40_DecodePacket host_ex frame_ex ?pk ?p = Some (0, f', p')"
    "f_packet_num f' = 1"
    and a: "\<forall>b<10. \<forall>c<40. \<exists>az. ld16 (up_buffer ?pk) (124 * b + 2) = Some az \<and>
        (let d = f_pointData f' (40 * b + c); off = 124 * b + 4 + 3 * c
         in pd_azimuth d = Fin (of_int (uint az)) \<and>
            ld16 (up_buffer ?pk) off = Some (pd_distances d) \<and>
            ld8 (up_buffer ?pk) (off + 2) = Some (pd_reflectivities d))"
    using p40_DecodePacket_points [of ?pk ?p frame_ex 0 host_ex] by auto
  have "ld16 (up_buffer ?pk) 131 = Some (pd_distances (f_pointData f' 41))"
    "ld8 (up_buffer ?pk) 133 = Some (pd_reflectivities (f_pointData f' 41))"
    using a [rule_format, of 1 1] by (auto simp: Let_def)
  then have "pd_distances (f_pointData f' 41) = 0x0707" "pd_reflectivities (f_pointData f' 41) = 7"
    by (simp_all add: packet_ex_ld16 packet_ex_ld8)
  then show ?thesis using r by blast
qed

end
