(* ===== verification/Udp_P64.thy ===== *)
theory Udp_P64
  imports Packet_Decoder
begin

text \<open>
  The decoder of Pandar64 (\<open>src/libhesai/UdpParser/src/udp_p64_parser.cc\<close>, with the structs of
  \<open>UdpProtocol/udp_protocol_p64.h\<close>). The header of the packet says how many blocks and channels
  follow; the tail is behind them. The code does not compare these numbers with the size of the
  buffer: the lemmas say for which headers the decoder stays inside it.
\<close>

section \<open>The structs\<close>

record HS_LIDAR_L64_Header =
  l64_Sob :: u16
  l64_LaserNum :: u8
  l64_BlockNum :: u8
  l64_ReturnType :: u8
  l64_DistUnit :: u8

definition l64_header_at :: "u8 list \<Rightarrow> nat \<Rightarrow> HS_LIDAR_L64_Header option" where
  "l64_header_at buf off = do {
     sob \<leftarrow> ld16 buf off;
     l \<leftarrow> ld8 buf (off + 2);
     b \<leftarrow> ld8 buf (off + 3);
     rt \<leftarrow> ld8 buf (off + 4);
     du \<leftarrow> ld8 buf (off + 5);
     Some \<lparr> l64_Sob = sob, l64_LaserNum = l, l64_BlockNum = b, l64_ReturnType = rt,
            l64_DistUnit = du \<rparr> }"

text \<open>\<open>m_u8DistUnit / 1000.f\<close>, a float, returned as a double.\<close>

definition l64_GetDistUnit :: "HS_LIDAR_L64_Header \<Rightarrow> fp" where
  "l64_GetDistUnit hdr = fdiv (f32_of_int (uint (l64_DistUnit hdr))) (Fin 1000)"

text \<open>\<open>HS_LIDAR_BODY_CHN_UNIT_L64\<close>, 3 bytes; the decoder also sets the elevation to 0.\<close>

definition p64_channel :: channel_reader where
  "p64_channel buf off = do {
     d \<leftarrow> ld16 buf off;
     r \<leftarrow> ld8 buf (off + 2);
     Some (\<lambda>x. x \<lparr> pd_distances := d, pd_reflectivities := r, pd_elevation := Fin 0 \<rparr>) }"

record HS_LIDAR_TAIL_L64 =
  l64_reservedInfo1 :: "u16 \<times> u8"
  l64_Reserved0 :: "u8 list"
  l64_Shutdown :: u8
  l64_ErrorCode :: u16
  l64_MotorSpeed :: u16
  l64_Timestamp :: u32
  l64_ReturnMode :: u8
  l64_FactoryInfo :: u8
  l64_UTC :: "u8 list"

definition l64_tail_at :: "u8 list \<Rightarrow> nat \<Rightarrow> HS_LIDAR_TAIL_L64 option" where
  "l64_tail_at buf off = do {
     ri \<leftarrow> reserved_info_at buf off;
     r0 \<leftarrow> bytes_at 2 buf (off + 3);
     sd \<leftarrow> ld8 buf (off + 5);
     ec \<leftarrow> ld16 buf (off + 6);
     ms \<leftarrow> ld16 buf (off + 8);
     ts \<leftarrow> ld32 buf (off + 10);
     rm \<leftarrow> ld8 buf (off + 14);
     fi \<leftarrow> ld8 buf (off + 15);
     utc \<leftarrow> bytes_at 6 buf (off + 16);
     Some \<lparr> l64_reservedInfo1 = ri, l64_Reserved0 = r0, l64_Shutdown = sd, l64_ErrorCode = ec,
            l64_MotorSpeed = ms, l64_Timestamp = ts, l64_ReturnMode = rm, l64_FactoryInfo = fi,
            l64_UTC = utc \<rparr> }"

section \<open>The decoder\<close>

definition p64_DecodePacket :: "host \<Rightarrow> LidarDecodedFrame \<Rightarrow> UdpPacket \<Rightarrow> parser \<Rightarrow>
    (int \<times> LidarDecodedFrame \<times> parser) option" where
  "p64_DecodePacket h f pk p =
     (let buf = up_buffer pk in
      if \<not> get_correction_file p then Some (-1, f, p)
      else do {
        b0 \<leftarrow> ld8 buf 0;
        b1 \<leftarrow> ld8 buf 1;
        if b0 \<noteq> 0xEE \<or> b1 \<noteq> 0xFF then Some (-1, f, p)
        else do {
          pHeader \<leftarrow> l64_header_at buf 0;
          let laser = l64_LaserNum pHeader;
          let block = l64_BlockNum pHeader;
          let tail = tail_offset 8 3 laser block;
          pTail \<leftarrow> l64_tail_at buf tail;
          let time = lidar_time_p64 (h_timezone h) (l64_UTC pTail) (l64_Timestamp pTail);
          f \<leftarrow> put_timestamp (unat (f_packet_num f))
                (if f_use_timestamp_type f = 0 then time else up_recv_timestamp pk) f;
          seq \<leftarrow> ld32 buf (tail + 22);
          let p = CalPktLoss (h_loss_tick h) seq p;
          let p = CalPktTimeLoss (h_time_tick h) time p;
          let p = p \<lparr> spin_speed := l64_MotorSpeed pTail \<rparr>;
          let f = f \<lparr> f_spin_speed := l64_MotorSpeed pTail,
                      f_lidar_state := uint (l64_Shutdown pTail),
                      f_return_mode := ucast (l64_ReturnMode pTail),
                      f_per_points_num := ucast block * ucast laser,
                      f_scan_complete := False,
                      f_host_timestamp := h_now h,
                      f_distance_unit := l64_GetDistUnit pHeader,
                      f_block_num := ucast block,
                      f_laser_num := ucast laser \<rparr>;
          decode_body p64_channel 3 0 2 p64_IsNeedFrameSplit laser block buf 8 f p } })"

section \<open>Behaviour\<close>

interpretation p64_layout: packet_layout p64_channel 3
  by unfold_locales (auto simp: p64_channel_def load_def ld8_def)

lemma l64_tail_defined: "off + 22 \<le> length buf \<Longrightarrow> \<exists>t. l64_tail_at buf off = Some t"
  by (simp add: l64_tail_at_def reserved_info_at_def bytes_at_def load_def ld8_def)

lemma l64_header:
  assumes "packet_wf pk"
  shows "\<exists>hdr. l64_header_at (up_buffer pk) 0 = Some hdr \<and> l64_LaserNum hdr = up_buffer pk ! 2 \<and>
    l64_BlockNum hdr = up_buffer pk ! 3"
  using packet_wf_length [OF assms] by (simp add: l64_header_at_def load_def ld8_def numeral_2_eq_2)

lemma p64_overrun:
  assumes "accepted pk p" and "1500 < tail_offset 8 3 (up_buffer pk ! 2) (up_buffer pk ! 3) + 26"
  shows "p64_DecodePacket h f pk p = None"
proof -
  let ?t = "tail_offset 8 3 (up_buffer pk ! 2) (up_buffer pk ! 3)"
  obtain hdr where hdr: "l64_header_at (up_buffer pk) 0 = Some hdr"
    "l64_LaserNum hdr = up_buffer pk ! 2" "l64_BlockNum hdr = up_buffer pk ! 3"
    using l64_header assms(1) by (auto simp: accepted_def)
  have seq: "ld32 (up_buffer pk) (?t + 22) = None"
    using assms(2) accepted_length [OF assms(1)] by (simp add: load_def)
  show ?thesis
    using assms(1) accepted_bytes [OF assms(1)]
    by (cases "l64_tail_at (up_buffer pk) ?t")
      (simp_all add: p64_DecodePacket_def accepted_def Let_def hdr seq put_timestamp_bind_None
        del: bind_Some_iff)
qed

lemma p64_prefix:
  assumes "accepted pk p" and "unat (f_packet_num f) < 5000"
    and "tail_offset 8 3 (up_buffer pk ! 2) (up_buffer pk ! 3) + 26 \<le> 1500"
  shows "\<exists>f1 p1. p64_DecodePacket h f pk p = decode_body p64_channel 3 0 2 p64_IsNeedFrameSplit
       (up_buffer pk ! 2) (up_buffer pk ! 3) (up_buffer pk) 8 f1 p1 \<and>
     f_pointData f1 = f_pointData f \<and> f_packet_num f1 = f_packet_num f \<and>
     frame_start_azimuth p1 = frame_start_azimuth p \<and> get_firetime_file p1 = get_firetime_file p"
proof -
  let ?t = "tail_offset 8 3 (up_buffer pk ! 2) (up_buffer pk ! 3)"
  obtain hdr where hdr: "l64_header_at (up_buffer pk) 0 = Some hdr"
    "l64_LaserNum hdr = up_buffer pk ! 2" "l64_BlockNum hdr = up_buffer pk ! 3"
    using l64_header assms(1) by (auto simp: accepted_def)
  obtain t where t: "l64_tail_at (up_buffer pk) ?t = Some t"
    using l64_tail_defined [of ?t "up_buffer pk"] accepted_length [OF assms(1)] assms(3) by auto
  obtain seq where seq: "ld32 (up_buffer pk) (?t + 22) = Some seq"
    using accepted_length [OF assms(1)] assms(3) by (simp add: load_def)
  show ?thesis
    using assms(1,2) accepted_bytes [OF assms(1)]
    by (cases "f_use_timestamp_type f = 0")
      (simp add: p64_DecodePacket_def accepted_def Let_def hdr t seq put_timestamp_def
        kMaxPacketNumPerFrame_def del: bind_Some_iff,
       (rule exI)+, rule conjI, rule refl, simp)+
qed

interpretation p64_dec: headed_decoder p64_channel 3 p64_DecodePacket p64_IsNeedFrameSplit 2 3 8 26
  by unfold_locales (simp_all add: p64_prefix p64_overrun split_defined)

text \<open>
  C31. The points of a Pandar64 packet: a packet whose header fits the buffer is decoded without any
  access out of bounds of the packet and the frame, and entry \<open>b * lasers + c\<close> from the packet's
  first one on is channel \<open>c\<close> of block \<open>b\<close>; the entries of other packets are unchanged. A packet
  whose header announces more blocks and channels than fit makes the decoder read behind the
  buffer: nothing checks the two numbers.
\<close>

theorem p64_DecodePacket_points:
  assumes acc: "accepted pk p" and n: "unat (f_packet_num f) < 5000"
    and q: "frame_start_azimuth p = Fin q" and nf: "\<not> get_firetime_file p"
    and L: "L = unat (up_buffer pk ! 2)" and B: "B = unat (up_buffer pk ! 3)"
    and k: "k = unat (f_packet_num f) * (B * L)"
  shows "if 8 + (2 + 3 * L) * B + 26 \<le> 1500
     then \<exists>f' p'. p64_DecodePacket h f pk p = Some (0, f', p') \<and>
       f_packet_num f' = f_packet_num f + 1 \<and>
       (\<forall>b<B. \<forall>c<L. \<exists>az. ld16 (up_buffer pk) (8 + b * (2 + 3 * L)) = Some az \<and>
          (let d = f_pointData f' (k + b * L + c); off = 8 + b * (2 + 3 * L) + 2 + 3 * c
           in pd_azimuth d = Fin (of_int (uint az)) \<and>
              ld16 (up_buffer pk) off = Some (pd_distances d) \<and>
              ld8 (up_buffer pk) (off + 2) = Some (pd_reflectivities d))) \<and>
       (\<forall>j. j < k \<or> k + B * L \<le> j \<longrightarrow> f_pointData f' j = f_pointData f j)
     else p64_DecodePacket h f pk p = None"
proof (cases "8 + (2 + 3 * L) * B + 26 \<le> 1500")
  case False
  then show ?thesis using p64_overrun [OF acc] by (simp add: tail_offset_def L B)
next
  case True
  then have "tail_offset 8 3 (up_buffer pk ! 2) (up_buffer pk ! 3) + 26 \<le> 1500"
    by (simp add: tail_offset_def L B)
  from p64_dec.points [OF acc n q nf this L B k, where h = h]
  obtain f' p' where 2: "p64_DecodePacket h f pk p = Some (0, f', p')"
    "f_packet_num f' = f_packet_num f + 1"
    and pts: "\<forall>b<B. \<forall>c<L. \<exists>az u. ld16 (up_buffer pk) (8 + b * (2 + 3 * L)) = Some az \<and>
        p64_channel (up_buffer pk) (8 + b * (2 + 3 * L) + 2 + 3 * c) = Some u \<and>
        f_pointData f' (k + b * L + c) =
          u (f_pointData f (k + b * L + c) \<lparr> pd_azimuth := Fin (of_int (uint az)) \<rparr>)"
    and rest: "\<forall>j. j < k \<or> k + B * L \<le> j \<longrightarrow> f_pointData f' j = f_pointData f j"
    by blast
  have "\<exists>az. ld16 (up_buffer pk) (8 + b * (2 + 3 * L)) = Some az \<and>
      (let d = f_pointData f' (k + b * L + c); off = 8 + b * (2 + 3 * L) + 2 + 3 * c
       in pd_azimuth d = Fin (of_int (uint az)) \<and> ld16 (up_buffer pk) off = Some (pd_distances d) \<and>
          ld8 (up_buffer pk) (off + 2) = Some (pd_reflectivities d))"
    if "b < B" "c < L" for b c
    using pts [rule_format, OF that] by (auto simp: p64_channel_def Let_def)
  then show ?thesis using 2 rest True by auto
qed

theorem p64_DecodePacket_points_witness:
  "(\<exists>f' p'. p64_DecodePacket host_ex frame_ex (packet_ex [0xEE, 0xFF, 64, 6, 0, 4, 0, 0])
      (parser_at 0 0 0) = Some (0, f', p') \<and> pd_distances (f_pointData f' 65) = 0x0707) \<and>
   p64_DecodePacket host_ex frame_ex (packet_ex [0xEE, 0xFF, 255, 6, 0, 4, 0, 0])
      (parser_at 0 0 0) = None"
proof -
  let ?pk = "\<lambda>n. packet_ex [0xEE, 0xFF, n, 6, 0, 4, 0, 0]" and ?p = "parser_at 0 0 0"
  have acc: "accepted (?pk n) ?p" for n
    by (simp add: accepted_def packet_ex_wf packet_ex_nth parser_at_def parser_ex_def)
  have p: "frame_start_azimuth ?p = Fin 0" "\<not> get_firetime_file ?p"
    by (simp_all add: parser_at_def parser_ex_def)
  have f: "f_packet_num frame_ex = 0" by (simp add: frame_ex_def LidarDecodedFrame_new_def)
  have nth: "up_buffer (?pk n) ! 2 = n" "up_buffer (?pk n) ! 3 = 6" for n
    by (simp_all add: packet_ex_nth)
  have "p64_DecodePacket host_ex frame_ex (?pk 255) ?p = None"
    using p64_DecodePacket_points [OF acc _ p refl refl refl, of frame_ex 255 host_ex]
    by (simp add: f nth)
  moreover obtain f' p' where "p64_DecodePacket host_ex frame_ex (?pk 64) ?p = Some (0, f', p')"
    and a: "\<forall>b<6. \<forall>c<64. \<exists>az. ld16 (up_buffer (?pk 64)) (8 + b * 194) = Some az \<and>
          (let d = f_pointData f' (b * 64 + c); off = 8 + b * 194 + 2 + 3 * c
           in pd_azimuth d = Fin (of_int (uint az)) \<and>
              ld16 (up_buffer (?pk 64)) off = Some (pd_distances d) \<and>
              ld8 (up_buffer (?pk 64)) (off + 2) = Some (pd_reflectivities d))"
    using p64_DecodePacket_points [OF acc _ p refl refl refl, of frame_ex 64 host_ex]
    by (auto simp: f nth)
  moreover have "pd_distances (f_pointData f' 65) = 0x0707"
    using a [rule_format, of 1 1] by (auto simp: Let_def packet_ex_ld16)
  ultimately show ?thesis by blast
qed

end
