(* ===== verification/Udp3_1.thy ===== *)
theory Udp3_1
  imports Packet_Decoder
begin

text \<open>
  The decoder of PandarQT (\<open>src/libhesai/UdpParser/src/udp3_1_parser.cc\<close>, with the structs of
  \<open>UdpProtocol/udp_protocol_v3_1.h\<close>): a common header of 6 bytes, a header of 6 bytes with the
  numbers of channels and blocks, the blocks, and a tail with the sequence number.
\<close>

section \<open>The structs\<close>

record HS_LIDAR_HEADER_QT_V1 =
  qtv1_LaserNum :: u8
  qtv1_BlockNum :: u8
  qtv1_EchoCount :: u8
  qtv1_DistUnit :: u8
  qtv1_EchoNum :: u8
  qtv1_Status :: u8

definition qtv1_header_at :: "u8 list \<Rightarrow> nat \<Rightarrow> HS_LIDAR_HEADER_QT_V1 option" where
  "qtv1_header_at buf off = do {
     l \<leftarrow> ld8 buf off;
     b \<leftarrow> ld8 buf (off + 1);
     ec \<leftarrow> ld8 buf (off + 2);
     du \<leftarrow> ld8 buf (off + 3);
     en \<leftarrow> ld8 buf (off + 4);
     st \<leftarrow> ld8 buf (off + 5);
     Some \<lparr> qtv1_LaserNum = l, qtv1_BlockNum = b, qtv1_EchoCount = ec, qtv1_DistUnit = du,
            qtv1_EchoNum = en, qtv1_Status = st \<rparr> }"

definition qtv1_GetDistUnit :: "HS_LIDAR_HEADER_QT_V1 \<Rightarrow> fp" where
  "qtv1_GetDistUnit hdr = fdiv (f32_of_int (uint (qtv1_DistUnit hdr))) (Fin 1000)"

text \<open>\<open>HS_LIDAR_BODY_CHN_NNIT_QT_V1\<close>, 4 bytes; the decoder does not store the confidence.\<close>

definition qt_channel :: channel_reader where
  "qt_channel buf off = do {
     d \<leftarrow> ld16 buf off;
     r \<leftarrow> ld8 buf (off + 2);
     Some (\<lambda>x. x \<lparr> pd_reflectivities := r, pd_distances := d \<rparr>) }"

record HS_LIDAR_TAIL_QT_V1 =
  qtv1_reservedInfo1 :: "u16 \<times> u8"
  qtv1_reservedInfo2 :: "u16 \<times> u8"
  qtv1_Shutdown :: u8
  qtv1_reservedInfo3 :: "u16 \<times> u8"
  qtv1_MotorSpeed :: u16
  qtv1_Timestamp :: u32
  qtv1_ReturnMode :: u8
  qtv1_FactoryInfo :: u8
  qtv1_UTC :: "u8 list"
  qtv1_SeqNum :: u32

definition qtv1_tail_at :: "u8 list \<Rightarrow> nat \<Rightarrow> HS_LIDAR_TAIL_QT_V1 option" where
  "qtv1_tail_at buf off = do {
     r1 \<leftarrow> reserved_info_at buf off;
     r2 \<leftarrow> reserved_info_at buf (off + 3);
     sd \<leftarrow> ld8 buf (off + 6);
     r3 \<leftarrow> reserved_info_at buf (off + 7);
     ms \<leftarrow> ld16 buf (off + 10);
     ts \<leftarrow> ld32 buf (off + 12);
     rm \<leftarrow> ld8 buf (off + 16);
     fi \<leftarrow> ld8 buf (off + 17);
     utc \<leftarrow> bytes_at 6 buf (off + 18);
     seq \<leftarrow> ld32 buf (off + 24);
     Some \<lparr> qtv1_reservedInfo1 = r1, qtv1_reservedInfo2 = r2, qtv1_Shutdown = sd,
            qtv1_reservedInfo3 = r3, qtv1_MotorSpeed = ms, qtv1_Timestamp = ts,
            qtv1_ReturnMode = rm, qtv1_FactoryInfo = fi, qtv1_UTC = utc, qtv1_SeqNum = seq \<rparr> }"

definition qtv1_IsDualReturn :: "HS_LIDAR_TAIL_QT_V1 \<Rightarrow> bool" where
  "qtv1_IsDualReturn t \<longleftrightarrow> qtv1_ReturnMode t = 0x39"

section \<open>The decoder\<close>

definition qt_DecodePacket :: "host \<Rightarrow> LidarDecodedFrame \<Rightarrow> UdpPacket \<Rightarrow> parser \<Rightarrow>
    (int \<times> LidarDecodedFrame \<times> parser) option" where
  "qt_DecodePacket h f pk p =
     (let buf = up_buffer pk in
      if \<not> get_correction_file p then Some (-1, f, p)
      else do {
        b0 \<leftarrow> ld8 buf 0;
        b1 \<leftarrow> ld8 buf 1;
        if b0 \<noteq> 0xEE \<or> b1 \<noteq> 0xFF then Some (-1, f, p)
        else do {
          pHeader \<leftarrow> qtv1_header_at buf 6;
          let laser = qtv1_LaserNum pHeader;
          let block = qtv1_BlockNum pHeader;
          pTail \<leftarrow> qtv1_tail_at buf (tail_offset 12 4 laser block);
          let time = lidar_time_3_1 (h_timezone h) (qtv1_UTC pTail) (qtv1_Timestamp pTail);
          let p = CalPktLoss (h_loss_tick h) (qtv1_SeqNum pTail) p;
          let p = CalPktTimeLoss (h_time_tick h) time p;
          f \<leftarrow> put_timestamp (unat (f_packet_num f))
                (if f_use_timestamp_type f = 0 then time else up_recv_timestamp pk) f;
          let p = p \<lparr> spin_speed := qtv1_MotorSpeed pTail,
                      is_dual_return := qtv1_IsDualReturn pTail \<rparr>;
          let f = f \<lparr> f_host_timestamp := h_now h,
                      f_work_mode := uint (qtv1_Shutdown pTail),
                      f_return_mode := ucast (qtv1_ReturnMode pTail),
                      f_spin_speed := qtv1_MotorSpeed pTail,
                      f_distance_unit := qtv1_GetDistUnit pHeader,
                      f_per_points_num := ucast block * ucast laser,
                      f_scan_complete := False,
                      f_block_num := ucast block,
                      f_laser_num := ucast laser \<rparr>;
          decode_body qt_channel 4 0 2 qt_IsNeedFrameSplit laser block buf 12 f p } })"

section \<open>Behaviour\<close>

lemma qtv1_tail_defined_iff: "qtv1_tail_at buf off = None \<longleftrightarrow> length buf < off + 28"
  by (auto simp: qtv1_tail_at_def reserved_info_at_def bytes_at_def load_def ld8_def)

lemma qtv1_header:
  assumes "accepted pk p"
  shows "\<exists>hdr. qtv1_header_at (up_buffer pk) 6 = Some hdr \<and> qtv1_LaserNum hdr = up_buffer pk ! 6 \<and>
    qtv1_BlockNum hdr = up_buffer pk ! 7"
  using accepted_length [OF assms] by (simp add: qtv1_header_at_def ld8_def)

lemma qt_overrun:
  assumes "accepted pk p" and "1500 < tail_offset 12 4 (up_buffer pk ! 6) (up_buffer pk ! 7) + 28"
  shows "qt_DecodePacket h f pk p = None"
proof -
  obtain hdr where hdr: "qtv1_header_at (up_buffer pk) 6 = Some hdr"
    "qtv1_LaserNum hdr = up_buffer pk ! 6" "qtv1_BlockNum hdr = up_buffer pk ! 7"
    using qtv1_header [OF assms(1)] by blast
  have "qtv1_tail_at (up_buffer pk) (tail_offset 12 4 (up_buffer pk ! 6) (up_buffer pk ! 7)) = None"
    using assms(2) accepted_length [OF assms(1)] by (simp add: qtv1_tail_defined_iff)
  then show ?thesis
    using assms(1) accepted_bytes [OF assms(1)]
    by (simp add: qt_DecodePacket_def accepted_def Let_def hdr del: bind_Some_iff)
qed

lemma qt_prefix:
  assumes "accepted pk p" and "unat (f_packet_num f) < 5000"
    and "tail_offset 12 4 (up_buffer pk ! 6) (up_buffer pk ! 7) + 28 \<le> 1500"
  shows "\<exists>f1 p1. qt_DecodePacket h f pk p = decode_body qt_channel 4 0 2 qt_IsNeedFrameSplit
       (up_buffer pk ! 6) (up_buffer pk ! 7) (up_buffer pk) 12 f1 p1 \<and>
     f_pointData f1 = f_pointData f \<and> f_packet_num f1 = f_packet_num f \<and>
     frame_start_azimuth p1 = frame_start_azimuth p \<and> get_firetime_file p1 = get_firetime_file p"
proof -
  let ?t = "tail_offset 12 4 (up_buffer pk ! 6) (up_buffer pk ! 7)"
  obtain hdr where hdr: "qtv1_header_at (up_buffer pk) 6 = Some hdr"
    "qtv1_LaserNum hdr = up_buffer pk ! 6" "qtv1_BlockNum hdr = up_buffer pk ! 7"
    using qtv1_header [OF assms(1)] by blast
  have "qtv1_tail_at (up_buffer pk) ?t \<noteq> None"
    using accepted_length [OF assms(1)] assms(3) by (simp add: qtv1_tail_defined_iff)
  then obtain t where t: "qtv1_tail_at (up_buffer pk) ?t = Some t" by blast
  show ?thesis
    using assms(1,2) accepted_bytes [OF assms(1)]
    by (cases "f_use_timestamp_type f = 0")
      (simp add: qt_DecodePacket_def accepted_def Let_def hdr t put_timestamp_def
        kMaxPacketNumPerFrame_def del: bind_Some_iff,
       (rule exI)+, rule conjI, rule refl, simp)+
qed

lemma qt_split_defined: "frame_start_azimuth p = Fin q \<Longrightarrow> qt_IsNeedFrameSplit az p \<noteq> None"
  using split_defined by (simp add: qt_IsNeedFrameSplit_def)

interpretation qt_dec: headed_decoder qt_channel 4 qt_DecodePacket qt_IsNeedFrameSplit 6 7 12 28
  by unfold_locales
    (simp_all add: qt_prefix qt_overrun qt_split_defined,
     auto simp: qt_channel_def load_def ld8_def)

text \<open>
  The points of a PandarQT packet: within the bounds of the buffer, entry \<open>b * lasers + c\<close> from
  the packet's first one on is channel \<open>c\<close> of block \<open>b\<close>, and the entries of other packets are
  unchanged; a header that announces more makes the decoder read behind the buffer.
\<close>

theorem qt_DecodePacket_points:
  assumes acc: "accepted pk p" and n: "unat (f_packet_num f) < 5000"
    and q: "frame_start_azimuth p = Fin q" and nf: "\<not> get_firetime_file p"
    and L: "L = unat (up_buffer pk ! 6)" and B: "B = unat (up_buffer pk ! 7)"
    and k: "k = unat (f_packet_num f) * (B * L)"
  shows "if 12 + (2 + 4 * L) * B + 28 \<le> 1500
     then \<exists>f' p'. qt_DecodePacket h f pk p = Some (0, f', p') \<and>
       f_packet_num f' = f_packet_num f + 1 \<and>
       (\<forall>b<B. \<forall>c<L. \<exists>az. ld16 (up_buffer pk) (12 + b * (2 + 4 * L)) = Some az \<and>
          (let d = f_pointData f' (k + b * L + c); off = 12 + b * (2 + 4 * L) + 2 + 4 * c
           in pd_azimuth d = Fin (of_int (uint az)) \<and>
              ld16 (up_buffer pk) off = Some (pd_distances d) \<and>
              ld8 (up_buffer pk) (off + 2) = Some (pd_reflectivities d))) \<and>
       (\<forall>j. j < k \<or> k + B * L \<le> j \<longrightarrow> f_pointData f' j = f_pointData f j)
     else qt_DecodePacket h f pk p = None"
proof (cases "12 + (2 + 4 * L) * B + 28 \<le> 1500")
  case False
  then show ?thesis using qt_overrun [OF acc] by (simp add: tail_offset_def L B)
next
  case True
  then have "tail_offset 12 4 (up_buffer pk ! 6) (up_buffer pk ! 7) + 28 \<le> 1500"
    by (simp add: tail_offset_def L B)
  from qt_dec.points [OF acc n q nf this L B k, where h = h]
  obtain f' p' where 2: "qt_DecodePacket h f pk p = Some (0, f', p')"
    "f_packet_num f' = f_packet_num f + 1"
    and pts: "\<forall>b<B. \<forall>c<L. \<exists>az u. ld16 (up_buffer pk) (12 + b * (2 + 4 * L)) = Some az \<and>
        qt_channel (up_buffer pk) (12 + b * (2 + 4 * L) + 2 + 4 * c) = Some u \<and>
        f_pointData f' (k + b * L + c) =
          u (f_pointData f (k + b * L + c) \<lparr> pd_azimuth := Fin (of_int (uint az)) \<rparr>)"
    and rest: "\<forall>j. j < k \<or> k + B * L \<le> j \<longrightarrow> f_pointData f' j = f_pointData f j"
    by blast
  have "\<exists>az. ld16 (up_buffer pk) (12 + b * (2 + 4 * L)) = Some az \<and>
      (let d = f_pointData f' (k + b * L + c); off = 12 + b * (2 + 4 * L) + 2 + 4 * c
       in pd_azimuth d = Fin (of_int (uint az)) \<and> ld16 (up_buffer pk) off = Some (pd_distances d) \<and>
          ld8 (up_buffer pk) (off + 2) = Some (pd_reflectivities d))"
    if "b < B" "c < L" for b c
    using pts [rule_format, OF that] by (auto simp: qt_channel_def Let_def add.commute)
  then show ?thesis using 2 rest True by auto
qed

theorem qt_DecodePacket_points_witness:
  "(\<exists>f' p'. qt_DecodePacket host_ex frame_ex (packet_ex [0xEE, 0xFF, 3, 1, 0, 0, 32, 8])
      (parser_at 0 0 0) = Some (0, f', p') \<and> pd_distances (f_pointData f' 33) = 0x0707) \<and>
   qt_DecodePacket host_ex frame_ex (packet_ex [0xEE, 0xFF, 3, 1, 0, 0, 64, 8])
      (parser_at 0 0 0) = None"
proof -
  let ?pk = "\<lambda>n. packet_ex [0xEE, 0xFF, 3, 1, 0, 0, n, 8]" and ?p = "parser_at 0 0 0"
  have acc: "accepted (?pk n) ?p" for n
    by (simp add: accepted_def packet_ex_wf packet_ex_nth parser_at_def parser_ex_def)
  have p: "frame_start_azimuth ?p = Fin 0" "\<not> get_firetime_file ?p"
    by (simp_all add: parser_at_def parser_ex_def)
  have f: "f_packet_num frame_ex = 0" by (simp add: frame_ex_def LidarDecodedFrame_new_def)
  have nth: "up_buffer (?pk n) ! 6 = n" "up_buffer (?pk n) ! 7 = 8" for n
    by (simp_all add: packet_ex_nth)
  have "qt_DecodePacket host_ex frame_ex (?pk 64) ?p = None"
    using qt_DecodePacket_points [OF acc _ p refl refl refl, of frame_ex 64 host_ex]
    by (simp add: f nth)
  moreover obtain f' p' where "qt_DecodePacket host_ex frame_ex (?pk 32) ?p = Some (0, f', p')"
    and a: "\<forall>b<8. \<forall>c<32. ld16 (up_buffer (?pk 32)) (12 + b * 130 + 2 + 4 * c) =
      Some (pd_distances (f_pointData f' (b * 32 + c)))"
    using qt_DecodePacket_points [OF acc _ p refl refl refl, of frame_ex 32 host_ex]
    by (fastforce simp: f nth Let_def)
  moreover have "pd_distances (f_pointData f' 33) = 0x0707"
    using a [rule_format, of 1 1] by (auto simp: packet_ex_ld16)
  ultimately show ?thesis by blast
qed

end
