(* ===== verification/Compute_Points.thy ===== *)
theory Compute_Points
  imports Packet_Decoder
begin

text \<open>
  \<open>ComputeXYZI\<close> of the spinning lidars (\<open>udp_p40_parser.cc\<close>, \<open>udp_p64_parser.cc\<close>,
  \<open>udp3_1_parser.cc\<close> and \<open>udp6_1_parser.cc\<close> under \<open>src/libhesai/UdpParser/src\<close>): the points of one
  packet from its decoded data. The classes have the same two loops; they differ in the unit of
  the distance, in the azimuth without a correction file, in the spot correction of XT and in
  the confidence, which are the fields of the record \<open>geometry\<close> here.

  The driver computes the packets of a frame in several threads. The lemmas show that every
  index of the tables and arrays is in bounds for plausible correction files, that a packet
  writes only its own points, and that the order of two packets does not matter.
\<close>

section \<open>The setters of a point\<close>

definition setX :: "fp \<Rightarrow> LidarPoint \<Rightarrow> LidarPoint" where "setX v pt = pt \<lparr> lp_x := v \<rparr>"
definition setY :: "fp \<Rightarrow> LidarPoint \<Rightarrow> LidarPoint" where "setY v pt = pt \<lparr> lp_y := v \<rparr>"
definition setZ :: "fp \<Rightarrow> LidarPoint \<Rightarrow> LidarPoint" where "setZ v pt = pt \<lparr> lp_z := v \<rparr>"

definition setIntensity :: "u8 \<Rightarrow> LidarPoint \<Rightarrow> LidarPoint" where
  "setIntensity v pt = pt \<lparr> lp_intensity := f32_of_int (uint v) \<rparr>"

definition setConfidence :: "u8 \<Rightarrow> LidarPoint \<Rightarrow> LidarPoint" where
  "setConfidence v pt = pt \<lparr> lp_confidence := f32_of_int (uint v) \<rparr>"

definition setRing :: "u16 \<Rightarrow> LidarPoint \<Rightarrow> LidarPoint" where "setRing v pt = pt \<lparr> lp_ring := v \<rparr>"

definition setTimestamp :: "fp \<Rightarrow> LidarPoint \<Rightarrow> LidarPoint" where
  "setTimestamp v pt = pt \<lparr> lp_timestamp := v \<rparr>"

section \<open>One point\<close>

record geometry =
  g_unit :: "LidarDecodedFrame \<Rightarrow> fp"
  g_uncorrected :: "int \<Rightarrow> int"
  g_spot :: "parser \<Rightarrow> fp \<Rightarrow> int \<Rightarrow> int option"
  g_confidence :: bool

definition vec_at :: "'a list \<Rightarrow> nat \<Rightarrow> 'a option" where
  "vec_at xs i = (if i < length xs then Some (xs ! i) else None)"

text \<open>\<open>(int(v[i] * kAllFineResolutionFloat) + CIRCLE) % CIRCLE\<close>\<close>

definition correction_index :: "fp list \<Rightarrow> nat \<Rightarrow> int option" where
  "correction_index v i = do {
     a \<leftarrow> vec_at v i;
     c \<leftarrow> fp_to_int (dmul a (Fin 25600));
     c \<leftarrow> int_ok (c + CIRCLE);
     Some (c_rem c CIRCLE) }"

text \<open>The azimuth and the elevation of a channel as indices of the tables, and the distance.\<close>

definition channel_angles :: "geometry \<Rightarrow> libm \<Rightarrow> parser \<Rightarrow> nat \<Rightarrow> int \<Rightarrow> fp \<Rightarrow> (int \<times> int \<times> fp) option" where
  "channel_angles g lm p i Azimuth distance =
     (if get_correction_file p then do {
        azimuth_coll \<leftarrow> correction_index (azimuth_collection p) i;
        elevation_corr \<leftarrow> correction_index (elevation_correction p) i;
        (azimuth_coll, elevation_corr, distance) \<leftarrow>
          (if enable_distance_correction p
           then GetDistanceCorrection lm p azimuth_coll elevation_corr distance GeometricCenter
           else Some (azimuth_coll, elevation_corr, distance));
        azimuth \<leftarrow> int_ok (Azimuth + azimuth_coll);
        azimuth \<leftarrow> g_spot g p distance azimuth;
        azimuth \<leftarrow> int_ok (CIRCLE + azimuth);
        Some (c_rem azimuth CIRCLE, elevation_corr, distance) }
      else Some (g_uncorrected g Azimuth, 0, distance))"

definition out_of_fov :: "LidarDecodeConfig \<Rightarrow> int \<Rightarrow> bool" where
  "out_of_fov c azimuth \<longleftrightarrow> fov_start c \<noteq> -1 \<and> fov_end c \<noteq> -1 \<and>
     (let fov_transfer = c_div (c_div azimuth 256) 100
      in fov_transfer < fov_start c \<or> fov_transfer > fov_end c)"

text \<open>
  From the field of view on: what is written into the point of channel \<open>i\<close>, from its decoded data
  and its angles as indices of the tables.
\<close>

definition place_point :: "libm \<Rightarrow> parser \<Rightarrow> bool \<Rightarrow> int \<Rightarrow> LidarDecodedFrame \<Rightarrow> nat \<Rightarrow> PointDecodeData \<Rightarrow>
    int \<Rightarrow> int \<Rightarrow> fp \<Rightarrow> (LidarPoint \<Rightarrow> LidarPoint) option" where
  "place_point lm p with_confidence packet_index f i d azimuth elevation distance =
     (if out_of_fov (f_config f) azimuth then Some (\<lambda>_. LidarPoint_zero)
      else do {
        ce \<leftarrow> tab (cos_all_angle p) elevation;
        sa \<leftarrow> tab (sin_all_angle p) azimuth;
        ca \<leftarrow> tab (cos_all_angle p) azimuth;
        se \<leftarrow> tab (sin_all_angle p) elevation;
        let xyDistance = fmul distance ce;
        let (x, y, z) = TransformPoint lm p (fmul xyDistance sa, fmul xyDistance ca, fmul distance se);
        j \<leftarrow> nat_index packet_index;
        ts \<leftarrow> get_timestamp j f;
        Some (\<lambda>pt.
          let pt = setIntensity (pd_reflectivities d) (setZ z (setY y (setX x pt)));
              pt = (if with_confidence then setConfidence (pd_confidence d) pt else pt)
          in setRing (word_of_nat i)
               (setTimestamp (ddiv (f64_of_int (uint ts)) (Fin 1000000)) pt)) })"

text \<open>
  The body of the inner loop: what is written into point \<open>k\<close> of the frame, for channel \<open>i\<close> of
  packet \<open>packet_index\<close>. It reads the decoded data and not the points.
\<close>

definition point_update :: "geometry \<Rightarrow> libm \<Rightarrow> parser \<Rightarrow> int \<Rightarrow> LidarDecodedFrame \<Rightarrow> nat \<Rightarrow> nat \<Rightarrow>
    (LidarPoint \<Rightarrow> LidarPoint) option" where
  "point_update g lm p packet_index f i k = do {
     d \<leftarrow> get_point_data k f;
     let distance = to_float (dmul (f64_of_int (uint (pd_distances d))) (g_unit g f));
     Azimuth \<leftarrow> fp_to_int (fmul (pd_azimuth d) (Fin 256));
     (azimuth, elevation, distance) \<leftarrow> channel_angles g lm p i Azimuth distance;
     place_point lm p (g_confidence g) packet_index f i d azimuth elevation distance }"

section \<open>The loops\<close>

text \<open>\<open>packet_index * per_points_num + blockid * laser_num + i\<close>, unsigned, assigned to an \<open>int\<close>.\<close>

definition point_index :: "LidarDecodedFrame \<Rightarrow> int \<Rightarrow> nat \<Rightarrow> nat \<Rightarrow> int" where
  "point_index f packet_index blockid i =
     sint ((word_of_int packet_index :: u32) * f_per_points_num f +
           word_of_nat (blockid * unat (f_laser_num f)) + word_of_nat i)"

text \<open>
  The loops over the channels and the blocks, which all classes have: \<open>upd\<close> is the body of the inner
  loop, and \<open>blk\<close> what precedes it in the outer one; \<open>None\<close> as its result skips the block.
\<close>

type_synonym point_writer = "LidarDecodedFrame \<Rightarrow> nat \<Rightarrow> nat \<Rightarrow> (LidarPoint \<Rightarrow> LidarPoint) option"

fun compute_channels :: "point_writer \<Rightarrow> int \<Rightarrow> nat \<Rightarrow> nat \<Rightarrow> nat \<Rightarrow> LidarDecodedFrame \<Rightarrow>
    LidarDecodedFrame option" where
  "compute_channels upd packet_index blockid 0 i f = Some f"
| "compute_channels upd packet_index blockid (Suc n) i f = do {
     k \<leftarrow> nat_index (point_index f packet_index blockid i);
     u \<leftarrow> upd f i k;
     f \<leftarrow> put_point k u f;
     compute_channels upd packet_index blockid n (Suc i) f }"

fun compute_blocks :: "(LidarDecodedFrame \<Rightarrow> nat \<Rightarrow> point_writer option option) \<Rightarrow> int \<Rightarrow> nat \<Rightarrow> nat \<Rightarrow>
    LidarDecodedFrame \<Rightarrow> LidarDecodedFrame option" where
  "compute_blocks blk packet_index 0 blockid f = Some f"
| "compute_blocks blk packet_index (Suc n) blockid f = do {
     b \<leftarrow> blk f blockid;
     f \<leftarrow> (case b of None \<Rightarrow> Some f
           | Some upd \<Rightarrow> compute_channels upd packet_index blockid (unat (f_laser_num f)) 0 f);
     compute_blocks blk packet_index n (Suc blockid) f }"

definition compute_xyzi :: "geometry \<Rightarrow> libm \<Rightarrow> LidarDecodedFrame \<Rightarrow> int \<Rightarrow> parser \<Rightarrow>
    (int \<times> LidarDecodedFrame \<times> parser) option" where
  "compute_xyzi g lm f packet_index p = do {
     f \<leftarrow> compute_blocks (\<lambda>_ _. Some (Some (point_update g lm p packet_index))) packet_index
           (unat (f_block_num f)) 0 f;
     Some (0, f, FrameNumAdd p) }"

section \<open>The four classes\<close>

definition p40_geometry :: geometry where
  "p40_geometry = \<lparr> g_unit = (\<lambda>_. f64 (4 / 1000)), g_uncorrected = (\<lambda>_. 0),
     g_spot = (\<lambda>p d a. Some a), g_confidence = False \<rparr>"

definition p40_ComputeXYZI :: "libm \<Rightarrow> LidarDecodedFrame \<Rightarrow> int \<Rightarrow> parser \<Rightarrow>
    (int \<times> LidarDecodedFrame \<times> parser) option" where
  "p40_ComputeXYZI = compute_xyzi p40_geometry"

definition p64_geometry :: geometry where
  "p64_geometry = \<lparr> g_unit = f_distance_unit, g_uncorrected = (\<lambda>_. 0),
     g_spot = (\<lambda>p d a. Some a), g_confidence = False \<rparr>"

definition p64_ComputeXYZI :: "libm \<Rightarrow> LidarDecodedFrame \<Rightarrow> int \<Rightarrow> parser \<Rightarrow>
    (int \<times> LidarDecodedFrame \<times> parser) option" where
  "p64_ComputeXYZI = compute_xyzi p64_geometry"

definition qt_geometry :: geometry where
  "qt_geometry = \<lparr> g_unit = f_distance_unit, g_uncorrected = (\<lambda>a. a),
     g_spot = (\<lambda>p d a. Some a), g_confidence = False \<rparr>"

definition qt_ComputeXYZI :: "libm \<Rightarrow> LidarDecodedFrame \<Rightarrow> int \<Rightarrow> parser \<Rightarrow>
    (int \<times> LidarDecodedFrame \<times> parser) option" where
  "qt_ComputeXYZI = compute_xyzi qt_geometry"

text \<open>XT: \<open>azimuth -= spot_correction_angle[index] * kFineResolutionInt\<close> in unsigned arithmetic.\<close>

definition spot_correction_angle :: "u32 list" where
  "spot_correction_angle = [3, 3, 25, 25, 20, 15, 8, 6]"

definition xt_spot :: "parser \<Rightarrow> fp \<Rightarrow> int \<Rightarrow> int option" where
  "xt_spot p distance azimuth =
     (if (lidar_type p = ''PandarXT32M1'' \<or> lidar_type p = ''PandarXT16M1'') \<and>
         fp_le (Fin (1 / 4)) distance \<and> fp_lt distance (Fin (17 / 4)) then do {
        index \<leftarrow> fp_to_int (ddiv (fp_sub f64 distance (Fin (1 / 4))) (Fin (1 / 2)));
        let index = (if index > 7 then 7 else index);
        j \<leftarrow> nat_index index;
        a \<leftarrow> vec_at spot_correction_angle j;
        Some (sint ((word_of_int azimuth :: u32) - a * 256)) }
      else Some azimuth)"

definition xt_geometry :: geometry where
  "xt_geometry = \<lparr> g_unit = f_distance_unit, g_uncorrected = (\<lambda>_. 0),
     g_spot = xt_spot, g_confidence = True \<rparr>"

definition xt_ComputeXYZI :: "libm \<Rightarrow> LidarDecodedFrame \<Rightarrow> int \<Rightarrow> parser \<Rightarrow>
    (int \<times> LidarDecodedFrame \<times> parser) option" where
  "xt_ComputeXYZI = compute_xyzi xt_geometry"

section \<open>Indices\<close>

text \<open>The sizes of a frame after its packets were decoded.\<close>

definition sized :: "LidarDecodedFrame \<Rightarrow> nat \<Rightarrow> nat \<Rightarrow> bool" where
  "sized f B L \<longleftrightarrow> unat (f_block_num f) = B \<and> unat (f_laser_num f) = L \<and>
     f_per_points_num f = word_of_nat (B * L) \<and> B * L \<le> 512"

lemma sized_points [simp]: "sized (f \<lparr> f_points := x \<rparr>) B L = sized f B L"
  by (simp add: sized_def)

lemma in_packet:
  assumes "b < B" and "i < (L :: nat)"
  shows "b * L + i < B * L"
  using assms mult_le_mono1 [of "Suc b" B L] by simp

lemma point_index_eq:
  assumes "sized f B L" and "m < 5000" and "b < B" and "i < L"
  shows "point_index f (int m) b i = int (m * (B * L) + b * L + i)"
proof -
  have "m * (B * L) + B * L \<le> 2560000"
    using assms(1,2) by (intro points_fit) (simp_all add: sized_def)
  then have "m * (B * L) + b * L + i < 2147483648" using in_packet [OF assms(3,4)] by linarith
  moreover have "(word_of_int (int m) :: u32) * f_per_points_num f +
      word_of_nat (b * unat (f_laser_num f)) + word_of_nat i =
      (word_of_nat (m * (B * L) + b * L + i) :: u32)"
    using assms(1) by (simp add: sized_def)
  ultimately show ?thesis by (simp add: point_index_def sint_u32_small del: of_nat_add of_nat_mult)
qed

lemma point_in_frame:
  assumes "sized f B L" and "m < 5000" and "b < B" and "i < L"
  shows "m * (B * L) + b * L + i < 2560000"
  using points_fit [of m "B * L"] in_packet [OF assms(3,4)] assms(1,2) by (simp add: sized_def)

text \<open>What the loops write: \<open>u b c\<close> is the update of channel \<open>c\<close> of block \<open>b\<close>.\<close>

definition computed_points :: "(nat \<Rightarrow> nat \<Rightarrow> LidarPoint \<Rightarrow> LidarPoint) \<Rightarrow> nat \<Rightarrow> nat \<Rightarrow> nat \<Rightarrow> nat \<Rightarrow>
    (nat \<Rightarrow> LidarPoint) \<Rightarrow> nat \<Rightarrow> LidarPoint" where
  "computed_points u L k lo hi pts j =
     (if k + lo \<le> j \<and> j < k + hi then u ((j - k) div L) ((j - k) mod L) (pts j) else pts j)"

lemma computed_points_empty: "computed_points u L k lo lo pts = pts"
  by (auto simp: computed_points_def fun_eq_iff)

lemma computed_points_join:
  assumes "lo \<le> mid" and "mid \<le> hi"
  shows "computed_points u L k mid hi (computed_points u L k lo mid pts) = computed_points u L k lo hi pts"
  using assms by (auto simp: computed_points_def fun_eq_iff)

lemma computed_points_one:
  "i < L \<Longrightarrow> pts(k + b * L + i := u b i (pts (k + b * L + i))) =
     computed_points u L k (b * L + i) (Suc (b * L + i)) pts"
  by (auto simp: computed_points_def fun_eq_iff)

lemma computed_points_at:
  assumes "b < B" and "c < (L :: nat)"
  shows "computed_points u L k 0 (B * L) pts (k + b * L + c) = u b c (pts (k + b * L + c))"
proof -
  have "(b * L + c) div L = b" "(b * L + c) mod L = c" using assms(2) by auto
  then show ?thesis using in_packet [OF assms] by (simp add: computed_points_def)
qed

section \<open>The loops compute every point of the packet\<close>

lemma reads_not_points:
  "get_point_data k (f \<lparr> f_points := y \<rparr>) = get_point_data k f"
  "get_timestamp j (f \<lparr> f_points := y \<rparr>) = get_timestamp j f"
  "f_config (f \<lparr> f_points := y \<rparr>) = f_config f"
  by (simp_all add: get_point_data_def get_timestamp_def)

lemma compute_channels_points:
  assumes "sized f B L" and "m < 5000" and "b < B" and "i + n \<le> L"
    and upd: "\<And>f y c k. upd (f \<lparr> f_points := y \<rparr>) c k = upd f c k"
    and "\<forall>c. i \<le> c \<and> c < i + n \<longrightarrow> upd f c (m * (B * L) + b * L + c) = Some (u b c)"
  shows "compute_channels upd (int m) b n i f =
     Some (f \<lparr> f_points := computed_points u L (m * (B * L)) (b * L + i) (b * L + i + n) (f_points f) \<rparr>)"
  using assms(1,4,6)
proof (induction n arbitrary: i f)
  case 0
  then show ?case by (simp add: computed_points_empty)
next
  case (Suc n)
  let ?k = "m * (B * L) + b * L + i"
  let ?f = "f \<lparr> f_points := (f_points f)(?k := u b i (f_points f ?k)) \<rparr>"
  have iL: "i < L" using Suc.prems(2) by simp
  have k: "point_index f (int m) b i = int ?k"
    by (rule point_index_eq [OF Suc.prems(1) assms(2,3) iL])
  have u: "upd f i ?k = Some (u b i)" using Suc.prems(3) by simp
  have put: "put_point ?k (u b i) f = Some ?f"
    using point_in_frame [OF Suc.prems(1) assms(2,3) iL]
    by (simp add: put_point_def kMaxPointsNumPerFrame_def)
  have "compute_channels upd (int m) b n (Suc i) ?f = Some (?f \<lparr> f_points :=
      computed_points u L (m * (B * L)) (b * L + Suc i) (b * L + Suc i + n) (f_points ?f) \<rparr>)"
    using Suc.prems by (intro Suc.IH) (simp_all add: upd)
  moreover have "f_points ?f =
      computed_points u L (m * (B * L)) (b * L + i) (b * L + Suc i) (f_points f)"
    using computed_points_one [OF iL, of "f_points f" "m * (B * L)" b u] by simp
  ultimately show ?case
    by (simp add: k u put computed_points_join del: of_nat_add of_nat_mult fun_upd_apply)
qed

text \<open>What \<open>blk\<close> has to give for block \<open>b\<close>, so that \<open>u b\<close> are the updates of its channels.\<close>

definition block_writes :: "(LidarDecodedFrame \<Rightarrow> nat \<Rightarrow> point_writer option option) \<Rightarrow> nat \<Rightarrow> nat \<Rightarrow> nat \<Rightarrow>
    LidarDecodedFrame \<Rightarrow> (nat \<Rightarrow> nat \<Rightarrow> LidarPoint \<Rightarrow> LidarPoint) \<Rightarrow> nat \<Rightarrow> bool" where
  "block_writes blk B L m f u b \<longleftrightarrow>
     (case blk f b of None \<Rightarrow> False | Some None \<Rightarrow> \<forall>c<L. u b c = (\<lambda>pt. pt)
      | Some (Some upd) \<Rightarrow> (\<forall>f y c k. upd (f \<lparr> f_points := y \<rparr>) c k = upd f c k) \<and>
          (\<forall>c<L. upd f c (m * (B * L) + b * L + c) = Some (u b c)))"

lemma computed_points_id:
  assumes "\<forall>c<L. u b c = (\<lambda>pt. pt)" and "n \<le> L"
  shows "computed_points u L k (b * L) (b * L + n) pts = pts"
proof
  fix j
  show "computed_points u L k (b * L) (b * L + n) pts j = pts j"
  proof (cases "k + b * L \<le> j \<and> j < k + (b * L + n)")
    case True
    then have "j - k = (j - k - b * L) + b * L" "j - k - b * L < L" using assms(2) by auto
    then have "(j - k) div L = b" "(j - k) mod L < L" by (metis div_eq_0_iff div_mult_self3 add_cancel_right_right
        less_nat_zero_code add.commute, metis mod_less_divisor gr_zeroI less_nat_zero_code)
    then show ?thesis using assms(1) by (simp add: computed_points_def)
  qed (auto simp: computed_points_def)
qed

lemma compute_blocks_points:
  assumes "sized f B L" and "m < 5000" and "b + n \<le> B"
    and blk: "\<And>f y b. blk (f \<lparr> f_points := y \<rparr>) b = blk f b"
    and "\<forall>b<B. block_writes blk B L m f u b"
  shows "compute_blocks blk (int m) n b f =
     Some (f \<lparr> f_points := computed_points u L (m * (B * L)) (b * L) (b * L + n * L) (f_points f) \<rparr>)"
  using assms(1,3,5)
proof (induction n arbitrary: b f)
  case 0
  then show ?case by (simp add: computed_points_empty)
next
  case (Suc n)
  let ?f = "f \<lparr> f_points := computed_points u L (m * (B * L)) (b * L) (b * L + L) (f_points f) \<rparr>"
  have L: "unat (f_laser_num f) = L" using Suc.prems(1) by (simp add: sized_def)
  have w: "block_writes blk B L m f u b" using Suc.prems(2,3) by simp
  obtain x where x: "blk f b = Some x" using w by (auto simp: block_writes_def split: option.splits)
  have first: "(case x of None \<Rightarrow> Some f | Some upd \<Rightarrow> compute_channels upd (int m) b (unat (f_laser_num f)) 0 f) = Some ?f"
  proof (cases x)
    case None
    then show ?thesis using w x computed_points_id [of L u b L] by (simp add: block_writes_def)
  next
    case (Some upd)
    then show ?thesis
      using compute_channels_points [OF Suc.prems(1) assms(2), of b 0 L upd u] Suc.prems(2) w x
      by (simp add: block_writes_def L)
  qed
  have "block_writes blk B L m ?f u b'" if "b' < B" for b'
    using Suc.prems(3) that unfolding block_writes_def blk by (fastforce split: option.splits)
  then have "compute_blocks blk (int m) n (Suc b) ?f = Some (?f \<lparr> f_points :=
      computed_points u L (m * (B * L)) (Suc b * L) (Suc b * L + n * L) (f_points ?f) \<rparr>)"
    using Suc.prems(1,2) by (intro Suc.IH) simp_all
  then show ?case
    using first by (simp add: x computed_points_join add.commute add.left_commute del: bind_Some_iff)
qed

locale point_geometry =
  fixes g :: geometry
  assumes unit_points: "g_unit g (f \<lparr> f_points := x \<rparr>) = g_unit g f"
    and spot_count: "g_spot g (FrameNumAdd p) = g_spot g p"
    and spot_ok: "0 \<le> a \<Longrightarrow> a \<le> 1000000000 \<Longrightarrow>
      \<exists>a'. g_spot g p d a = Some a' \<and> - CIRCLE \<le> a' \<and> a' \<le> a"
begin

lemma point_update_points:
  "point_update g lm p x (f \<lparr> f_points := y \<rparr>) i k = point_update g lm p x f i k"
  unfolding point_update_def place_point_def reads_not_points unit_points ..

lemma blocks:
  assumes "sized f B L" and "m < 5000"
    and "\<forall>b<B. \<forall>c<L. point_update g lm p (int m) f c (m * (B * L) + b * L + c) = Some (u b c)"
  shows "compute_blocks (\<lambda>_ _. Some (Some (point_update g lm p (int m)))) (int m) B 0 f =
     Some (f \<lparr> f_points := computed_points u L (m * (B * L)) 0 (B * L) (f_points f) \<rparr>)"
  using compute_blocks_points [OF assms(1,2), of 0 B "\<lambda>_ _. Some (Some (point_update g lm p (int m)))" u] assms(3)
  by (simp add: block_writes_def point_update_points)

end

section \<open>No index leaves the tables\<close>

text \<open>
  A plausible correction file: an entry for every channel, of at most a full turn. A plausible
  azimuth: not negative and below the range of its 16 bits.
\<close>

definition angle_ok :: "fp \<Rightarrow> bool" where
  "angle_ok v \<longleftrightarrow> (case v of Fin a \<Rightarrow> \<bar>a\<bar> \<le> 360 | _ \<Rightarrow> False)"

definition corrections_ok :: "parser \<Rightarrow> nat \<Rightarrow> bool" where
  "corrections_ok p L \<longleftrightarrow> get_correction_file p \<and> \<not> enable_distance_correction p \<and>
     L \<le> length (azimuth_collection p) \<and> L \<le> length (elevation_correction p) \<and>
     (\<forall>i<L. angle_ok (azimuth_collection p ! i) \<and> angle_ok (elevation_correction p ! i))"

definition azimuth_ok :: "fp \<Rightarrow> bool" where
  "azimuth_ok v \<longleftrightarrow> (case v of Fin a \<Rightarrow> 0 \<le> a \<and> a \<le> 65535 | _ \<Rightarrow> False)"

lemma correction_index_ok:
  assumes "i < length v" and "angle_ok (v ! i)"
  shows "\<exists>c. correction_index v i = Some c \<and> 0 \<le> c \<and> c < CIRCLE"
proof -
  obtain a where a: "v ! i = Fin a" "\<bar>a\<bar> \<le> 360"
    using assms(2) by (auto simp: angle_ok_def split: fp.splits)
  obtain r where r: "f64 (a * 25600) = Fin r" "of_int (-9216000) \<le> r" "r \<le> of_int 9216000"
    using f64_between [of "-9216000" "a * 25600" 9216000] a(2) by (auto simp: abs_le_iff)
  obtain c where c: "fp_to_int (Fin r) = Some c" "-9216000 \<le> c" "c \<le> 9216000"
    using fp_to_int_between [OF r(2,3)] by auto
  have "dmul (v ! i) (Fin 25600) = Fin r" by (simp add: a(1) r(1))
  then show ?thesis
    using assms(1) c by (simp add: correction_index_def vec_at_def int_ok_def CIRCLE_def c_rem_nonneg)
qed

lemma tab_defined: "0 \<le> i \<Longrightarrow> i < CIRCLE \<Longrightarrow> \<exists>v. tab t i = Some v"
  by (simp add: tab_def)

lemma place_point_defined:
  assumes "0 \<le> az" "az < CIRCLE" "0 \<le> el" "el < CIRCLE" and "m < 5000"
  shows "\<exists>u. place_point lm p c (int m) f i d az el r = Some u"
proof -
  obtain ce sa ca se where "tab (cos_all_angle p) el = Some ce" "tab (sin_all_angle p) az = Some sa"
    "tab (cos_all_angle p) az = Some ca" "tab (sin_all_angle p) el = Some se"
    using tab_defined assms(1-4) by meson
  then show ?thesis
    using assms(5) by (simp add: place_point_def get_timestamp_def kMaxPacketNumPerFrame_def split_beta Let_def)
qed

context point_geometry
begin

lemma channel_angles_ok:
  assumes "corrections_ok p L" and "i < L" and "0 \<le> A" and "A \<le> 16777216"
  shows "\<exists>az el. channel_angles g lm p i A d = Some (az, el, d) \<and> 0 \<le> az \<and> az < CIRCLE \<and>
     0 \<le> el \<and> el < CIRCLE"
proof -
  have p: "get_correction_file p" "\<not> enable_distance_correction p"
    using assms(1) by (simp_all add: corrections_ok_def)
  obtain c where c: "correction_index (azimuth_collection p) i = Some c" "0 \<le> c" "c < CIRCLE"
    using correction_index_ok [of i "azimuth_collection p"] assms(1,2) by (auto simp: corrections_ok_def)
  obtain e where e: "correction_index (elevation_correction p) i = Some e" "0 \<le> e" "e < CIRCLE"
    using correction_index_ok [of i "elevation_correction p"] assms(1,2) by (auto simp: corrections_ok_def)
  obtain a where a: "g_spot g p d (A + c) = Some a" "- CIRCLE \<le> a" "a \<le> A + c"
    using spot_ok [of "A + c" p d] assms(3,4) c(2,3) by (auto simp: CIRCLE_def)
  have "int_ok (A + c) = Some (A + c)" "int_ok (CIRCLE + a) = Some (CIRCLE + a)"
    using assms(3,4) c(2,3) a(2,3) by (simp_all add: int_ok_def CIRCLE_def)
  moreover have "0 \<le> c_rem (CIRCLE + a) CIRCLE" "c_rem (CIRCLE + a) CIRCLE < CIRCLE"
    using a(2) by (simp_all add: c_rem_nonneg CIRCLE_def)
  ultimately show ?thesis using p c(1) e a(1) by (simp add: channel_angles_def)
qed

lemma point_update_ok:
  assumes "corrections_ok p L" and "i < L" and "m < 5000" and "k < 2560000"
    and "azimuth_ok (pd_azimuth (f_pointData f k))"
  shows "\<exists>u. point_update g lm p (int m) f i k = Some u"
proof -
  obtain x where x: "pd_azimuth (f_pointData f k) = Fin x" "0 \<le> x" "x \<le> 65535"
    using assms(5) by (auto simp: azimuth_ok_def split: fp.splits)
  obtain r where r: "f32 (x * 256) = Fin r" "of_int 0 \<le> r" "r \<le> of_int 16776960"
    using f32_between [of 0 "x * 256" 16776960] x(2,3) by auto
  obtain A where A: "fp_to_int (Fin r) = Some A" "0 \<le> A" "A \<le> 16776960"
    using fp_to_int_between [OF r(2,3)] by auto
  let ?d = "to_float (dmul (f64_of_int (uint (pd_distances (f_pointData f k)))) (g_unit g f))"
  obtain az el where ae: "channel_angles g lm p i A ?d = Some (az, el, ?d)" "0 \<le> az" "az < CIRCLE"
    "0 \<le> el" "el < CIRCLE"
    using channel_angles_ok [OF assms(1,2), of A lm ?d] A(2,3) by auto
  have "fmul (pd_azimuth (f_pointData f k)) (Fin 256) = Fin r" by (simp add: x(1) r(1))
  then show ?thesis
    using assms(4) ae(1) A(1) place_point_defined [OF ae(2-5) assms(3)]
    by (simp add: point_update_def get_point_data_def kMaxPointsNumPerFrame_def)
qed

text \<open>
  The points of packet \<open>m\<close> depend on nothing but its decoded data, and only they are written.
\<close>

lemma computes:
  fixes lm :: libm
  assumes "sized f B L" and "m < 5000" and "corrections_ok p L"
    and "\<forall>j. m * (B * L) \<le> j \<and> j < m * (B * L) + B * L \<longrightarrow> azimuth_ok (pd_azimuth (f_pointData f j))"
  defines "u \<equiv> \<lambda>b c. the (point_update g lm p (int m) f c (m * (B * L) + b * L + c))"
  shows "compute_xyzi g lm f (int m) p =
     Some (0, f \<lparr> f_points := computed_points u L (m * (B * L)) 0 (B * L) (f_points f) \<rparr>, FrameNumAdd p)"
proof -
  have "point_update g lm p (int m) f c (m * (B * L) + b * L + c) = Some (u b c)"
    if "b < B" "c < L" for b c
  proof -
    have "azimuth_ok (pd_azimuth (f_pointData f (m * (B * L) + b * L + c)))"
      using assms(4) in_packet [OF that] by simp
    then show ?thesis
      using point_update_ok [OF assms(3) that(2) assms(2) point_in_frame [OF assms(1,2) that]]
      by (force simp: u_def)
  qed
  then show ?thesis
    using blocks [OF assms(1,2), of lm p u] assms(1) by (simp add: compute_xyzi_def sized_def)
qed

lemma point_update_count: "point_update g lm (FrameNumAdd p) x f i k = point_update g lm p x f i k"
proof -
  have q: "GetDistanceCorrection lm (FrameNumAdd p) = GetDistanceCorrection lm p"
    "TransformPoint lm (FrameNumAdd p) = TransformPoint lm p"
    by (simp_all add: fun_eq_iff FrameNumAdd_def GetDistanceCorrection_def TransformPoint_def)
  have c: "channel_angles g lm (FrameNumAdd p) = channel_angles g lm p"
    unfolding fun_eq_iff channel_angles_def q spot_count by (simp add: FrameNumAdd_def)
  have t: "cos_all_angle (FrameNumAdd p) = cos_all_angle p"
    "sin_all_angle (FrameNumAdd p) = sin_all_angle p"
    by (simp_all add: FrameNumAdd_def)
  show ?thesis unfolding point_update_def place_point_def q c t ..
qed

text \<open>Two packets in either order.\<close>

lemma commutes:
  assumes f: "sized f B L" and m: "m < 5000" "m' < 5000" "m \<noteq> m'" and p: "corrections_ok p L"
    and az: "\<forall>j. j < 2560000 \<longrightarrow> azimuth_ok (pd_azimuth (f_pointData f j))"
  shows "\<exists>f'. do { (_, f, p) \<leftarrow> compute_xyzi g lm f (int m) p; compute_xyzi g lm f (int m') p } =
        Some (0, f', FrameNumAdd (FrameNumAdd p)) \<and>
      do { (_, f, p) \<leftarrow> compute_xyzi g lm f (int m') p; compute_xyzi g lm f (int m) p } =
        Some (0, f', FrameNumAdd (FrameNumAdd p))"
proof -
  let ?n = "B * L"
  have n: "?n \<le> 512" using f by (simp add: sized_def)
  define u where "u x = (\<lambda>b c. the (point_update g lm p (int x) f c (x * ?n + b * L + c)))" for x
  have p': "corrections_ok (FrameNumAdd p) L"
    using p by (simp add: corrections_ok_def FrameNumAdd_def)
  have az': "\<forall>j. x * ?n \<le> j \<and> j < x * ?n + ?n \<longrightarrow> azimuth_ok (pd_azimuth (f_pointData f j))"
    if "x < 5000" for x
    using az points_fit [OF that n] by auto
  have 1: "compute_xyzi g lm f (int x) p =
      Some (0, f \<lparr> f_points := computed_points (u x) L (x * ?n) 0 ?n (f_points f) \<rparr>, FrameNumAdd p)"
    if "x < 5000" for x
    using computes [OF f that p az' [OF that]] by (simp add: u_def)
  have 2: "compute_xyzi g lm (f \<lparr> f_points := y \<rparr>) (int x) (FrameNumAdd p) =
      Some (0, f \<lparr> f_points := computed_points (u x) L (x * ?n) 0 ?n y \<rparr>,
            FrameNumAdd (FrameNumAdd p))"
    if "x < 5000" for x y
    using computes [of "f \<lparr> f_points := y \<rparr>" B L x "FrameNumAdd p" lm] f that p' az' [OF that]
    by (simp add: u_def point_update_points point_update_count)
  have "m * ?n + ?n \<le> m' * ?n \<or> m' * ?n + ?n \<le> m * ?n"
    using m(3) mult_le_mono1 [of "Suc m" m' ?n] mult_le_mono1 [of "Suc m'" m ?n]
    by (cases "m < m'") auto
  then have "computed_points (u m') L (m' * ?n) 0 ?n (computed_points (u m) L (m * ?n) 0 ?n y) =
      computed_points (u m) L (m * ?n) 0 ?n (computed_points (u m') L (m' * ?n) 0 ?n y)" for y
    by (auto simp: computed_points_def fun_eq_iff)
  then show ?thesis using m(1,2) by (simp add: 1 2)
qed

end

section \<open>The four classes\<close>

lemma xt_spot_ok:
  assumes "0 \<le> a" and "a \<le> 1000000000"
  shows "\<exists>a'. xt_spot p d a = Some a' \<and> - CIRCLE \<le> a' \<and> a' \<le> a"
proof (cases "(lidar_type p = ''PandarXT32M1'' \<or> lidar_type p = ''PandarXT16M1'') \<and>
    fp_le (Fin (1 / 4)) d \<and> fp_lt d (Fin (17 / 4))")
  case True
  then obtain x where x: "d = Fin x" "1 / 4 \<le> x" "x < 17 / 4" by (cases d) auto
  obtain y where y: "f64 (x - 1 / 4) = Fin y" "of_int 0 \<le> y" "y \<le> of_int 4"
    using f64_between [of 0 "x - 1 / 4" 4] x(2,3) by auto
  obtain z where z: "f64 (y / (1 / 2)) = Fin z" "of_int 0 \<le> z" "z \<le> of_int 8"
    using f64_between [of 0 "y / (1 / 2)" 8] y(2,3) by auto
  obtain i where i: "fp_to_int (Fin z) = Some i" "0 \<le> i" "i \<le> 8"
    using fp_to_int_between [OF z(2,3)] by auto
  let ?i = "nat (if i > 7 then 7 else i)"
  have "?i < length spot_correction_angle" using i(2,3) by (auto simp: spot_correction_angle_def)
  then have "\<exists>w. vec_at spot_correction_angle ?i = Some w \<and> w \<in> set spot_correction_angle"
    by (simp add: vec_at_def)
  then obtain w where w: "vec_at spot_correction_angle ?i = Some w" "w \<in> set spot_correction_angle"
    by blast
  then have w256: "\<exists>n. w * 256 = word_of_int n \<and> 0 \<le> n \<and> n \<le> 6400"
    by (auto simp: spot_correction_angle_def intro: exI [of _ "768"] exI [of _ 6400] exI [of _ 5120]
        exI [of _ 3840] exI [of _ 2048] exI [of _ 1536])
  then obtain n where n: "w * 256 = word_of_int n" "0 \<le> n" "n \<le> 6400" by blast
  have "sint (word_of_int (a - n) :: u32) = a - n"
    using assms n(2,3) by (simp add: signed_of_int signed_take_bit_int_eq_self del: of_int_diff)
  then have "sint ((word_of_int a :: u32) - w * 256) = a - n" by (simp add: n(1))
  moreover have "ddiv (fp_sub f64 d (Fin (1 / 4))) (Fin (1 / 2)) = Fin z"
    using x(1) y(1) z(1) by (simp add: fp_sub_def)
  ultimately show ?thesis
    using True i w(1) n assms by (simp add: xt_spot_def nat_index_def CIRCLE_def Let_def split: if_splits)
next
  case False
  then have "xt_spot p d a = Some a" by (simp only: xt_spot_def if_False)
  then show ?thesis using assms(1) by (simp add: CIRCLE_def)
qed

interpretation p40_geo: point_geometry p40_geometry
  by unfold_locales (simp_all add: p40_geometry_def CIRCLE_def)

interpretation p64_geo: point_geometry p64_geometry
  by unfold_locales (simp_all add: p64_geometry_def CIRCLE_def)

interpretation qt_geo: point_geometry qt_geometry
  by unfold_locales (simp_all add: qt_geometry_def CIRCLE_def)

interpretation xt_geo: point_geometry xt_geometry
  by unfold_locales (simp_all add: xt_geometry_def xt_spot_ok, simp add: fun_eq_iff xt_spot_def FrameNumAdd_def)

definition ComputeXYZI_of :: "(libm \<Rightarrow> LidarDecodedFrame \<Rightarrow> int \<Rightarrow> parser \<Rightarrow>
    (int \<times> LidarDecodedFrame \<times> parser) option) \<Rightarrow> bool" where
  "ComputeXYZI_of C \<longleftrightarrow> C = p40_ComputeXYZI \<or> C = p64_ComputeXYZI \<or> C = qt_ComputeXYZI \<or>
     C = xt_ComputeXYZI"

lemma ComputeXYZI_of_cases:
  assumes "ComputeXYZI_of C"
  obtains g where "C = compute_xyzi g" and "point_geometry g"
  using assms p40_geo.point_geometry_axioms p64_geo.point_geometry_axioms
    qt_geo.point_geometry_axioms xt_geo.point_geometry_axioms
  by (auto simp: ComputeXYZI_of_def p40_ComputeXYZI_def p64_ComputeXYZI_def qt_ComputeXYZI_def
      xt_ComputeXYZI_def)


text \<open>
  The order of the packets does not matter: computing the points of two packets of a frame, by
  any of the classes, gives the same frame and the same count in both orders, so the parsing
  threads may take the packets in any order.
\<close>

theorem ComputeXYZI_order:
  assumes "ComputeXYZI_of C" and f: "sized f B L" and m: "m < 5000" "m' < 5000" "m \<noteq> m'"
    and p: "corrections_ok p L"
    and az: "\<forall>j. j < 2560000 \<longrightarrow> azimuth_ok (pd_azimuth (f_pointData f j))"
  shows "\<exists>f' p'. do { (_, f, p) \<leftarrow> C lm f (int m) p; C lm f (int m') p } = Some (0, f', p') \<and>
      do { (_, f, p) \<leftarrow> C lm f (int m') p; C lm f (int m) p } = Some (0, f', p') \<and>
      compute_packet_num p' = compute_packet_num p + 2"
proof -
  obtain g where g: "C = compute_xyzi g" "point_geometry g"
    using assms(1) by (rule ComputeXYZI_of_cases)
  have "compute_packet_num (FrameNumAdd (FrameNumAdd p)) = compute_packet_num p + 2"
    by (simp add: FrameNumAdd_def)
  then show ?thesis
    using point_geometry.commutes [OF g(2) f m p az, of lm] unfolding g(1) by blast
qed

definition libm_ex :: libm where
  "libm_ex = \<lparr> m_sin = (\<lambda>x. x), m_cos = (\<lambda>x. x), m_sinf = (\<lambda>x. x), m_cosf = (\<lambda>x. x),
     m_atanf = (\<lambda>x. x), m_asinf = (\<lambda>x. x), m_sqrtf = (\<lambda>x. x), m_tan = (\<lambda>x. x), m_tanf = (\<lambda>x. x) \<rparr>"

definition sized_ex :: LidarDecodedFrame where
  "sized_ex = frame_ex \<lparr> f_block_num := 2, f_laser_num := 1, f_per_points_num := 2 \<rparr>"

lemma sized_ex_ok: "sized sized_ex 2 1" "azimuth_ok (pd_azimuth (f_pointData sized_ex j))"
  by (simp_all add: sized_def sized_ex_def frame_ex_def LidarDecodedFrame_new_def azimuth_ok_def)

lemma parser_ex_ok: "corrections_ok parser_ex 1"
  by (simp add: corrections_ok_def parser_ex_def angle_ok_def)


theorem ComputeXYZI_order_witness:
  "\<exists>f' p'. do { (_, f, p) \<leftarrow> p40_ComputeXYZI libm_ex sized_ex 0 parser_ex; p40_ComputeXYZI libm_ex f 1 p } =
      Some (0, f', p') \<and>
    do { (_, f, p) \<leftarrow> p40_ComputeXYZI libm_ex sized_ex 1 parser_ex; p40_ComputeXYZI libm_ex f 0 p } =
      Some (0, f', p')"
proof -
  have "ComputeXYZI_of p40_ComputeXYZI" by (simp add: ComputeXYZI_of_def)
  from ComputeXYZI_order [OF this sized_ex_ok(1) _ _ _ parser_ex_ok, of 0 1 libm_ex]
  show ?thesis by (auto simp: sized_ex_ok(2))
qed

end
