(* ===== verification/Udp_Parser.thy ===== *)
theory Udp_Parser
  imports Udp_P40 Udp_P64 Udp3_1 Udp6_1 Compute_Points
begin

text \<open>
  The class \<open>UdpParser\<close> (\<open>src/libhesai/UdpParser/udp_parser.cc\<close> and \<open>udp_parser.h\<close>): it chooses
  the parser class from the version, from a packet or from a name, forwards to it, and slows the
  replay of a pcap file down to the speed of the recording.

  The virtual functions of the parser classes are a record \<open>vtable\<close>, indexed by the class;
  \<open>sdk_vtable\<close> has the classes of theories Udp\_P40, Udp\_P64, Udp3\_1 and Udp6\_1, and takes the
  others as an argument.
\<close>

datatype parser_class = P40 | P64 | V1_4 | V2_4 | V2_5 | V2_6 | V3_1 | V3_2 | V4_3 | V4_7 | V6_1 | V7_2

record vtable =
  v_new :: "parser_class \<Rightarrow> parser"
  v_DecodePacket :: "parser_class \<Rightarrow> LidarDecodedFrame \<Rightarrow> UdpPacket \<Rightarrow> parser \<Rightarrow>
    (int \<times> LidarDecodedFrame \<times> parser) option"
  v_ComputeXYZI :: "parser_class \<Rightarrow> LidarDecodedFrame \<Rightarrow> int \<Rightarrow> parser \<Rightarrow>
    (int \<times> LidarDecodedFrame \<times> parser) option"

definition sdk_vtable :: "libm \<Rightarrow> host \<Rightarrow> parser \<Rightarrow> vtable \<Rightarrow> vtable" where
  "sdk_vtable lm h mem others =
     \<lparr> v_new = (\<lambda>c. if c \<in> {P40, P64, V3_1, V6_1} then GeneralParser_new lm mem else v_new others c),
       v_DecodePacket = (\<lambda>c. case c of P40 \<Rightarrow> p40_DecodePacket h | P64 \<Rightarrow> p64_DecodePacket h
          | V3_1 \<Rightarrow> qt_DecodePacket h | V6_1 \<Rightarrow> xt_DecodePacket h | _ \<Rightarrow> v_DecodePacket others c),
       v_ComputeXYZI = (\<lambda>c. case c of P40 \<Rightarrow> p40_ComputeXYZI lm | P64 \<Rightarrow> p64_ComputeXYZI lm
          | V3_1 \<Rightarrow> qt_ComputeXYZI lm | V6_1 \<Rightarrow> xt_ComputeXYZI lm | _ \<Rightarrow> v_ComputeXYZI others c) \<rparr>"

section \<open>State\<close>

record udp_parser =
  us_parser :: "(parser_class \<times> parser) option"
  us_pcap_saver :: bool
  us_lidar_type_decoded :: string
  us_first_packet :: bool
  us_last_host_timestamp :: u64
  us_last_sensor_timestamp :: u64
  us_packet_count :: u8
  us_pcap_time_synchronization :: bool
  us_source_type :: int

definition UdpParser_new :: udp_parser where
  "UdpParser_new = \<lparr> us_parser = None, us_pcap_saver = False, us_lidar_type_decoded = [],
     us_first_packet = True, us_last_host_timestamp = 0, us_last_sensor_timestamp = 0,
     us_packet_count = 0, us_pcap_time_synchronization = True, us_source_type = -1 \<rparr>"

section \<open>Choosing the class\<close>

definition class_of_version :: "u8 \<Rightarrow> u8 \<Rightarrow> (parser_class \<times> string) option" where
  "class_of_version major minor =
     (if major = 1 then (if minor = 4 then Some (V1_4, ''Pandar128'') else None)
      else if major = 2 then
        (if minor = 4 then Some (V2_4, ''ET25-E1X'')
         else if minor = 5 then Some (V2_5, ''ET25-E2X'')
         else if minor = 6 then Some (V2_6, ''ET25'') else None)
      else if major = 3 then
        (if minor = 1 then Some (V3_1, ''PandarQT'')
         else if minor = 2 then Some (V3_2, ''PandarQT128'') else None)
      else if major = 4 then
        (if minor = 1 \<or> minor = 3 then Some (V4_3, ''AT128'')
         else if minor = 7 then Some (V4_7, ''ATX'') else None)
      else if major = 6 then (if minor = 1 then Some (V6_1, ''PandarXT'') else None)
      else if major = 7 then (if minor = 2 then Some (V7_2, ''PandarFT120'') else None)
      else None)"

definition create :: "vtable \<Rightarrow> (parser_class \<times> string) option \<Rightarrow> udp_parser \<Rightarrow> udp_parser" where
  "create vt choice s = (case choice of
      None \<Rightarrow> s
    | Some (c, name) \<Rightarrow> s \<lparr> us_parser := Some (c, v_new vt c), us_lidar_type_decoded := name \<rparr>)"

definition CreatGeneralParser_version :: "vtable \<Rightarrow> u8 \<Rightarrow> u8 \<Rightarrow> udp_parser \<Rightarrow> udp_parser" where
  "CreatGeneralParser_version vt major minor s =
     (if us_parser s \<noteq> None then s else create vt (class_of_version major minor) s)"

definition PKT_SIZE_40P :: int where "PKT_SIZE_40P = 1262"
definition PKT_SIZE_AC :: int where "PKT_SIZE_AC = 1256"
definition PKT_SIZE_64 :: int where "PKT_SIZE_64 = 1194"
definition PKT_SIZE_20 :: int where "PKT_SIZE_20 = 1270"

definition CreatGeneralParser_packet :: "vtable \<Rightarrow> UdpPacket \<Rightarrow> udp_parser \<Rightarrow> udp_parser option" where
  "CreatGeneralParser_packet vt pk s =
     (let len = up_packet_len pk in
      if us_parser s \<noteq> None then Some s
      else if len \<in> {PKT_SIZE_40P, PKT_SIZE_40P + 4, PKT_SIZE_AC, PKT_SIZE_AC + 4}
        then Some (create vt (Some (P40, ''Pandar40'')) s)
      else if len \<in> {PKT_SIZE_64, PKT_SIZE_64 + 4, PKT_SIZE_20, PKT_SIZE_20 + 4}
        then Some (create vt (Some (P64, ''Pandar64'')) s)
      else do {
        b0 \<leftarrow> ld8 (up_buffer pk) 0;
        b1 \<leftarrow> ld8 (up_buffer pk) 1;
        if b0 \<noteq> 0xEE \<or> b1 \<noteq> 0xFF then Some s
        else do {
          major \<leftarrow> ld8 (up_buffer pk) 2;
          minor \<leftarrow> ld8 (up_buffer pk) 3;
          Some (CreatGeneralParser_version vt major minor s) } })"

definition class_of_type :: "string \<Rightarrow> parser_class option" where
  "class_of_type ty =
     (if ty \<in> {''AT128'', ''AT128E2X'', ''AT128E3X''} then Some V4_3
      else if ty \<in> {''Pandar128E3X'', ''Pandar128''} then Some V1_4
      else if ty \<in> {''Pandar40S'', ''Pandar40E3X''} then Some V1_4
      else if ty \<in> {''Pandar60S'', ''Pandar64E3X''} then Some V1_4
      else if ty \<in> {''Pandar90'', ''Pandar90E3X''} then Some V1_4
      else if ty = ''PandarXT'' then Some V6_1
      else if ty \<in> {''PandarXT16'', ''PandarXT-16''} then Some V6_1
      else if ty \<in> {''PandarXT32'', ''PandarXT-32''} then Some V6_1
      else if ty \<in> {''PandarXTM'', ''XT32M2X''} then Some V6_1
      else if ty = ''PandarQT'' then Some V3_1
      else if ty \<in> {''PandarQT128'', ''QT128C2X''} then Some V3_2
      else if ty = ''Pandar64'' then Some P64
      else if ty \<in> {''Pandar40'', ''Pandar40P''} then Some P40
      else if ty \<in> {''PandarFT120'', ''FT120C1X''} then Some V7_2
      else if ty = ''ET25-E1X'' then Some V2_4
      else if ty = ''ET25-E2X'' then Some V2_5
      else if ty \<in> {''ET25'', ''ET''} then Some V2_6
      else if ty = ''ATX'' then Some V4_7
      else None)"

text \<open>The overload for a name does not set \<open>lidar_type_decoded_\<close>.\<close>

definition CreatGeneralParser_type :: "vtable \<Rightarrow> string \<Rightarrow> udp_parser \<Rightarrow> udp_parser" where
  "CreatGeneralParser_type vt ty s =
     (if us_parser s \<noteq> None then s
      else case class_of_type ty of
        None \<Rightarrow> s
      | Some c \<Rightarrow> s \<lparr> us_parser := Some (c, v_new vt c) \<rparr>)"

section \<open>Forwarding\<close>

definition us_getComputePacketNum :: "udp_parser \<Rightarrow> u32" where
  "us_getComputePacketNum s = (case us_parser s of None \<Rightarrow> 0 | Some (c, p) \<Rightarrow> compute_packet_num p)"

definition us_setComputePacketNumToZero :: "udp_parser \<Rightarrow> udp_parser" where
  "us_setComputePacketNumToZero s = (case us_parser s of None \<Rightarrow> s
     | Some (c, p) \<Rightarrow> s \<lparr> us_parser := Some (c, setComputePacketNumToZero p) \<rparr>)"

definition us_SetTransformPara :: "fp \<Rightarrow> fp \<Rightarrow> fp \<Rightarrow> fp \<Rightarrow> fp \<Rightarrow> fp \<Rightarrow> udp_parser \<Rightarrow> int \<times> udp_parser" where
  "us_SetTransformPara x y z roll pitch yaw s = (case us_parser s of None \<Rightarrow> (-1, s)
     | Some (c, p) \<Rightarrow> (0, s \<lparr> us_parser := Some (c, SetTransformPara x y z roll pitch yaw p) \<rparr>))"

definition us_SetPcapPlay :: "bool \<Rightarrow> int \<Rightarrow> udp_parser \<Rightarrow> udp_parser" where
  "us_SetPcapPlay sync ty s = s \<lparr> us_pcap_time_synchronization := sync, us_source_type := ty \<rparr>"

definition us_SetFrameAzimuth :: "fp \<Rightarrow> udp_parser \<Rightarrow> udp_parser" where
  "us_SetFrameAzimuth a s = (case us_parser s of None \<Rightarrow> s
     | Some (c, p) \<Rightarrow> s \<lparr> us_parser := Some (c, SetFrameAzimuth a p) \<rparr>)"

definition us_ComputeXYZI :: "vtable \<Rightarrow> LidarDecodedFrame \<Rightarrow> int \<Rightarrow> udp_parser \<Rightarrow>
    (int \<times> LidarDecodedFrame \<times> udp_parser) option" where
  "us_ComputeXYZI vt f packet_index s = (case us_parser s of
      None \<Rightarrow> Some (-1, f, s)
    | Some (c, p) \<Rightarrow> do {
        (res, f, p) \<leftarrow> v_ComputeXYZI vt c f packet_index p;
        Some (res, f, s \<lparr> us_parser := Some (c, p) \<rparr>) })"

section \<open>Decoding\<close>

definition kPcapPlaySynchronizationCount :: u8 where "kPcapPlaySynchronizationCount = 100"

text \<open>The speed of a replay: the second result is the time of \<open>sleep_for\<close>, in microseconds.\<close>

definition us_synchronize :: "LidarDecodedFrame \<Rightarrow> udp_parser \<Rightarrow> (int \<times> udp_parser) option" where
  "us_synchronize f s =
     (if us_first_packet s then do {
        ts \<leftarrow> get_timestamp (unat (f_packet_num f - 1)) f;
        Some (0, s \<lparr> us_last_host_timestamp := f_host_timestamp f, us_last_sensor_timestamp := ts,
                     us_packet_count := 1, us_first_packet := False \<rparr>) }
      else
        let s = s \<lparr> us_packet_count := us_packet_count s + 1 \<rparr> in
        if us_packet_count s \<ge> kPcapPlaySynchronizationCount then do {
          ts \<leftarrow> get_timestamp (unat (f_packet_num f - 1)) f;
          let reset_time = sint (ucast ((ts - us_last_sensor_timestamp s) -
                (f_host_timestamp f - us_last_host_timestamp s)) :: u32);
          Some (if reset_time > 0 then reset_time else 0,
                s \<lparr> us_last_host_timestamp := f_host_timestamp f, us_last_sensor_timestamp := ts,
                    us_packet_count := 0 \<rparr>) }
        else Some (0, s))"

definition us_DecodePacket :: "vtable \<Rightarrow> LidarDecodedFrame \<Rightarrow> UdpPacket \<Rightarrow> udp_parser \<Rightarrow>
    (int \<times> int \<times> LidarDecodedFrame \<times> udp_parser) option" where
  "us_DecodePacket vt f pk s =
     (let s = s \<lparr> us_pcap_saver := True \<rparr> in
      if up_packet_len pk < 6 then Some (-1, 0, f \<lparr> f_scan_complete := False \<rparr>, s)
      else case us_parser s of
        None \<Rightarrow> do { s \<leftarrow> CreatGeneralParser_packet vt pk s; Some (0, 0, f, s) }
      | Some (c, p) \<Rightarrow> do {
          (res, f, p) \<leftarrow> v_DecodePacket vt c f pk p;
          let s = s \<lparr> us_parser := Some (c, p) \<rparr>;
          if us_source_type s = 2 \<and> us_pcap_time_synchronization s \<and> res = 0
          then do { (t, s) \<leftarrow> us_synchronize f s; Some (res, t, f, s) }
          else Some (res, 0, f, s) })"

section \<open>Properties\<close>

definition decoded_types :: "(parser_class \<times> string) list" where
  "decoded_types = [(V1_4, ''Pandar128''), (V2_4, ''ET25-E1X''), (V2_5, ''ET25-E2X''),
     (V2_6, ''ET25''), (V3_1, ''PandarQT''), (V3_2, ''PandarQT128''), (V4_3, ''AT128''),
     (V4_7, ''ATX''), (V6_1, ''PandarXT''), (V7_2, ''PandarFT120'')]"

lemma class_of_version_types:
  "class_of_version major minor = Some x \<Longrightarrow> x \<in> set decoded_types"
  unfolding class_of_version_def by (simp only: split: if_splits) (auto simp: decoded_types_def)

lemma decoded_types_agree: "list_all (\<lambda>(c, name). class_of_type name = Some c) decoded_types"
  by code_simp

text \<open>
  The two ways to choose a parser agree: the name that a version selects (which
  \<open>GetLidarType\<close> reports) selects the same class again, for all versions.
\<close>

lemma version_name_roundtrip:
  assumes "class_of_version major minor = Some (c, name)"
  shows "class_of_type name = Some c"
  using class_of_version_types [OF assms] decoded_types_agree by (auto simp: list_all_iff)

lemma ucast_word_of_int: "(ucast (word_of_int k :: u64) :: u32) = word_of_int k"
  by (rule bit_word_eqI) (simp add: bit_simps)

lemma sint_difference:
  assumes "\<bar>int (unat a) - int (unat b)\<bar> < 2147483648"
  shows "sint (ucast ((a :: u64) - b) :: u32) = int (unat a) - int (unat b)"
proof -
  have "a - b = word_of_int (int (unat a) - int (unat b))" by simp
  then have "(ucast (a - b) :: u32) = word_of_int (int (unat a) - int (unat b))"
    by (simp only: ucast_word_of_int)
  moreover have "sint (word_of_int (int (unat a) - int (unat b)) :: u32) = int (unat a) - int (unat b)"
    using assms by (simp add: signed_of_int signed_take_bit_int_eq_self abs_less_iff del: of_int_diff)
  ultimately show ?thesis by simp
qed

text \<open>
  A replay is not faster than the recording: when the speed is checked, at the latest every
  100 packets, the time since the last check, with the sleep added, is at least the time that
  passed in the recording, and the sleep is not longer than needed. (The difference must fit an
  \<open>int\<close>, that is, be below 35 minutes.)
\<close>

theorem replay_paced:
  assumes "\<not> us_first_packet s" and "us_packet_count s + 1 \<ge> 100"
    and "get_timestamp (unat (f_packet_num f - 1)) f = Some ts"
    and d: "recorded = ts - us_last_sensor_timestamp s"
      "elapsed = f_host_timestamp f - us_last_host_timestamp s"
    and "\<bar>int (unat recorded) - int (unat elapsed)\<bar> < 2147483648"
  shows "\<exists>t s'. us_synchronize f s = Some (t, s') \<and> 0 \<le> t \<and>
     int (unat recorded) \<le> int (unat elapsed) + t \<and>
     (0 < t \<longrightarrow> int (unat recorded) = int (unat elapsed) + t) \<and>
     us_packet_count s' = 0 \<and> us_last_sensor_timestamp s' = ts \<and>
     us_last_host_timestamp s' = f_host_timestamp f"
  using assms(1-3) sint_difference [OF assms(6)]
  by (simp add: us_synchronize_def kPcapPlaySynchronizationCount_def d [symmetric] del: bind_Some_iff)

theorem replay_paced_witness:
  "\<exists>t s'. us_synchronize (frame_ex \<lparr> f_packet_num := 1, f_host_timestamp := 2000 \<rparr>
       \<lparr> f_sensor_timestamp := \<lambda>_. 5000 \<rparr>)
     (UdpParser_new \<lparr> us_first_packet := False, us_packet_count := 99 \<rparr>) = Some (t, s') \<and> t = 3000"
proof -
  let ?f = "frame_ex \<lparr> f_packet_num := 1, f_host_timestamp := 2000 \<rparr> \<lparr> f_sensor_timestamp := \<lambda>_. 5000 \<rparr>"
  let ?s = "UdpParser_new \<lparr> us_first_packet := False, us_packet_count := 99 \<rparr>"
  have "\<not> us_first_packet ?s" "us_packet_count ?s + 1 \<ge> 100"
    "get_timestamp (unat (f_packet_num ?f - 1)) ?f = Some 5000"
    "5000 = 5000 - us_last_sensor_timestamp ?s"
    "2000 = f_host_timestamp ?f - us_last_host_timestamp ?s"
    "\<bar>int (unat (5000 :: u64)) - int (unat (2000 :: u64))\<bar> < 2147483648"
    by (simp_all add: UdpParser_new_def get_timestamp_def kMaxPacketNumPerFrame_def)
  from replay_paced [OF this] show ?thesis by auto
qed

end
