(* ===== verification/Parser_Keeps.thy ===== *)
theory Parser_Keeps
  imports Udp_Parser
begin

text \<open>
  What the driver relies on of a decoder: a packet is accepted exactly when the delimiter bytes are
  the protocol's and a correction is loaded, an accepted packet counts one more packet of the frame,
  and decoding leaves the number of computed packets alone, which computing a packet raises by one.
  The lemmas follow the shape of the decoders: \<^term>\<open>results\<close> states that every result of a partial
  computation satisfies a predicate, and its rules take a \<open>do\<close> block apart.
\<close>

definition sdk_accepts :: "parser_class \<Rightarrow> UdpPacket \<Rightarrow> bool \<Rightarrow> bool" where
  "sdk_accepts c pk corrected \<longleftrightarrow> corrected \<and>
     ld8 (up_buffer pk) 0 = Some (if c = P40 then 0xFF else 0xEE) \<and>
     ld8 (up_buffer pk) 1 = Some (if c = P40 then 0xEE else 0xFF)"

lemma statistics_keep [simp]:
  "compute_packet_num (CalPktLoss tick n p) = compute_packet_num p"
  "get_correction_file (CalPktLoss tick n p) = get_correction_file p"
  "compute_packet_num (CalPktTimeLoss tick' t p) = compute_packet_num p"
  "get_correction_file (CalPktTimeLoss tick' t p) = get_correction_file p"
  by (simp_all add: CalPktLoss_def CalPktTimeLoss_def Let_def)

lemma decode_channels_keep:
  "decode_channels rd usz p buf az n i off k f = Some (k', f') \<Longrightarrow> f_packet_num f' = f_packet_num f"
  by (induction n arbitrary: i off k f) (fastforce simp: put_point_data_def split: if_splits)+

lemma decode_blocks_keep:
  "decode_blocks rd usz azo asz laser p buf n az pa k f = Some (az', f') \<Longrightarrow>
   f_packet_num f' = f_packet_num f"
  by (induction n arbitrary: az pa k f) (auto dest!: decode_channels_keep)

definition every_result :: "('p \<Rightarrow> bool) \<Rightarrow> (bool \<times> 'p) option \<Rightarrow> bool" where
  "every_result Q x \<longleftrightarrow> (\<forall>b p. x = Some (b, p) \<longrightarrow> Q p)"

lemma every_result_intros:
  "every_result Q x \<Longrightarrow> every_result Q y \<Longrightarrow> every_result Q (if c then x else y)"
  "(\<And>v. every_result Q (k v)) \<Longrightarrow> every_result Q (Option.bind m k)"
  "Q p \<Longrightarrow> every_result Q (Some (b, p))"
  by (auto simp: every_result_def)

definition keeps :: "(u16 \<Rightarrow> parser \<Rightarrow> (bool \<times> parser) option) \<Rightarrow> bool" where
  "keeps split \<longleftrightarrow> (\<forall>az p. every_result (\<lambda>p'. compute_packet_num p' = compute_packet_num p \<and>
     get_correction_file p' = get_correction_file p) (split az p))"

lemma start_in_range_keep [simp]:
  "compute_packet_num (start_in_range p) = compute_packet_num p"
  "get_correction_file (start_in_range p) = get_correction_file p"
  by (simp_all add: start_in_range_def)

lemma split_keep:
  "keeps p40_IsNeedFrameSplit" "keeps p64_IsNeedFrameSplit"
  "keeps qt_IsNeedFrameSplit" "keeps xt_IsNeedFrameSplit"
proof -
  show 1: "keeps p40_IsNeedFrameSplit"
    unfolding keeps_def p40_IsNeedFrameSplit_def Let_def by (intro allI every_result_intros) simp_all
  show 2: "keeps p64_IsNeedFrameSplit"
    unfolding keeps_def p64_IsNeedFrameSplit_def Let_def by (intro allI every_result_intros) simp_all
  show "keeps qt_IsNeedFrameSplit" "keeps xt_IsNeedFrameSplit"
    using 1 2 by (simp_all add: qt_IsNeedFrameSplit_def xt_IsNeedFrameSplit_def)
qed

lemma move_azimuth_keep [simp]:
  "compute_packet_num (move_azimuth az p) = compute_packet_num p"
  "get_correction_file (move_azimuth az p) = get_correction_file p"
  by (simp_all add: move_azimuth_def)

lemma decode_body_keep:
  assumes "decode_body rd usz azo asz split laser block buf pa f p = Some (res, f', p')" "keeps split"
  shows "res = 0 \<and> f_packet_num f' = f_packet_num f + 1 \<and>
     compute_packet_num p' = compute_packet_num p \<and> get_correction_file p' = get_correction_file p"
proof -
  obtain az f1 where 1: "decode_blocks rd usz azo asz (unat laser) p buf (unat block) 0 pa
      (first_index (f_packet_num f) block laser) f = Some (az, f1)"
    and 2: "finish_packet split az f1 p = Some (f', p')" "res = 0"
    using assms(1) by (auto simp: decode_body_def)
  then obtain b p1 where 3: "split az p = Some (b, p1)" "p' = move_azimuth az p1"
    "f_packet_num f' = f_packet_num f1 + 1"
    by (auto simp: finish_packet_def split_and_move_def)
  then show ?thesis using assms(2) decode_blocks_keep [OF 1] 2(2)
    unfolding keeps_def every_result_def by fastforce
qed

lemma put_timestamp_keep: "put_timestamp i t f = Some f' \<Longrightarrow> f_packet_num f' = f_packet_num f"
  by (auto simp: put_timestamp_def split: if_splits)

definition kept :: "bool \<Rightarrow> LidarDecodedFrame \<Rightarrow> parser \<Rightarrow> int \<times> LidarDecodedFrame \<times> parser \<Rightarrow> bool" where
  "kept acc f p = (\<lambda>(res, f', p'). (res = 0 \<longleftrightarrow> acc) \<and>
     f_packet_num f' = f_packet_num f + (if res = 0 then 1 else 0) \<and>
     compute_packet_num p' = compute_packet_num p \<and> get_correction_file p' = get_correction_file p)"

definition results :: "('a \<Rightarrow> bool) \<Rightarrow> 'a option \<Rightarrow> bool" where
  "results Q x \<longleftrightarrow> (\<forall>r. x = Some r \<longrightarrow> Q r)"

lemma results_if: "(c \<Longrightarrow> results Q x) \<Longrightarrow> (\<not> c \<Longrightarrow> results Q y) \<Longrightarrow> results Q (if c then x else y)"
  by simp

lemma results_bind: "(\<And>v. m = Some v \<Longrightarrow> results Q (k v)) \<Longrightarrow> results Q (Option.bind m k)"
  by (cases m) (auto simp: results_def)

lemma results_rejected: "\<not> acc \<Longrightarrow> results (kept acc f p) (Some (-1, f, p))"
  by (simp add: results_def kept_def)

lemma results_body:
  assumes "keeps split" "acc" "f_packet_num g = f_packet_num f"
    "compute_packet_num q = compute_packet_num p" "get_correction_file q = get_correction_file p"
  shows "results (kept acc f p) (decode_body rd usz azo asz split laser block buf pa g q)"
  using assms by (auto simp: results_def kept_def dest!: decode_body_keep)

lemmas results_rules = results_if results_bind results_rejected results_body

lemma p40_keep: "results (kept (sdk_accepts P40 pk (get_correction_file p)) f p) (p40_DecodePacket h f pk p)"
  unfolding p40_DecodePacket_def Let_def
  by (intro results_rules split_keep) (auto simp: sdk_accepts_def dest: put_timestamp_keep)

lemma p64_keep: "results (kept (sdk_accepts P64 pk (get_correction_file p)) f p) (p64_DecodePacket h f pk p)"
  unfolding p64_DecodePacket_def Let_def
  by (intro results_rules split_keep) (auto simp: sdk_accepts_def dest: put_timestamp_keep)

lemma qt_keep: "results (kept (sdk_accepts V3_1 pk (get_correction_file p)) f p) (qt_DecodePacket h f pk p)"
  unfolding qt_DecodePacket_def Let_def
  by (intro results_rules split_keep) (auto simp: sdk_accepts_def dest: put_timestamp_keep)

lemma xt_keep: "results (kept (sdk_accepts V6_1 pk (get_correction_file p)) f p) (xt_DecodePacket h f pk p)"
  unfolding xt_DecodePacket_def Let_def
  by (intro results_rules split_keep) (auto simp: sdk_accepts_def dest: put_timestamp_keep)

lemma compute_channels_keep:
  "compute_channels upd m b n i f = Some f' \<Longrightarrow> f_packet_num f' = f_packet_num f"
  by (induction n arbitrary: i f) (fastforce simp: put_point_def split: if_splits)+

lemma compute_blocks_keep:
  "compute_blocks blk m n b f = Some f' \<Longrightarrow> f_packet_num f' = f_packet_num f"
  by (induction n arbitrary: b f) (fastforce dest!: compute_channels_keep split: option.splits)+

lemma compute_keep:
  "compute_xyzi g lm f i p = Some (res, f', p') \<Longrightarrow>
   f_packet_num f' = f_packet_num f \<and> compute_packet_num p' = compute_packet_num p + 1 \<and>
   get_correction_file p' = get_correction_file p"
  by (auto simp: compute_xyzi_def FrameNumAdd_def dest!: compute_blocks_keep)

lemmas decoders_keep = p40_keep p64_keep qt_keep xt_keep
lemmas computes_keep = p40_ComputeXYZI_def p64_ComputeXYZI_def qt_ComputeXYZI_def xt_ComputeXYZI_def


end
