(* ===== verification/Driver.thy ===== *)
theory Driver
  imports Parser_Keeps
begin

text \<open>
  The frame loop of the SDK: \<open>HesaiLidarSdk::Run\<close> (\<open>src/driver/hesai_lidar_sdk.hpp\<close>), which takes
  the packets one by one, decodes them into the frame and closes the frame when the decoder says
  so, and \<open>Lidar::ParserThread\<close> (\<open>src/libhesai/Lidar/lidar.cc\<close>), which computes the points of the
  decoded packets. The two threads share the frame, the queue \<open>decoded_packets_buffer_\<close> of packet
  indices (theory Blocking\_Ring) and the counter \<open>compute_packet_num\<close>.

  The model is a step relation: a packet is handled by the main thread, the main thread passes
  its wait for the points, the parser thread takes an index, and the parser thread computes the
  points of one packet. It is that of one parsing thread (\<open>handle_thread_count_ < 2\<close>). The queue
  holds 36000 indices, more than the 5000 packets of a frame, so that \<open>push_back\<close> does not block;
  the callbacks are the list of published frames.
\<close>

section \<open>State\<close>

record driver_param =
  device_ip_address :: u32
  device_udp_port :: u16
  point_cloud_ready :: bool

record driver =
  d_frame :: LidarDecodedFrame
  d_udp :: udp_parser
  d_decoded :: "int list"
  d_working :: "int option"
  d_packet_index :: u32
  d_udp_packets :: "UdpPacket list"
  d_wait :: "(UdpPacket \<times> bool) option"
  d_published :: "(LidarDecodedFrame \<times> UdpPacket list) list"

definition kFaultMessageLength :: int where "kFaultMessageLength = 99"
definition kMinPointsOfOneFrame :: u32 where "kMinPointsOfOneFrame = 1000"

section \<open>The main thread\<close>

text \<open>\<open>Lidar::ComputeXYZI\<close> and the three lines after each of its calls.\<close>

definition add_packet :: "UdpPacket \<Rightarrow> driver \<Rightarrow> driver" where
  "add_packet pk d = d \<lparr> d_decoded := d_decoded d @ [sint (d_packet_index d)],
     d_frame := d_frame d \<lparr> f_points_num := f_points_num (d_frame d) + f_per_points_num (d_frame d) \<rparr>,
     d_udp_packets := d_udp_packets d @ [pk],
     d_packet_index := d_packet_index d + 1 \<rparr>"

text \<open>A frame of 5000 packets is given up.\<close>

definition give_up_frame :: "driver \<Rightarrow> driver" where
  "give_up_frame d = d \<lparr> d_packet_index := 0, d_udp_packets := [], d_decoded := [],
     d_frame := frame_Update (d_frame d) \<rparr>"

text \<open>
  One iteration of the loop with the packet \<open>pk\<close>, up to the wait. A fault message changes nothing
  here; a packet of another device is dropped.
\<close>

definition run_packet :: "vtable \<Rightarrow> driver_param \<Rightarrow> UdpPacket \<Rightarrow> driver \<Rightarrow> driver option" where
  "run_packet vt prm pk d =
     (if up_packet_len pk = kFaultMessageLength then Some d
      else if \<not> point_cloud_ready prm then Some d
      else if device_udp_port prm \<noteq> 0 \<and> (\<not> up_is_timeout pk \<or> d_packet_index d = 0) \<and>
              (device_ip_address prm \<noteq> up_ip pk \<or> device_udp_port prm \<noteq> up_port pk) then Some d
      else do {
        (ret, _, f, u) \<leftarrow> us_DecodePacket vt (d_frame d) pk (d_udp d);
        let d = d \<lparr> d_frame := f, d_udp := u \<rparr>;
        if ret \<noteq> 0 then Some d
        else if f_scan_complete f
          then Some (d \<lparr> d_frame := f \<lparr> f_packet_num := d_packet_index d \<rparr>,
                         d_wait := Some (pk, f_packet_num f \<noteq> d_packet_index d) \<rparr>)
        else
          (let d = (if f_packet_num f \<noteq> d_packet_index d then add_packet pk d else d)
           in Some (if d_packet_index d \<ge> word_of_nat kMaxPacketNumPerFrame then give_up_frame d else d)) })"

text \<open>\<open>Lidar::ComputeXYZIComplete\<close>\<close>

definition ComputeXYZIComplete :: "u32 \<Rightarrow> udp_parser \<Rightarrow> bool \<times> udp_parser" where
  "ComputeXYZIComplete index u =
     (if us_getComputePacketNum u = index then (True, us_setComputePacketNumToZero u) else (False, u))"

text \<open>After the wait: publish, reset, and begin the next frame with the packet that ended this one.\<close>

definition run_complete :: "vtable \<Rightarrow> UdpPacket \<Rightarrow> bool \<Rightarrow> driver \<Rightarrow> driver option" where
  "run_complete vt pk last_packet_is_valid d =
     (let d = (if f_points_num (d_frame d) > kMinPointsOfOneFrame
               then d \<lparr> d_published := d_published d @ [(d_frame d, d_udp_packets d)] \<rparr> else d);
          d = d \<lparr> d_frame := frame_Update (d_frame d), d_udp_packets := [], d_packet_index := 0,
                  d_wait := None \<rparr>
      in if last_packet_is_valid then do {
           (_, _, f, u) \<leftarrow> us_DecodePacket vt (d_frame d) pk (d_udp d);
           Some (add_packet pk (d \<lparr> d_frame := f, d_udp := u \<rparr>)) }
         else Some d)"

lemma run_complete_valid:
  "run_complete vt pk True d = do {
     (_, _, f, u) \<leftarrow> us_DecodePacket vt (frame_Update (d_frame d)) pk (d_udp d);
     Some (add_packet pk (d \<lparr> d_published := d_published d @
         (if f_points_num (d_frame d) > kMinPointsOfOneFrame then [(d_frame d, d_udp_packets d)] else []),
       d_udp_packets := [], d_packet_index := 0, d_wait := None, d_frame := f, d_udp := u \<rparr>)) }"
  by (cases "f_points_num (d_frame d) > kMinPointsOfOneFrame") (simp_all add: run_complete_def Let_def)

section \<open>Both threads\<close>

inductive dstep :: "vtable \<Rightarrow> driver_param \<Rightarrow> driver \<Rightarrow> driver \<Rightarrow> bool"
  for vt :: vtable and prm :: driver_param where
  receives: "d_wait d = None \<Longrightarrow> run_packet vt prm pk d = Some d' \<Longrightarrow> dstep vt prm d d'"
| completes: "d_wait d = Some (pk, valid) \<Longrightarrow>
    ComputeXYZIComplete (d_packet_index d) (d_udp d) = (True, u) \<Longrightarrow>
    run_complete vt pk valid (d \<lparr> d_udp := u \<rparr>) = Some d' \<Longrightarrow> dstep vt prm d d'"
| takes: "d_working d = None \<Longrightarrow> d_decoded d = i # q \<Longrightarrow>
    dstep vt prm d (d \<lparr> d_working := Some i, d_decoded := q \<rparr>)"
| computes: "d_working d = Some i \<Longrightarrow>
    us_ComputeXYZI vt (d_frame d) i (d_udp d) = Some (r, f, u) \<Longrightarrow>
    dstep vt prm d (d \<lparr> d_working := None, d_frame := f, d_udp := u \<rparr>)"

text \<open>Runs in which no frame is given up.\<close>

definition gives_up :: "driver \<Rightarrow> driver \<Rightarrow> bool" where
  "gives_up d d' \<longleftrightarrow> d_wait d = None \<and> unat (d_packet_index d) = 4999 \<and>
     d_packet_index d' \<noteq> d_packet_index d"

inductive drun :: "vtable \<Rightarrow> driver_param \<Rightarrow> driver \<Rightarrow> driver \<Rightarrow> bool"
  for vt :: vtable and prm :: driver_param where
  none: "drun vt prm d d"
| more: "drun vt prm d d' \<Longrightarrow> dstep vt prm d' d'' \<Longrightarrow> \<not> gives_up d' d'' \<Longrightarrow> drun vt prm d d''"

section \<open>What the loop needs of the parser classes\<close>

text \<open>
  \<open>accepts\<close> says which packets a class decodes. The contract: a decoded packet is counted in the
  frame and a rejected one is not; decoding leaves the counter of computed packets alone, and
  computing the points of a packet counts it. It is asked of the classes in \<open>known\<close>.
\<close>

definition known :: "parser_class set" where
  "known = {P40, P64, V3_1, V6_1}"

locale parser_contract =
  fixes vt :: vtable and accepts :: "parser_class \<Rightarrow> UdpPacket \<Rightarrow> bool \<Rightarrow> bool"
  assumes decode: "c \<in> known \<Longrightarrow> v_DecodePacket vt c f pk p = Some (res, f', p') \<Longrightarrow>
      (res = 0 \<longleftrightarrow> accepts c pk (get_correction_file p)) \<and>
      f_packet_num f' = f_packet_num f + (if res = 0 then 1 else 0) \<and>
      compute_packet_num p' = compute_packet_num p \<and>
      get_correction_file p' = get_correction_file p"
    and compute: "c \<in> known \<Longrightarrow> v_ComputeXYZI vt c f i p = Some (res, f', p') \<Longrightarrow>
      f_packet_num f' = f_packet_num f \<and> compute_packet_num p' = compute_packet_num p + 1 \<and>
      get_correction_file p' = get_correction_file p"

text \<open>The packets of the frame whose points are still to be computed, the oldest first.\<close>

definition pending :: "driver \<Rightarrow> int list" where
  "pending d = (case d_working d of None \<Rightarrow> [] | Some i \<Rightarrow> [i]) @ d_decoded d"

definition last_indices :: "nat \<Rightarrow> int list \<Rightarrow> bool" where
  "last_indices n xs \<longleftrightarrow> length xs \<le> n \<and> xs = map int [n - length xs ..< n]"

lemma last_indices_Nil [simp]: "last_indices n []"
  by (simp add: last_indices_def)

lemma last_indices_snoc: "last_indices n xs \<Longrightarrow> last_indices (Suc n) (xs @ [int n])"
  by (simp add: last_indices_def)

lemma last_indices_tl: "last_indices n (x # xs) \<Longrightarrow> last_indices n xs"
proof -
  assume a: "last_indices n (x # xs)"
  then have l: "Suc (length xs) \<le> n" and e: "x # xs = map int [n - Suc (length xs) ..< n]"
    by (simp_all add: last_indices_def)
  have "[n - Suc (length xs) ..< n] = (n - Suc (length xs)) # [n - length xs ..< n]"
    using l by (simp add: upt_conv_Cons Suc_diff_Suc)
  then show ?thesis using l e by (simp add: last_indices_def)
qed

text \<open>
  The invariant. \<open>k\<close> is the error of the counter: 0 from the start on, and larger after a frame
  was given up. The pending packets are the last ones of the frame, and the counter has the
  others (and \<open>k\<close> more). A packet that the main thread waits with will be accepted again.
\<close>

definition dinv :: "(parser_class \<Rightarrow> UdpPacket \<Rightarrow> bool \<Rightarrow> bool) \<Rightarrow> nat \<Rightarrow> driver \<Rightarrow> bool" where
  "dinv accepts k d \<longleftrightarrow>
     (\<exists>c p. us_parser (d_udp d) = Some (c, p) \<and> c \<in> known \<and>
        unat (compute_packet_num p) + length (pending d) = unat (d_packet_index d) + k \<and>
        (case d_wait d of None \<Rightarrow> True
         | Some (pk, valid) \<Rightarrow> valid \<and> 6 \<le> up_packet_len pk \<and> accepts c pk (get_correction_file p))) \<and>
     last_indices (unat (d_packet_index d)) (pending d) \<and>
     f_packet_num (d_frame d) = d_packet_index d \<and> unat (d_packet_index d) < 5000 \<and> k \<le> 5000"

context parser_contract
begin

lemma us_decode:
  assumes "us_DecodePacket vt f pk u = Some (res, t, f', u')" and "us_parser u = Some (c, p)"
    and "c \<in> known"
  shows "\<exists>p'. us_parser u' = Some (c, p') \<and> compute_packet_num p' = compute_packet_num p \<and>
     get_correction_file p' = get_correction_file p \<and>
     (res = 0 \<longleftrightarrow> 6 \<le> up_packet_len pk \<and> accepts c pk (get_correction_file p)) \<and>
     f_packet_num f' = f_packet_num f + (if res = 0 then 1 else 0)"
proof (cases "up_packet_len pk < 6")
  case True
  then show ?thesis using assms by (auto simp: us_DecodePacket_def Let_def)
next
  case False
  then obtain f1 p1 where d: "v_DecodePacket vt c f pk p = Some (res, f1, p1)"
    and r: "f' = f1" "us_parser u' = Some (c, p1)"
    using assms(1,2)
    by (auto simp: us_DecodePacket_def us_synchronize_def Let_def split: if_splits)
  then show ?thesis using decode [OF assms(3) d] False by auto
qed

lemma add_packet_inv:
  assumes "us_parser (d_udp d) = Some (c, p)" "c \<in> known" "d_wait d = None"
    and "unat (compute_packet_num p) + length (pending d) = unat (d_packet_index d) + k"
    and "last_indices (unat (d_packet_index d)) (pending d)"
    and "f_packet_num (d_frame d) = d_packet_index d + 1" and n: "unat (d_packet_index d) < 4999"
    and "k \<le> 5000"
  shows "dinv accepts k (add_packet pk d)"
proof -
  have n': "unat (d_packet_index d + 1) = Suc (unat (d_packet_index d))"
    using n by (simp add: unat_word_ariths)
  have "sint (d_packet_index d) = int (unat (d_packet_index d))"
    using sint_u32_small [of "unat (d_packet_index d)"] n by simp
  then have q: "pending (add_packet pk d) = pending d @ [int (unat (d_packet_index d))]"
    by (simp add: pending_def add_packet_def)
  then have l: "last_indices (unat (d_packet_index (add_packet pk d))) (pending (add_packet pk d))"
    using last_indices_snoc [OF assms(5)] n' by (simp add: add_packet_def)
  show ?thesis
    unfolding dinv_def
    using l assms(1-4,6,8) n n' q by (intro conjI) (auto simp: add_packet_def)
qed

lemma receives_inv:
  assumes inv: "dinv accepts k d" and w: "d_wait d = None"
    and stay: "unat (d_packet_index d) < 4999 \<or> d_packet_index d' = d_packet_index d"
    and run: "run_packet vt prm pk d = Some d'"
  shows "dinv accepts k d'"
proof (cases "d' = d")
  case False
  obtain c p where c: "us_parser (d_udp d) = Some (c, p)" "c \<in> known"
    "unat (compute_packet_num p) + length (pending d) = unat (d_packet_index d) + k"
    using inv by (auto simp: dinv_def)
  obtain res t f u where dec: "us_DecodePacket vt (d_frame d) pk (d_udp d) = Some (res, t, f, u)"
    and d': "d' = (let d = d \<lparr> d_frame := f, d_udp := u \<rparr> in
        if res \<noteq> 0 then d
        else if f_scan_complete f
          then d \<lparr> d_frame := f \<lparr> f_packet_num := d_packet_index d \<rparr>,
                   d_wait := Some (pk, f_packet_num f \<noteq> d_packet_index d) \<rparr>
        else (let d = (if f_packet_num f \<noteq> d_packet_index d then add_packet pk d else d)
           in if d_packet_index d \<ge> word_of_nat kMaxPacketNumPerFrame then give_up_frame d else d))"
    using run False by (auto simp: run_packet_def Let_def split: if_splits)
  have fn: "f_packet_num (d_frame d) = d_packet_index d" using inv by (simp add: dinv_def)
  obtain p' where p': "us_parser u = Some (c, p')" "compute_packet_num p' = compute_packet_num p"
    "get_correction_file p' = get_correction_file p"
    "res = 0 \<longleftrightarrow> 6 \<le> up_packet_len pk \<and> accepts c pk (get_correction_file p)"
    "f_packet_num f = d_packet_index d + (if res = 0 then 1 else 0)"
    using us_decode [OF dec c(1,2)] unfolding fn by blast
  have i: "last_indices (unat (d_packet_index d)) (pending d)" "k \<le> 5000"
    using inv by (simp_all add: dinv_def)
  have ne: "d_packet_index d + 1 \<noteq> d_packet_index d" by simp
  have n: "unat (d_packet_index d) < 5000" using inv by (simp add: dinv_def)
  let ?d = "d \<lparr> d_frame := f, d_udp := u \<rparr>"
  consider "res \<noteq> 0" | "res = 0" "f_scan_complete f" | "res = 0" "\<not> f_scan_complete f" by blast
  then show ?thesis
  proof cases
    case 1
    then have "d' = ?d" using d' by simp
    then show ?thesis using 1 p' c i w n by (simp add: dinv_def pending_def)
  next
    case 2
    then have "d' = d \<lparr> d_frame := f \<lparr> f_packet_num := d_packet_index d \<rparr>, d_udp := u,
        d_wait := Some (pk, True) \<rparr>"
      using d' p'(5) by simp
    then show ?thesis using 2 p' c i n by (simp add: dinv_def pending_def)
  next
    case 3
    then have d'': "d' = (if d_packet_index d + 1 \<ge> word_of_nat kMaxPacketNumPerFrame
        then give_up_frame (add_packet pk ?d) else add_packet pk ?d)"
      using d' p'(5) by (simp add: Let_def add_packet_def)
    have n: "unat (d_packet_index d) < 4999"
    proof (rule ccontr)
      assume "\<not> ?thesis"
      then have "unat (d_packet_index d) = 4999" using n by simp
      then have "d_packet_index d = 4999" by (simp add: word_unat_eq_iff)
      then show False using d'' stay by (simp add: kMaxPacketNumPerFrame_def give_up_frame_def)
    qed
    then have "\<not> word_of_nat kMaxPacketNumPerFrame \<le> d_packet_index d + 1"
      by (simp add: word_le_nat_alt unat_word_ariths kMaxPacketNumPerFrame_def)
    then have "d' = add_packet pk ?d" using d'' by simp
    moreover have "dinv accepts k (add_packet pk ?d)"
      using 3 p' c i w n by (intro add_packet_inv [of _ c p']) (simp_all add: pending_def)
    ultimately show ?thesis by simp
  qed
qed (use inv in simp)

lemma takes_inv:
  assumes "dinv accepts k d" and "d_working d = None" and "d_decoded d = i # q"
  shows "dinv accepts k (d \<lparr> d_working := Some i, d_decoded := q \<rparr>)"
proof -
  have "pending (d \<lparr> d_working := Some i, d_decoded := q \<rparr>) = pending d"
    using assms(2,3) by (simp add: pending_def)
  then show ?thesis using assms(1) by (simp add: dinv_def)
qed

lemma computes_inv:
  assumes inv: "dinv accepts k d" and w: "d_working d = Some i"
    and run: "us_ComputeXYZI vt (d_frame d) i (d_udp d) = Some (r, f, u)"
  shows "dinv accepts k (d \<lparr> d_working := None, d_frame := f, d_udp := u \<rparr>)"
proof -
  obtain c p where c: "us_parser (d_udp d) = Some (c, p)" "c \<in> known"
    "unat (compute_packet_num p) + length (pending d) = unat (d_packet_index d) + k"
    "case d_wait d of None \<Rightarrow> True
         | Some (pk, valid) \<Rightarrow> valid \<and> 6 \<le> up_packet_len pk \<and> accepts c pk (get_correction_file p)"
    using inv by (auto simp: dinv_def)
  obtain p' where v: "v_ComputeXYZI vt c (d_frame d) i p = Some (r, f, p')"
    and u: "us_parser u = Some (c, p')"
    using run c(1) by (auto simp: us_ComputeXYZI_def)
  have cp: "f_packet_num f = f_packet_num (d_frame d)"
    "compute_packet_num p' = compute_packet_num p + 1"
    and gc: "get_correction_file p' = get_correction_file p"
    using compute [OF c(2) v] by simp_all
  have q: "pending d = i # d_decoded d" using w by (simp add: pending_def)
  have i: "unat (d_packet_index d) < 5000" "k \<le> 5000"
    "last_indices (unat (d_packet_index d)) (pending d)"
    "f_packet_num (d_frame d) = d_packet_index d"
    using inv by (simp_all add: dinv_def)
  have "unat (compute_packet_num p) < 10000" using c(3) i(1,2) by linarith
  then have n: "unat (compute_packet_num p + 1) = Suc (unat (compute_packet_num p))"
    by (simp add: unat_word_ariths)
  have "last_indices (unat (d_packet_index d)) (d_decoded d)"
    using last_indices_tl i(3) unfolding q by blast
  moreover have "unat (compute_packet_num p') + length (d_decoded d) = unat (d_packet_index d) + k"
    using c(3) cp n by (simp add: q)
  ultimately show ?thesis
    using c(2) c(4) [folded gc] u cp(1) i by (simp add: dinv_def pending_def)
qed

text \<open>With an exact counter, the main thread passes its wait only when nothing is pending.\<close>

lemma completes_pending:
  assumes inv: "dinv accepts 0 d" and "fst (ComputeXYZIComplete (d_packet_index d) (d_udp d))"
  shows "pending d = []"
proof -
  obtain c p where c: "us_parser (d_udp d) = Some (c, p)"
    "unat (compute_packet_num p) + length (pending d) = unat (d_packet_index d)"
    using inv by (auto simp: dinv_def)
  have "compute_packet_num p = d_packet_index d"
    using assms(2) c(1)
    by (simp add: ComputeXYZIComplete_def us_getComputePacketNum_def split: if_splits)
  then show ?thesis using c(2) by simp
qed

lemma completes_inv:
  assumes inv: "dinv accepts 0 d" and w: "d_wait d = Some (pk, valid)"
    and cmp: "ComputeXYZIComplete (d_packet_index d) (d_udp d) = (True, u)"
    and run: "run_complete vt pk valid (d \<lparr> d_udp := u \<rparr>) = Some d'"
  shows "dinv accepts 0 d'"
proof -
  obtain c p where c: "us_parser (d_udp d) = Some (c, p)" "c \<in> known"
    "valid" "6 \<le> up_packet_len pk" "accepts c pk (get_correction_file p)"
    using inv w by (auto simp: dinv_def)
  have q: "pending d = []" using completes_pending [OF inv] cmp by simp
  let ?p = "setComputePacketNumToZero p"
  have u: "us_parser u = Some (c, ?p)"
    using cmp c(1)
    by (auto simp: ComputeXYZIComplete_def us_setComputePacketNumToZero_def split: if_splits)
  let ?f = "frame_Update (d_frame d)"
  obtain res t f u' pub where dec: "us_DecodePacket vt ?f pk u = Some (res, t, f, u')"
    and pub: "d' = add_packet pk (d \<lparr> d_published := pub, d_udp_packets := [], d_packet_index := 0,
        d_wait := None, d_frame := f, d_udp := u' \<rparr>)"
    using run c(3) by (auto simp: run_complete_valid)
  obtain p' where p': "us_parser u' = Some (c, p')" "compute_packet_num p' = compute_packet_num ?p"
    "res = 0 \<longleftrightarrow> 6 \<le> up_packet_len pk \<and> accepts c pk (get_correction_file ?p)"
    "f_packet_num f = f_packet_num ?f + (if res = 0 then 1 else 0)"
    using us_decode [OF dec u c(2)] by blast
  have "f_packet_num f = 1"
    using p'(3,4) c(4,5) by (simp add: frame_Update_def setComputePacketNumToZero_def)
  moreover have "compute_packet_num p' = 0" using p'(2) by (simp add: setComputePacketNumToZero_def)
  ultimately show ?thesis
    unfolding pub using p'(1) c(2) q
    by (intro add_packet_inv [of _ c p']) (simp_all add: pending_def)
qed

text \<open>A step that gives up a frame is the only one that can break the invariant.\<close>

lemma step_inv:
  assumes inv: "dinv accepts k d" and step: "dstep vt prm d d'" and g: "\<not> gives_up d d'"
    and k: "k = 0 \<or> d_wait d = None \<or> length (pending d) < k"
  shows "dinv accepts k d' \<and> (0 < k \<and> d_wait d \<noteq> None \<longrightarrow> d_wait d' = d_wait d \<and>
    length (pending d') \<le> length (pending d))"
  using step
proof (cases rule: dstep.cases)
  case (receives pk)
  have "unat (d_packet_index d) < 5000" using inv by (simp add: dinv_def)
  then have "unat (d_packet_index d) < 4999 \<or> d_packet_index d' = d_packet_index d"
    using g receives(1) by (auto simp: gives_up_def)
  then show ?thesis using receives_inv [OF inv receives(1) _ receives(2)] receives(1) by simp
next
  case (completes pk valid u)
  have "k = 0"
  proof (rule ccontr)
    assume "k \<noteq> 0"
    then have l: "length (pending d) < k" using k completes(1) by simp
    obtain c p where c: "us_parser (d_udp d) = Some (c, p)"
      "unat (compute_packet_num p) + length (pending d) = unat (d_packet_index d) + k"
      using inv by (auto simp: dinv_def)
    have "compute_packet_num p = d_packet_index d"
      using completes(2) c(1)
      by (simp add: ComputeXYZIComplete_def us_getComputePacketNum_def split: if_splits)
    then show False using c(2) l by simp
  qed
  then show ?thesis using completes_inv [of d pk valid u d'] inv completes by simp
next
  case (takes i q)
  then show ?thesis using takes_inv [OF inv takes(2,3)] by (simp add: pending_def)
next
  case (computes i r f u)
  then show ?thesis using computes_inv [OF inv computes(2,3)] by (simp add: pending_def)
qed

lemma run_inv:
  assumes "drun vt prm d d'" and "dinv accepts 0 d"
  shows "dinv accepts 0 d'"
  using assms by (induction rule: drun.induct) (use step_inv [of 0] in blast)+

lemma run_waits:
  assumes "drun vt prm d d'" and "dinv accepts k d" and "0 < k" and "length (pending d) < k"
    and "d_wait d \<noteq> None"
  shows "d_wait d' = d_wait d \<and> dinv accepts k d' \<and> length (pending d') < k"
  using assms
proof (induction rule: drun.induct)
  case (more d d' d'')
  then have "d_wait d' = d_wait d" "dinv accepts k d'" "length (pending d') < k" by auto
  then show ?case using step_inv [of k d' prm d''] more by auto
qed auto

end

section \<open>The modelled classes keep the contract\<close>

interpretation sdk: parser_contract "sdk_vtable lm h mem others" sdk_accepts for lm h mem others
proof
  fix c f pk p res f' p'
  assume "c \<in> known" "v_DecodePacket (sdk_vtable lm h mem others) c f pk p = Some (res, f', p')"
  then have "kept (sdk_accepts c pk (get_correction_file p)) f p (res, f', p')"
    using decoders_keep by (auto simp: known_def sdk_vtable_def results_def)
  then show "(res = 0 \<longleftrightarrow> sdk_accepts c pk (get_correction_file p)) \<and>
      f_packet_num f' = f_packet_num f + (if res = 0 then 1 else 0) \<and>
      compute_packet_num p' = compute_packet_num p \<and> get_correction_file p' = get_correction_file p"
    by (simp add: kept_def)
next
  fix c f i p res f' p'
  assume "c \<in> known" "v_ComputeXYZI (sdk_vtable lm h mem others) c f i p = Some (res, f', p')"
  then show "f_packet_num f' = f_packet_num f \<and> compute_packet_num p' = compute_packet_num p + 1 \<and>
      get_correction_file p' = get_correction_file p"
    by (auto simp: known_def sdk_vtable_def computes_keep dest!: compute_keep)
qed

section \<open>Correctness of the frame loop\<close>

text \<open>The state in which \<open>Run\<close> enters its loop.\<close>

definition driver_new :: "LidarDecodedFrame \<Rightarrow> udp_parser \<Rightarrow> driver" where
  "driver_new f u = \<lparr> d_frame = f, d_udp = u, d_decoded = [], d_working = None, d_packet_index = 0,
     d_udp_packets = [], d_wait = None, d_published = [] \<rparr>"

lemma driver_new_inv:
  assumes "us_parser u = Some (c, p)" "c \<in> known" "compute_packet_num p = 0" "f_packet_num f = 0"
  shows "dinv accepts 0 (driver_new f u)"
  using assms by (simp add: dinv_def driver_new_def pending_def)

lemma exact_counter:
  assumes "dinv accepts 0 d"
  shows "fst (ComputeXYZIComplete (d_packet_index d) (d_udp d)) \<longleftrightarrow> pending d = []"
proof -
  obtain c p where c: "us_parser (d_udp d) = Some (c, p)"
    "unat (compute_packet_num p) + length (pending d) = unat (d_packet_index d)"
    using assms by (auto simp: dinv_def)
  have "compute_packet_num p = d_packet_index d \<longleftrightarrow> pending d = []"
    using c(2) by (auto simp: word_unat_eq_iff)
  then show ?thesis
    using c(1) by (simp add: ComputeXYZIComplete_def us_getComputePacketNum_def)
qed

text \<open>
  C27. In every interleaving of the main thread and the parser thread from the start of \<open>Run\<close> on in
  which no frame is given up, the test of the wait (\<open>ComputeXYZIComplete\<close>) holds exactly when the
  points of all packets of the frame have been computed: no frame is published with points missing,
  and none is held back when it is ready. What is pending are the last packets of the frame, in
  the order in which they came.
\<close>

theorem driver_frames_complete:
  assumes "drun (sdk_vtable lm h mem others) prm (driver_new f u) d"
    and "us_parser u = Some (c, p)" and "c \<in> known" and "compute_packet_num p = 0"
    and "f_packet_num f = 0"
  shows "(fst (ComputeXYZIComplete (d_packet_index d) (d_udp d)) \<longleftrightarrow>
           d_decoded d = [] \<and> d_working d = None) \<and>
     last_indices (unat (d_packet_index d)) (pending d) \<and> unat (d_packet_index d) < 5000"
proof -
  have i: "dinv sdk_accepts 0 d"
    by (rule sdk.run_inv [OF assms(1)]) (rule driver_new_inv [OF assms(2-5)])
  have "pending d = [] \<longleftrightarrow> d_decoded d = [] \<and> d_working d = None"
    by (auto simp: pending_def split: option.splits)
  then show ?thesis using exact_counter [OF i] i by (simp add: dinv_def)
qed

lemma p40_decodes_ex:
  "\<exists>f' p'. p40_DecodePacket host_ex frame_ex (packet_ex [0xFF, 0xEE]) (parser_at 0 0 0) =
     Some (0, f', p')"
proof -
  let ?pk = "packet_ex [0xFF, 0xEE]" and ?p = "parser_at 0 0 0"
  have "packet_wf ?pk" by (simp add: packet_ex_wf)
  moreover have "get_correction_file ?p" "frame_start_azimuth ?p = Fin 0" "\<not> get_firetime_file ?p"
    by (simp_all add: parser_at_def parser_ex_def)
  moreover have "up_buffer ?pk ! 0 = 0xFF" "up_buffer ?pk ! 1 = 0xEE"
    by (simp_all add: packet_ex_nth)
  moreover have n: "f_packet_num frame_ex = 0"
    by (simp add: frame_ex_def LidarDecodedFrame_new_def)
  ultimately obtain f1 p1 where 1: "p40_DecodePacket host_ex frame_ex ?pk ?p = decode_body p40_channel 3 2 4
       p40_IsNeedFrameSplit p40_LASERNUM p40_BLOCKNUM (up_buffer ?pk) 0 f1 p1"
    "f_packet_num f1 = 0" "frame_start_azimuth p1 = Fin 0" "\<not> get_firetime_file p1"
    using p40_DecodePacket_body [of ?pk ?p frame_ex host_ex] by auto
  have "length (up_buffer ?pk) = 1500" by (simp add: packet_ex_def)
  then show ?thesis
    using p40_layout.body_points [of 0 p40_BLOCKNUM 4 p40_LASERNUM "up_buffer ?pk" 2 f1
        p40_IsNeedFrameSplit p1 0] 1 split_defined(1) [OF 1(3)]
    by (auto simp: p40_BLOCKNUM_def p40_LASERNUM_def)
qed

definition udp_ex :: "u32 \<Rightarrow> udp_parser" where
  "udp_ex n = UdpParser_new \<lparr> us_parser := Some (P40, parser_at 0 0 0 \<lparr> compute_packet_num := n \<rparr>) \<rparr>"

theorem driver_frames_complete_witness:
  "\<exists>d others. drun (sdk_vtable undefined host_ex undefined others)
       \<lparr> device_ip_address = 0, device_udp_port = 0, point_cloud_ready = True \<rparr>
       (driver_new frame_ex (udp_ex 0)) d \<and> d \<noteq> driver_new frame_ex (udp_ex 0) \<and>
     (fst (ComputeXYZIComplete (d_packet_index d) (d_udp d)) \<longleftrightarrow>
           d_decoded d = [] \<and> d_working d = None)"
proof -
  let ?prm = "\<lparr> device_ip_address = 0, device_udp_port = 0, point_cloud_ready = True \<rparr>"
  let ?vt = "sdk_vtable undefined host_ex undefined undefined"
  let ?pk = "packet_ex [0xFF, 0xEE]" and ?d0 = "driver_new frame_ex (udp_ex 0)"
  have z: "parser_at 0 0 0 \<lparr> compute_packet_num := 0 \<rparr> = parser_at 0 0 0"
    by (simp add: parser_at_def parser_ex_def)
  obtain f' p' where dec: "p40_DecodePacket host_ex frame_ex ?pk (parser_at 0 0 0) = Some (0, f', p')"
    using p40_decodes_ex by blast
  have "us_DecodePacket ?vt frame_ex ?pk (udp_ex 0) = Some (0, 0, f',
      udp_ex 0 \<lparr> us_pcap_saver := True, us_parser := Some (P40, p') \<rparr>)"
    using dec by (simp add: us_DecodePacket_def udp_ex_def z sdk_vtable_def UdpParser_new_def
        packet_ex_def Let_def)
  then obtain d where d: "run_packet ?vt ?prm ?pk ?d0 = Some d"
    "us_pcap_saver (d_udp d)"
    by (cases "f_scan_complete f'") (auto simp: run_packet_def driver_new_def Let_def packet_ex_def
        kFaultMessageLength_def add_packet_def give_up_frame_def)
  have "\<not> us_pcap_saver (d_udp ?d0)" by (simp add: driver_new_def udp_ex_def UdpParser_new_def)
  then have ne: "d \<noteq> ?d0" using d(2) by auto
  have "dstep ?vt ?prm ?d0 d"
    by (rule dstep.receives [OF _ d(1)]) (simp add: driver_new_def)
  then have run: "drun ?vt ?prm ?d0 d"
    by (rule drun.more [OF drun.none]) (simp add: gives_up_def driver_new_def)
  have "fst (ComputeXYZIComplete (d_packet_index d) (d_udp d)) \<longleftrightarrow>
      d_decoded d = [] \<and> d_working d = None"
    using driver_frames_complete [OF run, of P40 "parser_at 0 0 0"]
    by (simp add: udp_ex_def z UdpParser_new_def known_def frame_ex_def LidarDecodedFrame_new_def
        parser_at_def parser_ex_def)
  then show ?thesis using run ne by blast
qed

section \<open>After a frame was given up\<close>

text \<open>
  Giving up a frame sets the packet index to 0 and empties the queue, but the counter of computed
  packets keeps its value: it is ahead from then on.
\<close>

lemma give_up_counter:
  assumes "dinv accepts 0 d" and "pending d = []" and "unat (d_packet_index d) = 4999"
  shows "dinv accepts 4999 (give_up_frame (d \<lparr> d_wait := None \<rparr>))"
  using assms by (auto simp: dinv_def give_up_frame_def pending_def frame_Update_def
      split: option.splits)



end
