(* ===== verification/Lidar_Init.thy ===== *)
theory Lidar_Init
  imports Polling Udp_Parser
begin

text \<open>
  \<open>Lidar::Init\<close>, \<open>InitSetPtc\<close>, \<open>SetThreadNum\<close> and the destructor of \<open>src/libhesai/Lidar/lidar.cc\<close>: how the
  threads are started and joined, and how the parser is found and loaded. What the other
  threads and the lidar do is an environment: the packets that the queue holds at each test, the value of
  \<open>running_\<close>, whether the PTC client is open at each test, and the answers to the commands. The virtual
  methods that load the files of a parser class are parameters (theories Correction\_Text and
  Firetimes\_Text have them class by class).

  A thread that was started and not yet joined is in \<open>l_unjoined\<close>. \<open>None\<close> is an access outside a vector, a
  null pointer, or a loop that does not end.
\<close>

section \<open>State\<close>

datatype lidar_thread = Receive_Thread | Parser_Thread | Handle_Thread nat | Set_Ptc_Thread

datatype lidar_source = Pcap_Source_Object | Socket_Source_Object

record lidar =
  l_udp :: udp_parser
  l_frame :: LidarDecodedFrame
  l_source :: "lidar_source option"
  l_socket_buffer :: u32
  l_running :: bool
  l_udp_thread_running :: bool
  l_parser_thread_running :: bool
  l_use_timestamp_type :: u16
  l_fov_start :: int
  l_fov_end :: int
  l_ptc_client :: bool
  l_init_finish :: "bool list"
  l_correction_string :: "u8 list"
  l_handle_thread_count :: int
  l_handle_thread_vec :: "bool list"
  l_handle_thread_packet_buffer :: "int list list"
  l_receive_ptr :: bool
  l_parser_ptr :: bool
  l_set_ptc_ptr :: bool
  l_unjoined :: "lidar_thread list"

definition Lidar_new :: "LidarDecodedFrame \<Rightarrow> lidar" where
  "Lidar_new frame = \<lparr> l_udp = UdpParser_new, l_frame = frame, l_source = None, l_socket_buffer = 0,
     l_running = True, l_udp_thread_running = True, l_parser_thread_running = True,
     l_use_timestamp_type = 0, l_fov_start = -1, l_fov_end = -1, l_ptc_client = False,
     l_init_finish = [False, False, False, False], l_correction_string = [], l_handle_thread_count = 0,
     l_handle_thread_vec = [], l_handle_thread_packet_buffer = [], l_receive_ptr = False,
     l_parser_ptr = False, l_set_ptc_ptr = False, l_unjoined = [] \<rparr>"

section \<open>Threads\<close>

definition join_thread :: "lidar_thread \<Rightarrow> lidar \<Rightarrow> lidar" where
  "join_thread t l = l \<lparr> l_unjoined := remove1 t (l_unjoined l) \<rparr>"

definition start_threads :: "lidar_thread list \<Rightarrow> lidar \<Rightarrow> lidar" where
  "start_threads ts l = l \<lparr> l_unjoined := l_unjoined l @ ts \<rparr>"

text \<open>The loop of \<open>SetThreadNum\<close> over the old threads, from \<open>i\<close> on, for \<open>n\<close> of them.\<close>

fun join_handles :: "nat \<Rightarrow> nat \<Rightarrow> lidar \<Rightarrow> lidar option" where
  "join_handles i 0 l = Some l"
| "join_handles i (Suc n) l = do {
     p \<leftarrow> nth_opt (l_handle_thread_vec l) i;
     let l = (if p then join_thread (Handle_Thread i) l
                \<lparr> l_handle_thread_vec := (l_handle_thread_vec l)[i := False] \<rparr> else l);
     b \<leftarrow> nth_opt (l_handle_thread_packet_buffer l) i;
     join_handles (Suc i) n
       (l \<lparr> l_handle_thread_packet_buffer := (l_handle_thread_packet_buffer l)[i := []] \<rparr>) }"

definition vec_resize :: "nat \<Rightarrow> 'a \<Rightarrow> 'a list \<Rightarrow> 'a list" where
  "vec_resize n x xs = take n xs @ replicate (n - length xs) x"

definition join_receive :: "lidar \<Rightarrow> lidar" where
  "join_receive l = (if l_receive_ptr l then join_thread Receive_Thread l \<lparr> l_receive_ptr := False \<rparr> else l)"

definition start_handles :: "int \<Rightarrow> lidar \<Rightarrow> lidar" where
  "start_handles n l =
     (if n > 1 then start_threads (map Handle_Thread [0 ..< nat n]) l
          \<lparr> l_handle_thread_vec := map (\<lambda>_. True) (vec_resize (nat n) False (l_handle_thread_vec l)),
            l_handle_thread_packet_buffer := vec_resize (nat n) [] (l_handle_thread_packet_buffer l) \<rparr>
      else l)"

text \<open>\<open>cpus\<close> is the result of \<open>GetAvailableCPUNum\<close>. The old parser thread is not joined.\<close>

definition SetThreadNum :: "int \<Rightarrow> int \<Rightarrow> lidar \<Rightarrow> lidar option" where
  "SetThreadNum cpus nThreadNum l =
     (let n = (if nThreadNum > cpus - 2 then cpus - 2 else nThreadNum) in
      if l_handle_thread_count l = n then Some l
      else do {
        l \<leftarrow> join_handles 0 (nat (l_handle_thread_count l)) (join_receive (l \<lparr> l_running := False \<rparr>));
        Some (start_threads [Receive_Thread, Parser_Thread] (start_handles n (l \<lparr> l_running := True \<rparr>))
                \<lparr> l_handle_thread_count := n, l_receive_ptr := True, l_parser_ptr := True \<rparr>) })"

text \<open>The threads that the destructor joins; it reads the pointers only with two handle threads or more.\<close>

fun join_all :: "nat \<Rightarrow> nat \<Rightarrow> lidar \<Rightarrow> lidar option" where
  "join_all i 0 l = Some l"
| "join_all i (Suc n) l = do {
     p \<leftarrow> nth_opt (l_handle_thread_vec l) i;
     join_all (Suc i) n (if p then join_thread (Handle_Thread i) l
       \<lparr> l_handle_thread_vec := (l_handle_thread_vec l)[i := False] \<rparr> else l) }"

definition Lidar_delete :: "lidar \<Rightarrow> lidar option" where
  "Lidar_delete l =
     (let l = l \<lparr> l_running := False, l_udp_thread_running := False, l_parser_thread_running := False \<rparr>;
          l = join_receive l;
          l = (if l_parser_ptr l then join_thread Parser_Thread l \<lparr> l_parser_ptr := False \<rparr> else l);
          l = (if l_set_ptc_ptr l then join_thread Set_Ptc_Thread l \<lparr> l_set_ptc_ptr := False \<rparr> else l)
      in if l_handle_thread_count l > 1 then join_all 0 (nat (l_handle_thread_count l)) l else Some l)"

section \<open>Initialisation\<close>

record init_param =
  ip_source_type :: int
  ip_socket_buffer_size :: u32
  ip_enable_parser_thread :: bool
  ip_enable_udp_thread :: bool
  ip_use_timestamp_type :: u16
  ip_fov_start :: int
  ip_fov_end :: int
  ip_thread_num :: int
  ip_distance_correction_lidar_type :: string
  ip_lidar_type :: string
  ip_transform :: "fp \<times> fp \<times> fp \<times> fp \<times> fp \<times> fp"
  ip_pcap_play_synchronization :: bool
  ip_frame_start_azimuth :: fp
  ip_enable_packet_loss_tool :: bool
  ip_enable_packet_timeloss_tool :: bool
  ip_packet_timeloss_tool_continue :: bool
  ip_correction_file_path :: string
  ip_firetimes_path :: string

record init_env =
  e_cpus :: int
  e_running :: "nat \<Rightarrow> bool"
  e_packets :: "nat \<Rightarrow> UdpPacket option"
  e_ptc_open :: "nat \<Rightarrow> bool option"
  e_ptc_running :: "nat \<Rightarrow> bool"
  e_correction_info :: "int \<times> u8 list"
  e_load_string :: "u8 list \<Rightarrow> udp_parser \<Rightarrow> (int \<times> udp_parser) option"
  e_load_file :: "string \<Rightarrow> udp_parser \<Rightarrow> udp_parser option"
  e_load_firetimes :: "string \<Rightarrow> udp_parser \<Rightarrow> udp_parser option"

text \<open>The source; there is none for packets that a client of the class puts into the queue.\<close>

definition init_source :: "init_param \<Rightarrow> lidar \<Rightarrow> lidar option" where
  "init_source prm l =
     (let l = l \<lparr> l_source := (if ip_source_type prm = 2 then Some Pcap_Source_Object
                  else if ip_source_type prm = 1 then Some Socket_Source_Object else l_source l),
                l_parser_thread_running := ip_enable_parser_thread prm,
                l_udp_thread_running := ip_enable_udp_thread prm \<rparr>
      in if ip_socket_buffer_size prm > 0 then
           do { src \<leftarrow> l_source l; Some (l \<lparr> l_socket_buffer := ip_socket_buffer_size prm \<rparr>) }
         else Some l)"

text \<open>
  The packets of the queue: with a source, only the receiving thread puts them there.
\<close>

definition queue_packets :: "init_env \<Rightarrow> lidar \<Rightarrow> nat \<Rightarrow> UdpPacket option" where
  "queue_packets env l i =
     (if l_source l \<noteq> None \<and> \<not> (l_udp_thread_running l \<and> Receive_Thread \<in> set (l_unjoined l)) then None
      else e_packets env i)"

definition init_poll :: "vtable \<Rightarrow> (nat \<Rightarrow> bool) \<Rightarrow> (nat \<Rightarrow> UdpPacket option) \<Rightarrow> nat \<Rightarrow>
    LidarDecodedFrame \<times> udp_parser \<Rightarrow> (bool \<times> LidarDecodedFrame \<times> udp_parser) option" where
  "init_poll vt running packets i = (\<lambda>(f, u).
     if us_parser u = None \<and> running i then
       (case packets i of
          None \<Rightarrow> Some (True, f, u)
        | Some pk \<Rightarrow> do { (res, t, f, u) \<leftarrow> us_DecodePacket vt f pk u; Some (True, f, u) })
     else Some (False, f, u))"

definition with_parser :: "(parser \<Rightarrow> parser) \<Rightarrow> udp_parser \<Rightarrow> udp_parser option" where
  "with_parser g u = do { (c, p) \<leftarrow> us_parser u; Some (u \<lparr> us_parser := Some (c, g p) \<rparr>) }"

text \<open>The settings of the parser once it is known.\<close>

definition init_settings :: "init_param \<Rightarrow> udp_parser \<Rightarrow> udp_parser option" where
  "init_settings prm u = do {
     u \<leftarrow> with_parser (\<lambda>p. SetLidarType (ip_lidar_type prm)
            (SetOpticalCenterCoordinates (ip_distance_correction_lidar_type prm) p)) u;
     let (x, y, z, roll, pitch, yaw) = ip_transform prm;
     let u = snd (us_SetTransformPara x y z roll pitch yaw u);
     let u = us_SetPcapPlay (ip_pcap_play_synchronization prm) (ip_source_type prm) u;
     let u = us_SetFrameAzimuth (ip_frame_start_azimuth prm) u;
     with_parser (\<lambda>p. PacketTimeLossToolContinue (ip_packet_timeloss_tool_continue prm)
       (EnablePacketTimeLossTool (ip_enable_packet_timeloss_tool prm)
         (EnablePacketLossTool (ip_enable_packet_loss_tool prm) p))) u }"

text \<open>\<open>while ((!ptc_client_->IsOpen()) && running_)\<close>: \<open>IsOpen\<close> may find a null pointer.\<close>

definition ptc_poll :: "init_env \<Rightarrow> nat \<Rightarrow> unit \<Rightarrow> (bool \<times> unit) option" where
  "ptc_poll env i u = do { o1 \<leftarrow> e_ptc_open env i; Some (\<not> o1 \<and> e_ptc_running env i, ()) }"

definition LoadCorrectionForUdpParser :: "init_env \<Rightarrow> lidar \<Rightarrow> (int \<times> lidar) option" where
  "LoadCorrectionForUdpParser env l =
     (let (ret, sData) = e_correction_info env in
      if ret \<noteq> 0 then Some (-1, l)
      else do {
        (r, u) \<leftarrow> e_load_string env sData (l_udp l);
        Some (r, l \<lparr> l_correction_string := sData, l_udp := u \<rparr>) })"

definition init_files :: "init_env \<Rightarrow> init_param \<Rightarrow> lidar \<Rightarrow> lidar option" where
  "init_files env prm l = do {
     l \<leftarrow> (if ip_source_type prm = 1 then do {
             _ \<leftarrow> spin (ptc_poll env) 0 ();
             (r, l) \<leftarrow> LoadCorrectionForUdpParser env l;
             if r = -1 then do { u \<leftarrow> e_load_file env (ip_correction_file_path prm) (l_udp l); Some (l \<lparr> l_udp := u \<rparr>) }
             else Some l }
           else if ip_source_type prm = 2 \<or> ip_source_type prm = 3 then do {
             u \<leftarrow> e_load_file env (ip_correction_file_path prm) (l_udp l); Some (l \<lparr> l_udp := u \<rparr>) }
           else Some l);
     u \<leftarrow> e_load_firetimes env (ip_firetimes_path prm) (l_udp l);
     Some (l \<lparr> l_udp := u \<rparr>) }"

definition set_finish :: "nat \<Rightarrow> lidar \<Rightarrow> lidar" where
  "set_finish i l = l \<lparr> l_init_finish := (l_init_finish l)[i := True] \<rparr>"

definition Init_start :: "init_env \<Rightarrow> init_param \<Rightarrow> lidar \<Rightarrow> lidar option" where
  "Init_start env prm l = do {
     l \<leftarrow> init_source prm l;
     l \<leftarrow> SetThreadNum (e_cpus env) (ip_thread_num prm)
           (l \<lparr> l_use_timestamp_type := ip_use_timestamp_type prm, l_fov_start := ip_fov_start prm,
                l_fov_end := ip_fov_end prm \<rparr>);
     Some (if ip_source_type prm = 1
           then start_threads [Set_Ptc_Thread] l \<lparr> l_ptc_client := True, l_set_ptc_ptr := True \<rparr> else l) }"

definition Init :: "vtable \<Rightarrow> init_env \<Rightarrow> init_param \<Rightarrow> lidar \<Rightarrow> (int \<times> lidar) option" where
  "Init vt env prm l = do {
     l \<leftarrow> Init_start env prm l;
     (_, f, u) \<leftarrow> spin (init_poll vt (e_running env) (queue_packets env l)) 0 (l_frame l, l_udp l);
     let l = l \<lparr> l_frame := f \<lparr> f_packet_num := 0 \<rparr>, l_udp := u \<rparr>;
     if us_parser u = None then Some (-1, l)
     else do {
       u \<leftarrow> init_settings prm u;
       l \<leftarrow> init_files env prm (set_finish 0 (l \<lparr> l_udp := u \<rparr>));
       Some (0, set_finish 2 l) } }"

text \<open>
  \<open>InitSetPtc\<close>, the thread beside: it waits for the PTC client and sends the two settings, if they are
  set. \<open>standby\<close> and \<open>speed\<close> are the commands (theory Ptc\_Commands), their results only logged.
\<close>

definition InitSetPtc :: "(nat \<Rightarrow> bool option) \<Rightarrow> (nat \<Rightarrow> bool) \<Rightarrow> int \<Rightarrow> int \<Rightarrow> (int \<Rightarrow> 's \<Rightarrow> 's option) \<Rightarrow>
    (int \<Rightarrow> 's \<Rightarrow> 's option) \<Rightarrow> lidar \<times> 's \<Rightarrow> (lidar \<times> 's) option" where
  "InitSetPtc opened running standby_mode new_speed standby speed = (\<lambda>(l, s). do {
     (_, found) \<leftarrow> spin (\<lambda>i found. if running i then do { o1 \<leftarrow> opened i; Some (\<not> o1, o1) } else Some (False, False)) 0 False;
     if found then do {
       s \<leftarrow> (if standby_mode \<noteq> -1 then standby standby_mode s else Some s);
       s \<leftarrow> (if new_speed \<noteq> -1 then speed new_speed s else Some s);
       Some (set_finish 1 l, s) }
     else Some (l, s) })"

section \<open>Which threads there are\<close>

definition joined :: "nat \<Rightarrow> nat \<Rightarrow> lidar_thread list \<Rightarrow> lidar_thread list" where
  "joined i n ts = foldl (\<lambda>ts j. remove1 (Handle_Thread j) ts) ts [i ..< i + n]"

lemma joined_Suc: "joined i (Suc n) ts = joined (Suc i) n (remove1 (Handle_Thread i) ts)"
  by (simp add: joined_def upt_conv_Cons del: upt_Suc)

lemma joined_0 [simp]: "joined i 0 ts = ts"
  by (simp add: joined_def)

lemma joined_handles: "joined i n (map Handle_Thread [i ..< i + n] @ ts) = ts"
proof (induction n arbitrary: i)
  case (Suc n)
  have "map Handle_Thread [i ..< i + Suc n] = Handle_Thread i # map Handle_Thread [Suc i ..< Suc i + n]"
    by (simp add: upt_conv_Cons del: upt_Suc)
  then show ?case using Suc [of "Suc i"] by (simp add: joined_Suc)
qed simp

lemma joined_other: "t \<notin> range Handle_Thread \<Longrightarrow> joined i n (t # ts) = t # joined i n ts"
proof (induction n arbitrary: i ts)
  case (Suc n)
  then show ?case by (auto simp: joined_Suc)
qed simp

lemma join_handles_some:
  assumes "i + n \<le> length (l_handle_thread_vec l)" and "i + n \<le> length (l_handle_thread_packet_buffer l)"
    and "\<forall>j<length (l_handle_thread_vec l). i \<le> j \<longrightarrow> l_handle_thread_vec l ! j"
  shows "\<exists>V B. join_handles i n l = Some (l \<lparr> l_handle_thread_vec := V, l_handle_thread_packet_buffer := B,
      l_unjoined := joined i n (l_unjoined l) \<rparr>)"
  using assms
proof (induction n arbitrary: i l)
  case 0
  have "l = l \<lparr> l_handle_thread_vec := l_handle_thread_vec l,
      l_handle_thread_packet_buffer := l_handle_thread_packet_buffer l, l_unjoined := l_unjoined l \<rparr>" by simp
  then show ?case unfolding join_handles.simps joined_0 by blast
next
  case (Suc n)
  let ?l = "l \<lparr> l_unjoined := remove1 (Handle_Thread i) (l_unjoined l),
      l_handle_thread_vec := (l_handle_thread_vec l)[i := False],
      l_handle_thread_packet_buffer := (l_handle_thread_packet_buffer l)[i := []] \<rparr>"
  have "join_handles i (Suc n) l = join_handles (Suc i) n ?l"
    using Suc.prems by (simp add: nth_opt_def join_thread_def)
  moreover have "\<exists>V B. join_handles (Suc i) n ?l = Some (?l \<lparr> l_handle_thread_vec := V,
      l_handle_thread_packet_buffer := B, l_unjoined := joined (Suc i) n (l_unjoined ?l) \<rparr>)"
    using Suc.prems by (intro Suc.IH) (auto simp: nth_list_update)
  ultimately show ?case by (simp add: joined_Suc)
qed

lemma join_all_some:
  assumes "i + n \<le> length (l_handle_thread_vec l)"
    and "\<forall>j<length (l_handle_thread_vec l). i \<le> j \<longrightarrow> l_handle_thread_vec l ! j"
  shows "\<exists>V. join_all i n l = Some (l \<lparr> l_handle_thread_vec := V, l_unjoined := joined i n (l_unjoined l) \<rparr>)"
  using assms
proof (induction n arbitrary: i l)
  case 0
  have "l = l \<lparr> l_handle_thread_vec := l_handle_thread_vec l, l_unjoined := l_unjoined l \<rparr>" by simp
  then show ?case unfolding join_all.simps joined_0 by blast
next
  case (Suc n)
  let ?l = "l \<lparr> l_unjoined := remove1 (Handle_Thread i) (l_unjoined l),
      l_handle_thread_vec := (l_handle_thread_vec l)[i := False] \<rparr>"
  have "join_all i (Suc n) l = join_all (Suc i) n ?l"
    using Suc.prems by (simp add: nth_opt_def join_thread_def)
  moreover have "\<exists>V. join_all (Suc i) n ?l = Some (?l \<lparr> l_handle_thread_vec := V,
      l_unjoined := joined (Suc i) n (l_unjoined ?l) \<rparr>)"
    using Suc.prems by (intro Suc.IH) (auto simp: nth_list_update)
  ultimately show ?case by (simp add: joined_Suc)
qed

text \<open>The threads after \<open>SetThreadNum\<close>; \<open>old\<close> are threads that nobody joins any more.\<close>

definition handles :: "int \<Rightarrow> lidar_thread list" where
  "handles m = (if m > 1 then map Handle_Thread [0 ..< nat m] else [])"

definition threads_started :: "lidar_thread list \<Rightarrow> int \<Rightarrow> lidar \<Rightarrow> bool" where
  "threads_started old m l \<longleftrightarrow> l_handle_thread_count l = m \<and> l_receive_ptr l \<and> l_parser_ptr l \<and> \<not> l_set_ptc_ptr l \<and>
     l_unjoined l = old @ handles m @ [Receive_Thread, Parser_Thread] \<and> set old \<subseteq> {Parser_Thread} \<and>
     (m > 1 \<longrightarrow> length (l_handle_thread_vec l) = nat m \<and> length (l_handle_thread_packet_buffer l) = nat m \<and>
        (\<forall>b\<in>set (l_handle_thread_vec l). b))"

definition threads_fresh :: "lidar \<Rightarrow> bool" where
  "threads_fresh l \<longleftrightarrow> l_handle_thread_count l = 0 \<and> l_handle_thread_vec l = [] \<and>
     l_handle_thread_packet_buffer l = [] \<and> \<not> l_receive_ptr l \<and> \<not> l_parser_ptr l \<and> \<not> l_set_ptc_ptr l \<and> l_unjoined l = []"

lemma length_vec_resize [simp]: "length (vec_resize n x xs) = n"
  by (simp add: vec_resize_def)

lemma SetThreadNum_first:
  assumes "threads_fresh l" and "m = min n (cpus - 2)" and "m \<noteq> 0"
  shows "\<exists>l'. SetThreadNum cpus n l = Some l' \<and> threads_started [] m l' \<and>
    (m \<le> 1 \<longrightarrow> l_handle_thread_vec l' = [])"
proof -
  have m: "(if n > cpus - 2 then cpus - 2 else n) = m" using assms(2) by simp
  show ?thesis
    using assms(1,3) unfolding SetThreadNum_def m
    by (auto simp: threads_fresh_def join_receive_def start_handles_def start_threads_def threads_started_def handles_def)
qed

lemma joined_between: "set old \<subseteq> {Parser_Thread} \<Longrightarrow>
    joined 0 n (old @ map Handle_Thread [0 ..< n] @ ts) = old @ ts"
proof (induction old)
  case Nil
  then show ?case using joined_handles [of 0 n ts] by simp
next
  case (Cons t old)
  then have t: "t = Parser_Thread" "t \<notin> range Handle_Thread" "set old \<subseteq> {Parser_Thread}" by auto
  then show ?case using Cons.IH joined_other [OF t(2)] by simp
qed

lemma only_parser: "set old \<subseteq> {Parser_Thread} \<Longrightarrow> Receive_Thread \<notin> set old \<and> old @ [Parser_Thread] = Parser_Thread # old"
  by (induction old) auto

lemma handles_set: "Receive_Thread \<notin> set (handles m)" "Parser_Thread \<notin> set (handles m)"
  by (auto simp: handles_def)

lemma unjoined_receive:
  assumes "threads_started old m l"
  shows "remove1 Receive_Thread (l_unjoined l) = old @ handles m @ [Parser_Thread]"
  using assms only_parser [of old] handles_set [of m] by (simp add: threads_started_def remove1_append)

text \<open>The destructor joins all threads but the old parser threads.\<close>

lemma Lidar_delete_joins:
  assumes "threads_started old m l"
  shows "\<exists>l'. Lidar_delete l = Some l' \<and> l_unjoined l' = old"
proof -
  let ?ts = "if old = [] then handles m else tl old @ handles m @ [Parser_Thread]"
  have p: "remove1 Parser_Thread (old @ handles m @ [Parser_Thread]) = ?ts"
    using handles_set [of m] assms by (cases old) (auto simp: threads_started_def remove1_append)
  let ?l = "l \<lparr> l_running := False, l_udp_thread_running := False, l_parser_thread_running := False,
      l_receive_ptr := False, l_unjoined := ?ts, l_parser_ptr := False \<rparr>"
  have c: "l_handle_thread_count l = m" "set old \<subseteq> {Parser_Thread}" using assms by (simp_all add: threads_started_def)
  have d: "Lidar_delete l = (if m > 1 then join_all 0 (nat m) ?l else Some ?l)"
    using assms unjoined_receive [OF assms] p
    by (simp add: Lidar_delete_def threads_started_def join_receive_def join_thread_def)
  show ?thesis
  proof (cases "m > 1")
    case True
    have "joined 0 (nat m) ?ts = old"
    proof (cases old)
      case Nil
      then show ?thesis using True joined_handles [of 0 "nat m" "[]"] by (simp add: handles_def)
    next
      case (Cons t ts)
      then have "set ts \<subseteq> {Parser_Thread}" "t = Parser_Thread" using c(2) by auto
      then show ?thesis using Cons True joined_between [of ts "nat m" "[Parser_Thread]"] only_parser [of ts]
        by (simp add: handles_def)
    qed
    moreover have "\<exists>V. join_all 0 (nat m) ?l = Some (?l \<lparr> l_handle_thread_vec := V,
        l_unjoined := joined 0 (nat m) (l_unjoined ?l) \<rparr>)"
      using assms True by (intro join_all_some) (auto simp: threads_started_def)
    ultimately show ?thesis using d True by auto
  next
    case False
    then have "?ts = old" using c(2) only_parser [of "tl old"] by (cases old) (auto simp: handles_def)
    then show ?thesis using d False by auto
  qed
qed

text \<open>A second call joins the handle threads and leaves the parser thread.\<close>

lemma SetThreadNum_second:
  assumes "threads_started [] m l" and "m' = min n (cpus - 2)" and "m' \<noteq> m" and "m \<noteq> 1"
  shows "\<exists>l'. SetThreadNum cpus n l = Some l' \<and> threads_started [Parser_Thread] m' l'"
proof -
  have n: "(if n > cpus - 2 then cpus - 2 else n) = m'" using assms(2) by simp
  have c: "l_handle_thread_count l = m" using assms(1) by (simp add: threads_started_def)
  let ?l = "l \<lparr> l_running := False, l_receive_ptr := False, l_unjoined := handles m @ [Parser_Thread] \<rparr>"
  have r: "join_receive (l \<lparr> l_running := False \<rparr>) = ?l"
    using assms(1) unjoined_receive [OF assms(1)] by (simp add: join_receive_def join_thread_def threads_started_def)
  obtain V B where "join_handles 0 (nat m) ?l =
      Some (?l \<lparr> l_handle_thread_vec := V, l_handle_thread_packet_buffer := B, l_unjoined := [Parser_Thread] \<rparr>)"
  proof (cases "m > 1")
    case True
    have "joined 0 (nat m) (handles m @ [Parser_Thread]) = [Parser_Thread]"
      using True joined_handles [of 0 "nat m"] by (simp add: handles_def)
    moreover have "\<exists>V B. join_handles 0 (nat m) ?l = Some (?l \<lparr> l_handle_thread_vec := V,
        l_handle_thread_packet_buffer := B, l_unjoined := joined 0 (nat m) (l_unjoined ?l) \<rparr>)"
      using assms(1) True by (intro join_handles_some) (auto simp: threads_started_def)
    ultimately show ?thesis using that by auto
  next
    case False
    then have "nat m = 0" "handles m = []" using assms(4) by (auto simp: handles_def)
    then show ?thesis
      using that [of "l_handle_thread_packet_buffer l" "l_handle_thread_vec l"] by simp
  qed
  then show ?thesis
    using assms(1,3) c unfolding SetThreadNum_def n
    by (auto simp: r start_handles_def start_threads_def threads_started_def handles_def)
qed

text \<open>
  C30. The threads of a \<open>Lidar\<close>: the number of threads is limited to that of the processors less two. If
  this is 0, as with two processors, no thread is started at all. Else the first call starts the
  receiving thread, the parser thread and, from two on, as many handle threads, and the destructor
  joins them all. A call that then changes the number to another one reads behind the empty vector of threads when
  there was one thread; otherwise it leaves the old parser thread running, and the destructor does not
  join it.
\<close>

theorem SetThreadNum_threads:
  assumes "threads_fresh l" and "m = min n (cpus - 2)"
  shows "(m = 0 \<longrightarrow> SetThreadNum cpus n l = Some l) \<and>
    (m \<noteq> 0 \<longrightarrow> (\<exists>l1. SetThreadNum cpus n l = Some l1 \<and>
       l_unjoined l1 = (if m > 1 then map Handle_Thread [0 ..< nat m] else []) @ [Receive_Thread, Parser_Thread] \<and>
       (\<exists>l2. Lidar_delete l1 = Some l2 \<and> l_unjoined l2 = []) \<and>
       (\<forall>n'. min n' (cpus - 2) \<noteq> m \<longrightarrow>
         (if m = 1 then SetThreadNum cpus n' l1 = None
          else \<exists>l2 l3. SetThreadNum cpus n' l1 = Some l2 \<and> Lidar_delete l2 = Some l3 \<and>
                 l_unjoined l3 = [Parser_Thread]))))"
proof (cases "m = 0")
  case True
  then show ?thesis using assms by (auto simp: SetThreadNum_def threads_fresh_def min_def split: if_splits)
next
  case False
  obtain l1 where l1: "SetThreadNum cpus n l = Some l1" "threads_started [] m l1"
      "m \<le> 1 \<longrightarrow> l_handle_thread_vec l1 = []"
    using SetThreadNum_first [OF assms False] by blast
  have "if m = 1 then SetThreadNum cpus n' l1 = None
      else \<exists>l2 l3. SetThreadNum cpus n' l1 = Some l2 \<and> Lidar_delete l2 = Some l3 \<and> l_unjoined l3 = [Parser_Thread]"
    if "min n' (cpus - 2) \<noteq> m" for n'
  proof (cases "m = 1")
    case True
    have n: "(if n' > cpus - 2 then cpus - 2 else n') = min n' (cpus - 2)" by simp
    have "join_handles 0 1 (join_receive (l1 \<lparr> l_running := False \<rparr>)) = None"
      using l1(3) True by (simp add: join_receive_def join_thread_def nth_opt_def)
    then show ?thesis
      using l1(2) that True unfolding SetThreadNum_def n by (simp add: threads_started_def Let_def)
  next
    case False
    from SetThreadNum_second [OF l1(2) refl that False] obtain l2
      where l2: "SetThreadNum cpus n' l1 = Some l2" "threads_started [Parser_Thread] (min n' (cpus - 2)) l2" by blast
    from Lidar_delete_joins [OF l2(2)] show ?thesis using l2(1) False by auto
  qed
  then show ?thesis
    using False l1 Lidar_delete_joins [OF l1(2)] by (auto simp: threads_started_def handles_def)
qed

lemma SetThreadNum_threads_witness:
  "\<exists>l1 l2. SetThreadNum 8 4 (Lidar_new frame_ex) = Some l1 \<and> l_unjoined l1 = map Handle_Thread [0 ..< 4] @
     [Receive_Thread, Parser_Thread] \<and> Lidar_delete l1 = Some l2 \<and> l_unjoined l2 = []"
proof -
  have "threads_fresh (Lidar_new frame_ex)" by (simp add: threads_fresh_def Lidar_new_def)
  from SetThreadNum_threads [OF this, of 4 4 8] obtain l1
    where "SetThreadNum 8 4 (Lidar_new frame_ex) = Some l1" "\<exists>l2. Lidar_delete l1 = Some l2 \<and> l_unjoined l2 = []"
      "l_unjoined l1 = map Handle_Thread [0 ..< 4] @ [Receive_Thread, Parser_Thread]"
    by (auto simp del: upt_Suc)
  then show ?thesis by blast
qed

section \<open>Whether initialisation ends\<close>

text \<open>A packet from which the class of the parser is known.\<close>

definition identifies :: "UdpPacket \<Rightarrow> bool" where
  "identifies pk \<longleftrightarrow> 6 \<le> up_packet_len pk \<and>
     (up_packet_len pk \<in> {PKT_SIZE_40P, PKT_SIZE_40P + 4, PKT_SIZE_AC, PKT_SIZE_AC + 4, PKT_SIZE_64,
        PKT_SIZE_64 + 4, PKT_SIZE_20, PKT_SIZE_20 + 4} \<or>
      up_buffer pk ! 0 = 0xEE \<and> up_buffer pk ! 1 = 0xFF \<and>
      class_of_version (up_buffer pk ! 2) (up_buffer pk ! 3) \<noteq> None)"

lemma create_parser: "us_parser s = None \<Longrightarrow> us_parser (create vt choice s) \<noteq> None \<longleftrightarrow> choice \<noteq> None"
  by (auto simp: create_def split: option.splits)

lemma CreatGeneralParser_packet_identifies:
  assumes "us_parser u = None" and "4 \<le> length (up_buffer pk)" and "6 \<le> up_packet_len pk"
  shows "\<exists>u'. CreatGeneralParser_packet vt pk u = Some u' \<and> (us_parser u' \<noteq> None \<longleftrightarrow> identifies pk)"
proof -
  have ld: "ld8 (up_buffer pk) 0 = Some (up_buffer pk ! 0)" "ld8 (up_buffer pk) 1 = Some (up_buffer pk ! 1)"
      "ld8 (up_buffer pk) 2 = Some (up_buffer pk ! 2)" "ld8 (up_buffer pk) 3 = Some (up_buffer pk ! 3)"
    using assms(2) by (auto simp: ld8_def)
  have v: "us_parser (CreatGeneralParser_version vt ma mi u) \<noteq> None \<longleftrightarrow> class_of_version ma mi \<noteq> None" for ma mi
    using create_parser [OF assms(1)] by (simp only: CreatGeneralParser_version_def assms(1) simp_thms if_False)
  show ?thesis
    using assms(1,3) create_parser [OF assms(1)] v unfolding CreatGeneralParser_packet_def identifies_def ld
    by (cases "up_packet_len pk \<in> {PKT_SIZE_40P, PKT_SIZE_40P + 4, PKT_SIZE_AC, PKT_SIZE_AC + 4}";
      cases "up_packet_len pk \<in> {PKT_SIZE_64, PKT_SIZE_64 + 4, PKT_SIZE_20, PKT_SIZE_20 + 4}";
      cases "up_buffer pk ! 0 \<noteq> 0xEE \<or> up_buffer pk ! 1 \<noteq> 0xFF")
      (simp_all add: Let_def del: insert_iff not_None_eq, blast+)
qed

text \<open>One round of the loop without a parser.\<close>

lemma init_poll_step:
  assumes "us_parser u = None" and "\<And>pk. packets i = Some pk \<Longrightarrow> 4 \<le> length (up_buffer pk)"
  shows "\<exists>f' u'. init_poll vt (\<lambda>_. True) packets i (f, u) = Some (True, f', u') \<and>
    (us_parser u' \<noteq> None \<longleftrightarrow> (\<exists>pk. packets i = Some pk \<and> identifies pk))"
proof (cases "packets i")
  case None
  then show ?thesis using assms(1) by (simp add: init_poll_def)
next
  case (Some pk)
  let ?u = "u \<lparr> us_pcap_saver := True \<rparr>"
  show ?thesis
  proof (cases "up_packet_len pk < 6")
    case True
    then show ?thesis using Some assms(1) by (simp add: init_poll_def us_DecodePacket_def identifies_def)
  next
    case False
    then obtain u' where "CreatGeneralParser_packet vt pk ?u = Some u'" "us_parser u' \<noteq> None \<longleftrightarrow> identifies pk"
      using CreatGeneralParser_packet_identifies [of ?u pk vt] assms(1) assms(2) [OF Some] by auto
    then show ?thesis using Some assms(1) False by (simp add: init_poll_def us_DecodePacket_def Let_def)
  qed
qed

lemma init_poll_ends:
  assumes "us_parser u = None" and "\<And>i pk. packets i = Some pk \<Longrightarrow> 4 \<le> length (up_buffer pk)"
  shows "(spin (init_poll vt (\<lambda>_. True) packets) 0 (f, u) \<noteq> None \<longleftrightarrow> (\<exists>i pk. packets i = Some pk \<and> identifies pk)) \<and>
    (\<forall>i f' u'. spin (init_poll vt (\<lambda>_. True) packets) 0 (f, u) = Some (i, f', u') \<longrightarrow> us_parser u' \<noteq> None)"
proof -
  let ?c = "init_poll vt (\<lambda>_. True) packets" and ?hit = "\<lambda>i. \<exists>pk. packets i = Some pk \<and> identifies pk"
  have wait: "\<exists>f' u'. spin_at ?c i (f, u) = Some (f', u') \<and> us_parser u' = None" if "\<forall>j<i. \<not> ?hit j" for i
    using that
  proof (induction i)
    case (Suc i)
    then obtain f' u' where i: "spin_at ?c i (f, u) = Some (f', u')" "us_parser u' = None" by auto
    from init_poll_step [of u' packets i vt f', OF i(2) assms(2) [of i]] obtain f'' u''
      where n: "?c i (f', u') = Some (True, f'', u'')" "us_parser u'' \<noteq> None \<longleftrightarrow> ?hit i" by blast
    have "us_parser u'' = None" using n(2) Suc.prems by blast
    then show ?case using i(1) n(1) by simp
  qed (simp add: assms(1))
  have left: "us_parser u' \<noteq> None \<and> (\<exists>i. ?hit i)" if s: "spin ?c 0 (f, u) = Some (i, f', u')" for i f' u'
  proof -
    obtain t where t: "spin_at ?c i (f, u) = Some t" "?c i t = Some (False, f', u')"
      using s unfolding spin_iff by blast
    then have p: "t = (f', u')" "us_parser u' \<noteq> None"
      by (cases t; auto simp: init_poll_def split: if_splits option.splits)+
    moreover have "\<exists>i. ?hit i"
    proof (rule ccontr)
      assume "\<nexists>i. ?hit i"
      then obtain f1 u1 where "spin_at ?c i (f, u) = Some (f1, u1)" "us_parser u1 = None" using wait [of i] by blast
      then show False using t(1) p by simp
    qed
    ultimately show ?thesis by blast
  qed
  have "spin ?c 0 (f, u) \<noteq> None" if ex: "\<exists>i. ?hit i"
  proof -
    define n where "n = (LEAST i. ?hit i)"
    have n: "?hit n" unfolding n_def using ex by (rule LeastI_ex)
    have "\<forall>j<n. \<not> ?hit j" unfolding n_def using not_less_Least [of _ ?hit] by blast
    then obtain f1 u1 where w: "spin_at ?c n (f, u) = Some (f1, u1)" "us_parser u1 = None" using wait by blast
    from init_poll_step [of u1 packets n vt f1, OF w(2) assms(2) [of n]] n obtain f2 u2
      where n2: "?c n (f1, u1) = Some (True, f2, u2)" "us_parser u2 \<noteq> None" by blast
    have "spin_at ?c (Suc n) (f, u) = Some (f2, u2)" using w(1) n2(1) by simp
    moreover have "?c (Suc n) (f2, u2) = Some (False, f2, u2)" using n2(2) by (auto simp: init_poll_def)
    ultimately have "spin_at ?c (Suc n) (f, u) = Some (f2, u2) \<and> ?c (Suc n) (f2, u2) = Some (False, f2, u2)" ..
    then have "spin ?c 0 (f, u) = Some (Suc n, f2, u2)" unfolding spin_iff by blast
    then show ?thesis by simp
  qed
  then show ?thesis using left by (metis option.exhaust prod_cases3)
qed

lemma with_parser_some: "us_parser u \<noteq> None \<Longrightarrow> \<exists>u'. with_parser g u = Some u' \<and> us_parser u' \<noteq> None"
  by (auto simp: with_parser_def)

lemma init_settings_some:
  assumes "us_parser u \<noteq> None"
  shows "init_settings prm u \<noteq> None"
proof -
  obtain u1 where u1: "with_parser (\<lambda>p. SetLidarType (ip_lidar_type prm)
      (SetOpticalCenterCoordinates (ip_distance_correction_lidar_type prm) p)) u = Some u1" "us_parser u1 \<noteq> None"
    using with_parser_some [OF assms] by blast
  obtain x y z roll pitch yaw where tp: "ip_transform prm = (x, y, z, roll, pitch, yaw)" by (metis prod_cases6)
  have "us_parser (us_SetFrameAzimuth (ip_frame_start_azimuth prm) (us_SetPcapPlay (ip_pcap_play_synchronization prm)
      (ip_source_type prm) (snd (us_SetTransformPara x y z roll pitch yaw u1)))) \<noteq> None"
    using u1(2) by (auto simp: us_SetFrameAzimuth_def us_SetPcapPlay_def us_SetTransformPara_def split: option.splits)
  from with_parser_some [OF this] show ?thesis by (auto simp: init_settings_def u1(1) tp Let_def)
qed

text \<open>What the start of the threads leaves as it is.\<close>

definition same_lidar_data :: "lidar \<Rightarrow> lidar \<Rightarrow> bool" where
  "same_lidar_data l l' \<longleftrightarrow> l_udp l' = l_udp l \<and> l_frame l' = l_frame l \<and> l_source l' = l_source l \<and>
     l_udp_thread_running l' = l_udp_thread_running l \<and> l_init_finish l' = l_init_finish l"

definition same_lidar :: "lidar \<Rightarrow> lidar \<Rightarrow> bool" where
  "same_lidar l l' \<longleftrightarrow> l_udp l' = l_udp l \<and> l_frame l' = l_frame l \<and> l_init_finish l' = l_init_finish l \<and>
     l_handle_thread_count l' = l_handle_thread_count l \<and> l_handle_thread_vec l' = l_handle_thread_vec l \<and>
     l_handle_thread_packet_buffer l' = l_handle_thread_packet_buffer l \<and> l_receive_ptr l' = l_receive_ptr l \<and>
     l_parser_ptr l' = l_parser_ptr l \<and> l_set_ptc_ptr l' = l_set_ptc_ptr l \<and> l_unjoined l' = l_unjoined l"

lemma init_source_replay:
  assumes "ip_source_type prm = 2"
  shows "\<exists>l1. init_source prm l = Some l1 \<and> l_source l1 = Some Pcap_Source_Object \<and>
    l_udp_thread_running l1 = ip_enable_udp_thread prm \<and> same_lidar l l1"
  using assms by (cases "ip_socket_buffer_size prm > 0") (simp_all add: init_source_def Let_def same_lidar_def)

lemma SetThreadNum_fresh_data:
  assumes "threads_fresh l" and "SetThreadNum cpus n l = Some l'"
  shows "same_lidar_data l l'"
  using assms
  by (auto simp: SetThreadNum_def threads_fresh_def join_receive_def start_handles_def start_threads_def
      same_lidar_data_def Let_def split: if_splits)

text \<open>
  C29. Replaying a file, initialisation ends exactly when it should, except on two processors: with
  \<open>running_\<close> kept and files that load, \<open>Init\<close> returns if and only if the thread that reads the file was
  started, which is not so when the number of threads, limited to the processors less two, is 0, and
  some packet tells the class of the lidar. It then returns 0, with the first and the third flag
  set.
\<close>

theorem Init_replay_ends:
  assumes "threads_fresh l" and "us_parser (l_udp l) = None" and "length (l_init_finish l) = 4"
    and "ip_source_type prm = 2" and "ip_enable_udp_thread prm" and "e_running env = (\<lambda>_. True)"
    and "\<And>i pk. e_packets env i = Some pk \<Longrightarrow> 4 \<le> length (up_buffer pk)"
    and "\<And>path u. e_load_file env path u \<noteq> None" and "\<And>path u. e_load_firetimes env path u \<noteq> None"
  shows "(Init vt env prm l \<noteq> None \<longleftrightarrow>
      min (ip_thread_num prm) (e_cpus env - 2) \<noteq> 0 \<and> (\<exists>i pk. e_packets env i = Some pk \<and> identifies pk)) \<and>
    (\<forall>r l'. Init vt env prm l = Some (r, l') \<longrightarrow>
      r = 0 \<and> l_init_finish l' ! 0 \<and> l_init_finish l' ! 2 \<and> l_init_finish l' ! 1 = l_init_finish l ! 1)"
proof -
  let ?n = "ip_thread_num prm" and ?m = "min (ip_thread_num prm) (e_cpus env - 2)"
    and ?hit = "\<exists>i pk. e_packets env i = Some pk \<and> identifies pk"
  obtain l1 where l1: "init_source prm l = Some l1" "l_source l1 = Some Pcap_Source_Object"
      "l_udp_thread_running l1" "same_lidar l l1"
    using init_source_replay [OF assms(4)] assms(5) by blast
  let ?l1 = "l1 \<lparr> l_use_timestamp_type := ip_use_timestamp_type prm, l_fov_start := ip_fov_start prm,
      l_fov_end := ip_fov_end prm \<rparr>"
  have fresh: "threads_fresh ?l1" using assms(1) l1(4) by (simp add: threads_fresh_def same_lidar_def)
  show ?thesis
  proof (cases "?m = 0")
    case True
    have "SetThreadNum (e_cpus env) ?n ?l1 = Some ?l1"
      using fresh True by (auto simp: SetThreadNum_def threads_fresh_def min_def split: if_splits)
    then have start: "Init_start env prm l = Some ?l1" using l1(1) assms(4) by (simp add: Init_start_def)
    have "queue_packets env ?l1 = (\<lambda>_. None)"
      using l1(2) fresh by (auto simp: queue_packets_def threads_fresh_def fun_eq_iff)
    moreover have "us_parser (l_udp l1) = None" using l1(4) assms(2) by (simp add: same_lidar_def)
    moreover have "spin (init_poll vt (\<lambda>_. True) (\<lambda>_. None)) 0 (l_frame l1, l_udp l1) = None"
      using init_poll_ends [of "l_udp l1" "\<lambda>_. None" vt "l_frame l1"] calculation(2) by blast
    ultimately have "spin (init_poll vt (e_running env) (queue_packets env ?l1)) 0 (l_frame ?l1, l_udp ?l1) = None"
      using assms(6) by simp
    then have "Init vt env prm l = None" using start by (simp add: Init_def del: bind_Some_iff)
    then show ?thesis using True by simp
  next
    case False
    obtain l2 where l2: "SetThreadNum (e_cpus env) ?n ?l1 = Some l2" "threads_started [] ?m l2"
      using SetThreadNum_first [OF fresh refl False] by blast
    have same: "same_lidar_data ?l1 l2" using SetThreadNum_fresh_data [OF fresh l2(1)] .
    have start: "Init_start env prm l = Some l2" using l1(1) l2(1) assms(4) by (simp add: Init_start_def)
    have q: "queue_packets env l2 = e_packets env"
      using same l2(2) l1(3) by (auto simp: queue_packets_def same_lidar_data_def threads_started_def fun_eq_iff)
    have u: "us_parser (l_udp l2) = None" using same l1(4) assms(2) by (simp add: same_lidar_data_def same_lidar_def)
    have loop: "(spin (init_poll vt (\<lambda>_. True) (e_packets env)) 0 (l_frame l2, l_udp l2) \<noteq> None \<longleftrightarrow> ?hit) \<and>
        (\<forall>i f' u'. spin (init_poll vt (\<lambda>_. True) (e_packets env)) 0 (l_frame l2, l_udp l2) = Some (i, f', u') \<longrightarrow>
           us_parser u' \<noteq> None)"
      by (rule init_poll_ends [OF u]) (rule assms(7))
    show ?thesis
    proof (cases "spin (init_poll vt (\<lambda>_. True) (e_packets env)) 0 (l_frame l2, l_udp l2)")
      case None
      then have "Init vt env prm l = None" using start q assms(6) by (simp add: Init_def del: bind_Some_iff)
      moreover have "\<not> ?hit" using loop None by blast
      ultimately show ?thesis by simp
    next
      case (Some r)
      obtain i f u' where r: "r = (i, f, u')" by (metis prod_cases3)
      then have p: "us_parser u' \<noteq> None" and hit: ?hit using loop Some by blast+
      obtain u1 where u1: "init_settings prm u' = Some u1" using init_settings_some [OF p] by blast
      obtain u2 where u2: "e_load_file env (ip_correction_file_path prm) u1 = Some u2" using assms(8) by blast
      obtain u3 where u3: "e_load_firetimes env (ip_firetimes_path prm) u2 = Some u3" using assms(9) by blast
      have "\<exists>l'. Init vt env prm l = Some (0, l') \<and> l_init_finish l' = (l_init_finish l2)[0 := True, 2 := True]"
        using start q Some r p u1 u2 u3 assms(4,6)
        by (simp add: Init_def init_files_def set_finish_def Let_def)
      moreover have "l_init_finish l2 = l_init_finish l" using same l1(4) by (simp add: same_lidar_data_def same_lidar_def)
      ultimately show ?thesis using False hit assms(3) by auto
    qed
  qed
qed

text \<open>A file whose second packet names the class.\<close>

definition init_param_ex :: init_param where
  "init_param_ex = \<lparr> ip_source_type = 2, ip_socket_buffer_size = 0, ip_enable_parser_thread = True,
     ip_enable_udp_thread = True, ip_use_timestamp_type = 0, ip_fov_start = -1, ip_fov_end = -1,
     ip_thread_num = 1, ip_distance_correction_lidar_type = [], ip_lidar_type = [],
     ip_transform = (Fin 0, Fin 0, Fin 0, Fin 0, Fin 0, Fin 0), ip_pcap_play_synchronization = True,
     ip_frame_start_azimuth = Fin 1, ip_enable_packet_loss_tool = False,
     ip_enable_packet_timeloss_tool = False, ip_packet_timeloss_tool_continue = False,
     ip_correction_file_path = [], ip_firetimes_path = [] \<rparr>"

definition init_env_ex :: "int \<Rightarrow> init_env" where
  "init_env_ex cpus = \<lparr> e_cpus = cpus, e_running = (\<lambda>_. True),
     e_packets = (\<lambda>i. if i = 1 then Some (packet_ex [0, 0] \<lparr> up_buffer := [0xEE, 0xFF, 6, 1, 0, 0], up_packet_len := 6 \<rparr>) else None),
     e_ptc_open = (\<lambda>_. None), e_ptc_running = (\<lambda>_. True), e_correction_info = (0, []),
     e_load_string = (\<lambda>_ u. Some (0, u)), e_load_file = (\<lambda>_ u. Some u), e_load_firetimes = (\<lambda>_ u. Some u) \<rparr>"

lemma Init_replay_ends_witness:
  "Init undefined (init_env_ex 4) init_param_ex (Lidar_new frame_ex) \<noteq> None \<and>
   Init undefined (init_env_ex 2) init_param_ex (Lidar_new frame_ex) = None"
proof -
  let ?l = "Lidar_new frame_ex"
  have l: "threads_fresh ?l" "us_parser (l_udp ?l) = None" "length (l_init_finish ?l) = 4"
    by (simp_all add: threads_fresh_def Lidar_new_def UdpParser_new_def)
  have e: "ip_source_type init_param_ex = 2" "ip_enable_udp_thread init_param_ex" "ip_thread_num init_param_ex = 1"
      "e_running (init_env_ex n) = (\<lambda>_. True)" "e_cpus (init_env_ex n) = n"
      "\<And>i pk. e_packets (init_env_ex n) i = Some pk \<Longrightarrow> 4 \<le> length (up_buffer pk)"
      "\<And>path u. e_load_file (init_env_ex n) path u \<noteq> None" "\<And>path u. e_load_firetimes (init_env_ex n) path u \<noteq> None" for n
    by (auto simp: init_param_ex_def init_env_ex_def split: if_splits)
  have hit: "\<exists>i pk. e_packets (init_env_ex n) i = Some pk \<and> identifies pk" for n
    by (rule exI [of _ 1]) (simp add: init_env_ex_def identifies_def class_of_version_def)
  have r: "Init undefined (init_env_ex n) init_param_ex ?l \<noteq> None \<longleftrightarrow>
      min (ip_thread_num init_param_ex) (e_cpus (init_env_ex n) - 2) \<noteq> 0 \<and>
      (\<exists>i pk. e_packets (init_env_ex n) i = Some pk \<and> identifies pk)" for n
    using Init_replay_ends [OF l e(1,2,4) _ e(7,8), of n undefined] e(6) by blast
  have "Init undefined (init_env_ex 4) init_param_ex ?l \<noteq> None" using r [of 4] hit by (simp add: e(3,5) del: not_None_eq)
  moreover have "\<not> Init undefined (init_env_ex 2) init_param_ex ?l \<noteq> None" using r [of 2] by (simp add: e(3,5) del: not_None_eq)
  ultimately show ?thesis by blast
qed

end
