(* ===== verification/Thread_Pool.thy ===== *)
theory Thread_Pool
  imports Compute_Points "HOL-Library.Multiset"
begin

text \<open>
  The threads that compute the points of the decoded packets: \<open>Lidar::ParserThread\<close> and
  \<open>Lidar::HandleThread\<close> of \<open>src/libhesai/Lidar/lidar.cc\<close>. With fewer than two handle threads the parser
  thread computes the packets itself; else it deals their indices to the lists of the handle threads
  in turn, and each thread takes from its own list.

  A step is one iteration of a thread that finds something to do. The handle thread holds the lock of
  its list while it computes, and the points of different packets do not overlap (theory
  Compute\_Points), so a computation is one step. \<open>compute i\<close> is \<open>ComputeXYZI\<close> for packet \<open>i\<close> on the
  shared frame and parser; \<open>hp_log\<close> records the computed indices for the proofs.
\<close>

record 's pool =
  hp_state :: 's
  hp_decoded :: "int list"
  hp_nUDPCount :: nat
  hp_buffers :: "int list list"
  hp_log :: "int list"

definition kPacketBufferSize :: nat where "kPacketBufferSize = 36000"

text \<open>The parser thread puts an index into the list of the next thread; a full list loses its first.\<close>

definition pool_put :: "int \<Rightarrow> int list \<Rightarrow> int list" where
  "pool_put i b = (let b = b @ [i] in if length b > kPacketBufferSize then tl b else b)"

definition ParserThread_step :: "(int \<Rightarrow> 's \<Rightarrow> 's option) \<Rightarrow> nat \<Rightarrow> 's pool \<Rightarrow> 's pool option" where
  "ParserThread_step compute handle_thread_count d =
     (case hp_decoded d of
        [] \<Rightarrow> None
      | i # q \<Rightarrow>
          if handle_thread_count < 2 then do {
            s \<leftarrow> compute i (hp_state d);
            Some (d \<lparr> hp_decoded := q, hp_state := s, hp_log := hp_log d @ [i] \<rparr>) }
          else
            (let n = hp_nUDPCount d mod handle_thread_count
             in Some (d \<lparr> hp_decoded := q, hp_buffers := (hp_buffers d)[n := pool_put i (hp_buffers d ! n)],
                          hp_nUDPCount := n + 1 \<rparr>)))"

definition HandleThread_step :: "(int \<Rightarrow> 's \<Rightarrow> 's option) \<Rightarrow> nat \<Rightarrow> 's pool \<Rightarrow> 's pool option" where
  "HandleThread_step compute nThreadNum d =
     (case hp_buffers d ! nThreadNum of
        [] \<Rightarrow> None
      | i # b \<Rightarrow> do {
          s \<leftarrow> compute i (hp_state d);
          Some (d \<lparr> hp_buffers := (hp_buffers d)[nThreadNum := b], hp_state := s, hp_log := hp_log d @ [i] \<rparr>) })"

text \<open>Any interleaving of the threads.\<close>

inductive pool_run :: "(int \<Rightarrow> 's \<Rightarrow> 's option) \<Rightarrow> nat \<Rightarrow> 's pool \<Rightarrow> 's pool \<Rightarrow> bool"
  for compute :: "int \<Rightarrow> 's \<Rightarrow> 's option" and c :: nat where
  none: "pool_run compute c d d"
| parser: "pool_run compute c d d1 \<Longrightarrow> ParserThread_step compute c d1 = Some d2 \<Longrightarrow> pool_run compute c d d2"
| handle: "pool_run compute c d d1 \<Longrightarrow> k < c \<Longrightarrow> 2 \<le> c \<Longrightarrow> HandleThread_step compute k d1 = Some d2 \<Longrightarrow> pool_run compute c d d2"

text \<open>\<open>ClearPacketBuffer\<close>\<close>

definition ClearPacketBuffer :: "nat \<Rightarrow> 's pool \<Rightarrow> 's pool" where
  "ClearPacketBuffer handle_thread_count d =
     (let d = d \<lparr> hp_decoded := [] \<rparr>
      in if handle_thread_count > 1 then d \<lparr> hp_buffers := map (\<lambda>_. []) (hp_buffers d) \<rparr> else d)"

text \<open>The packets computed one after the other by one thread.\<close>

fun compute_all :: "(int \<Rightarrow> 's \<Rightarrow> 's option) \<Rightarrow> int list \<Rightarrow> 's \<Rightarrow> 's option" where
  "compute_all compute [] s = Some s"
| "compute_all compute (i # is) s = do { s \<leftarrow> compute i s; compute_all compute is s }"

lemma compute_all_append: "compute_all c (xs @ ys) s = do { s \<leftarrow> compute_all c xs s; compute_all c ys s }"
proof (induction xs arbitrary: s)
  case (Cons a xs)
  then show ?case by (cases "c a s") simp_all
qed simp

lemma run_trans: "pool_run compute c d d1 \<Longrightarrow> pool_run compute c d1 d2 \<Longrightarrow> pool_run compute c d d2"
  by (rotate_tac, induction rule: pool_run.induct) (blast intro: pool_run.intros)+

text \<open>What is left to do: each index is moved at most twice.\<close>

definition work :: "'s pool \<Rightarrow> nat" where
  "work d = 2 * length (hp_decoded d) + length (concat (hp_buffers d))"

lemma work_0: "work d = 0 \<longleftrightarrow> hp_decoded d = [] \<and> concat (hp_buffers d) = []"
  by (simp add: work_def)

section \<open>Computations that commute\<close>

locale commuting =
  fixes compute :: "int \<Rightarrow> 's \<Rightarrow> 's option" and ok :: "'s \<Rightarrow> bool" and ids :: "int set"
  assumes computes: "ok s \<Longrightarrow> i \<in> ids \<Longrightarrow> \<exists>s'. compute i s = Some s' \<and> ok s'"
    and commutes: "ok s \<Longrightarrow> i \<in> ids \<Longrightarrow> j \<in> ids \<Longrightarrow> i \<noteq> j \<Longrightarrow>
      do { s \<leftarrow> compute i s; compute j s } = do { s \<leftarrow> compute j s; compute i s }"
begin

lemma all_defined: "ok s \<Longrightarrow> set is \<subseteq> ids \<Longrightarrow> \<exists>s'. compute_all compute is s = Some s' \<and> ok s'"
  by (induction "is" arbitrary: s) (use computes in \<open>fastforce+\<close>)

lemma to_front:
  assumes "ok s" and "set (x # us) \<subseteq> ids" and "x \<notin> set us"
  shows "compute_all compute (us @ x # vs) s = compute_all compute (x # us @ vs) s"
  using assms
proof (induction us arbitrary: s)
  case (Cons u us)
  obtain s1 where s1: "compute u s = Some s1" "ok s1" using computes [of s u] Cons.prems by auto
  have "compute_all compute ((u # us) @ x # vs) s = compute_all compute (us @ x # vs) s1" by (simp add: s1)
  also have "\<dots> = compute_all compute (x # us @ vs) s1" using Cons.IH [OF s1(2)] Cons.prems by auto
  also have "\<dots> = do { s \<leftarrow> (do { s \<leftarrow> compute u s; compute x s }); compute_all compute (us @ vs) s }" by (simp add: s1)
  also have "\<dots> = do { s \<leftarrow> (do { s \<leftarrow> compute x s; compute u s }); compute_all compute (us @ vs) s }"
    using commutes [of s u x] Cons.prems by auto
  finally show ?case by (cases "compute x s") simp_all
qed simp

text \<open>The order does not matter.\<close>

lemma any_order:
  assumes "ok s" and "mset xs = mset ys" and "distinct xs" and "set xs \<subseteq> ids"
  shows "compute_all compute xs s = compute_all compute ys s"
  using assms
proof (induction xs arbitrary: ys s)
  case (Cons x xs)
  obtain us vs where ys: "ys = us @ x # vs"
    using Cons.prems(2) by (metis list.set_intros(1) mset_eq_setD split_list)
  have m: "mset xs = mset (us @ vs)" using Cons.prems(2) by (simp add: ys)
  have s: "set xs = set us \<union> set vs" using mset_eq_setD [OF m] by simp
  obtain s1 where s1: "compute x s = Some s1" "ok s1" using computes [of s x] Cons.prems by auto
  have "compute_all compute ys s = compute_all compute (x # us @ vs) s"
    unfolding ys using Cons.prems s by (intro to_front) auto
  then show ?case using Cons.IH [OF s1(2) m] Cons.prems by (simp add: s1)
qed simp

text \<open>
  The invariant of a run from the indices \<open>xs\<close>: every index is computed, dealt or still in the queue,
  once, and the state is that of the computed ones.
\<close>

definition pool_inv :: "nat \<Rightarrow> 's \<Rightarrow> int list \<Rightarrow> 's pool \<Rightarrow> bool" where
  "pool_inv c s xs d \<longleftrightarrow> mset (hp_log d) + mset (hp_decoded d) + mset (concat (hp_buffers d)) = mset xs \<and>
     compute_all compute (hp_log d) s = Some (hp_state d) \<and> ok (hp_state d) \<and> length (hp_buffers d) = c"

lemma mset_concat_update:
  assumes "k < length bs"
  shows "mset (concat (bs[k := b])) + mset (bs ! k) = mset (concat bs) + mset b"
  using assms
proof (induction bs arbitrary: k)
  case (Cons a bs)
  then show ?case by (cases k) (simp_all add: ac_simps)
qed simp

lemma concat_length_nth: "k < length bs \<Longrightarrow> length (bs ! k) \<le> length (concat bs)"
  by (induction bs arbitrary: k) (auto simp: nth_Cons split: nat.splits intro: trans_le_add2)

lemma parser_inv:
  assumes inv: "pool_inv c s xs d" and n: "length xs \<le> kPacketBufferSize" and ids: "set xs \<subseteq> ids"
    and step: "ParserThread_step compute c d = Some d'"
  shows "pool_inv c s xs d'"
proof -
  obtain i q where q: "hp_decoded d = i # q" using step by (auto simp: ParserThread_step_def split: list.splits)
  have m: "mset (hp_log d) + mset (i # q) + mset (concat (hp_buffers d)) = mset xs" and len: "length (hp_buffers d) = c"
    using inv by (simp_all add: pool_inv_def q)
  show ?thesis
  proof (cases "c < 2")
    case True
    obtain s1 where s1: "compute i (hp_state d) = Some s1" "d' = d \<lparr> hp_decoded := q, hp_state := s1, hp_log := hp_log d @ [i] \<rparr>"
      using step True by (auto simp: ParserThread_step_def q)
    have "i \<in> ids" using arg_cong [OF m, of set_mset] ids by auto
    then have "ok s1" using computes [of "hp_state d" i] inv s1 by (auto simp: pool_inv_def)
    then show ?thesis using inv s1 m by (simp add: pool_inv_def compute_all_append)
  next
    case False
    let ?n = "hp_nUDPCount d mod c"
    have lt: "?n < length (hp_buffers d)" using False len by simp
    have "length (hp_buffers d ! ?n) < kPacketBufferSize"
      using arg_cong [OF m, of size] concat_length_nth [OF lt] n by simp
    then have put: "pool_put i (hp_buffers d ! ?n) = hp_buffers d ! ?n @ [i]" by (simp add: pool_put_def)
    have d': "d' = d \<lparr> hp_decoded := q, hp_buffers := (hp_buffers d)[?n := hp_buffers d ! ?n @ [i]], hp_nUDPCount := ?n + 1 \<rparr>"
      using step False put by (simp add: ParserThread_step_def q Let_def)
    have "mset (concat ((hp_buffers d)[?n := hp_buffers d ! ?n @ [i]])) = mset (concat (hp_buffers d)) + {#i#}"
      using mset_concat_update [OF lt, of "hp_buffers d ! ?n @ [i]"] by simp
    then show ?thesis using inv m len unfolding d' by (simp add: pool_inv_def ac_simps)
  qed
qed

lemma handle_inv:
  assumes inv: "pool_inv c s xs d" and k: "k < c" and ids: "set xs \<subseteq> ids" and step: "HandleThread_step compute k d = Some d'"
  shows "pool_inv c s xs d'"
proof -
  obtain i b s1 where b: "hp_buffers d ! k = i # b" "compute i (hp_state d) = Some s1"
    "d' = d \<lparr> hp_buffers := (hp_buffers d)[k := b], hp_state := s1, hp_log := hp_log d @ [i] \<rparr>"
    using step by (auto simp: HandleThread_step_def split: list.splits)
  have len: "k < length (hp_buffers d)" using inv k by (simp add: pool_inv_def)
  have m: "mset (hp_log d) + mset (hp_decoded d) + mset (concat (hp_buffers d)) = mset xs" using inv by (simp add: pool_inv_def)
  have "i \<in> set (concat (hp_buffers d))" using b(1) nth_mem [OF len] by force
  then have "i \<in> ids" using arg_cong [OF m, of set_mset] ids by auto
  then have "ok s1" using computes [of "hp_state d" i] inv b(2) by (auto simp: pool_inv_def)
  moreover have e: "mset (concat ((hp_buffers d)[k := b])) + {#i#} = mset (concat (hp_buffers d))"
    using mset_concat_update [OF len, of b] b(1) by simp
  moreover have "mset (hp_log d @ [i]) + mset (hp_decoded d) + mset (concat ((hp_buffers d)[k := b])) = mset xs"
    unfolding m [symmetric] e [symmetric] by simp
  ultimately show ?thesis using inv b(2) unfolding b(3) by (simp add: pool_inv_def compute_all_append)
qed

lemma run_inv:
  assumes "pool_run compute c d d'" and "pool_inv c s xs d" and "length xs \<le> kPacketBufferSize" and "set xs \<subseteq> ids"
  shows "pool_inv c s xs d'"
  using assms by (induction rule: pool_run.induct) (blast intro: parser_inv handle_inv)+

text \<open>A run that has nothing left to do has computed what one thread computes.\<close>

lemma finished:
  assumes run: "pool_run compute c d d'" and d: "hp_decoded d = xs" "hp_buffers d = replicate c []" "hp_log d = []"
    and ok: "ok (hp_state d)" and xs: "distinct xs" "set xs \<subseteq> ids" "length xs \<le> kPacketBufferSize"
    and fin: "hp_decoded d' = []" "concat (hp_buffers d') = []"
  shows "compute_all compute xs (hp_state d) = Some (hp_state d') \<and> mset (hp_log d') = mset xs"
proof -
  have "pool_inv c (hp_state d) xs d" using d ok by (simp add: pool_inv_def concat_replicate_trivial)
  then have i: "pool_inv c (hp_state d) xs d'" using run_inv [OF run _ xs(3,2)] by blast
  then have m: "mset xs = mset (hp_log d')" using fin by (simp add: pool_inv_def)
  show ?thesis using i any_order [OF ok m xs(1,2)] m by (simp add: pool_inv_def)
qed

text \<open>The threads never get stuck.\<close>

lemma step_defined:
  assumes inv: "pool_inv c s xs d" and ids: "set xs \<subseteq> ids"
  shows "hp_decoded d \<noteq> [] \<Longrightarrow> \<exists>d'. ParserThread_step compute c d = Some d'"
    and "k < c \<Longrightarrow> hp_buffers d ! k \<noteq> [] \<Longrightarrow> \<exists>d'. HandleThread_step compute k d = Some d'"
proof -
  have m: "mset (hp_log d) + mset (hp_decoded d) + mset (concat (hp_buffers d)) = mset xs" using inv by (simp add: pool_inv_def)
  have ok: "ok (hp_state d)" "length (hp_buffers d) = c" using inv by (simp_all add: pool_inv_def)
  show "\<exists>d'. ParserThread_step compute c d = Some d'" if ne: "hp_decoded d \<noteq> []"
  proof -
    obtain i q where q: "hp_decoded d = i # q" using ne by (cases "hp_decoded d") auto
    then have "i \<in> ids" using arg_cong [OF m, of set_mset] ids by auto
    then show ?thesis using computes [OF ok(1)] q by (fastforce simp: ParserThread_step_def Let_def)
  qed
  show "\<exists>d'. HandleThread_step compute k d = Some d'" if k: "k < c" and ne: "hp_buffers d ! k \<noteq> []"
  proof -
    obtain i b where b: "hp_buffers d ! k = i # b" using ne by (cases "hp_buffers d ! k") auto
    have "i \<in> set (concat (hp_buffers d))" using b nth_mem [of k "hp_buffers d"] k ok(2) by force
    then have "i \<in> ids" using arg_cong [OF m, of set_mset] ids by auto
    then show ?thesis using computes [OF ok(1)] b by (fastforce simp: HandleThread_step_def)
  qed
qed

end

lemma length_concat_update: "k < length bs \<Longrightarrow> length (concat (bs[k := b])) + length (bs ! k) = length (concat bs) + length b"
proof (induction bs arbitrary: k)
  case (Cons a bs)
  then show ?case by (cases k) (auto simp: add.commute add.left_commute)
qed simp

lemma work_decreases:
  "length (hp_buffers d) = c \<Longrightarrow> ParserThread_step compute c d = Some d' \<Longrightarrow> work d' < work d"
  "k < length (hp_buffers d) \<Longrightarrow> HandleThread_step compute k d = Some d' \<Longrightarrow> work d' < work d"
proof -
  assume c: "length (hp_buffers d) = c" and s: "ParserThread_step compute c d = Some d'"
  obtain i q where q: "hp_decoded d = i # q" using s by (auto simp: ParserThread_step_def split: list.splits)
  have put: "length (pool_put i b) \<le> Suc (length b)" for b by (simp add: pool_put_def Let_def)
  have grow: "length (concat ((hp_buffers d)[n := pool_put i (hp_buffers d ! n)])) \<le> Suc (length (concat (hp_buffers d)))"
    if "n < length (hp_buffers d)" for n
    using length_concat_update [OF that, of "pool_put i (hp_buffers d ! n)"] put [of "hp_buffers d ! n"] by linarith
  show "work d' < work d"
  proof (cases "c < 2")
    case False
    then show ?thesis
      using s q c grow [of "hp_nUDPCount d mod c"] by (auto simp: ParserThread_step_def work_def Let_def)
  qed (use s q in \<open>auto simp: ParserThread_step_def work_def\<close>)
next
  assume k: "k < length (hp_buffers d)" and s: "HandleThread_step compute k d = Some d'"
  obtain i b where b: "hp_buffers d ! k = i # b" "hp_buffers d' = (hp_buffers d)[k := b]" "hp_decoded d' = hp_decoded d"
    using s by (auto simp: HandleThread_step_def split: list.splits)
  then show "work d' < work d" using length_concat_update [OF k, of b] by (simp add: work_def)
qed

context commuting
begin

lemma finishes:
  assumes "pool_inv c s xs d" and "0 < c" and xs: "length xs \<le> kPacketBufferSize" "set xs \<subseteq> ids"
    and "c < 2 \<Longrightarrow> concat (hp_buffers d) = []"
  shows "\<exists>d'. pool_run compute c d d' \<and> work d' = 0"
  using assms(1,5)
proof (induction "work d" arbitrary: d rule: less_induct)
  case less
  have len: "length (hp_buffers d) = c" using less.prems(1) by (simp add: pool_inv_def)
  consider "work d = 0" | "hp_decoded d \<noteq> []" | "hp_decoded d = []" "concat (hp_buffers d) \<noteq> []" by (auto simp: work_def)
  then show ?case
  proof cases
    case 1
    then show ?thesis using pool_run.none by blast
  next
    case 2
    obtain d1 where d1: "ParserThread_step compute c d = Some d1" using step_defined(1) [OF less.prems(1) xs(2) 2] by blast
    have "c < 2 \<Longrightarrow> hp_buffers d1 = hp_buffers d"
      using d1 by (auto simp: ParserThread_step_def split: list.splits)
    then have "c < 2 \<Longrightarrow> concat (hp_buffers d1) = []" using less.prems(2) by simp
    then obtain d' where "pool_run compute c d1 d'" "work d' = 0"
      using less.hyps [OF work_decreases(1) [OF len d1] parser_inv [OF less.prems(1) xs d1]] by blast
    then show ?thesis using run_trans [OF pool_run.parser [OF pool_run.none d1]] by blast
  next
    case 3
    then obtain k where k: "k < c" "hp_buffers d ! k \<noteq> []" using len by (auto simp: in_set_conv_nth)
    have c: "2 \<le> c" using less.prems(2) 3(2) by linarith
    obtain d1 where d1: "HandleThread_step compute k d = Some d1" using step_defined(2) [OF less.prems(1) xs(2) k] by blast
    then obtain d' where "pool_run compute c d1 d'" "work d' = 0"
      using less.hyps [OF work_decreases(2) [OF _ d1] handle_inv [OF less.prems(1) k(1) xs(2) d1]] k(1) len c by auto
    then show ?thesis using run_trans [OF pool_run.handle [OF pool_run.none k(1) c d1]] by blast
  qed
qed

end

section \<open>The four classes\<close>

definition compute_of :: "(libm \<Rightarrow> LidarDecodedFrame \<Rightarrow> int \<Rightarrow> parser \<Rightarrow> (int \<times> LidarDecodedFrame \<times> parser) option) \<Rightarrow>
    libm \<Rightarrow> int \<Rightarrow> LidarDecodedFrame \<times> parser \<Rightarrow> (LidarDecodedFrame \<times> parser) option" where
  "compute_of C lm i x = do { (_, f, p) \<leftarrow> C lm (fst x) i (snd x); Some (f, p) }"

text \<open>A frame of decoded packets of \<open>B\<close> blocks with \<open>L\<close> channels, and a parser with corrections for them.\<close>

definition frame_ok :: "nat \<Rightarrow> nat \<Rightarrow> LidarDecodedFrame \<times> parser \<Rightarrow> bool" where
  "frame_ok B L x \<longleftrightarrow> sized (fst x) B L \<and> corrections_ok (snd x) L \<and>
     (\<forall>j. j < 2560000 \<longrightarrow> azimuth_ok (pd_azimuth (f_pointData (fst x) j)))"

lemma ComputeXYZI_commuting:
  assumes "ComputeXYZI_of C"
  shows "commuting (compute_of C lm) (frame_ok B L) {0..<5000}"
proof
  obtain g where g: "C = compute_xyzi g" "point_geometry g" using assms by (rule ComputeXYZI_of_cases)
  fix x :: "LidarDecodedFrame \<times> parser" and i j :: int
  assume x: "frame_ok B L x" and i: "i \<in> {0..<5000}"
  then obtain n where n: "i = int n" "n < 5000" using zero_le_imp_eq_int [of i] by auto
  have ok: "sized (fst x) B L" "corrections_ok (snd x) L"
    "\<forall>j. j < 2560000 \<longrightarrow> azimuth_ok (pd_azimuth (f_pointData (fst x) j))"
    using x by (simp_all add: frame_ok_def)
  have "\<forall>j. n * (B * L) \<le> j \<and> j < n * (B * L) + B * L \<longrightarrow> azimuth_ok (pd_azimuth (f_pointData (fst x) j))"
    using ok(3) points_fit [OF n(2), of "B * L"] ok(1) by (auto simp: sized_def)
  from point_geometry.computes [OF g(2) ok(1) n(2) ok(2) this, of lm]
  show "\<exists>s'. compute_of C lm i x = Some s' \<and> frame_ok B L s'"
    using ok by (simp add: compute_of_def g(1) n(1) frame_ok_def corrections_ok_def FrameNumAdd_def)
  assume "j \<in> {0..<5000}" and ij: "i \<noteq> j"
  then obtain m where m: "j = int m" "m < 5000" using zero_le_imp_eq_int [of j] by auto
  have "n \<noteq> m" using ij n(1) m(1) by simp
  show "do { s \<leftarrow> compute_of C lm i x; compute_of C lm j s } = do { s \<leftarrow> compute_of C lm j x; compute_of C lm i s }"
    using point_geometry.commutes [OF g(2) ok(1) n(2) m(2) \<open>n \<noteq> m\<close> ok(2,3), of lm] by (auto simp: compute_of_def n(1) m(1) g(1))
qed

interpretation p40_pool: commuting "compute_of p40_ComputeXYZI lm" "frame_ok B L" "{0..<5000}" for lm B L
  by (rule ComputeXYZI_commuting) (simp add: ComputeXYZI_of_def)

interpretation p64_pool: commuting "compute_of p64_ComputeXYZI lm" "frame_ok B L" "{0..<5000}" for lm B L
  by (rule ComputeXYZI_commuting) (simp add: ComputeXYZI_of_def)

interpretation qt_pool: commuting "compute_of qt_ComputeXYZI lm" "frame_ok B L" "{0..<5000}" for lm B L
  by (rule ComputeXYZI_commuting) (simp add: ComputeXYZI_of_def)

interpretation xt_pool: commuting "compute_of xt_ComputeXYZI lm" "frame_ok B L" "{0..<5000}" for lm B L
  by (rule ComputeXYZI_commuting) (simp add: ComputeXYZI_of_def)

text \<open>The queue of a frame of \<open>n\<close> packets.\<close>

definition pool_start :: "nat \<Rightarrow> nat \<Rightarrow> 's \<Rightarrow> 's pool" where
  "pool_start c n s = \<lparr> hp_state = s, hp_decoded = map int [0..<n], hp_nUDPCount = 0, hp_buffers = replicate c [],
     hp_log = [] \<rparr>"

lemma frame_indices: "n \<le> 5000 \<Longrightarrow> set (map int [0..<n]) \<subseteq> {0..<5000}" "distinct (map int [0..<n'])"
  by (auto simp: distinct_map inj_on_def)

lemma pool_start_inv:
  assumes "commuting compute ok ids" and "ok x"
  shows "commuting.pool_inv compute ok c x (map int [0..<n]) (pool_start c n x)"
  using assms(2) by (simp add: commuting.pool_inv_def [OF assms(1)] pool_start_def)

lemma no_buffers: "pool_run compute c d d' \<Longrightarrow> c < 2 \<Longrightarrow> concat (hp_buffers d) = [] \<Longrightarrow> concat (hp_buffers d') = []"
proof (induction rule: pool_run.induct)
  case (parser d1 d2)
  then show ?case by (auto simp: ParserThread_step_def split: list.splits)
qed simp_all

text \<open>
  C2. The threads compute what one thread computes. For every number of handle threads and every
  interleaving of them with the parser thread, when the indices of a frame are used up, every packet
  was computed exactly once, no index was lost from a full list, and the points and the counter are
  those of computing the packets in the order of their arrival.
\<close>

theorem pool_equals_one_thread:
  assumes "ComputeXYZI_of C" and "frame_ok B L x" and "n \<le> 5000"
    and "pool_run (compute_of C lm) c (pool_start c n x) d" and "hp_decoded d = []" "concat (hp_buffers d) = []"
  shows "compute_all (compute_of C lm) (map int [0..<n]) x = Some (hp_state d) \<and>
     mset (hp_log d) = mset (map int [0..<n])"
  using commuting.finished [OF ComputeXYZI_commuting [OF assms(1)] assms(4) refl _ _ _ _ _ _ assms(5,6), of B L]
    frame_indices(1) [OF assms(3)] frame_indices(2) [of n] assms(2,3)
  by (simp add: pool_start_def kPacketBufferSize_def)

text \<open>
  C17. The threads finish. From every state that a run on a frame can reach, a run leads to a state with
  nothing left to do; and no run goes on for ever, since every step has a part of the work done.
\<close>

theorem pool_finishes:
  assumes "ComputeXYZI_of C" and "frame_ok B L x" and n: "n \<le> 5000" and c: "0 < c"
    and run: "pool_run (compute_of C lm) c (pool_start c n x) d"
  shows "(\<exists>d'. pool_run (compute_of C lm) c d d' \<and> hp_decoded d' = [] \<and> concat (hp_buffers d') = []) \<and>
     (\<forall>d'. ParserThread_step (compute_of C lm) c d = Some d' \<longrightarrow> work d' < work d) \<and>
     (\<forall>k<c. \<forall>d'. HandleThread_step (compute_of C lm) k d = Some d' \<longrightarrow> work d' < work d)"
proof -
  have com: "commuting (compute_of C lm) (frame_ok B L) {0..<5000}" by (rule ComputeXYZI_commuting [OF assms(1)])
  have len: "length (map int [0..<n]) \<le> kPacketBufferSize" using n by (simp add: kPacketBufferSize_def)
  have "commuting.pool_inv (compute_of C lm) (frame_ok B L) c x (map int [0..<n]) (pool_start c n x)"
    by (rule pool_start_inv [where ids = "{0..<5000}", OF com assms(2)])
  then have inv: "commuting.pool_inv (compute_of C lm) (frame_ok B L) c x (map int [0..<n]) d"
    using commuting.run_inv [OF com run _ len frame_indices(1) [OF n]] by blast
  have "c < 2 \<Longrightarrow> concat (hp_buffers d) = []" using no_buffers [OF run] by (simp add: pool_start_def)
  then have "\<exists>d'. pool_run (compute_of C lm) c d d' \<and> work d' = 0"
    using commuting.finishes [OF com inv c len frame_indices(1) [OF n]] by blast
  moreover have "length (hp_buffers d) = c" using inv by (simp add: commuting.pool_inv_def [OF com])
  ultimately show ?thesis using work_decreases(1) [of d c] work_decreases(2) [of _ d] by (auto simp: work_0)
qed

lemma frame_ok_ex: "frame_ok 2 1 (sized_ex, parser_ex)"
  using sized_ex_ok parser_ex_ok by (simp add: frame_ok_def)

theorem pool_finishes_witness:
  "\<exists>d. pool_run (compute_of xt_ComputeXYZI libm_ex) 2 (pool_start 2 3 (sized_ex, parser_ex)) d \<and>
     hp_decoded d = [] \<and> concat (hp_buffers d) = []"
proof -
  have "ComputeXYZI_of xt_ComputeXYZI" by (simp add: ComputeXYZI_of_def)
  from pool_finishes [OF this frame_ok_ex, of 3 2 libm_ex "pool_start 2 3 (sized_ex, parser_ex)"]
  show ?thesis using pool_run.none by auto
qed

theorem pool_equals_one_thread_witness:
  "\<exists>d. pool_run (compute_of xt_ComputeXYZI libm_ex) 2 (pool_start 2 3 (sized_ex, parser_ex)) d \<and>
     compute_all (compute_of xt_ComputeXYZI libm_ex) (map int [0..<3]) (sized_ex, parser_ex) = Some (hp_state d)"
proof -
  have C: "ComputeXYZI_of xt_ComputeXYZI" by (simp add: ComputeXYZI_of_def)
  have com: "commuting (compute_of xt_ComputeXYZI libm_ex) (frame_ok 2 1) {0..<5000}" by (rule ComputeXYZI_commuting [OF C])
  have inv: "commuting.pool_inv (compute_of xt_ComputeXYZI libm_ex) (frame_ok 2 1) 2 (sized_ex, parser_ex) (map int [0..<3])
      (pool_start 2 3 (sized_ex, parser_ex))"
    by (rule pool_start_inv [OF com frame_ok_ex])
  obtain d where d: "pool_run (compute_of xt_ComputeXYZI libm_ex) 2 (pool_start 2 3 (sized_ex, parser_ex)) d" "work d = 0"
    using commuting.finishes [OF com inv _ _ frame_indices(1)] by (fastforce simp: kPacketBufferSize_def)
  then show ?thesis
    using pool_equals_one_thread [OF C frame_ok_ex _ d(1)] by (auto simp: work_0)
qed

end
