(* ===== verification/Pcap.thy ===== *)
theory Pcap
  imports Packet_Decoder
begin

text \<open>
  Capture files: \<open>PcapSource\<close> of \<open>src/libhesai/Source/src/pcap_source.cc\<close>, which reads the packets of a
  capture file one by one, and \<open>PcapSaver\<close> of \<open>src/libhesai/Source/src/pcap_saver.cc\<close>, which writes
  them, with the structs of \<open>pcap_source.h\<close> and \<open>pcap_saver.h\<close>.

  The file system is a map from paths to contents. A struct is read from and written to a file as its
  bytes, little-endian. The reader keeps the bytes of an earlier record in its buffer when it reads a
  shorter one. An access outside of an object is \<open>None\<close>.
\<close>

type_synonym files = "string \<Rightarrow> u8 list option"

section \<open>Structs\<close>

record PcapHeader =
  ph_magic_number :: u32
  ph_version_major :: u16
  ph_version_minor :: u16
  ph_thiszone :: u32
  ph_sigfigs :: u32
  ph_snaplen :: u32
  ph_network :: u32

record PcapRecord =
  pr_ts_sec :: u32
  pr_ts_usec :: u32
  pr_incl_len :: u32
  pr_orig_len :: u32

record UDP =
  udp_source_port :: u16
  udp_distination_port :: u16
  udp_length :: u16
  udp_check_sum :: u16

text \<open>The bit fields of the two bytes before \<open>win\<close> are kept as bytes.\<close>

record TCP =
  tcp_source_port :: u16
  tcp_distination_port :: u16
  tcp_seq :: u32
  tcp_ack :: u32
  tcp_lenres :: u8
  tcp_flag :: u8
  tcp_win :: u16
  tcp_check_sum :: u16
  tcp_urp :: u16

definition pcap_magic_number :: u32 where "pcap_magic_number = 0xa1b2c3d4"

definition PcapHeader_at :: "u8 list \<Rightarrow> nat \<Rightarrow> PcapHeader option" where
  "PcapHeader_at buf off = do {
     m \<leftarrow> ld32 buf off;
     ma \<leftarrow> ld16 buf (off + 4);
     mi \<leftarrow> ld16 buf (off + 6);
     tz \<leftarrow> ld32 buf (off + 8);
     sf \<leftarrow> ld32 buf (off + 12);
     sl \<leftarrow> ld32 buf (off + 16);
     nw \<leftarrow> ld32 buf (off + 20);
     Some \<lparr> ph_magic_number = m, ph_version_major = ma, ph_version_minor = mi, ph_thiszone = tz,
            ph_sigfigs = sf, ph_snaplen = sl, ph_network = nw \<rparr> }"

definition PcapRecord_at :: "u8 list \<Rightarrow> nat \<Rightarrow> PcapRecord option" where
  "PcapRecord_at buf off = do {
     s \<leftarrow> ld32 buf off;
     us \<leftarrow> ld32 buf (off + 4);
     incl \<leftarrow> ld32 buf (off + 8);
     orig \<leftarrow> ld32 buf (off + 12);
     Some \<lparr> pr_ts_sec = s, pr_ts_usec = us, pr_incl_len = incl, pr_orig_len = orig \<rparr> }"

definition UDP_at :: "u8 list \<Rightarrow> nat \<Rightarrow> UDP option" where
  "UDP_at buf off = do {
     sp \<leftarrow> ld16 buf off;
     dp \<leftarrow> ld16 buf (off + 2);
     le \<leftarrow> ld16 buf (off + 4);
     cs \<leftarrow> ld16 buf (off + 6);
     Some \<lparr> udp_source_port = sp, udp_distination_port = dp, udp_length = le, udp_check_sum = cs \<rparr> }"

definition TCP_at :: "u8 list \<Rightarrow> nat \<Rightarrow> TCP option" where
  "TCP_at buf off = do {
     sp \<leftarrow> ld16 buf off;
     dp \<leftarrow> ld16 buf (off + 2);
     sq \<leftarrow> ld32 buf (off + 4);
     ak \<leftarrow> ld32 buf (off + 8);
     lr \<leftarrow> ld8 buf (off + 12);
     fl \<leftarrow> ld8 buf (off + 13);
     wi \<leftarrow> ld16 buf (off + 14);
     cs \<leftarrow> ld16 buf (off + 16);
     ur \<leftarrow> ld16 buf (off + 18);
     Some \<lparr> tcp_source_port = sp, tcp_distination_port = dp, tcp_seq = sq, tcp_ack = ak, tcp_lenres = lr,
            tcp_flag = fl, tcp_win = wi, tcp_check_sum = cs, tcp_urp = ur \<rparr> }"

section \<open>The reader\<close>

text \<open>
  \<open>PcapSource\<close> with its \<open>Private\<close> part (the first three fields) and the flag of its base class.
  \<open>tcp_callback\<close> says whether a callback is set.
\<close>

record pcap_source =
  ps_data :: "u8 list"
  ps_fpos :: nat
  ps_is_open :: bool
  ps_pcap_path :: string
  ps_tcp_callback :: bool
  ps_header :: PcapHeader
  ps_record :: PcapRecord
  ps_udp_header :: UDP
  ps_tcp_header :: TCP
  ps_payload :: "u8 list"
  ps_packet_interval :: int
  is_pcap_end :: bool

definition PcapSource_new :: "string \<Rightarrow> int \<Rightarrow> pcap_source \<Rightarrow> pcap_source" where
  "PcapSource_new path interval mem = mem \<lparr> ps_data := [], ps_fpos := 0, ps_is_open := False,
     ps_pcap_path := path, ps_tcp_callback := False, ps_udp_header := \<lparr> udp_source_port = 0, udp_distination_port = 0, udp_length = 0,
     udp_check_sum = 0 \<rparr>, ps_packet_interval := interval, is_pcap_end := False \<rparr>"

definition private_close :: "pcap_source \<Rightarrow> pcap_source" where
  "private_close s =
     (let s = (if ps_is_open s then s \<lparr> ps_is_open := False, ps_data := [] \<rparr> else s) in s \<lparr> ps_fpos := 0 \<rparr>)"

text \<open>An empty file is read into the first element of an empty vector, which there is none.\<close>

definition private_open :: "files \<Rightarrow> string \<Rightarrow> pcap_source \<Rightarrow> pcap_source option" where
  "private_open fs path s =
     (let s = private_close s
      in case fs path of None \<Rightarrow> Some s
         | Some d \<Rightarrow> if d = [] then None else Some (s \<lparr> ps_is_open := True, ps_data := d \<rparr>))"

definition private_eof :: "pcap_source \<Rightarrow> bool" where
  "private_eof s \<longleftrightarrow> ps_fpos s = length (ps_data s)"

text \<open>The two functions \<open>read\<close>: the bytes, and the position behind them.\<close>

definition private_read :: "nat \<Rightarrow> pcap_source \<Rightarrow> u8 list option \<times> pcap_source" where
  "private_read n s =
     (if ps_fpos s + n > length (ps_data s) then (None, s)
      else (bytes_at n (ps_data s) (ps_fpos s), s \<lparr> ps_fpos := ps_fpos s + n \<rparr>))"

definition private_move :: "nat \<Rightarrow> pcap_source \<Rightarrow> bool \<times> pcap_source" where
  "private_move n s =
     (if ps_fpos s + n > length (ps_data s) then (False, s) else (True, s \<lparr> ps_fpos := ps_fpos s + n \<rparr>))"

definition pcap_Close :: "pcap_source \<Rightarrow> pcap_source" where
  "pcap_Close = private_close"

text \<open>\<open>Open\<close>: a file that is too short leaves the header as it was.\<close>

definition pcap_Open :: "files \<Rightarrow> pcap_source \<Rightarrow> (bool \<times> pcap_source) option" where
  "pcap_Open fs s = do {
     s \<leftarrow> private_open fs (ps_pcap_path s) (pcap_Close s);
     if \<not> ps_is_open s then Some (False, s)
     else do {
       s \<leftarrow> (case private_read 24 s of (None, s) \<Rightarrow> Some s
             | (Some bs, s) \<Rightarrow> do { h \<leftarrow> PcapHeader_at bs 0; Some (s \<lparr> ps_header := h \<rparr>) });
       Some (ph_magic_number (ps_header s) = pcap_magic_number, s) } }"

text \<open>The packet from offset \<open>off\<close> of the record on, and its length.\<close>

type_synonym received = "int \<times> UdpPacket \<times> pcap_source"

definition pcap_deliver :: "nat \<Rightarrow> UdpPacket \<Rightarrow> pcap_source \<Rightarrow> received option" where
  "pcap_deliver off pk s = do {
     let n = unat (pr_incl_len (ps_record s)) - off;
     bs \<leftarrow> bytes_at n (ps_payload s) off;
     buf \<leftarrow> memcpy_at 0 bs (up_buffer pk);
     Some (int n, pk \<lparr> up_buffer := buf \<rparr>, s) }"

text \<open>A TCP segment with headers of \<open>sz\<close> bytes; its struct is read at \<open>off\<close>.\<close>

definition pcap_tcp :: "nat \<Rightarrow> nat \<Rightarrow> UdpPacket \<Rightarrow> pcap_source \<Rightarrow> received option" where
  "pcap_tcp sz off pk s =
     (if unat (pr_incl_len (ps_record s)) < sz then Some (1, pk, s)
      else do {
        t \<leftarrow> TCP_at (ps_payload s) off;
        let s = s \<lparr> ps_tcp_header := t \<rparr>;
        Some (if ps_tcp_callback s then int (unat (pr_incl_len (ps_record s)) - sz) else 2, pk, s) })"

text \<open>A UDP datagram of IPv4, or of IPv6 without a VLAN tag.\<close>

definition pcap_udp :: "nat \<Rightarrow> nat \<Rightarrow> UdpPacket \<Rightarrow> pcap_source \<Rightarrow> received option" where
  "pcap_udp sz off pk s = do {
     u \<leftarrow> UDP_at (ps_payload s) off;
     let s = s \<lparr> ps_udp_header := u \<rparr>;
     if unat (pr_incl_len (ps_record s)) < sz then Some (1, pk, s) else pcap_deliver sz pk s }"

definition pcap_ip :: "nat \<Rightarrow> nat \<Rightarrow> UdpPacket \<Rightarrow> pcap_source \<Rightarrow> received option" where
  "pcap_ip protocol_at ip_size pk s = do {
     protocol \<leftarrow> ld8 (ps_payload s) protocol_at;
     if protocol = 17 then pcap_udp (ip_size + 8) ip_size pk s
     else if protocol = 6 then pcap_tcp (ip_size + 20) ip_size pk s
     else Some (2, pk, s) }"

text \<open>
  A record with a VLAN tag of four bytes. The protocol is looked for 13 bytes behind the Ethernet
  header in both versions of IP; the UDP and TCP structs are read where they are without a tag; and
  the datagram of IPv6 is not copied.
\<close>

definition pcap_vlan_v4 :: "UdpPacket \<Rightarrow> pcap_source \<Rightarrow> received option" where
  "pcap_vlan_v4 pk s = do {
     protocol \<leftarrow> ld8 (ps_payload s) 27;
     if protocol = 17 then pcap_udp 46 34 pk s
     else if protocol = 6 then pcap_tcp 58 34 pk s
     else Some (2, pk, s) }"

definition pcap_vlan_v6 :: "UdpPacket \<Rightarrow> pcap_source \<Rightarrow> received option" where
  "pcap_vlan_v6 pk s = do {
     protocol \<leftarrow> ld8 (ps_payload s) 27;
     if protocol = 17 then
       (if unat (pr_incl_len (ps_record s)) < 66 then Some (1, pk, s)
        else do {
          u \<leftarrow> UDP_at (ps_payload s) 54;
          Some (int (unat (pr_incl_len (ps_record s)) - 66), pk, s \<lparr> ps_udp_header := u \<rparr>) })
     else if protocol = 6 then pcap_tcp 78 54 pk s
     else Some (2, pk, s) }"

definition pcap_vlan :: "UdpPacket \<Rightarrow> pcap_source \<Rightarrow> received option" where
  "pcap_vlan pk s = do {
     ether_type \<leftarrow> ld16 (ps_payload s) 16;
     if ether_type = 0x0008 then pcap_vlan_v4 pk s
     else if ether_type = 0xdd86 then pcap_vlan_v6 pk s
     else Some (2, pk, s) }"

definition pcap_parse :: "UdpPacket \<Rightarrow> pcap_source \<Rightarrow> received option" where
  "pcap_parse pk s = do {
     ether_type \<leftarrow> ld16 (ps_payload s) 12;
     if ether_type = 0x0008 then pcap_ip 23 34 pk s
     else if ether_type = 0xdd86 then pcap_ip 20 54 pk s
     else if ether_type = 0x0081 then pcap_vlan pk s
     else Some (1, pk, s) }"

text \<open>\<open>PcapSource::next\<close>\<close>

definition pcap_next :: "UdpPacket \<Rightarrow> pcap_source \<Rightarrow> received option" where
  "pcap_next pk s =
     (if private_eof s then Some (-1, pk, s \<lparr> is_pcap_end := True \<rparr>)
      else case private_read 16 s of
        (None, s) \<Rightarrow> Some (-1, pk, s)
      | (Some bs, s) \<Rightarrow> do {
          r \<leftarrow> PcapRecord_at bs 0;
          let s = s \<lparr> ps_record := r \<rparr>;
          let n = unat (pr_incl_len r);
          if n \<le> 1500 \<and> n > 14 then
            (case private_read n s of
               (None, s) \<Rightarrow> Some (-1, pk, s)
             | (Some bs, s) \<Rightarrow> do {
                 payload \<leftarrow> memcpy_at 0 bs (ps_payload s);
                 pcap_parse pk (s \<lparr> ps_payload := payload \<rparr>) })
          else
            (case private_move n s of
               (False, s) \<Rightarrow> Some (-1, pk, s)
             | (True, s) \<Rightarrow> Some (1, pk, s)) })"

definition pcap_Receive :: "UdpPacket \<Rightarrow> pcap_source \<Rightarrow> received option" where
  "pcap_Receive = pcap_next"

definition swap_u16 :: "nat \<Rightarrow> u16" where
  "swap_u16 x = word_of_nat (x mod 256 * 256) OR word_of_nat (x div 256)"

definition pcap_distinationPort :: "pcap_source \<Rightarrow> int" where
  "pcap_distinationPort s = (let port = udp_distination_port (ps_udp_header s)
     in uint (push_bit 8 (port AND 0xff) OR (drop_bit 8 port AND 0xff)))"

section \<open>The writer\<close>

text \<open>The structs as the constructors fill them.\<close>

definition Ethernet_bytes :: "u16 \<Rightarrow> u8 list" where
  "Ethernet_bytes ty = [0xff, 0xff, 0xff, 0xff, 0xff, 0xff, 0x00, 0x0a, 0x35, 0x00, 0x1e, 0x53] @
     le_bytes 2 (unat ty)"

definition PcapIPHeader_bytes :: "u8 \<Rightarrow> u16 \<Rightarrow> u8 list" where
  "PcapIPHeader_bytes protocol pkt_len = Ethernet_bytes 0x0008 @ [0x45, 0x00] @
     le_bytes 2 (unat (swap_u16 (unat pkt_len + 20))) @ [0x7a, 0xf1, 0x40, 0x00, 0x40, protocol, 0xf8, 0x80,
     0xc0, 0xa8, 0x01, 0xc9, 0xff, 0xff, 0xff, 0xff]"

definition PcapUDPHeader_bytes :: "u16 \<Rightarrow> u16 \<Rightarrow> u8 list" where
  "PcapUDPHeader_bytes pkt_len port = PcapIPHeader_bytes 0x11 (pkt_len + 8) @ [0x27, 0x10] @
     le_bytes 2 (unat (swap_u16 (unat port))) @ le_bytes 2 (unat (swap_u16 (unat pkt_len + 8))) @ [0, 0]"

definition PcapTCPHeader_bytes :: "u16 \<Rightarrow> u16 \<Rightarrow> u8 list" where
  "PcapTCPHeader_bytes pkt_len port = PcapIPHeader_bytes 0x06 (pkt_len + 20) @ [0x27, 0x10] @
     le_bytes 2 (unat (swap_u16 (unat port))) @ [0, 0, 0, 0, 0, 0, 0, 0, 0x04, 0, 0, 0, 0, 0, 0, 0]"

definition PcapHeader_bytes :: "u8 list" where
  "PcapHeader_bytes = le_bytes 4 (unat pcap_magic_number) @ le_bytes 2 2 @ le_bytes 2 4 @ le_bytes 4 0 @
     le_bytes 4 0 @ le_bytes 4 0xffff @ le_bytes 4 1"

definition PcapRecord_bytes :: "u32 \<times> u32 \<Rightarrow> u32 \<Rightarrow> u8 list" where
  "PcapRecord_bytes ts len = le_bytes 4 (unat (fst ts)) @ le_bytes 4 (unat (snd ts)) @
     le_bytes 4 (unat len) @ le_bytes 4 (unat len)"

record PandarPacket =
  pp_size :: u32
  pp_port :: u16
  pp_buffer :: "u8 list"

definition PandarPacket_new :: "u8 list \<Rightarrow> u8 list \<Rightarrow> u32 \<Rightarrow> u16 \<Rightarrow> PandarPacket option" where
  "PandarPacket_new mem data sz prt = do {
     bs \<leftarrow> bytes_at (unat sz) data 0;
     buf \<leftarrow> memcpy_at 0 bs mem;
     Some \<lparr> pp_size = sz, pp_port = prt, pp_buffer = buf \<rparr> }"

text \<open>
  One packet as it is written: the record and the header \<open>hdr\<close> with the \<open>len\<close> bytes in a buffer of 1500.
  The time \<open>ts\<close> is that of the clock; \<open>Save(recordPath, packets, port)\<close> leaves it uninitialised.
\<close>

definition pcap_packet_bytes :: "u8 list \<Rightarrow> u32 \<times> u32 \<Rightarrow> u32 \<Rightarrow> u8 list \<Rightarrow> u8 list option" where
  "pcap_packet_bytes hdr ts len buf = do {
     bs \<leftarrow> bytes_at (unat len) buf 0;
     if length hdr + unat len \<le> 1500
     then Some (PcapRecord_bytes ts (len + word_of_nat (length hdr)) @ hdr @ bs) else None }"

text \<open>The body of the loop of \<open>dumping_thread_\<close>, for a packet taken from the cache.\<close>

definition dump_packet :: "u32 \<times> u32 \<Rightarrow> PandarPacket \<Rightarrow> u8 list option" where
  "dump_packet ts pkt = pcap_packet_bytes (PcapUDPHeader_bytes (ucast (pp_size pkt)) (pp_port pkt)) ts
     (pp_size pkt) (pp_buffer pkt)"

text \<open>
  \<open>Save(recordPath, packets, port)\<close>: appends the packets to the file, with the file header when there
  is no file. \<open>openable\<close> says whether the file can be opened; \<open>ts\<close> is what the records of the packets
  hold as time, and \<open>mem\<close> the contents of a new buffer.
\<close>

fun save_packets :: "(nat \<Rightarrow> u32 \<times> u32) \<Rightarrow> u8 list \<Rightarrow> int \<Rightarrow> nat \<Rightarrow> UdpPacket list \<Rightarrow> u8 list \<Rightarrow> u8 list option" where
  "save_packets ts mem port i [] out = Some out"
| "save_packets ts mem port i (p # ps) out = do {
     pkt \<leftarrow> PandarPacket_new mem (up_buffer p) (word_of_int (up_packet_len p)) (u16_of port);
     let len = word_of_int (up_packet_len p);
     bs \<leftarrow> pcap_packet_bytes (PcapUDPHeader_bytes (u16_of (up_packet_len p)) (pp_port pkt)) (ts i) len (pp_buffer pkt);
     save_packets ts mem port (Suc i) ps (out @ bs) }"

definition pcap_Save_frame :: "(string \<Rightarrow> bool) \<Rightarrow> (nat \<Rightarrow> u32 \<times> u32) \<Rightarrow> u8 list \<Rightarrow> string \<Rightarrow> UdpPacket list \<Rightarrow>
    int \<Rightarrow> files \<Rightarrow> (int \<times> files) option" where
  "pcap_Save_frame openable ts mem path packets port fs =
     (if \<not> openable path then Some (-1, fs)
      else do {
        let out = (case fs path of None \<Rightarrow> PcapHeader_bytes | Some d \<Rightarrow> d);
        out \<leftarrow> save_packets ts mem port 0 packets out;
        Some (0, fs(path \<mapsto> out)) })"

fun pcap_Save_frames :: "(string \<Rightarrow> bool) \<Rightarrow> (nat \<Rightarrow> u32 \<times> u32) \<Rightarrow> u8 list \<Rightarrow> string \<Rightarrow> UdpPacket list list \<Rightarrow>
    int \<Rightarrow> files \<Rightarrow> (int \<times> files) option" where
  "pcap_Save_frames openable ts mem path [] port fs = Some (0, fs)"
| "pcap_Save_frames openable ts mem path (f # frames) port fs = do {
     (ret, fs) \<leftarrow> pcap_Save_frame openable ts mem path f port fs;
     if ret \<noteq> 0 then Some (ret, fs) else pcap_Save_frames openable ts mem path frames port fs }"

text \<open>\<open>Save()\<close>: the file begins anew; the packets follow as \<open>dumping_thread_\<close> takes them from the cache.\<close>

definition pcap_Save :: "(string \<Rightarrow> bool) \<Rightarrow> string \<Rightarrow> files \<Rightarrow> int \<times> files" where
  "pcap_Save openable path fs =
     (if openable path then (0, fs(path \<mapsto> PcapHeader_bytes)) else (-1, fs))"

definition dump_thread :: "u32 \<times> u32 \<Rightarrow> PandarPacket \<Rightarrow> string \<Rightarrow> files \<Rightarrow> files option" where
  "dump_thread ts pkt path fs = do {
     out \<leftarrow> fs path;
     bs \<leftarrow> dump_packet ts pkt;
     Some (fs(path \<mapsto> out @ bs)) }"

text \<open>
  \<open>TcpDump\<close>: data in segments of at most \<open>max_pkt_len\<close> bytes. The loop has \<open>fuel\<close> iterations; with a
  positive segment size as many as bytes are enough, and with 0 it does not end.
\<close>

fun tcp_segments :: "nat \<Rightarrow> (nat \<Rightarrow> u32 \<times> u32) \<Rightarrow> nat \<Rightarrow> u16 \<Rightarrow> u8 list \<Rightarrow> nat \<Rightarrow> nat \<Rightarrow> u8 list \<Rightarrow> u8 list option" where
  "tcp_segments fuel ts max_pkt_len port data remain_len i out =
     (if remain_len = 0 then Some out
      else case fuel of 0 \<Rightarrow> None
      | Suc fuel \<Rightarrow> do {
          let pkt_len = (if remain_len > max_pkt_len then max_pkt_len else remain_len);
          seg \<leftarrow> bytes_at pkt_len data (i * max_pkt_len);
          bs \<leftarrow> pcap_packet_bytes (PcapTCPHeader_bytes (word_of_nat pkt_len) port) (ts i) (word_of_nat pkt_len) seg;
          tcp_segments fuel ts max_pkt_len port data (remain_len - pkt_len) (Suc i) (out @ bs) })"

declare tcp_segments.simps [simp del]

definition TcpDump :: "(nat \<Rightarrow> u32 \<times> u32) \<Rightarrow> u8 list \<Rightarrow> u32 \<Rightarrow> u32 \<Rightarrow> u16 \<Rightarrow> u8 list \<Rightarrow> u8 list option" where
  "TcpDump ts data data_len max_pkt_len port out =
     tcp_segments (unat data_len) ts (unat max_pkt_len) port data (unat data_len) 0 out"

section \<open>The reader keeps its bounds\<close>

definition pcap_wf :: "pcap_source \<Rightarrow> bool" where
  "pcap_wf s \<longleftrightarrow> ps_fpos s \<le> length (ps_data s) \<and> length (ps_payload s) = 1500"

text \<open>What parsing a record leaves alone.\<close>

definition pcap_same :: "pcap_source \<Rightarrow> pcap_source \<Rightarrow> bool" where
  "pcap_same s s' \<longleftrightarrow> ps_data s' = ps_data s \<and> ps_fpos s' = ps_fpos s \<and> ps_payload s' = ps_payload s \<and>
     is_pcap_end s' = is_pcap_end s \<and> ps_is_open s' = ps_is_open s"

definition parses :: "UdpPacket \<Rightarrow> pcap_source \<Rightarrow> received option \<Rightarrow> bool" where
  "parses pk s res \<longleftrightarrow> (\<exists>r pk' s'. res = Some (r, pk', s') \<and> pcap_same s s' \<and> 0 \<le> r \<and> r \<le> 1458 \<and>
     length (up_buffer pk') = length (up_buffer pk))"

lemma parses_Some: "parses pk s (Some (r, pk', s')) \<longleftrightarrow> pcap_same s s' \<and> 0 \<le> r \<and> r \<le> 1458 \<and>
     length (up_buffer pk') = length (up_buffer pk)"
  by (auto simp: parses_def)

lemma parses_if: "(c \<Longrightarrow> parses pk s a) \<Longrightarrow> (\<not> c \<Longrightarrow> parses pk s b) \<Longrightarrow> parses pk s (if c then a else b)"
  by simp

lemma header_structs_at:
  "off + 8 \<le> length buf \<Longrightarrow> \<exists>u. UDP_at buf off = Some u"
  "off + 20 \<le> length buf \<Longrightarrow> \<exists>t. TCP_at buf off = Some t"
  by (simp_all add: UDP_at_def TCP_at_def load_def ld8_def)

definition parse_ready :: "UdpPacket \<Rightarrow> pcap_source \<Rightarrow> bool" where
  "parse_ready pk s \<longleftrightarrow> length (ps_payload s) = 1500 \<and> length (up_buffer pk) = 1500 \<and>
     unat (pr_incl_len (ps_record s)) \<le> 1500"

lemma incl_len_bounds: "unat (w :: u32) \<le> 1500 \<Longrightarrow> uint w \<le> 1500" "\<not> unat (w :: u32) < n \<Longrightarrow> int n \<le> uint w"
  using uint_nat [of w] by linarith+

lemma parses_udp:
  assumes "parse_ready pk s" and "sz \<le> 66" "42 \<le> sz" "off \<le> 54"
  shows "parses pk s (pcap_udp sz off pk s)"
proof -
  obtain u where "UDP_at (ps_payload s) off = Some u"
    using header_structs_at(1) [of off "ps_payload s"] assms by (auto simp: parse_ready_def)
  then show ?thesis
    using assms incl_len_bounds(1) [of "pr_incl_len (ps_record s)"] incl_len_bounds(2) [of "pr_incl_len (ps_record s)" sz]
    by (auto simp: pcap_udp_def pcap_deliver_def bytes_at_def memcpy_at_def parses_def pcap_same_def parse_ready_def Let_def)
qed

lemma parses_tcp:
  assumes "parse_ready pk s" and "sz \<le> 78" "54 \<le> sz" "off \<le> 54"
  shows "parses pk s (pcap_tcp sz off pk s)"
proof -
  obtain t where "TCP_at (ps_payload s) off = Some t"
    using header_structs_at(2) [of off "ps_payload s"] assms by (auto simp: parse_ready_def)
  then show ?thesis
    using assms incl_len_bounds(1) [of "pr_incl_len (ps_record s)"] incl_len_bounds(2) [of "pr_incl_len (ps_record s)" sz]
    by (auto simp: pcap_tcp_def parses_def pcap_same_def parse_ready_def Let_def)
qed

lemma parses_skip: "0 \<le> r \<Longrightarrow> r \<le> 1458 \<Longrightarrow> parses pk s (Some (r, pk, s))"
  by (simp add: parses_def pcap_same_def)

lemma parses_vlan_v6:
  assumes "parse_ready pk s"
  shows "parses pk s (pcap_vlan_v6 pk s)"
proof -
  obtain u where "UDP_at (ps_payload s) 54 = Some u"
    using header_structs_at(1) [of 54 "ps_payload s"] assms by (auto simp: parse_ready_def)
  then show ?thesis
    using assms parses_tcp [OF assms, of 78 54] parses_skip
      incl_len_bounds(1) [of "pr_incl_len (ps_record s)"] incl_len_bounds(2) [of "pr_incl_len (ps_record s)" 66]
    by (auto simp: pcap_vlan_v6_def ld8_def parses_Some pcap_same_def parse_ready_def simp del: bind_Some_iff)
qed

lemma parses_record:
  assumes "parse_ready pk s"
  shows "parses pk s (pcap_parse pk s)"
proof -
  have len: "length (ps_payload s) = 1500" using assms by (simp add: parse_ready_def)
  have "parses pk s (pcap_ip pa sz pk s)" if "pa < 1500" "sz = 34 \<or> sz = 54" for pa sz
    using that len parses_udp [OF assms, of "sz + 8" sz] parses_tcp [OF assms, of "sz + 20" sz] parses_skip [of 2]
    by (auto simp: pcap_ip_def ld8_def simp del: bind_Some_iff)
  moreover have "parses pk s (pcap_vlan_v4 pk s)"
    using len parses_udp [OF assms, of 46 34] parses_tcp [OF assms, of 58 34] parses_skip [of 2]
    by (auto simp: pcap_vlan_v4_def ld8_def simp del: bind_Some_iff)
  ultimately show ?thesis
    using len parses_vlan_v6 [OF assms] parses_skip [of 1] parses_skip [of 2]
    by (auto simp: pcap_parse_def pcap_vlan_def load_def simp del: bind_Some_iff)
qed

lemma PcapRecord_defined: "length bs = 16 \<Longrightarrow> \<exists>r. PcapRecord_at bs 0 = Some r"
  by (simp add: PcapRecord_at_def load_def)

text \<open>One call of \<open>next\<close>: its result, what it keeps, and that it makes progress unless it fails.\<close>

definition pcap_read_ok :: "pcap_source \<Rightarrow> received \<Rightarrow> bool" where
  "pcap_read_ok s x \<longleftrightarrow> (case x of (r, pk', s') \<Rightarrow> pcap_wf s' \<and> length (up_buffer pk') = 1500 \<and>
     ps_data s' = ps_data s \<and> ps_fpos s \<le> ps_fpos s' \<and>
     (if r = -1 then is_pcap_end s' = (is_pcap_end s \<or> private_eof s)
      else 0 \<le> r \<and> r \<le> 1458 \<and> ps_fpos s + 16 \<le> ps_fpos s' \<and> is_pcap_end s' = is_pcap_end s))"

lemma pcap_next_ok:
  assumes "pcap_wf s" and "length (up_buffer pk) = 1500"
  shows "\<exists>x. pcap_next pk s = Some x \<and> pcap_read_ok s x"
proof (cases "private_eof s \<or> length (ps_data s) < ps_fpos s + 16")
  case True
  then show ?thesis using assms by (auto simp: pcap_next_def private_read_def pcap_wf_def private_eof_def pcap_read_ok_def)
next
  case False
  let ?bs = "take 16 (drop (ps_fpos s) (ps_data s))"
  have "length ?bs = 16" using False by auto
  then obtain r where r: "PcapRecord_at ?bs 0 = Some r" using PcapRecord_defined by blast
  let ?s = "s \<lparr> ps_fpos := ps_fpos s + 16, ps_record := r \<rparr>" and ?n = "unat (pr_incl_len r)"
  have step: "pcap_next pk s = (if ?n \<le> 1500 \<and> ?n > 14 then
      (case private_read ?n ?s of (None, s) \<Rightarrow> Some (-1, pk, s)
       | (Some bs, s) \<Rightarrow> do { payload \<leftarrow> memcpy_at 0 bs (ps_payload s); pcap_parse pk (s \<lparr> ps_payload := payload \<rparr>) })
      else (case private_move ?n ?s of (False, s) \<Rightarrow> Some (-1, pk, s) | (True, s) \<Rightarrow> Some (1, pk, s)))"
    using False r by (simp add: pcap_next_def private_read_def bytes_at_def Let_def del: bind_Some_iff)
  have ne: "\<not> private_eof s" using False by simp
  show ?thesis
  proof (cases "?n \<le> 1500 \<and> ?n > 14")
    case n: True
    show ?thesis
    proof (cases "ps_fpos s + 16 + ?n \<le> length (ps_data s)")
      case fit: True
      let ?p = "take ?n (drop (ps_fpos s + 16) (ps_data s)) @ drop ?n (ps_payload s)"
      let ?t = "?s \<lparr> ps_fpos := ps_fpos s + 16 + ?n, ps_payload := ?p \<rparr>"
      have e: "pcap_next pk s = pcap_parse pk ?t"
        using fit n assms min_absorb2 [of ?n "length (ps_data s) - (ps_fpos s + 16)"] unfolding step
        by (simp add: private_read_def bytes_at_def memcpy_at_def pcap_wf_def)
      have "length ?p = 1500" using fit n assms by (simp add: pcap_wf_def)
      then have "parses pk ?t (pcap_parse pk ?t)"
        using n assms(2) by (intro parses_record) (simp add: parse_ready_def)
      then obtain ra pk' s' where p: "pcap_parse pk ?t = Some (ra, pk', s')" "pcap_same ?t s'" "0 \<le> ra" "ra \<le> 1458"
        "length (up_buffer pk') = length (up_buffer pk)"
        by (auto simp: parses_def)
      have "pcap_wf s'" using p(2) fit \<open>length ?p = 1500\<close> by (simp add: pcap_same_def pcap_wf_def)
      then show ?thesis
        using fit assms(2) p unfolding e p(1) by (auto simp: pcap_same_def pcap_read_ok_def)
    qed (use n ne False assms in \<open>simp add: step private_read_def pcap_wf_def pcap_read_ok_def\<close>)
  qed (use ne False assms in \<open>auto simp: step private_move_def pcap_wf_def pcap_read_ok_def\<close>)
qed

section \<open>What was saved is read back\<close>

lemma unat_mod_width [simp]: "unat (w :: u32) mod 4294967296 = unat w" "unat (v :: u16) mod 65536 = unat v"
  using unsigned_less [of w, where 'a = nat] unsigned_less [of v, where 'a = nat] by simp_all

lemma swap_u16_bits: "swap_u16 (unat w) = push_bit 8 (w AND 0xff) OR drop_bit 8 w"
proof (rule bit_word_eqI)
  fix n
  assume n: "n < LENGTH(16)"
  have m: "unat w mod 256 * 256 = push_bit 8 (take_bit 8 (unat w))"
    by (simp add: push_bit_eq_mult take_bit_eq_mod)
  have d: "unat w div 256 = drop_bit 8 (unat w)" by (simp add: drop_bit_eq_div)
  have a: "w AND 0xff = take_bit 8 w" by (simp add: take_bit_eq_mask mask_numeral)
  show "bit (swap_u16 (unat w)) n = bit (push_bit 8 (w AND 0xff) OR drop_bit 8 w) n"
    using n unfolding swap_u16_def m d a
    by (auto simp: bit_or_iff bit_word_of_nat bit_push_bit_iff bit_take_bit_iff bit_drop_bit_eq bit_unsigned_iff
        simp del: of_nat_mult)
qed

lemma swap_swap_u16:
  "push_bit 8 (swap_u16 (unat w) AND 0xff) OR (drop_bit 8 (swap_u16 (unat w)) AND 0xff) = (w :: u16)"
proof (rule bit_word_eqI)
  fix n
  assume n: "n < LENGTH(16)"
  have a: "x AND 0xff = take_bit 8 x" for x :: u16 by (simp add: take_bit_eq_mask mask_numeral)
  show "bit (push_bit 8 (swap_u16 (unat w) AND 0xff) OR (drop_bit 8 (swap_u16 (unat w)) AND 0xff)) n = bit w n"
    using n unfolding swap_u16_bits a
    by (auto simp: bit_or_iff bit_push_bit_iff bit_take_bit_iff bit_drop_bit_eq not_less)
qed

lemma distination_port_swapped:
  "udp_distination_port (ps_udp_header s) = swap_u16 (unat (prt :: u16)) \<Longrightarrow> pcap_distinationPort s = uint prt"
  by (simp only: pcap_distinationPort_def Let_def swap_swap_u16)

definition packet_image :: "u32 \<times> u32 \<Rightarrow> u16 \<Rightarrow> u8 list \<Rightarrow> u8 list" where
  "packet_image ts port d = PcapRecord_bytes ts (word_of_nat (length d + 42)) @
     PcapUDPHeader_bytes (word_of_nat (length d)) port @ d"

fun images :: "(nat \<Rightarrow> u32 \<times> u32) \<Rightarrow> u16 \<Rightarrow> nat \<Rightarrow> u8 list list \<Rightarrow> u8 list" where
  "images ts port i [] = []"
| "images ts port i (d # ds) = packet_image (ts i) port d @ images ts port (Suc i) ds"

definition packet_data :: "UdpPacket \<Rightarrow> u8 list" where
  "packet_data p = take (nat (up_packet_len p)) (up_buffer p)"

definition saveable :: "UdpPacket \<Rightarrow> bool" where
  "saveable p \<longleftrightarrow> length (up_buffer p) = 1500 \<and> 0 \<le> up_packet_len p \<and> up_packet_len p \<le> 1458"

lemma packet_data_length: "saveable p \<Longrightarrow> length (packet_data p) = nat (up_packet_len p)"
  by (auto simp: saveable_def packet_data_def)

lemma header_lengths [simp]:
  "length (PcapUDPHeader_bytes l prt) = 42" "length (PcapRecord_bytes ts n) = 16" "length PcapHeader_bytes = 24"
  by (simp_all add: PcapUDPHeader_bytes_def PcapIPHeader_bytes_def Ethernet_bytes_def PcapRecord_bytes_def PcapHeader_bytes_def)

lemma save_packets_images:
  assumes "length mem = 1500" and "list_all saveable ps"
  shows "save_packets ts mem port i ps out = Some (out @ images ts (u16_of port) i (map packet_data ps))"
  using assms(2)
proof (induction ps arbitrary: i out)
  case (Cons p ps)
  have p: "saveable p" "list_all saveable ps" using Cons.prems by simp_all
  then obtain n where n: "up_packet_len p = int n" "n \<le> 1458" "length (up_buffer p) = 1500"
    by (auto simp: saveable_def elim: nonneg_int_cases)
  have w: "unat (word_of_nat n :: u32) = n" using n(2) by (simp only: unat_of_nat) simp
  have buf: "take n (up_buffer p) = packet_data p" "length (packet_data p) = n"
    using n by (simp_all add: packet_data_def)
  have "PandarPacket_new mem (up_buffer p) (word_of_nat n) (u16_of port) =
      Some \<lparr> pp_size = word_of_nat n, pp_port = u16_of port, pp_buffer = packet_data p @ drop n mem \<rparr>"
    using n(2,3) assms(1) buf by (simp add: PandarPacket_new_def bytes_at_def w memcpy_at_def)
  moreover have "pcap_packet_bytes (PcapUDPHeader_bytes (word_of_nat n) (u16_of port)) (ts i) (word_of_nat n)
      (packet_data p @ drop n mem) = Some (packet_image (ts i) (u16_of port) (packet_data p))"
    using n(2) assms(1) buf by (simp add: pcap_packet_bytes_def bytes_at_def w packet_image_def)
  ultimately show ?case
    using Cons.IH [OF p(2)] by (simp add: n(1) Let_def del: bind_Some_iff)
qed simp

text \<open>The fields of a written record that the reader looks at.\<close>

lemma record_read:
  assumes "n < 4294967296"
  shows "PcapRecord_at (PcapRecord_bytes ts (word_of_nat n)) 0 =
     Some \<lparr> pr_ts_sec = fst ts, pr_ts_usec = snd ts, pr_incl_len = word_of_nat n, pr_orig_len = word_of_nat n \<rparr>"
  using assms by (simp add: PcapRecord_at_def PcapRecord_bytes_def load_def unat_of_nat del: of_nat_mod)

lemma udp_header_read:
  "ld16 (PcapUDPHeader_bytes l prt @ d) 12 = Some 0x0008"
  "ld8 (PcapUDPHeader_bytes l prt @ d) 23 = Some 17"
  "\<exists>u. UDP_at (PcapUDPHeader_bytes l prt @ d) 34 = Some u \<and> udp_distination_port u = swap_u16 (unat prt)"
proof -
  show "ld16 (PcapUDPHeader_bytes l prt @ d) 12 = Some 0x0008" "ld8 (PcapUDPHeader_bytes l prt @ d) 23 = Some 17"
    by (simp_all add: PcapUDPHeader_bytes_def PcapIPHeader_bytes_def Ethernet_bytes_def load_def ld8_def nth_append take_Cons')
  have "ld16 (PcapUDPHeader_bytes l prt @ d) 36 = Some (swap_u16 (unat prt))"
    by (simp add: PcapUDPHeader_bytes_def PcapIPHeader_bytes_def Ethernet_bytes_def load_def unat_of_nat)
  then show "\<exists>u. UDP_at (PcapUDPHeader_bytes l prt @ d) 34 = Some u \<and> udp_distination_port u = swap_u16 (unat prt)"
    by (simp add: UDP_at_def) (simp add: load_def)
qed

lemma next_image:
  assumes wf: "pcap_wf s" and pk: "length (up_buffer pk) = 1500" and d: "length d \<le> 1458"
    and image: "drop (ps_fpos s) (ps_data s) = packet_image ts prt d @ rest"
  shows "\<exists>s'. pcap_next pk s = Some (int (length d), pk \<lparr> up_buffer := d @ drop (length d) (up_buffer pk) \<rparr>, s') \<and>
     pcap_wf s' \<and> ps_data s' = ps_data s \<and> drop (ps_fpos s') (ps_data s') = rest \<and>
     is_pcap_end s' = is_pcap_end s \<and> pcap_distinationPort s' = uint prt"
proof -
  let ?n = "length d + 42" and ?h = "PcapUDPHeader_bytes (word_of_nat (length d)) prt"
  let ?r = "\<lparr> pr_ts_sec = fst ts, pr_ts_usec = snd ts, pr_incl_len = word_of_nat ?n, pr_orig_len = word_of_nat ?n \<rparr> :: PcapRecord"
  have len: "length (ps_data s) = ps_fpos s + 58 + length d + length rest"
    using arg_cong [OF image, of length] wf by (simp add: packet_image_def pcap_wf_def)
  have n: "unat (word_of_nat ?n :: u32) = ?n" using d by (simp only: unat_of_nat) simp
  have t1: "take 16 (drop (ps_fpos s) (ps_data s)) = PcapRecord_bytes ts (word_of_nat ?n)"
    unfolding image packet_image_def by simp
  have dr: "drop (ps_fpos s + 16) (ps_data s) = ?h @ d @ rest"
    using arg_cong [OF image, of "drop 16"] by (simp add: packet_image_def add.commute)
  have t2: "take ?n (drop (ps_fpos s + 16) (ps_data s)) = ?h @ d" unfolding dr by simp
  obtain u where u: "UDP_at (?h @ d @ drop ?n (ps_payload s)) 34 = Some u" "udp_distination_port u = swap_u16 (unat prt)"
    using udp_header_read(3) by blast
  let ?s = "s \<lparr> ps_record := ?r, ps_fpos := ps_fpos s + 16 + ?n, ps_payload := ?h @ d @ drop ?n (ps_payload s) \<rparr>"
  have r: "PcapRecord_at (PcapRecord_bytes ts (word_of_nat ?n)) 0 = Some ?r"
    using d by (intro record_read) simp
  have "pcap_next pk s = pcap_parse pk ?s"
    using len d wf r
    by (simp add: pcap_next_def private_eof_def private_read_def bytes_at_def t1 t2 n memcpy_at_def pcap_wf_def
        Let_def add.commute add.left_commute del: of_nat_add bind_Some_iff)
  also have "\<dots> = pcap_deliver 42 pk (?s \<lparr> ps_udp_header := u \<rparr>)"
    using u(1) d n by (simp add: pcap_parse_def pcap_ip_def pcap_udp_def udp_header_read del: of_nat_add bind_Some_iff)
  also have "\<dots> = Some (int (length d), pk \<lparr> up_buffer := d @ drop (length d) (up_buffer pk) \<rparr>, ?s \<lparr> ps_udp_header := u \<rparr>)"
    using d n pk wf by (simp add: pcap_deliver_def bytes_at_def memcpy_at_def pcap_wf_def Let_def del: of_nat_add)
  finally have e: "pcap_next pk s = Some (int (length d), pk \<lparr> up_buffer := d @ drop (length d) (up_buffer pk) \<rparr>,
      ?s \<lparr> ps_udp_header := u \<rparr>)" .
  have rest: "drop (ps_fpos s + 16 + ?n) (ps_data s) = rest"
    using arg_cong [OF dr, of "drop ?n"] by (simp add: add.commute add.left_commute)
  show ?thesis
    unfolding e using len wf d rest
    by (simp add: pcap_wf_def distination_port_swapped u(2) del: of_nat_add)
qed

text \<open>A source, a packet and a file that the witnesses use.\<close>

definition example_packet :: "int \<Rightarrow> UdpPacket" where
  "example_packet n = UdpPacket.make (replicate 1500 0) n False 0 0 0"

definition example_source :: "string \<Rightarrow> u8 list \<Rightarrow> nat \<Rightarrow> pcap_source" where
  "example_source path data pos = PcapSource_new path 0 (pcap_source.make data 0 False path False
     (PcapHeader.make 0 0 0 0 0 0 0) (PcapRecord.make 0 0 0 0) (UDP.make 0 0 0 0) (TCP.make 0 0 0 0 0 0 0 0 0)
     (replicate 1500 0) 0 False) \<lparr> ps_data := data, ps_fpos := pos \<rparr>"

lemma example_source_simps [simp]:
  "ps_pcap_path (example_source path data pos) = path" "ps_data (example_source path data pos) = data"
  "ps_fpos (example_source path data pos) = pos" "length (ps_payload (example_source path data pos)) = 1500"
  "\<not> is_pcap_end (example_source path data pos)" "up_packet_len (example_packet n) = n"
  "length (up_buffer (example_packet n)) = 1500"
  by (simp_all add: example_source_def PcapSource_new_def pcap_source.make_def example_packet_def UdpPacket.make_def)

text \<open>A number of calls of \<open>Receive\<close>, each with a new packet: the results, the data, and the ports.\<close>

fun pcap_reads :: "(nat \<Rightarrow> UdpPacket) \<Rightarrow> nat \<Rightarrow> nat \<Rightarrow> pcap_source \<Rightarrow>
    ((int \<times> u8 list \<times> int) list \<times> pcap_source) option" where
  "pcap_reads pk i 0 s = Some ([], s)"
| "pcap_reads pk i (Suc n) s = do {
     (r, p, s) \<leftarrow> pcap_Receive (pk i) s;
     (xs, s') \<leftarrow> pcap_reads pk (Suc i) n s;
     Some ((r, take (nat r) (up_buffer p), pcap_distinationPort s) # xs, s') }"

lemma reads_images:
  assumes "pcap_wf s" and "\<And>i. length (up_buffer (pk i)) = 1500" and "list_all (\<lambda>d. length d \<le> 1458) ds"
    and "drop (ps_fpos s) (ps_data s) = images ts prt j ds @ rest"
  shows "\<exists>s'. pcap_reads pk i (length ds) s = Some (map (\<lambda>d. (int (length d), d, uint prt)) ds, s') \<and> pcap_wf s' \<and>
     ps_data s' = ps_data s \<and> drop (ps_fpos s') (ps_data s') = rest \<and> is_pcap_end s' = is_pcap_end s"
  using assms(1,3,4)
proof (induction ds arbitrary: i j s)
  case (Cons d ds)
  obtain s1 where 1: "pcap_next (pk i) s = Some (int (length d), pk i \<lparr> up_buffer := d @ drop (length d) (up_buffer (pk i)) \<rparr>, s1)"
    "pcap_wf s1" "ps_data s1 = ps_data s" "drop (ps_fpos s1) (ps_data s1) = images ts prt (Suc j) ds @ rest"
    "is_pcap_end s1 = is_pcap_end s" "pcap_distinationPort s1 = uint prt"
    using next_image [OF Cons.prems(1) assms(2) [of i], of d "ts j" prt "images ts prt (Suc j) ds @ rest"] Cons.prems(2,3) by auto
  obtain s2 where "pcap_reads pk (Suc i) (length ds) s1 = Some (map (\<lambda>d. (int (length d), d, uint prt)) ds, s2)" "pcap_wf s2"
    "ps_data s2 = ps_data s1" "drop (ps_fpos s2) (ps_data s2) = rest" "is_pcap_end s2 = is_pcap_end s1"
    using Cons.IH [OF 1(2) _ 1(4), of "Suc i"] Cons.prems(2) by auto
  then show ?case using 1 by (simp add: pcap_Receive_def)
qed simp

lemma pcap_header_read: "PcapHeader_at (take 24 (PcapHeader_bytes @ x)) 0 = Some \<lparr> ph_magic_number = pcap_magic_number,
     ph_version_major = 2, ph_version_minor = 4, ph_thiszone = 0, ph_sigfigs = 0, ph_snaplen = 0xffff, ph_network = 1 \<rparr>"
  by (simp add: PcapHeader_at_def PcapHeader_bytes_def load_def pcap_magic_number_def)

lemma pcap_opens_images:
  assumes "fs (ps_pcap_path s) = Some (PcapHeader_bytes @ x)"
  shows "pcap_Open fs s = Some (True, s \<lparr> ps_is_open := True, ps_data := PcapHeader_bytes @ x, ps_fpos := 24,
     ps_header := \<lparr> ph_magic_number = pcap_magic_number, ph_version_major = 2, ph_version_minor = 4, ph_thiszone = 0,
       ph_sigfigs = 0, ph_snaplen = 0xffff, ph_network = 1 \<rparr> \<rparr>)"
proof -
  have "PcapHeader_bytes @ x \<noteq> []" using header_lengths(3) by (metis append_is_Nil_conv list.size(3) zero_neq_numeral)
  then have "private_open fs (ps_pcap_path s) (pcap_Close s) =
      Some (s \<lparr> ps_is_open := True, ps_data := PcapHeader_bytes @ x, ps_fpos := 0 \<rparr>)"
    using assms by (simp add: private_open_def private_close_def pcap_Close_def Let_def)
  then show ?thesis using pcap_header_read [of x] by (simp add: pcap_Open_def private_read_def bytes_at_def)
qed

text \<open>
  Record and replay. Packets of up to 1458 bytes saved to a new capture file are read back: after
  the file is opened, every call of \<open>Receive\<close> returns the length of the next packet and its bytes, with
  the port they were saved with, in the order of saving; the call after the last packet returns -1 and
  reports the end of the file.
\<close>

theorem pcap_roundtrip:
  assumes new: "fs (ps_pcap_path s) = None" and path: "openable (ps_pcap_path s)"
    and ps: "list_all saveable ps" and mem: "length mem = 1500" "length (ps_payload s) = 1500"
    and pk: "\<And>i. length (up_buffer (pk i)) = 1500" and fresh: "\<not> is_pcap_end s"
  shows "\<exists>fs' s1 s2. pcap_Save_frame openable ts mem (ps_pcap_path s) ps port fs = Some (0, fs') \<and>
     pcap_Open fs' s = Some (True, s1) \<and>
     pcap_reads pk 0 (length ps) s1 =
       Some (map (\<lambda>p. (up_packet_len p, take (nat (up_packet_len p)) (up_buffer p), uint (u16_of port))) ps, s2) \<and>
     \<not> is_pcap_end s2 \<and> pcap_Receive (pk (length ps)) s2 = Some (-1, pk (length ps), s2 \<lparr> is_pcap_end := True \<rparr>)"
proof -
  let ?out = "PcapHeader_bytes @ images ts (u16_of port) 0 (map packet_data ps)"
  let ?h = "\<lparr> ph_magic_number = pcap_magic_number, ph_version_major = 2, ph_version_minor = 4, ph_thiszone = 0,
     ph_sigfigs = 0, ph_snaplen = 0xffff, ph_network = 1 \<rparr>"
  have save: "pcap_Save_frame openable ts mem (ps_pcap_path s) ps port fs = Some (0, fs(ps_pcap_path s \<mapsto> ?out))"
    using path new save_packets_images [OF mem(1) ps] by (simp add: pcap_Save_frame_def Let_def)
  let ?s1 = "s \<lparr> ps_is_open := True, ps_data := ?out, ps_fpos := 24, ps_header := ?h \<rparr>"
  have opened: "pcap_Open (fs(ps_pcap_path s \<mapsto> ?out)) s = Some (True, ?s1)"
    using pcap_opens_images [of "fs(ps_pcap_path s \<mapsto> ?out)" s "images ts (u16_of port) 0 (map packet_data ps)"] by simp
  have wf: "pcap_wf ?s1" using mem(2) by (simp add: pcap_wf_def)
  have small: "list_all (\<lambda>d. length d \<le> 1458) (map packet_data ps)"
    using ps packet_data_length by (fastforce simp: list_all_iff saveable_def)
  have dr: "drop (ps_fpos ?s1) (ps_data ?s1) = images ts (u16_of port) 0 (map packet_data ps) @ []" by simp
  obtain s2 where s2: "pcap_reads pk 0 (length ps) ?s1 =
      Some (map (\<lambda>d. (int (length d), d, uint (u16_of port))) (map packet_data ps), s2)"
    "pcap_wf s2" "ps_data s2 = ?out" "drop (ps_fpos s2) (ps_data s2) = []" "\<not> is_pcap_end s2"
    using reads_images [where i = 0 and pk = pk, OF wf pk small dr] fresh by auto
  have m: "map (\<lambda>d. (int (length d), d, uint (u16_of port))) (map packet_data ps) =
      map (\<lambda>p. (up_packet_len p, take (nat (up_packet_len p)) (up_buffer p), uint (u16_of port))) ps"
    using ps by (auto simp: list_all_iff packet_data_length) (auto simp: saveable_def packet_data_def)
  have "private_eof s2" using s2(2,4) by (simp add: private_eof_def pcap_wf_def)
  then have ends: "pcap_Receive (pk (length ps)) s2 = Some (-1, pk (length ps), s2 \<lparr> is_pcap_end := True \<rparr>)"
    by (simp add: pcap_Receive_def pcap_next_def)
  show ?thesis using save opened s2(1) [unfolded m] s2(5) ends by blast
qed

theorem pcap_roundtrip_witness:
  "\<exists>fs' s1 s2. pcap_Save_frame (\<lambda>_. True) (\<lambda>_. (0, 0)) (replicate 1500 0) ''a'' [example_packet 3, example_packet 0] 2368
       (\<lambda>_. None) = Some (0, fs') \<and>
     pcap_Open fs' (example_source ''a'' [] 0) = Some (True, s1) \<and>
     pcap_reads (\<lambda>_. example_packet 0) 0 (Suc (Suc 0)) s1 = Some ([(3, [0, 0, 0], 2368), (0, [], 2368)], s2) \<and> \<not> is_pcap_end s2 \<and>
     pcap_Receive (example_packet 0) s2 = Some (-1, example_packet 0, s2 \<lparr> is_pcap_end := True \<rparr>)"
proof -
  have u: "uint (u16_of 2368) = 2368" by simp
  have b: "take (nat 3) (up_buffer (example_packet 3)) = [0, 0, 0]"
    by (simp add: example_packet_def UdpPacket.make_def take_Cons' min_def eval_nat_numeral)
  show ?thesis
    using pcap_roundtrip [of "\<lambda>_. None" "example_source ''a'' [] 0" "\<lambda>_. True" "[example_packet 3, example_packet 0]"
        "replicate 1500 0" "\<lambda>_. example_packet 0" "\<lambda>_. (0, 0)" 2368] b
    by (simp add: saveable_def u del: pcap_reads.simps)
qed

section \<open>Files of any contents\<close>

text \<open>
  C18. \<open>PcapSource\<close> is safe on any file. Whatever the file holds, every call of \<open>Receive\<close> is defined: no
  access leaves the file, the record buffer of 1500 bytes or the packet; the position stays inside the
  file, the buffers keep their sizes, the result is -1 or a length of at most 1458, and the end is
  reported exactly when the position is the end of the file.
\<close>

theorem pcap_Receive_type:
  assumes "pcap_wf s" and "length (up_buffer pk) = 1500"
  shows "\<exists>r pk' s'. pcap_Receive pk s = Some (r, pk', s') \<and> pcap_wf s' \<and> length (up_buffer pk') = 1500 \<and>
     (r = -1 \<or> 0 \<le> r \<and> r \<le> 1458) \<and>
     is_pcap_end s' = (is_pcap_end s \<or> ps_fpos s = length (ps_data s))"
proof -
  obtain r pk' s' where x: "pcap_next pk s = Some (r, pk', s')" "pcap_read_ok s (r, pk', s')"
    using pcap_next_ok [OF assms] by auto
  have "private_eof s \<Longrightarrow> r = -1" using x(1) by (auto simp: pcap_next_def)
  then show ?thesis
    using x by (auto simp: pcap_read_ok_def pcap_Receive_def private_eof_def split: if_splits)
qed

theorem pcap_Receive_type_witness:
  "\<exists>r pk' s'. pcap_Receive (example_packet 0) (example_source ''a'' [1, 2, 3] 1) = Some (r, pk', s') \<and> pcap_wf s' \<and>
     length (up_buffer pk') = 1500 \<and> (r = -1 \<or> 0 \<le> r \<and> r \<le> 1458) \<and> \<not> is_pcap_end s'"
  using pcap_Receive_type [of "example_source ''a'' [1, 2, 3] 1" "example_packet 0"] by (auto simp: pcap_wf_def)

text \<open>
  C19. Reading a file ends. Among the first \<open>size / 16 + 1\<close> calls of \<open>Receive\<close> there is one that returns -1,
  so the receiving thread, which handles a packet for every other result, sees only finitely many
  packets of a file.
\<close>

theorem pcap_reading_ends:
  assumes "pcap_wf s" and "\<And>i. length (up_buffer (pk i)) = 1500"
  shows "\<exists>n xs s'. n \<le> (length (ps_data s) - ps_fpos s) div 16 \<and> pcap_reads pk i (Suc n) s = Some (xs, s') \<and>
     length xs = Suc n \<and> fst (last xs) = -1"
  using assms(1)
proof (induction "length (ps_data s) - ps_fpos s" arbitrary: s i rule: less_induct)
  case less
  obtain r pk' s' where x: "pcap_next (pk i) s = Some (r, pk', s')" "pcap_read_ok s (r, pk', s')"
    using pcap_next_ok [OF less.prems assms(2) [of i]] by auto
  show ?case
  proof (cases "r = -1")
    case True
    then show ?thesis using x(1) by (intro exI [of _ 0]) (simp add: pcap_Receive_def)
  next
    case False
    then have s': "pcap_wf s'" "ps_data s' = ps_data s" "ps_fpos s + 16 \<le> ps_fpos s'" "ps_fpos s' \<le> length (ps_data s)"
      using x(2) by (auto simp: pcap_read_ok_def pcap_wf_def)
    have d: "length (ps_data s') - ps_fpos s' < length (ps_data s) - ps_fpos s" using s'(2-4) by simp
    obtain n xs s2 where n: "n \<le> (length (ps_data s) - ps_fpos s') div 16" "pcap_reads pk (Suc i) (Suc n) s' = Some (xs, s2)"
      "length xs = Suc n" "fst (last xs) = -1"
      using less.hyps [OF d s'(1), of "Suc i"] unfolding s'(2) by blast
    have "Suc n \<le> (length (ps_data s) - ps_fpos s) div 16"
      using n(1) s'(3,4) div_le_mono [of "length (ps_data s) - ps_fpos s' + 16" "length (ps_data s) - ps_fpos s" 16] by simp
    moreover have "pcap_reads pk i (Suc (Suc n)) s =
        Some ((r, take (nat r) (up_buffer pk'), pcap_distinationPort s') # xs, s2)"
      using n(2) x(1) by (subst pcap_reads.simps(2)) (simp add: pcap_Receive_def del: pcap_reads.simps(2))
    moreover have "xs \<noteq> []" using n(3) by auto
    ultimately show ?thesis
      using n(3,4) by (metis last.simps length_Cons)
  qed
qed

theorem pcap_reading_ends_witness:
  "\<exists>n xs s'. n \<le> 2 \<and> pcap_reads (\<lambda>_. example_packet 0) 0 (Suc n) (example_source ''a'' (replicate 40 0) 0) = Some (xs, s') \<and>
     length xs = Suc n \<and> fst (last xs) = -1"
  using pcap_reading_ends [of "example_source ''a'' (replicate 40 0) 0" "\<lambda>_. example_packet 0" 0]
  by (simp add: pcap_wf_def del: pcap_reads.simps)

text \<open>
  C20. A file that is cut off inside the header of a record never ends. After the complete records were
  read, every further call of \<open>Receive\<close> returns -1 without reporting the end, so \<open>IsPlayEnded\<close> stays
  false however often the receiving thread tries again.
\<close>

theorem pcap_truncated_never_ends:
  assumes data: "fs (ps_pcap_path s) = Some (PcapHeader_bytes @ images ts prt 0 ds @ part)"
    and part: "0 < length part" "length part < 16" and ds: "list_all (\<lambda>d. length d \<le> 1458) ds"
    and pk: "\<And>i. length (up_buffer (pk i)) = 1500" and s: "length (ps_payload s) = 1500" "\<not> is_pcap_end s"
  shows "\<exists>s1 s2. pcap_Open fs s = Some (True, s1) \<and>
     pcap_reads pk 0 (length ds) s1 = Some (map (\<lambda>d. (int (length d), d, uint prt)) ds, s2) \<and>
     (\<forall>n. \<exists>xs. pcap_reads pk (length ds) n s2 = Some (xs, s2) \<and> (\<forall>x\<in>set xs. fst x = -1)) \<and> \<not> is_pcap_end s2"
proof -
  let ?out = "PcapHeader_bytes @ images ts prt 0 ds @ part"
  let ?h = "\<lparr> ph_magic_number = pcap_magic_number, ph_version_major = 2, ph_version_minor = 4, ph_thiszone = 0,
     ph_sigfigs = 0, ph_snaplen = 0xffff, ph_network = 1 \<rparr>"
  let ?s1 = "s \<lparr> ps_is_open := True, ps_data := ?out, ps_fpos := 24, ps_header := ?h \<rparr>"
  have opened: "pcap_Open fs s = Some (True, ?s1)" using pcap_opens_images [of fs s "images ts prt 0 ds @ part"] data by simp
  have wf: "pcap_wf ?s1" using s by (simp add: pcap_wf_def)
  have dr: "drop (ps_fpos ?s1) (ps_data ?s1) = images ts prt 0 ds @ part" by simp
  obtain s2 where s2: "pcap_reads pk 0 (length ds) ?s1 = Some (map (\<lambda>d. (int (length d), d, uint prt)) ds, s2)"
    "pcap_wf s2" "drop (ps_fpos s2) (ps_data s2) = part" "\<not> is_pcap_end s2"
    using reads_images [where i = 0 and pk = pk, OF wf pk ds dr] s(2) by auto
  have "length (ps_data s2) = ps_fpos s2 + length part"
    using arg_cong [OF s2(3), of length] s2(2) by (auto simp: pcap_wf_def)
  then have "pcap_Receive p s2 = Some (-1, p, s2)" for p
    using part by (simp add: pcap_Receive_def pcap_next_def private_eof_def private_read_def)
  then have "\<exists>xs. pcap_reads pk i n s2 = Some (xs, s2) \<and> (\<forall>x\<in>set xs. fst x = -1)" for i n
    by (induction n arbitrary: i) fastforce+
  then show ?thesis using opened s2(1,4) by blast
qed

theorem pcap_truncated_never_ends_witness:
  "\<exists>s1 s2. pcap_Open [''a'' \<mapsto> PcapHeader_bytes @ packet_image (0, 0) 2368 [7] @ [1, 2]] (example_source ''a'' [] 0) = Some (True, s1) \<and>
     pcap_reads (\<lambda>_. example_packet 0) 0 1 s1 = Some ([(1, [7], 2368)], s2) \<and>
     (\<forall>n. \<exists>xs. pcap_reads (\<lambda>_. example_packet 0) 1 n s2 = Some (xs, s2) \<and> (\<forall>x\<in>set xs. fst x = -1)) \<and> \<not> is_pcap_end s2"
  using pcap_truncated_never_ends [of "[''a'' \<mapsto> PcapHeader_bytes @ packet_image (0, 0) 2368 [7] @ [1, 2]]"
      "example_source ''a'' [] 0" "\<lambda>_. (0, 0)" 2368 "[[7]]" "[1, 2]" "\<lambda>_. example_packet 0"]
  by (simp del: pcap_reads.simps)

text \<open>
  A datagram of IPv6 in a record with a VLAN tag. The reader looks for the protocol at the place of
  IPv4: when the byte there is that of UDP, it returns a length but leaves the packet as it was, so the
  caller takes the bytes of an uninitialised buffer for the packet; otherwise it skips the datagram.
\<close>

lemma next_record:
  assumes fit: "ps_fpos s + 16 + length frame \<le> length (ps_data s)" and n: "14 < length frame" "length frame \<le> 1500"
    and wf: "length (ps_payload s) = 1500"
    and r: "PcapRecord_at (take 16 (drop (ps_fpos s) (ps_data s))) 0 = Some r" "unat (pr_incl_len r) = length frame"
    and frame: "take (length frame) (drop (ps_fpos s + 16) (ps_data s)) = frame"
  shows "pcap_next pk s = pcap_parse pk (s \<lparr> ps_record := r, ps_fpos := ps_fpos s + 16 + length frame,
     ps_payload := frame @ drop (length frame) (ps_payload s) \<rparr>)"
  using fit n wf frame
  by (simp add: pcap_next_def private_eof_def private_read_def bytes_at_def r memcpy_at_def Let_def)

theorem pcap_vlan_v6_lost:
  assumes fit: "ps_fpos s + 16 + length frame \<le> length (ps_data s)" and n: "66 \<le> length frame" "length frame \<le> 1500"
    and wf: "length (ps_payload s) = 1500"
    and r: "PcapRecord_at (take 16 (drop (ps_fpos s) (ps_data s))) 0 = Some r" "unat (pr_incl_len r) = length frame"
    and frame: "take (length frame) (drop (ps_fpos s + 16) (ps_data s)) = frame"
    and vlan: "take 2 (drop 12 frame) = [0x81, 0x00]" and ipv6: "take 2 (drop 16 frame) = [0x86, 0xdd]"
  shows "\<exists>r s'. pcap_Receive pk s = Some (r, pk, s') \<and>
     (frame ! 27 = 17 \<longrightarrow> r = int (length frame) - 66) \<and> (frame ! 27 \<noteq> 17 \<and> frame ! 27 \<noteq> 6 \<longrightarrow> r = 2)"
proof -
  let ?s = "s \<lparr> ps_record := r, ps_fpos := ps_fpos s + 16 + length frame,
     ps_payload := frame @ drop (length frame) (ps_payload s) \<rparr>"
  have ty: "ld16 (ps_payload ?s) 12 = Some 0x0081" "ld16 (ps_payload ?s) 16 = Some 0xdd86"
    using n vlan ipv6 by (simp_all add: load_def)
  have b: "ld8 (ps_payload ?s) 27 = Some (frame ! 27)" using n by (simp add: ld8_def nth_append)
  have len: "length (ps_payload ?s) = 1500" using n wf by simp
  obtain u where u: "UDP_at (ps_payload ?s) 54 = Some u" using header_structs_at(1) [of 54 "ps_payload ?s"] len by auto
  obtain t where t: "TCP_at (ps_payload ?s) 54 = Some t" using header_structs_at(2) [of 54 "ps_payload ?s"] len by auto
  have "pcap_Receive pk s = pcap_vlan_v6 pk ?s"
    using next_record [OF fit _ n(2) wf r frame, of pk] n(1) ty by (simp add: pcap_Receive_def pcap_parse_def pcap_vlan_def)
  then show ?thesis
    using n(1) r(2) b u t by (auto simp: pcap_vlan_v6_def pcap_tcp_def Let_def)
qed

theorem pcap_vlan_v6_lost_witness:
  "let frame = replicate 12 0 @ [0x81, 0, 0, 0, 0x86, 0xdd] @ replicate 9 0 @ [17] @ replicate 40 0
   in \<exists>s'. pcap_Receive (example_packet 0) (example_source ''a'' (PcapRecord_bytes (0, 0) 68 @ frame) 0) =
     Some (2, example_packet 0, s')"
  using pcap_vlan_v6_lost [of "example_source ''a'' (PcapRecord_bytes (0, 0) 68 @ replicate 12 0 @ [0x81, 0, 0, 0, 0x86, 0xdd] @
        replicate 9 0 @ [17] @ replicate 40 0) 0" "replicate 12 0 @ [0x81, 0, 0, 0, 0x86, 0xdd] @ replicate 9 0 @ [17] @ replicate 40 0"
      "\<lparr> pr_ts_sec = 0, pr_ts_usec = 0, pr_incl_len = 68, pr_orig_len = 68 \<rparr>" "example_packet 0"] record_read [of 68 "(0, 0)"]
  by (simp add: Let_def nth_append)

end
