(* ===== verification/Socket_Source.thy ===== *)
theory Socket_Source
  imports Lidar_Types
begin

text \<open>
  \<open>SocketSource\<close> of \<open>src/libhesai/Source/src/socket_source.cc\<close>, the source of the packets of a lidar on the
  network, over a kernel whose answers to the calls are a script: the outcome of each attempt to open
  the socket, the datagrams that \<open>recvfrom\<close> delivers, and the results of \<open>select\<close>. With nothing left
  \<open>recvfrom\<close> fails and \<open>select\<close> times out. Logging and the Windows branches are not modelled, and the
  options of the socket have no effect on the results.
\<close>

text \<open>\<open>Bind_Fails\<close>: with an error other than \<open>EINPROGRESS\<close> and \<open>EWOULDBLOCK\<close>. \<open>Sock_Opens s True\<close>: all went well.\<close>

datatype udp_open = Udp_Socket_Fails | Bind_Fails u32 | Sock_Opens u32 bool

text \<open>A datagram with the address and the port it came from; a failure leaves what the variable held.\<close>

datatype dgram = Dgram "u8 list" u32 u16 | Dgram_Fails u32 u16

record udp_kernel =
  uk_open :: "udp_open list"
  uk_recv :: "dgram list"
  uk_select :: "int list"
  uk_closed :: "u32 list"

record socket_source =
  ss_client_ip :: string
  ss_udp_port :: u16
  ss_udp_sock :: u32
  ss_is_select :: bool

type_synonym sock = "socket_source \<times> udp_kernel"

definition SocketSource_new :: "u16 \<Rightarrow> socket_source" where
  "SocketSource_new port = \<lparr> ss_client_ip = [], ss_udp_port = port, ss_udp_sock = -1, ss_is_select = False \<rparr>"

text \<open>\<open>SOCKET\<close> is \<open>unsigned int\<close>, so that the mark -1 of no socket is greater than 0.\<close>

definition sock_Close :: "sock \<Rightarrow> sock" where
  "sock_Close x = (case x of (s, k) \<Rightarrow>
     let s = s \<lparr> ss_client_ip := [], ss_udp_port := 0 \<rparr>
     in if ss_udp_sock s > 0
        then (s \<lparr> ss_udp_sock := -1 \<rparr>, k \<lparr> uk_closed := uk_closed k @ [ss_udp_sock s] \<rparr>) else (s, k))"

definition sock_Open :: "sock \<Rightarrow> bool \<times> sock" where
  "sock_Open x = (case x of (s, k) \<Rightarrow>
     (case uk_open k of
        [] \<Rightarrow> (False, s \<lparr> ss_udp_sock := -1 \<rparr>, k)
      | Udp_Socket_Fails # r \<Rightarrow> (False, s \<lparr> ss_udp_sock := -1 \<rparr>, k \<lparr> uk_open := r \<rparr>)
      | Bind_Fails sock # r \<Rightarrow> (False, s \<lparr> ss_udp_sock := -1 \<rparr>, k \<lparr> uk_open := r, uk_closed := uk_closed k @ [sock] \<rparr>)
      | Sock_Opens sock ok # r \<Rightarrow> (ok, s \<lparr> ss_udp_sock := sock \<rparr>, k \<lparr> uk_open := r \<rparr>)))"

text \<open>The socket is never less than 0.\<close>

definition sock_IsOpened :: "socket_source \<Rightarrow> bool" where
  "sock_IsOpened s \<longleftrightarrow> \<not> (ss_udp_port s = 0 \<or> ss_udp_sock s < 0)"

definition sys_recvfrom :: "nat \<Rightarrow> UdpPacket \<Rightarrow> udp_kernel \<Rightarrow> (int \<times> UdpPacket \<times> u32 \<times> u16 \<times> udp_kernel) option" where
  "sys_recvfrom n p k =
     (case uk_recv k of
        [] \<Rightarrow> Some (-1, p, 0, 0, k)
      | Dgram_Fails ip prt # r \<Rightarrow> Some (-1, p, ip, prt, k \<lparr> uk_recv := r \<rparr>)
      | Dgram bs ip prt # r \<Rightarrow> do {
          buf \<leftarrow> memcpy_at 0 (take n bs) (up_buffer p);
          Some (int (length (take n bs)), p \<lparr> up_buffer := buf \<rparr>, ip, prt, k \<lparr> uk_recv := r \<rparr>) })"

definition sys_udp_select :: "udp_kernel \<Rightarrow> int \<times> udp_kernel" where
  "sys_udp_select k = (case uk_select k of [] \<Rightarrow> (0, k) | c # r \<Rightarrow> (c, k \<lparr> uk_select := r \<rparr>))"

definition htons :: "u16 \<Rightarrow> u16" where
  "htons w = push_bit 8 w OR drop_bit 8 w"

text \<open>\<open>FD_SET\<close> writes a bit of an array of 1024 bits.\<close>

definition sock_Receive :: "nat \<Rightarrow> UdpPacket \<Rightarrow> sock \<Rightarrow> (int \<times> UdpPacket \<times> sock) option" where
  "sock_Receive u16Len p x =
     (let (ret, s, k) = (if sock_IsOpened (fst x) then (True, x) else sock_Open x)
      in if \<not> ret then Some (-1, p, s, k)
         else if unat (ss_udp_sock s) \<ge> 1024 then None
         else if \<not> ss_is_select s then do {
           (len, p, ip, prt, k) \<leftarrow> sys_recvfrom u16Len p k;
           if len = -1 then Some (len, p, s \<lparr> ss_is_select := True \<rparr>, k)
           else Some (len, p \<lparr> up_ip := ip, up_port := htons prt \<rparr>, s, k) }
         else
           (case sys_udp_select k of (cnt, k) \<Rightarrow>
              if cnt > 0 then do {
                (len, p, ip, prt, k) \<leftarrow> sys_recvfrom u16Len p k;
                Some (len, p \<lparr> up_ip := ip, up_port := htons prt \<rparr>, s \<lparr> ss_is_select := False \<rparr>, k) }
              else if cnt = 0 then Some (0, p \<lparr> up_is_timeout := True \<rparr>, s, k)
              else Some (-1, p, s, k)))"

section \<open>An open source\<close>

definition sock_ok :: "sock \<Rightarrow> bool" where
  "sock_ok x \<longleftrightarrow> ss_udp_port (fst x) \<noteq> 0 \<and> unat (ss_udp_sock (fst x)) < 1024"

lemma recvfrom_cases:
  assumes "length (up_buffer p) = 1500"
  shows "\<exists>q ip prt k' r. sys_recvfrom 1500 p k = Some (r, q, ip, prt, k') \<and> length (up_buffer q) = 1500 \<and>
     up_packet_len q = up_packet_len p \<and> -1 \<le> r \<and> r \<le> 1500"
proof (cases "uk_recv k")
  case (Cons d ds)
  then show ?thesis using assms by (cases d) (auto simp: sys_recvfrom_def memcpy_at_def)
qed (use assms in \<open>simp add: sys_recvfrom_def\<close>)

lemma sock_Receive_ok:
  assumes ok: "sock_ok x" and p: "length (up_buffer p) = 1500"
  shows "\<exists>r p' x'. sock_Receive 1500 p x = Some (r, p', x') \<and> sock_ok x' \<and> length (up_buffer p') = 1500 \<and>
     up_packet_len p' = up_packet_len p \<and> -1 \<le> r \<and> r \<le> 1500"
proof (cases x)
  case (Pair s k)
  obtain q ip prt k' r where 1: "sys_recvfrom 1500 p k = Some (r, q, ip, prt, k')" "length (up_buffer q) = 1500"
    "up_packet_len q = up_packet_len p" "-1 \<le> r" "r \<le> 1500"
    using recvfrom_cases [OF p] by blast
  obtain cnt k1 where 2: "sys_udp_select k = (cnt, k1)" by (cases "sys_udp_select k")
  obtain q2 ip2 prt2 k2 r2 where 3: "sys_recvfrom 1500 p k1 = Some (r2, q2, ip2, prt2, k2)" "length (up_buffer q2) = 1500"
    "up_packet_len q2 = up_packet_len p" "-1 \<le> r2" "r2 \<le> 1500"
    using recvfrom_cases [OF p] by blast
  show ?thesis
    using ok p 1 2 3 unfolding Pair by (simp add: sock_Receive_def sock_IsOpened_def sock_ok_def)
qed

section \<open>A source that could not be opened\<close>

text \<open>
  A failed \<open>Open\<close> is not noticed. The socket is an unsigned number, so \<open>IsOpened\<close> does not see the
  mark -1 that a failed attempt leaves; the next \<open>Receive\<close>, instead of opening the socket again,
  writes outside of the set of descriptors.
\<close>

theorem socket_failed_open_undefined:
  assumes "ss_udp_port s \<noteq> 0" and "sock_Open (s, k) = (ok, s', k')" and "\<not> ok" and "ss_udp_sock s' = -1"
  shows "sock_IsOpened s' \<and> sock_Receive n p (s', k') = None"
proof -
  have "ss_udp_port s' = ss_udp_port s"
    using assms(2) by (auto simp: sock_Open_def split: list.splits udp_open.splits)
  moreover have "unat (-1 :: u32) = 4294967295" by (simp add: unsigned_minus_1_eq_mask mask_eq_exp_minus_1)
  ultimately show ?thesis
    using assms by (simp add: sock_IsOpened_def sock_Receive_def Let_def)
qed

theorem socket_failed_open_undefined_witness:
  "sock_Receive 1500 (UdpPacket.make (replicate 1500 0) 0 False 0 0 0)
     (snd (sock_Open (SocketSource_new 2368, udp_kernel.make [Bind_Fails 5] [] [] []))) = None"
  using socket_failed_open_undefined [of "SocketSource_new 2368" "udp_kernel.make [Bind_Fails 5] [] [] []" False
      "(SocketSource_new 2368) \<lparr> ss_udp_sock := -1 \<rparr>" "udp_kernel.make [] [] [] [5]"]
  by (simp add: sock_Open_def SocketSource_new_def udp_kernel.make_def)

end
