(* ===== verification/Receive_Thread.thy ===== *)
theory Receive_Thread
  imports Pcap Socket_Source
begin

text \<open>
  \<open>Lidar::RecieveUdpThread\<close> of \<open>src/libhesai/Lidar/lidar.cc\<close>: the thread that takes the packets of a source,
  puts them into the queue of the driver (theory Blocking\_Ring) and hands them to the recorder.

  The queue is the list of the packets put into it. The thread waits while the queue is full and is
  its only producer, so no call blocks or fails. \<open>stack i\<close> is what the buffer of the packet of
  iteration \<open>i\<close> holds before, \<open>now i\<close> the clock and \<open>heap\<close> the contents of a new buffer of the recorder.
\<close>

record lidar_rx =
  rx_is_timeout :: bool
  rx_is_record_pcap :: bool
  rx_udp_port :: u16
  rx_origin_packets :: "UdpPacket list"
  rx_dumped :: "PandarPacket list"

definition AT128E2X_PACKET_LEN :: int where "AT128E2X_PACKET_LEN = 1180"
definition GPS_PACKET_LEN :: int where "GPS_PACKET_LEN = 512"
definition FAULTMESSAGE_PACKET_LEN :: int where "FAULTMESSAGE_PACKET_LEN = 99"

text \<open>\<open>Dump\<close> of the recorder: a copy of the packet for its thread.\<close>

definition pcap_Dump :: "u8 list \<Rightarrow> u8 list \<Rightarrow> u32 \<Rightarrow> u16 \<Rightarrow> PandarPacket list \<Rightarrow> PandarPacket list option" where
  "pcap_Dump heap data len port cache = do { p \<leftarrow> PandarPacket_new heap data len port; Some (cache @ [p]) }"

text \<open>The switch on the result of \<open>Receive\<close>.\<close>

definition rx_dispatch :: "int \<Rightarrow> UdpPacket \<Rightarrow> lidar_rx \<Rightarrow> UdpPacket \<times> lidar_rx" where
  "rx_dispatch len p s =
     (let put = (\<lambda>p. s \<lparr> rx_origin_packets := rx_origin_packets s @ [p] \<rparr>);
          sized = p \<lparr> up_packet_len := sint (word_of_int len :: u16) \<rparr>
      in if len = 0 then
           (if rx_is_timeout s then (p, s)
            else let p = p \<lparr> up_packet_len := AT128E2X_PACKET_LEN, up_buffer := (up_buffer p)[0 := 0, 1 := 0] \<rparr>
                 in (p, (put p) \<lparr> rx_is_timeout := True \<rparr>))
         else if len = FAULTMESSAGE_PACKET_LEN then (sized, put sized)
         else if len = GPS_PACKET_LEN then (p, s)
         else if len > 0 then (sized, (put sized) \<lparr> rx_is_timeout := False \<rparr>)
         else (p, s))"

text \<open>The body of the loop behind the call of \<open>Receive\<close>.\<close>

definition rx_packet :: "u8 list \<Rightarrow> u64 \<Rightarrow> int \<Rightarrow> UdpPacket \<Rightarrow> lidar_rx \<Rightarrow> lidar_rx option" where
  "rx_packet heap now len p s =
     (if len = -1 then Some s
      else
        (case rx_dispatch len (p \<lparr> up_recv_timestamp := now \<rparr>) s of (p, s) \<Rightarrow>
           if up_packet_len p > 0 \<and> rx_is_record_pcap s then do {
             cache \<leftarrow> pcap_Dump heap (up_buffer p) (word_of_int (up_packet_len p)) (rx_udp_port s) (rx_dumped s);
             Some (s \<lparr> rx_dumped := cache \<rparr>) }
           else Some s))"

text \<open>A number of iterations of the loop, over any source.\<close>

fun RecieveUdpThread :: "(UdpPacket \<Rightarrow> 's \<Rightarrow> (int \<times> UdpPacket \<times> 's) option) \<Rightarrow> (nat \<Rightarrow> u8 list) \<Rightarrow> u8 list \<Rightarrow>
    (nat \<Rightarrow> u64) \<Rightarrow> nat \<Rightarrow> nat \<Rightarrow> 's \<times> lidar_rx \<Rightarrow> ('s \<times> lidar_rx) option" where
  "RecieveUdpThread receive stack heap now i 0 x = Some x"
| "RecieveUdpThread receive stack heap now i (Suc n) x = do {
     p \<leftarrow> UdpPacket_new (stack i) None 0 0 0 0;
     (len, p, s) \<leftarrow> receive p (fst x);
     rx \<leftarrow> rx_packet heap (now i) len p (snd x);
     RecieveUdpThread receive stack heap now (Suc i) n (s, rx) }"

text \<open>The recorder's thread: the packets of its cache, in order.\<close>

fun dumping_loop :: "(nat \<Rightarrow> u32 \<times> u32) \<Rightarrow> string \<Rightarrow> nat \<Rightarrow> PandarPacket list \<Rightarrow> files \<Rightarrow> files option" where
  "dumping_loop ts path i [] fs = Some fs"
| "dumping_loop ts path i (p # ps) fs = do {
     fs \<leftarrow> dump_thread (ts i) p path fs;
     dumping_loop ts path (Suc i) ps fs }"

section \<open>Sources\<close>

text \<open>
  What the thread needs of a source: in a state that is \<open>ok\<close>, \<open>Receive\<close> is defined, keeps the state
  \<open>ok\<close> and the size of the buffer, leaves the length alone, and returns -1 or the length of a packet.
\<close>

locale packet_source =
  fixes receive :: "UdpPacket \<Rightarrow> 's \<Rightarrow> (int \<times> UdpPacket \<times> 's) option"
    and ok :: "'s \<Rightarrow> bool" and limit :: int
  assumes receives: "ok s \<Longrightarrow> length (up_buffer p) = 1500 \<Longrightarrow> \<exists>r p' s'. receive p s = Some (r, p', s') \<and> ok s' \<and>
      length (up_buffer p') = 1500 \<and> up_packet_len p' = up_packet_len p \<and> -1 \<le> r \<and> r \<le> limit"
    and limit: "limit \<le> 1500"

text \<open>A packet in the queue and its copy in the cache of the recorder.\<close>

definition dumped_as :: "u16 \<Rightarrow> UdpPacket \<Rightarrow> PandarPacket \<Rightarrow> bool" where
  "dumped_as port p d \<longleftrightarrow> pp_size d = word_of_int (up_packet_len p) \<and> pp_port d = port \<and>
     length (pp_buffer d) = 1500 \<and> take (nat (up_packet_len p)) (pp_buffer d) = packet_data p"

definition queued_ok :: "int \<Rightarrow> UdpPacket \<Rightarrow> bool" where
  "queued_ok m p \<longleftrightarrow> length (up_buffer p) = 1500 \<and> 0 < up_packet_len p \<and> up_packet_len p \<le> m \<and> up_packet_len p \<noteq> 512"

definition rx_ok :: "int \<Rightarrow> lidar_rx \<Rightarrow> bool" where
  "rx_ok m s \<longleftrightarrow> list_all (queued_ok m) (rx_origin_packets s) \<and>
     (rx_is_record_pcap s \<longrightarrow> list_all2 (dumped_as (rx_udp_port s)) (rx_origin_packets s) (rx_dumped s))"

lemma packet_length_s16: "0 \<le> l \<Longrightarrow> l \<le> 1500 \<Longrightarrow> sint (word_of_int l :: u16) = l"
  by (simp add: signed_of_int signed_take_bit_int_eq_self)

text \<open>What the switch does: either nothing is queued and the packet keeps its length, or it is queued.\<close>

lemma rx_dispatch_cases:
  assumes p: "length (up_buffer p) = 1500" and len: "0 \<le> len" "len \<le> m" and m: "1180 \<le> m" "m \<le> 1500"
  shows "rx_dispatch len p s = (p, s) \<or> (\<exists>q b. queued_ok m q \<and>
     rx_dispatch len p s = (q, s \<lparr> rx_origin_packets := rx_origin_packets s @ [q], rx_is_timeout := b \<rparr>))"
proof -
  have w: "sint (word_of_int len :: u16) = len" using assms by (intro packet_length_s16) simp_all
  consider "len = 0" "rx_is_timeout s" | "len = 0" "\<not> rx_is_timeout s" | "len = 99" | "len = 512"
    | "0 < len" "len \<noteq> 99" "len \<noteq> 512" using len by linarith
  then show ?thesis
  proof cases
    case 3
    have "rx_dispatch len p s = (p \<lparr> up_packet_len := 99 \<rparr>, s \<lparr> rx_origin_packets := rx_origin_packets s @ [p \<lparr> up_packet_len := 99 \<rparr>],
        rx_is_timeout := rx_is_timeout s \<rparr>)"
      using w 3 by (simp add: rx_dispatch_def FAULTMESSAGE_PACKET_LEN_def Let_def)
    moreover have "queued_ok m (p \<lparr> up_packet_len := 99 \<rparr>)" using p m by (simp add: queued_ok_def)
    ultimately show ?thesis by blast
  next
    case 5
    have "queued_ok m (p \<lparr> up_packet_len := len \<rparr>)" using p len 5 by (simp add: queued_ok_def)
    then show ?thesis
      using w 5 by (simp add: rx_dispatch_def FAULTMESSAGE_PACKET_LEN_def GPS_PACKET_LEN_def Let_def) blast
  qed (use p m in \<open>auto simp: rx_dispatch_def FAULTMESSAGE_PACKET_LEN_def GPS_PACKET_LEN_def AT128E2X_PACKET_LEN_def
      queued_ok_def Let_def\<close>)
qed

text \<open>A packet of the queue fits the recorder's copy.\<close>

lemma pcap_Dump_queued:
  assumes "queued_ok m q" and "m \<le> 1500" and "length heap = 1500"
  shows "\<exists>d. pcap_Dump heap (up_buffer q) (word_of_int (up_packet_len q)) port cache = Some (cache @ [d]) \<and> dumped_as port q d"
proof -
  obtain n where n: "up_packet_len q = int n" "n \<le> 1500"
    using assms zero_le_imp_eq_int [of "up_packet_len q"] by (auto simp: queued_ok_def)
  have "unat (word_of_nat n :: u32) = n" using n(2) by (simp only: unat_of_nat) simp
  then show ?thesis
    using assms n by (simp add: pcap_Dump_def PandarPacket_new_def bytes_at_def memcpy_at_def dumped_as_def queued_ok_def packet_data_def)
qed

lemma rx_packet_ok:
  assumes ok: "rx_ok m s" and p: "length (up_buffer p) = 1500" "up_packet_len p = 0" and len: "-1 \<le> len" "len \<le> m"
    and m: "1180 \<le> m" "m \<le> 1500" and heap: "length heap = 1500"
  shows "\<exists>s'. rx_packet heap now len p s = Some s' \<and> rx_ok m s' \<and> rx_is_record_pcap s' = rx_is_record_pcap s \<and>
     rx_udp_port s' = rx_udp_port s"
proof (cases "len = -1")
  case False
  let ?p = "p \<lparr> up_recv_timestamp := now \<rparr>"
  have "rx_dispatch len ?p s = (?p, s) \<or> (\<exists>q b. queued_ok m q \<and>
      rx_dispatch len ?p s = (q, s \<lparr> rx_origin_packets := rx_origin_packets s @ [q], rx_is_timeout := b \<rparr>))"
    using p(1) len False m by (intro rx_dispatch_cases) simp_all
  then show ?thesis
  proof (elim disjE exE conjE)
    assume "rx_dispatch len ?p s = (?p, s)"
    then show ?thesis using False ok p(2) by (simp add: rx_packet_def)
  next
    fix q b
    assume q: "queued_ok m q" and e: "rx_dispatch len ?p s = (q, s \<lparr> rx_origin_packets := rx_origin_packets s @ [q], rx_is_timeout := b \<rparr>)"
    obtain d where d: "pcap_Dump heap (up_buffer q) (word_of_int (up_packet_len q)) (rx_udp_port s) (rx_dumped s) = Some (rx_dumped s @ [d])"
      "dumped_as (rx_udp_port s) q d"
      using pcap_Dump_queued [OF q m(2) heap] by blast
    show ?thesis
      using False ok q d e by (auto simp: rx_packet_def rx_ok_def queued_ok_def intro: list_all2_appendI)
  qed
qed (use ok in \<open>simp add: rx_packet_def\<close>)

lemma fresh_packet: "UdpPacket_new b None 0 0 0 0 =
     Some \<lparr> up_buffer = b, up_packet_len = 0, up_is_timeout = False, up_recv_timestamp = 0, up_ip = 0, up_port = 0 \<rparr>"
  by (simp add: UdpPacket_new_def)

definition rx_start :: "bool \<Rightarrow> u16 \<Rightarrow> lidar_rx" where
  "rx_start record port = \<lparr> rx_is_timeout = False, rx_is_record_pcap = record, rx_udp_port = port,
     rx_origin_packets = [], rx_dumped = [] \<rparr>"

lemma rx_start_fields:
  "rx_is_timeout (rx_start r port) = False" "rx_is_record_pcap (rx_start r port) = r"
  "rx_udp_port (rx_start r port) = port" "rx_origin_packets (rx_start r port) = []" "rx_dumped (rx_start r port) = []"
  by (simp_all add: rx_start_def)

lemma rx_start_ok [simp]: "rx_ok m (rx_start r port)"
  by (simp add: rx_ok_def rx_start_def)

context packet_source
begin

lemma loop_ok:
  assumes "ok s" "rx_ok m rx" and m: "limit \<le> m" "1180 \<le> m" "m \<le> 1500" and stack: "\<And>i. length (stack i) = 1500"
    and heap: "length heap = 1500"
  shows "\<exists>s' rx'. RecieveUdpThread receive stack heap now i n (s, rx) = Some (s', rx') \<and> ok s' \<and> rx_ok m rx' \<and>
     rx_is_record_pcap rx' = rx_is_record_pcap rx \<and> rx_udp_port rx' = rx_udp_port rx"
  using assms(1,2)
proof (induction n arbitrary: i s rx)
  case (Suc n)
  let ?p = "\<lparr> up_buffer = stack i, up_packet_len = 0, up_is_timeout = False, up_recv_timestamp = 0, up_ip = 0, up_port = 0 \<rparr>"
  obtain r p' s1 where r: "receive ?p s = Some (r, p', s1)" "ok s1" "length (up_buffer p') = 1500" "up_packet_len p' = 0"
    "-1 \<le> r" "r \<le> limit"
    using receives [OF Suc.prems(1), of ?p] stack [of i] by auto
  obtain rx1 where rx1: "rx_packet heap (now i) r p' rx = Some rx1" "rx_ok m rx1"
    "rx_is_record_pcap rx1 = rx_is_record_pcap rx" "rx_udp_port rx1 = rx_udp_port rx"
    using rx_packet_ok [OF Suc.prems(2) r(3,4,5) order_trans [OF r(6) m(1)] m(2,3) heap] by blast
  obtain s' rx' where "RecieveUdpThread receive stack heap now (Suc i) n (s1, rx1) = Some (s', rx')" "ok s'" "rx_ok m rx'"
    "rx_is_record_pcap rx' = rx_is_record_pcap rx1" "rx_udp_port rx' = rx_udp_port rx1"
    using Suc.IH [OF r(2) rx1(2)] by blast
  then show ?case using r(1) rx1(1,3,4) by (simp add: fresh_packet)
qed simp

end

lemma pcap_next_fields:
  assumes "pcap_next p s = Some (r, p', s')"
  shows "up_packet_len p' = up_packet_len p \<and> up_is_timeout p' = up_is_timeout p"
proof -
  have d: "pcap_deliver off p s = Some (r, p', s') \<Longrightarrow> up_packet_len p' = up_packet_len p \<and> up_is_timeout p' = up_is_timeout p" for off s
    by (auto simp: pcap_deliver_def Let_def)
  have u: "pcap_udp sz off p s = Some (r, p', s') \<Longrightarrow> up_packet_len p' = up_packet_len p \<and> up_is_timeout p' = up_is_timeout p" for sz off s
    using d by (auto simp: pcap_udp_def Let_def split: if_splits)
  have t: "pcap_tcp sz off p s = Some (r, p', s') \<Longrightarrow> p' = p" for sz off s
    by (auto simp: pcap_tcp_def Let_def split: if_splits)
  have i: "pcap_ip a b p s = Some (r, p', s') \<Longrightarrow> up_packet_len p' = up_packet_len p \<and> up_is_timeout p' = up_is_timeout p" for a b s
    using u t by (fastforce simp: pcap_ip_def split: if_splits)
  have v4: "pcap_vlan_v4 p s = Some (r, p', s') \<Longrightarrow> up_packet_len p' = up_packet_len p \<and> up_is_timeout p' = up_is_timeout p" for s
    using u t by (fastforce simp: pcap_vlan_v4_def split: if_splits)
  have v6: "pcap_vlan_v6 p s = Some (r, p', s') \<Longrightarrow> p' = p" for s
    using t by (auto simp: pcap_vlan_v6_def split: if_splits)
  have "pcap_parse p s = Some (r, p', s') \<Longrightarrow> up_packet_len p' = up_packet_len p \<and> up_is_timeout p' = up_is_timeout p" for s
    using i v4 v6 by (fastforce simp: pcap_parse_def pcap_vlan_def split: if_splits)
  then show ?thesis
    using assms by (auto simp: pcap_next_def Let_def split: if_splits prod.splits option.splits bool.splits)
qed

interpretation pcaps: packet_source pcap_Receive pcap_wf 1458
proof
  fix s :: pcap_source and p :: UdpPacket
  assume a: "pcap_wf s" "length (up_buffer p) = 1500"
  obtain r p' s' where r: "pcap_next p s = Some (r, p', s')" "pcap_read_ok s (r, p', s')"
    using pcap_next_ok [OF a] by auto
  then have "pcap_wf s'" "length (up_buffer p') = 1500" "-1 \<le> r" "r \<le> 1458"
    by (auto simp: pcap_read_ok_def split: if_splits)
  then show "\<exists>r p' s'. pcap_Receive p s = Some (r, p', s') \<and> pcap_wf s' \<and> length (up_buffer p') = 1500 \<and>
      up_packet_len p' = up_packet_len p \<and> -1 \<le> r \<and> r \<le> 1458"
    using r(1) pcap_next_fields [OF r(1)] by (simp add: pcap_Receive_def)
qed simp

interpretation socks: packet_source "sock_Receive 1500" sock_ok 1500
  by unfold_locales (use sock_Receive_ok in auto)

section \<open>Time-outs\<close>

text \<open>
  A source that marks the packets of time-outs and only these: \<open>is_timeout\<close> is set when \<open>Receive\<close>
  returns 0.
\<close>

locale marking_source = packet_source +
  assumes marks: "ok s \<Longrightarrow> length (up_buffer p) = 1500 \<Longrightarrow> \<not> up_is_timeout p \<Longrightarrow> receive p s = Some (r, p', s') \<Longrightarrow>
    up_is_timeout p' = (r = 0)"

text \<open>The queue without the fault messages: no two time-outs follow each other, and the flag tells the last.\<close>

definition timeouts_apart :: "lidar_rx \<Rightarrow> bool" where
  "timeouts_apart s \<longleftrightarrow> (let q = filter (\<lambda>p. up_packet_len p \<noteq> FAULTMESSAGE_PACKET_LEN) (rx_origin_packets s)
     in successively (\<lambda>p p'. \<not> (up_is_timeout p \<and> up_is_timeout p')) q \<and>
        rx_is_timeout s = (q \<noteq> [] \<and> up_is_timeout (last q)))"

lemma rx_packet_apart:
  assumes inv: "timeouts_apart s" and r: "-1 \<le> r" "r \<le> 1500" and mark: "up_is_timeout p = (r = 0)"
    and e: "rx_packet heap now r p s = Some s'"
  shows "timeouts_apart s'"
proof -
  let ?p = "p \<lparr> up_recv_timestamp := now \<rparr>"
  have w: "r \<noteq> -1 \<Longrightarrow> sint (word_of_int r :: u16) = r" using r by (intro packet_length_s16) simp_all
  have "timeouts_apart (snd (rx_dispatch r ?p s))" if "r \<noteq> -1"
    using inv mark that r w
    by (auto simp: timeouts_apart_def rx_dispatch_def Let_def FAULTMESSAGE_PACKET_LEN_def AT128E2X_PACKET_LEN_def
        GPS_PACKET_LEN_def successively_append_iff)
  moreover have "timeouts_apart (x \<lparr> rx_dumped := c \<rparr>) = timeouts_apart x" for x c
    by (simp add: timeouts_apart_def)
  ultimately show ?thesis
    using e inv by (auto simp: rx_packet_def split: if_splits prod.splits)
qed

context marking_source
begin

lemma loop_apart:
  assumes "ok s" "timeouts_apart rx" and stack: "\<And>i. length (stack i) = 1500"
    and "RecieveUdpThread receive stack heap now i n (s, rx) = Some (s', rx')"
  shows "timeouts_apart rx'"
  using assms(1,2,4)
proof (induction n arbitrary: i s rx)
  case (Suc n)
  let ?p = "\<lparr> up_buffer = stack i, up_packet_len = 0, up_is_timeout = False, up_recv_timestamp = 0, up_ip = 0, up_port = 0 \<rparr>"
  obtain r p' s1 where r: "receive ?p s = Some (r, p', s1)" "ok s1" "-1 \<le> r" "r \<le> limit"
    using receives [OF Suc.prems(1), of ?p] stack [of i] by auto
  have mark: "up_is_timeout p' = (r = 0)" using marks [OF Suc.prems(1) _ _ r(1)] stack [of i] by simp
  obtain rx1 where rx1: "rx_packet heap (now i) r p' rx = Some rx1"
    "RecieveUdpThread receive stack heap now (Suc i) n (s1, rx1) = Some (s', rx')"
    using Suc.prems(3) r(1) by (auto simp: fresh_packet)
  show ?case
    using Suc.IH [OF r(2) rx_packet_apart [OF Suc.prems(2) r(3) _ mark rx1(1)] rx1(2)] r(4) limit by simp
qed simp

end

text \<open>A socket with datagrams of 1 to 1458 bytes.\<close>

definition sock_small :: "sock \<Rightarrow> bool" where
  "sock_small x \<longleftrightarrow> sock_ok x \<and>
     list_all (\<lambda>d. case d of Dgram bs _ _ \<Rightarrow> 0 < length bs \<and> length bs \<le> 1458 | _ \<Rightarrow> True) (uk_recv (snd x))"

text \<open>The datagrams that are put into the queue: all of them but the messages of GPS.\<close>

fun datagrams :: "dgram list \<Rightarrow> u8 list list" where
  "datagrams [] = []"
| "datagrams (Dgram bs ip port # ds) = (if length bs = 512 then datagrams ds else bs # datagrams ds)"
| "datagrams (Dgram_Fails ip port # ds) = datagrams ds"

lemma datagrams_append: "datagrams (xs @ ys) = datagrams xs @ datagrams ys"
  by (induction xs rule: datagrams.induct) auto

lemma sock_small_step:
  assumes ok: "sock_small x" and p: "length (up_buffer p) = 1500" and e: "sock_Receive 1500 p x = Some (r, p', x')"
  shows "sock_small x' \<and> r \<le> 1458 \<and> (\<not> up_is_timeout p \<longrightarrow> up_is_timeout p' = (r = 0)) \<and>
     (uk_recv (snd x) = uk_recv (snd x') \<and> \<not> 0 < r \<or>
      (\<exists>d. uk_recv (snd x) = d # uk_recv (snd x') \<and>
         datagrams [d] = (if 0 < r \<and> r \<noteq> 512 then [take (nat r) (up_buffer p')] else [])))"
proof -
  obtain s k where x: "x = (s, k)" by fastforce
  obtain cnt k1 where k1: "sys_udp_select k = (cnt, k1)" by (cases "sys_udp_select k")
  have k1': "uk_recv k1 = uk_recv k" using k1 by (auto simp: sys_udp_select_def split: list.splits)
  show ?thesis
  proof (cases "uk_recv k")
    case Nil
    then show ?thesis
      using ok e p k1 k1' unfolding x
      by (auto simp: sock_Receive_def sock_small_def sock_ok_def sock_IsOpened_def sys_recvfrom_def split: if_splits)
  next
    case (Cons d ds)
    then show ?thesis
      using ok e p k1 k1' unfolding x
      by (cases d) (auto simp: sock_Receive_def sock_small_def sock_ok_def sock_IsOpened_def sys_recvfrom_def memcpy_at_def
          min_def split: if_splits)
  qed
qed

interpretation small_socks: marking_source "sock_Receive 1500" sock_small 1458
proof unfold_locales
  fix s :: sock and p :: UdpPacket
  assume a: "sock_small s" "length (up_buffer p) = 1500"
  obtain r p' s' where r: "sock_Receive 1500 p s = Some (r, p', s')" "length (up_buffer p') = 1500"
    "up_packet_len p' = up_packet_len p" "-1 \<le> r"
    using sock_Receive_ok [of s p] a by (auto simp: sock_small_def)
  have "sock_small s' \<and> r \<le> 1458" using sock_small_step [OF a r(1)] by simp
  then show "\<exists>r p' s'. sock_Receive 1500 p s = Some (r, p', s') \<and> sock_small s' \<and> length (up_buffer p') = 1500 \<and>
      up_packet_len p' = up_packet_len p \<and> -1 \<le> r \<and> r \<le> 1458"
    using r by blast
qed (simp, use sock_small_step in blast)

text \<open>A socket and buffers that the witnesses use.\<close>

definition example_sock :: sock where
  "example_sock = ((SocketSource_new 2368) \<lparr> ss_udp_sock := 5 \<rparr>,
     udp_kernel.make [] [Dgram [1, 2] 0 0, Dgram_Fails 0 0, Dgram [3] 0 0] [0, 0, 1] [])"

lemma example_sock_small [simp]: "sock_small example_sock"
  by (simp add: example_sock_def sock_small_def sock_ok_def SocketSource_new_def udp_kernel.make_def)

text \<open>
  Whatever the socket delivers, two time-outs never follow each other in the queue, also not with
  fault messages between them: after a time-out no other is queued before a packet of the lidar has
  arrived, and \<open>is_timeout_\<close> says whether the last of them was a time-out.
\<close>

theorem receive_timeouts_apart:
  assumes "sock_small x" and "\<And>i. length (stack i) = 1500" and "length heap = 1500"
  shows "\<exists>x' rx. RecieveUdpThread (sock_Receive 1500) stack heap now 0 n (x, rx_start record port) = Some (x', rx) \<and>
     timeouts_apart rx"
proof -
  obtain x' rx where 1: "RecieveUdpThread (sock_Receive 1500) stack heap now 0 n (x, rx_start record port) = Some (x', rx)"
    using small_socks.loop_ok [OF assms(1), of 1500 "rx_start record port" stack heap now 0 n] assms by auto
  have "timeouts_apart (rx_start record port)" by (simp add: timeouts_apart_def rx_start_def)
  then show ?thesis using 1 small_socks.loop_apart [OF assms(1) _ assms(2) 1] by blast
qed

theorem receive_timeouts_apart_witness:
  "\<exists>x' rx. RecieveUdpThread (sock_Receive 1500) (\<lambda>_. replicate 1500 0) (replicate 1500 0) (\<lambda>_. 0) 0 5
     (example_sock, rx_start True 2368) = Some (x', rx) \<and> timeouts_apart rx"
  using receive_timeouts_apart [of example_sock "\<lambda>_. replicate 1500 0" "replicate 1500 0" "\<lambda>_. 0" 5 True 2368]
  by (simp del: RecieveUdpThread.simps)

section \<open>What arrives\<close>

lemma rx_packet_data:
  assumes p: "length (up_buffer p) = 1500" and r: "-1 \<le> r" "r \<le> 1500" and mark: "up_is_timeout p = (r = 0)"
    and e: "rx_packet heap now r p s = Some s'"
  shows "map packet_data (filter (\<lambda>p. \<not> up_is_timeout p) (rx_origin_packets s')) =
     map packet_data (filter (\<lambda>p. \<not> up_is_timeout p) (rx_origin_packets s)) @
     (if 0 < r \<and> r \<noteq> 512 then [take (nat r) (up_buffer p)] else [])"
proof -
  let ?p = "p \<lparr> up_recv_timestamp := now \<rparr>"
  have w: "r \<noteq> -1 \<Longrightarrow> sint (word_of_int r :: u16) = r" using r by (intro packet_length_s16) simp_all
  have "rx_origin_packets s' = (if r = -1 then rx_origin_packets s else rx_origin_packets (snd (rx_dispatch r ?p s)))"
    using e by (auto simp: rx_packet_def split: if_splits prod.splits)
  then show ?thesis
    using mark r w p by (auto simp: rx_dispatch_def Let_def FAULTMESSAGE_PACKET_LEN_def AT128E2X_PACKET_LEN_def
        GPS_PACKET_LEN_def packet_data_def)
qed



section \<open>Recording and replaying\<close>

lemma dump_queued:
  assumes "dumped_as port p d" and "queued_ok 1458 p"
  shows "dump_packet ts d = Some (packet_image ts port (packet_data p))"
proof -
  obtain n where n: "up_packet_len p = int n" "n \<le> 1458" "length (up_buffer p) = 1500"
    using assms(2) zero_le_imp_eq_int [of "up_packet_len p"] by (auto simp: queued_ok_def)
  have w: "unat (word_of_nat n :: u32) = n" using n(2) by (simp only: unat_of_nat) simp
  have h: "ucast (word_of_nat n :: u32) = (word_of_nat n :: u16)"
    by (rule bit_word_eqI) (simp add: bit_unsigned_iff bit_word_of_nat)
  have l: "length (packet_data p) = n" using n by (simp add: packet_data_def)
  show ?thesis
    using assms(1) n l by (simp add: dump_packet_def dumped_as_def pcap_packet_bytes_def bytes_at_def w h packet_image_def)
qed

lemma dumping_loop_images:
  assumes "list_all2 (dumped_as port) ps ds" and "list_all (queued_ok 1458) ps"
  shows "dumping_loop ts path i ds (fs(path \<mapsto> out)) = Some (fs(path \<mapsto> out @ images ts port i (map packet_data ps)))"
  using assms
proof (induction arbitrary: i out rule: list_all2_induct)
  case (Cons p ps d ds)
  then show ?case using dump_queued [OF Cons.hyps(1)] by (simp add: dump_thread_def fun_upd_same del: bind_Some_iff fun_upd_apply)
qed (simp add: fun_upd_def)

lemma queued_data_length: "queued_ok m p \<Longrightarrow> m \<le> 1500 \<Longrightarrow> length (packet_data p) = nat (up_packet_len p)"
  by (auto simp: queued_ok_def packet_data_def)

text \<open>The thread on a capture file of packets: all of them but those of 512 and of 0 bytes are queued.\<close>

lemma replay_images:
  assumes "pcap_wf s" and "drop (ps_fpos s) (ps_data s) = images ts port j ds @ rest"
    and "list_all (\<lambda>d. 0 < length d \<and> length d \<le> 1458 \<and> length d \<noteq> 512) ds" and "rx_ok 1500 rx"
    and stack: "\<And>i. length (stack i) = 1500" and heap: "length heap = 1500"
  shows "\<exists>s' rx'. RecieveUdpThread pcap_Receive stack heap now i (length ds) (s, rx) = Some (s', rx') \<and>
     map packet_data (rx_origin_packets rx') = map packet_data (rx_origin_packets rx) @ ds \<and>
     drop (ps_fpos s') (ps_data s') = rest"
  using assms(1-4)
proof (induction ds arbitrary: i j s rx)
  case (Cons d ds)
  let ?p = "\<lparr> up_buffer = stack i, up_packet_len = 0, up_is_timeout = False, up_recv_timestamp = 0, up_ip = 0, up_port = 0 \<rparr>"
  have d: "0 < length d" "length d \<le> 1458" "length d \<noteq> 512" using Cons.prems(3) by simp_all
  obtain s1 where 1: "pcap_next ?p s = Some (int (length d), ?p \<lparr> up_buffer := d @ drop (length d) (stack i) \<rparr>, s1)"
    "pcap_wf s1" "drop (ps_fpos s1) (ps_data s1) = images ts port (Suc j) ds @ rest"
    using next_image [OF Cons.prems(1) _ d(2), of ?p "ts j" port "images ts port (Suc j) ds @ rest"] Cons.prems(2) stack [of i]
    by auto
  let ?q = "?p \<lparr> up_buffer := d @ drop (length d) (stack i) \<rparr>"
  have q: "length (up_buffer ?q) = 1500" using stack [of i] d(2) by simp
  obtain rx1 where rx1: "rx_packet heap (now i) (int (length d)) ?q rx = Some rx1" "rx_ok 1500 rx1"
    using rx_packet_ok [OF Cons.prems(4) q, of "int (length d)" heap "now i"] d(2) heap by auto
  have w: "sint (word_of_int (int (length d)) :: u16) = int (length d)" using d(2) by (intro packet_length_s16) simp_all
  have "rx_origin_packets rx1 = rx_origin_packets (snd (rx_dispatch (int (length d)) (?q \<lparr> up_recv_timestamp := now i \<rparr>) rx))"
    using rx1(1) by (auto simp: rx_packet_def split: if_splits prod.splits)
  then have o1: "map packet_data (rx_origin_packets rx1) = map packet_data (rx_origin_packets rx) @ [d]"
    using d w by (auto simp: rx_dispatch_def FAULTMESSAGE_PACKET_LEN_def GPS_PACKET_LEN_def packet_data_def Let_def)
  have "\<exists>s' rx'. RecieveUdpThread pcap_Receive stack heap now (Suc i) (length ds) (s1, rx1) = Some (s', rx') \<and>
     map packet_data (rx_origin_packets rx') = map packet_data (rx_origin_packets rx1) @ ds \<and>
     drop (ps_fpos s') (ps_data s') = rest"
    using Cons.prems(3) by (intro Cons.IH [OF 1(2,3) _ rx1(2)]) simp
  then obtain s' rx' where "RecieveUdpThread pcap_Receive stack heap now (Suc i) (length ds) (s1, rx1) = Some (s', rx')"
     "map packet_data (rx_origin_packets rx') = map packet_data (rx_origin_packets rx1) @ ds"
     "drop (ps_fpos s') (ps_data s') = rest"
    by blast
  then show ?case using 1(1) rx1(1) o1 by (simp add: fresh_packet pcap_Receive_def)
qed simp



end
