(* ===== verification/Row_Decoder.thy ===== *)
theory Row_Decoder
  imports Packet_Decoder
begin

text \<open>
  The loops of the decoders whose blocks differ in more than the azimuth: those of Pandar128, QT128,
  AT128, ATX, FT120 and the ET family. A row is a header followed by channels of a fixed size; what a
  channel writes depends on the header of its row, and after a row the decoder may update its own
  state (frame division by the block in AT128 and ATX). The theories of the protocols supply the
  reader of a row and the update; here the loops are shown to write exactly the points of the packet
  when the rows are inside the buffer.
\<close>

section \<open>The loops\<close>

type_synonym point_reader = "nat \<Rightarrow> nat \<Rightarrow> (PointDecodeData \<Rightarrow> PointDecodeData) option"

text \<open>\<open>n\<close> channels are left; \<open>c\<close> is the number of the channel, \<open>off\<close> is \<open>pChnUnit\<close>.\<close>

fun read_row :: "point_reader \<Rightarrow> nat \<Rightarrow> nat \<Rightarrow> nat \<Rightarrow> nat \<Rightarrow> int \<Rightarrow> LidarDecodedFrame \<Rightarrow>
    (int \<times> LidarDecodedFrame) option" where
  "read_row rd usz 0 c off index f = Some (index, f)"
| "read_row rd usz (Suc n) c off index f = do {
     upd \<leftarrow> rd c off;
     k \<leftarrow> nat_index index;
     f \<leftarrow> put_point_data k upd f;
     read_row rd usz n (Suc c) (off + usz) (index + 1) f }"

text \<open>
  \<open>n\<close> rows of \<open>L\<close> channels are left; \<open>r\<close> is the number of the row and \<open>pa\<close> the address of its header
  of \<open>asz\<close> bytes. \<open>hdr\<close> reads the header and gives the reader of the channels; \<open>post\<close> is what follows
  the channels in the body of the loop.
\<close>

type_synonym 'i row_reader = "nat \<Rightarrow> nat \<Rightarrow> ('i \<times> point_reader) option"
type_synonym ('i, 's) row_post = "'i \<Rightarrow> LidarDecodedFrame \<Rightarrow> 's \<Rightarrow> LidarDecodedFrame \<times> 's"

fun read_rows :: "'i row_reader \<Rightarrow> ('i, 's) row_post \<Rightarrow> nat \<Rightarrow> nat \<Rightarrow> nat \<Rightarrow> nat \<Rightarrow> nat \<Rightarrow> nat \<Rightarrow> int \<Rightarrow>
    LidarDecodedFrame \<Rightarrow> 's \<Rightarrow> (int \<times> LidarDecodedFrame \<times> 's) option" where
  "read_rows hdr post usz asz L 0 r pa index f s = Some (index, f, s)"
| "read_rows hdr post usz asz L (Suc n) r pa index f s = do {
     (i, rd) \<leftarrow> hdr r pa;
     (index, f) \<leftarrow> read_row rd usz L 0 (pa + asz) index f;
     let (f, s) = post i f s;
     read_rows hdr post usz asz L n (Suc r) (pa + asz + usz * L) index f s }"

section \<open>Parts before the loops\<close>

text \<open>The sequence number of the packet, when its header announces one.\<close>

definition count_loss :: "host \<Rightarrow> bool \<Rightarrow> u8 list \<Rightarrow> nat \<Rightarrow> parser \<Rightarrow> parser option" where
  "count_loss h has_seq buf off p =
     (if has_seq then do { seq \<leftarrow> ld32 buf off; Some (CalPktLoss (h_loss_tick h) seq p) } else Some p)"

lemma count_loss_defined:
  assumes "off + (if has_seq then 4 else 0) \<le> length buf"
  shows "\<exists>p'. count_loss h has_seq buf off p = Some p' \<and> frame_start_azimuth p' = frame_start_azimuth p \<and>
    get_firetime_file p' = get_firetime_file p \<and> get_correction_file p' = get_correction_file p \<and>
    last_azimuth p' = last_azimuth p \<and> use_angle p' = use_angle p \<and> compute_packet_num p' = compute_packet_num p"
  using assms
  by (cases has_seq) (auto simp: count_loss_def load_def CalPktLoss_def Let_def)

lemma time_loss_use_angle [simp]: "use_angle (CalPktTimeLoss tick t p) = use_angle p"
  by (simp add: CalPktTimeLoss_def Let_def)

lemma count_loss_None: "has_seq \<Longrightarrow> length buf < off + 4 \<Longrightarrow> count_loss h has_seq buf off p = None"
  by (simp add: count_loss_def load_def)

lemma put_timestamp_defined:
  assumes "unat n < 5000"
  shows "\<exists>g. put_timestamp (unat n) t f = Some g \<and> f_pointData g = f_pointData f \<and>
    f_packet_num g = f_packet_num f"
  using assms by (simp add: put_timestamp_def kMaxPacketNumPerFrame_def)

section \<open>What the loops write\<close>

definition row_points :: "point_reader \<Rightarrow> nat \<Rightarrow> nat \<Rightarrow> nat \<Rightarrow> nat \<Rightarrow> nat \<Rightarrow>
    (nat \<Rightarrow> PointDecodeData) \<Rightarrow> nat \<Rightarrow> PointDecodeData" where
  "row_points rd usz c off k n m j =
     (if k \<le> j \<and> j < k + n then the (rd (c + (j - k)) (off + usz * (j - k))) (m j) else m j)"

lemma row_points_0 [simp]: "row_points rd usz c off k 0 m = m"
  by (auto simp: row_points_def fun_eq_iff)

lemma row_points_Suc:
  assumes "rd c off = Some u"
  shows "row_points rd usz (Suc c) (off + usz) (Suc k) n (m(k := u (m k))) = row_points rd usz c off k (Suc n) m"
proof
  fix j
  show "row_points rd usz (Suc c) (off + usz) (Suc k) n (m(k := u (m k))) j = row_points rd usz c off k (Suc n) m j"
  proof (cases "Suc k \<le> j \<and> j < Suc k + n")
    case True
    then have "j - k = Suc (j - Suc k)" by auto
    then show ?thesis using True by (simp add: row_points_def add.assoc)
  next
    case False
    then show ?thesis by (auto simp: row_points_def assms)
  qed
qed

lemma read_row_points:
  assumes "\<And>i. i < n \<Longrightarrow> rd (c + i) (off + usz * i) \<noteq> None" and "k + n \<le> 2560000"
  shows "read_row rd usz n c off (int k) f =
     Some (int (k + n), f \<lparr> f_pointData := row_points rd usz c off k n (f_pointData f) \<rparr>)"
  using assms
proof (induction n arbitrary: c off k f)
  case (Suc n)
  obtain u where u: "rd c off = Some u" using Suc.prems(1) [of 0] by auto
  define g where "g = f \<lparr> f_pointData := (f_pointData f)(k := u (f_pointData f k)) \<rparr>"
  have "read_row rd usz n (Suc c) (off + usz) (int (Suc k)) g =
      Some (int (Suc k + n), g \<lparr> f_pointData := row_points rd usz (Suc c) (off + usz) (Suc k) n (f_pointData g) \<rparr>)"
  proof (rule Suc.IH)
    fix i assume "i < n"
    then show "rd (Suc c + i) (off + usz + usz * i) \<noteq> None"
      using Suc.prems(1) [of "Suc i"] by (simp add: add.assoc)
  qed (use Suc.prems(2) in simp)
  moreover have "put_point_data k u f = Some g"
    using Suc.prems(2) by (simp add: put_point_data_def kMaxPointsNumPerFrame_def g_def)
  ultimately show ?case
    using row_points_Suc [of rd c off u usz k n "f_pointData f"] u by (simp add: g_def add.commute)
qed simp

text \<open>Entry \<open>k + r * L + c\<close> is channel \<open>c\<close> of row \<open>r\<close>.\<close>

definition rows_points :: "'i row_reader \<Rightarrow> nat \<Rightarrow> nat \<Rightarrow> nat \<Rightarrow> nat \<Rightarrow> nat \<Rightarrow> nat \<Rightarrow> nat \<Rightarrow>
    (nat \<Rightarrow> PointDecodeData) \<Rightarrow> nat \<Rightarrow> PointDecodeData" where
  "rows_points hdr usz asz L r0 pa k n m j =
     (if k \<le> j \<and> j < k + n * L
      then let r = (j - k) div L; c = (j - k) mod L; pr = pa + r * (asz + usz * L)
           in the (snd (the (hdr (r0 + r) pr)) c (pr + asz + usz * c)) (m j)
      else m j)"

lemma rows_points_0 [simp]: "rows_points hdr usz asz L r0 pa k 0 m = m"
  by (auto simp: rows_points_def fun_eq_iff)

lemma rows_points_Suc:
  assumes h: "hdr r0 pa = Some (i, rd)"
  shows "rows_points hdr usz asz L (Suc r0) (pa + asz + usz * L) (k + L) n
      (row_points rd usz 0 (pa + asz) k L m) = rows_points hdr usz asz L r0 pa k (Suc n) m"
    (is "?l = ?r")
proof
  fix j
  show "?l j = ?r j"
  proof (cases "k + L \<le> j \<and> j < k + L + n * L")
    case True
    then obtain i where i: "j = k + L + i" "i < n * L"
      by (metis le_Suc_ex nat_add_left_cancel_less)
    then have "0 < L" by (cases L) auto
    then have "j - k = i + L" "(i + L) div L = Suc (i div L)" "(i + L) mod L = i mod L"
      "row_points rd usz 0 (pa + asz) k L m j = m j"
      using i by (auto simp: row_points_def)
    then show ?thesis using i by (simp add: rows_points_def Let_def algebra_simps)
  next
    case False
    show ?thesis
    proof (cases "k \<le> j \<and> j < k + L")
      case True
      then have "(j - k) div L = 0" "(j - k) mod L = j - k" by auto
      then show ?thesis
        using True False by (simp add: rows_points_def row_points_def Let_def h trans_less_add1)
    next
      case out: False
      then show ?thesis using False by (auto simp: rows_points_def row_points_def)
    qed
  qed
qed

lemma rows_points_at:
  assumes "r < n" and "c < L"
  shows "rows_points hdr usz asz L r0 pa k n m (k + r * L + c) =
     the (snd (the (hdr (r0 + r) (pa + r * (asz + usz * L)))) c (pa + r * (asz + usz * L) + asz + usz * c))
       (m (k + r * L + c))"
proof -
  have "r * L + c < n * L"
    using assms mult_le_mono1 [of "Suc r" n L] by simp
  moreover have "(r * L + c) div L = r" "(r * L + c) mod L = c"
    using assms(2) by auto
  ultimately show ?thesis by (simp add: rows_points_def Let_def)
qed

lemma rows_points_elsewhere:
  "j < k \<or> k + n * L \<le> j \<Longrightarrow> rows_points hdr usz asz L r0 pa k n m j = m j"
  by (auto simp: rows_points_def)

lemma read_rows_None:
  assumes "r \<le> j" and "j < r + n" and "\<And>pa. hdr j pa = None"
  shows "read_rows hdr post usz asz L n r pa index f s = None"
  using assms(1,2)
proof (induction n arbitrary: r pa index f s)
  case (Suc n)
  show ?case
  proof (cases "r = j")
    case False
    then have "read_rows hdr post usz asz L n (Suc r) pa' index' f' s' = None" for pa' index' f' s'
      using Suc by simp
    then show ?thesis
      by (cases "hdr r pa"; cases "read_row (snd (the (hdr r pa))) usz L 0 (pa + asz) index f")
        (auto simp: split_beta Let_def simp del: bind_Some_iff)
  qed (simp add: assms(3))
qed simp

text \<open>Whatever fits the buffer fits the frame.\<close>

lemma rows_fit_points:
  assumes "pa + (asz + usz * L) * B \<le> (1500 :: nat)" and "3 \<le> usz"
  shows "B * L \<le> 512" and "pa + B * (asz + usz * L) \<le> 1500"
proof -
  show 1: "pa + B * (asz + usz * L) \<le> 1500" using assms(1) by (simp add: mult.commute)
  have "3 * L \<le> usz * L" by (rule mult_le_mono1 [OF assms(2)])
  then have "B * (3 * L) \<le> B * (asz + usz * L)" by (intro mult_le_mono2) linarith
  then have "3 * (B * L) \<le> B * (asz + usz * L)" by (simp only: mult.left_commute)
  then show "B * L \<le> 512" using 1 by linarith
qed

lemma row_in_buffer:
  assumes "pa + B * row \<le> len" and "b < B"
  shows "pa + b * row + row \<le> (len :: nat)"
  using assms mult_le_mono1 [of "Suc b" B row] by simp

lemma chan_in_buffer:
  assumes "pa + B * (asz + U * L) \<le> len" and "b < B" and "c < L"
  shows "pa + b * (asz + U * L) + asz + U * c + U \<le> (len :: nat)"
proof -
  have "U * c + U \<le> U * L" using assms(3) mult_le_mono2 [of "Suc c" L U] by simp
  then show ?thesis using row_in_buffer [OF assms(1,2)] by linarith
qed

lemma f32_u16: "f32_of_int (uint (az :: u16)) = Fin (of_int (uint az))"
  using uint_bounded [of az] f32_int [of "uint az"] by (simp add: f32_of_int_def abs_less_iff)

section \<open>Readers of rows\<close>

text \<open>What the updates after the rows do, without the points.\<close>

fun posts :: "'i row_reader \<Rightarrow> ('i, 's) row_post \<Rightarrow> nat \<Rightarrow> nat \<Rightarrow> nat \<Rightarrow> nat \<Rightarrow> LidarDecodedFrame \<Rightarrow> 's \<Rightarrow>
    LidarDecodedFrame \<times> 's" where
  "posts hdr post row 0 r pa f s = (f, s)"
| "posts hdr post row (Suc n) r pa f s =
     (let (f, s) = post (fst (the (hdr r pa))) f s in posts hdr post row n (Suc r) (pa + row) f s)"

lemma posts_keep_frame: "fst (posts hdr (\<lambda>i f s. (f, g i s)) row n r pa f s) = f"
  by (induction n arbitrary: r pa s) simp_all

text \<open>
  The laws of a protocol: the header of a row is inside the row, a channel that is inside the buffer
  can be read, and the update after a row leaves the points alone.
\<close>

locale row_layout =
  fixes hdr :: "'i row_reader" and post :: "('i, 's) row_post" and usz asz len rows lasers :: nat
  assumes hdr_in: "\<lbrakk>r < rows; pa + asz \<le> len\<rbrakk> \<Longrightarrow> \<exists>i rd. hdr r pa = Some (i, rd)"
    and chan_in: "\<lbrakk>r < rows; hdr r pa = Some (i, rd); c < lasers; off + usz \<le> len\<rbrakk> \<Longrightarrow> rd c off \<noteq> None"
    and post_points: "post i (f \<lparr> f_pointData := m \<rparr>) s =
      (fst (post i f s) \<lparr> f_pointData := m \<rparr>, snd (post i f s))"
begin

lemma rows:
  assumes "pa + n * (asz + usz * lasers) \<le> len" and "k + n * lasers \<le> 2560000" and "r + n \<le> rows"
  shows "read_rows hdr post usz asz lasers n r pa (int k) f s =
     Some (int (k + n * lasers),
       fst (posts hdr post (asz + usz * lasers) n r pa f s)
         \<lparr> f_pointData := rows_points hdr usz asz lasers r pa k n (f_pointData f) \<rparr>,
       snd (posts hdr post (asz + usz * lasers) n r pa f s))"
  using assms
proof (induction n arbitrary: r pa k f s)
  case 0
  have "f \<lparr> f_pointData := f_pointData f \<rparr> = f" by simp
  then show ?case by simp
next
  case (Suc n)
  obtain i rd where h: "hdr r pa = Some (i, rd)" using hdr_in [of r pa] Suc.prems by auto
  let ?m = "row_points rd usz 0 (pa + asz) k lasers (f_pointData f)"
  have row: "read_row rd usz lasers 0 (pa + asz) (int k) f =
      Some (int (k + lasers), f \<lparr> f_pointData := ?m \<rparr>)"
  proof (rule read_row_points)
    fix c assume "c < lasers"
    moreover from this have "usz * c + usz \<le> usz * lasers"
      using mult_le_mono2 [of "Suc c" lasers usz] by simp
    ultimately show "rd (0 + c) (pa + asz + usz * c) \<noteq> None"
      using Suc.prems(1,3) by (intro chan_in [OF _ h]) auto
  qed (use Suc.prems(2) in simp)
  obtain f1 s1 where p: "post i f s = (f1, s1)" by fastforce
  have p': "post i (f \<lparr> f_pointData := ?m \<rparr>) s = (f1 \<lparr> f_pointData := ?m \<rparr>, s1)"
    using post_points [where f = f and m = ?m and s = s and i = i] p by simp
  have ps: "posts hdr post w n' r' pa' (f1 \<lparr> f_pointData := m \<rparr>) s' =
      (fst (posts hdr post w n' r' pa' f1 s') \<lparr> f_pointData := m \<rparr>, snd (posts hdr post w n' r' pa' f1 s'))"
    for w n' r' pa' m s' f1
    by (induction n' arbitrary: r' pa' f1 s') (simp_all add: post_points split_beta)
  have "read_rows hdr post usz asz lasers n (Suc r) (pa + asz + usz * lasers) (int (k + lasers))
      (f1 \<lparr> f_pointData := ?m \<rparr>) s1 =
     Some (int (k + lasers + n * lasers),
       fst (posts hdr post (asz + usz * lasers) n (Suc r) (pa + asz + usz * lasers) (f1 \<lparr> f_pointData := ?m \<rparr>) s1)
         \<lparr> f_pointData := rows_points hdr usz asz lasers (Suc r) (pa + asz + usz * lasers) (k + lasers) n ?m \<rparr>,
       snd (posts hdr post (asz + usz * lasers) n (Suc r) (pa + asz + usz * lasers) (f1 \<lparr> f_pointData := ?m \<rparr>) s1))"
    using Suc.prems Suc.IH [where pa = "pa + asz + usz * lasers" and k = "k + lasers" and r = "Suc r"
        and f = "f1 \<lparr> f_pointData := ?m \<rparr>" and s = s1] by (simp del: of_nat_add)
  then show ?case
    by (simp add: h row p p' ps rows_points_Suc [where hdr = hdr, OF h, symmetric] add.assoc del: of_nat_add)
qed

end

end
