(* ===== verification/Udp1_4.thy ===== *)
theory Udp1_4
  imports Row_Decoder Compute_Points
begin

text \<open>
  The decoder of the Pandar128 family: \<open>src/libhesai/UdpParser/src/udp1_4_parser.cc\<close> and the structs of
  \<open>src/libhesai/UdpProtocol/udp_protocol_v1_4.h\<close>. The status byte of the header says whether a channel
  has a confidence, and whether a functional safety part and a sequence number are in the packet; the
  azimuth of a point is corrected by the firing time, which depends on the channel, the operation
  mode, the angle state of the block and the distance.
\<close>

unbundle bit_operations_syntax

section \<open>Structs\<close>

record HS_LIDAR_HEADER_ME_V4 =
  me4_LaserNum :: u8
  me4_BlockNum :: u8
  me4_EchoCount :: u8
  me4_DistUnit :: u8
  me4_EchoNum :: u8
  me4_Status :: u8

definition me4_header_at :: "u8 list \<Rightarrow> nat \<Rightarrow> HS_LIDAR_HEADER_ME_V4 option" where
  "me4_header_at buf off = do {
     ln \<leftarrow> ld8 buf off;
     bn \<leftarrow> ld8 buf (off + 1);
     ec \<leftarrow> ld8 buf (off + 2);
     du \<leftarrow> ld8 buf (off + 3);
     en \<leftarrow> ld8 buf (off + 4);
     st \<leftarrow> ld8 buf (off + 5);
     Some \<lparr> me4_LaserNum = ln, me4_BlockNum = bn, me4_EchoCount = ec, me4_DistUnit = du,
            me4_EchoNum = en, me4_Status = st \<rparr> }"

definition me4_GetDistUnit :: "HS_LIDAR_HEADER_ME_V4 \<Rightarrow> fp" where
  "me4_GetDistUnit hdr = fdiv (f32_of_int (uint (me4_DistUnit hdr))) (Fin 1000)"

definition me4_HasSeqNum :: "HS_LIDAR_HEADER_ME_V4 \<Rightarrow> bool" where
  "me4_HasSeqNum hdr \<longleftrightarrow> me4_Status hdr AND 0x01 \<noteq> 0"

definition me4_HasFuncSafety :: "HS_LIDAR_HEADER_ME_V4 \<Rightarrow> bool" where
  "me4_HasFuncSafety hdr \<longleftrightarrow> me4_Status hdr AND 0x04 \<noteq> 0"

definition me4_HasConfidenceLevel :: "HS_LIDAR_HEADER_ME_V4 \<Rightarrow> bool" where
  "me4_HasConfidenceLevel hdr \<longleftrightarrow> me4_Status hdr AND 0x10 \<noteq> 0"

text \<open>\<open>HS_LIDAR_FUNC_SAFETY_ME_V4::GetLidarState\<close>; the status is the second byte of the struct.\<close>

definition me4_GetLidarState :: "u8 \<Rightarrow> u8" where
  "me4_GetLidarState status = drop_bit 5 status AND 0x07"

record HS_LIDAR_TAIL_ME_V4 =
  me4_reservedInfo1 :: "u16 \<times> u8"
  me4_reservedInfo2 :: "u16 \<times> u8"
  me4_reservedInfo3 :: "u16 \<times> u8"
  me4_AzimuthFlag :: u16
  me4_RunningMode :: u8
  me4_ReturnMode :: u8
  me4_MotorSpeed :: u16
  me4_UTC :: "u8 list"
  me4_Timestamp :: u32
  me4_FactoryInfo :: u8

definition me4_tail_at :: "u8 list \<Rightarrow> nat \<Rightarrow> HS_LIDAR_TAIL_ME_V4 option" where
  "me4_tail_at buf off = do {
     r1 \<leftarrow> reserved_info_at buf off;
     r2 \<leftarrow> reserved_info_at buf (off + 3);
     r3 \<leftarrow> reserved_info_at buf (off + 6);
     af \<leftarrow> ld16 buf (off + 9);
     run \<leftarrow> ld8 buf (off + 11);
     rm \<leftarrow> ld8 buf (off + 12);
     ms \<leftarrow> ld16 buf (off + 13);
     utc \<leftarrow> bytes_at 6 buf (off + 15);
     ts \<leftarrow> ld32 buf (off + 21);
     fi \<leftarrow> ld8 buf (off + 25);
     Some \<lparr> me4_reservedInfo1 = r1, me4_reservedInfo2 = r2, me4_reservedInfo3 = r3,
            me4_AzimuthFlag = af, me4_RunningMode = run, me4_ReturnMode = rm,
            me4_MotorSpeed = ms, me4_UTC = utc, me4_Timestamp = ts, me4_FactoryInfo = fi \<rparr> }"

definition me4_getOperationMode :: "HS_LIDAR_TAIL_ME_V4 \<Rightarrow> u8" where
  "me4_getOperationMode t = me4_RunningMode t AND 0x0f"

text \<open>The shift is by \<open>2 * (7 - blockIndex)\<close>, which is negative (undefined) from block 8 on.\<close>

definition me4_getAngleState :: "HS_LIDAR_TAIL_ME_V4 \<Rightarrow> nat \<Rightarrow> u8 option" where
  "me4_getAngleState t blockIndex =
     (if blockIndex \<le> 7 then Some (ucast (drop_bit (2 * (7 - blockIndex)) (me4_AzimuthFlag t) AND 0x03))
      else None)"

definition me4_IsDualReturn :: "HS_LIDAR_TAIL_ME_V4 \<Rightarrow> bool" where
  "me4_IsDualReturn t \<longleftrightarrow> me4_ReturnMode t = 0x39"

section \<open>The class\<close>

text \<open>
  The members of \<open>Udp1_4Parser\<close> that its methods read: the firing times of 128 lasers, in 8 sections
  of two values each, and the distance that separates the two.
\<close>

record udp1_4_parser =
  p14 :: parser
  section_distance :: fp
  firetime_section_values :: "nat \<Rightarrow> nat \<Rightarrow> nat \<Rightarrow> int"

definition p128_GetFiretimesCorrection :: "udp1_4_parser \<Rightarrow> nat \<Rightarrow> fp \<Rightarrow> u8 \<Rightarrow> u8 \<Rightarrow> fp \<Rightarrow> fp option" where
  "p128_GetFiretimesCorrection s laserId speed optMode angleState distance =
     (if optMode \<notin> {0, 2, 3} then Some (Fin 0)
      else
        let idx = (if optMode = 0 then 0 else if optMode = 2 then 4 else 6) + unat angleState;
            k = (if fp_le (section_distance s) distance then 0 else 1)
        in if laserId < 128 \<and> idx < 8
           then Some (dmul (dmul (f64_of_int (firetime_section_values s laserId idx k)) speed)
                        (f64 (6 / 1000000000)))
           else None)"

section \<open>The decoder\<close>

definition p128_azimuth :: "udp1_4_parser \<Rightarrow> fp \<Rightarrow> u8 \<Rightarrow> u8 \<Rightarrow> u16 \<Rightarrow> nat \<Rightarrow> u16 \<Rightarrow> fp option" where
  "p128_azimuth s unit optMode angleState az j distance =
     (if get_firetime_file (p14 s) then do {
        c \<leftarrow> p128_GetFiretimesCorrection s j (f64_of_int (uint (spin_speed (p14 s)))) optMode angleState
               (to_float (dmul (f64_of_int (uint distance)) unit));
        let fireTimeCollection = to_float (dmul (f64_of_int (rotation_flag (p14 s))) c);
        Some (fadd (f32_of_int (uint az)) (fmul fireTimeCollection (Fin 100))) }
      else Some (f32_of_int (uint az)))"

text \<open>The channels of one block, in the two formats.\<close>

definition p128_channel :: "u8 list \<Rightarrow> bool \<Rightarrow> udp1_4_parser \<Rightarrow> fp \<Rightarrow> u8 \<Rightarrow> u8 \<Rightarrow> u16 \<Rightarrow> point_reader" where
  "p128_channel buf conf s unit optMode angleState az j off = do {
     d \<leftarrow> ld16 buf off;
     r \<leftarrow> ld8 buf (off + 2);
     a \<leftarrow> p128_azimuth s unit optMode angleState az j d;
     if conf then do {
       c \<leftarrow> ld8 buf (off + 3);
       Some (\<lambda>pd. pd \<lparr> pd_azimuth := a, pd_reflectivities := r, pd_distances := d,
                       pd_confidence := c, pd_elevation := Fin 0 \<rparr>) }
     else Some (\<lambda>pd. pd \<lparr> pd_azimuth := a, pd_reflectivities := r, pd_distances := d,
                          pd_elevation := Fin 0 \<rparr>) }"

definition p128_row :: "u8 list \<Rightarrow> bool \<Rightarrow> udp1_4_parser \<Rightarrow> fp \<Rightarrow> HS_LIDAR_TAIL_ME_V4 \<Rightarrow> u16 row_reader" where
  "p128_row buf conf s unit t i pAzimuth = do {
     angleState \<leftarrow> me4_getAngleState t i;
     az \<leftarrow> ld16 buf pAzimuth;
     Some (az, p128_channel buf conf s unit (me4_getOperationMode t) angleState az) }"

definition p128_monitor :: "HS_LIDAR_TAIL_ME_V4 \<Rightarrow> parser \<Rightarrow> parser" where
  "p128_monitor t p =
     (if enable_update_monitor_info p
      then p \<lparr> monitor_info1 := (monitor_info1 p)(snd (me4_reservedInfo1 t) := fst (me4_reservedInfo1 t)),
               monitor_info2 := (monitor_info2 p)(snd (me4_reservedInfo2 t) := fst (me4_reservedInfo2 t)),
               monitor_info3 := (monitor_info3 p)(snd (me4_reservedInfo3 t) := fst (me4_reservedInfo3 t)) \<rparr>
      else p)"

text \<open>From \<open>int index = ...\<close> to the end: the blocks, the frame division and the count.\<close>

definition p128_body :: "u8 list \<Rightarrow> bool \<Rightarrow> fp \<Rightarrow> HS_LIDAR_TAIL_ME_V4 \<Rightarrow> u8 \<Rightarrow> u8 \<Rightarrow>
    LidarDecodedFrame \<Rightarrow> udp1_4_parser \<Rightarrow> (int \<times> LidarDecodedFrame \<times> udp1_4_parser) option" where
  "p128_body buf conf unit t laser block f s = do {
     let index = first_index (f_packet_num f) block laser;
     let s = s \<lparr> p14 := p128_monitor t (p14 s) \<rparr>;
     (_, f, az) \<leftarrow> read_rows (p128_row buf conf s unit t) (\<lambda>az f _. (f, az))
        (if conf then 4 else 3) 2 (unat laser) (unat block) 0 12 index f 0;
     (f, p) \<leftarrow> finish_packet p128_IsNeedFrameSplit az f (p14 s);
     Some (0, f, s \<lparr> p14 := p \<rparr>) }"

text \<open>
  The addresses in a packet: the size of a channel, the CRC of the body behind the blocks, the tail
  behind the optional functional safety part, and the sequence number.
\<close>

definition me4_unit :: "HS_LIDAR_HEADER_ME_V4 \<Rightarrow> nat" where
  "me4_unit hdr = (if me4_HasConfidenceLevel hdr then 4 else 3)"

definition me4_crc :: "HS_LIDAR_HEADER_ME_V4 \<Rightarrow> nat" where
  "me4_crc hdr = tail_offset 12 (me4_unit hdr) (me4_LaserNum hdr) (me4_BlockNum hdr)"

definition me4_tail :: "HS_LIDAR_HEADER_ME_V4 \<Rightarrow> nat" where
  "me4_tail hdr = me4_crc hdr + 4 + (if me4_HasFuncSafety hdr then 17 else 0)"

definition me4_seq :: "HS_LIDAR_HEADER_ME_V4 \<Rightarrow> nat" where
  "me4_seq hdr = me4_tail hdr + 26"

text \<open>\<open>frame.lidar_state\<close>: from the functional safety part behind the CRC of the body, or -1.\<close>

definition me4_lidar_state :: "u8 list \<Rightarrow> HS_LIDAR_HEADER_ME_V4 \<Rightarrow> int option" where
  "me4_lidar_state buf hdr =
     (if me4_HasFuncSafety hdr then do {
        st \<leftarrow> ld8 buf (me4_crc hdr + 4 + 1);
        Some (uint (me4_GetLidarState st)) }
      else Some (-1))"

definition p128_DecodePacket :: "host \<Rightarrow> LidarDecodedFrame \<Rightarrow> UdpPacket \<Rightarrow> udp1_4_parser \<Rightarrow>
    (int \<times> LidarDecodedFrame \<times> udp1_4_parser) option" where
  "p128_DecodePacket h f pk s =
     (let buf = up_buffer pk in
      if \<not> get_correction_file (p14 s) then Some (-1, f, s)
      else do {
        b0 \<leftarrow> ld8 buf 0;
        b1 \<leftarrow> ld8 buf 1;
        if b0 \<noteq> 0xEE \<or> b1 \<noteq> 0xFF then Some (-1, f, s)
        else do {
          pHeader \<leftarrow> me4_header_at buf 6;
          let laser = me4_LaserNum pHeader;
          let block = me4_BlockNum pHeader;
          state \<leftarrow> me4_lidar_state buf pHeader;
          let f = f \<lparr> f_lidar_state := state \<rparr>;
          p \<leftarrow> count_loss h (me4_HasSeqNum pHeader) buf (me4_seq pHeader) (p14 s);
          pTail \<leftarrow> me4_tail_at buf (me4_tail pHeader);
          let time = lidar_time_1_4 (h_timezone h) (me4_UTC pTail) (me4_Timestamp pTail);
          f \<leftarrow> put_timestamp (unat (f_packet_num f))
                (if f_use_timestamp_type f = 0 then time else up_recv_timestamp pk) f;
          let p = CalPktTimeLoss (h_time_tick h) time p;
          let p = p \<lparr> spin_speed := me4_MotorSpeed pTail, is_dual_return := me4_IsDualReturn pTail \<rparr>;
          let f = f \<lparr> f_host_timestamp := h_now h,
                      f_spin_speed := me4_MotorSpeed pTail,
                      f_work_mode := uint (me4_RunningMode pTail),
                      f_return_mode := ucast (me4_ReturnMode pTail),
                      f_per_points_num := ucast block * ucast laser,
                      f_scan_complete := False,
                      f_distance_unit := me4_GetDistUnit pHeader,
                      f_block_num := ucast block,
                      f_laser_num := ucast laser \<rparr>;
          p128_body buf (me4_HasConfidenceLevel pHeader) (me4_GetDistUnit pHeader) pTail laser block f
            (s \<lparr> p14 := p \<rparr>) } })"

section \<open>The points\<close>

definition p128_geometry :: geometry where
  "p128_geometry = \<lparr> g_unit = f_distance_unit, g_uncorrected = (\<lambda>_. 0),
     g_spot = (\<lambda>p d a. Some a), g_confidence = True \<rparr>"

definition p128_ComputeXYZI :: "libm \<Rightarrow> LidarDecodedFrame \<Rightarrow> int \<Rightarrow> udp1_4_parser \<Rightarrow>
    (int \<times> LidarDecodedFrame \<times> udp1_4_parser) option" where
  "p128_ComputeXYZI lm f packet_index s = do {
     (r, f, p) \<leftarrow> compute_xyzi p128_geometry lm f packet_index (p14 s);
     Some (r, f, s \<lparr> p14 := p \<rparr>) }"

interpretation p128_points: point_geometry p128_geometry
  by unfold_locales (simp_all add: p128_geometry_def CIRCLE_def)

section \<open>Behaviour\<close>

lemma me4_tail_defined_iff: "me4_tail_at buf off = None \<longleftrightarrow> length buf < off + 26"
  by (auto simp: me4_tail_at_def reserved_info_at_def bytes_at_def load_def ld8_def)

lemma me4_header:
  assumes "accepted pk p"
  shows "\<exists>hdr. me4_header_at (up_buffer pk) 6 = Some hdr \<and> me4_LaserNum hdr = up_buffer pk ! 6 \<and>
    me4_BlockNum hdr = up_buffer pk ! 7 \<and> me4_Status hdr = up_buffer pk ! 11"
  using accepted_length [OF assms] by (simp add: me4_header_at_def ld8_def)

text \<open>The parser without firing times, whose azimuths are those of the blocks.\<close>

definition no_firetimes :: "udp1_4_parser \<Rightarrow> udp1_4_parser" where
  "no_firetimes s = s \<lparr> p14 := p14 s \<lparr> get_firetime_file := False \<rparr> \<rparr>"

lemma no_firetimes_same: "\<not> get_firetime_file (p14 s) \<Longrightarrow> no_firetimes s = s"
  by (simp add: no_firetimes_def)

lemma p128_azimuth_plain: "p128_azimuth (no_firetimes s) unit m a az j d = Some (f32_of_int (uint az))"
  by (simp add: p128_azimuth_def no_firetimes_def)

interpretation p128_rows: row_layout "p128_row buf conf (no_firetimes s) unit t" "\<lambda>az f (_ :: u16). (f, az)"
    "if conf then 4 else 3" 2 "length buf" 8 lasers for buf conf s unit t lasers
proof
  fix r pa :: nat
  assume "r < 8" "pa + 2 \<le> length buf"
  then show "\<exists>i rd. p128_row buf conf (no_firetimes s) unit t r pa = Some (i, rd)"
    by (simp add: p128_row_def me4_getAngleState_def load_def)
next
  fix r pa c off :: nat and i rd
  assume "p128_row buf conf (no_firetimes s) unit t r pa = Some (i, rd)"
    "off + (if conf then 4 else 3) \<le> length buf"
  then show "rd c off \<noteq> None"
    by (auto simp: p128_row_def p128_channel_def p128_azimuth_plain load_def ld8_def split: if_splits)
qed simp

lemma p128_split_defined: "frame_start_azimuth p = Fin q \<Longrightarrow> p128_IsNeedFrameSplit az p \<noteq> None"
  using split_defined by (simp add: p128_IsNeedFrameSplit_def)

lemma p128_monitor_keeps [simp]:
  "frame_start_azimuth (p128_monitor t p) = frame_start_azimuth p"
  "get_firetime_file (p128_monitor t p) = get_firetime_file p"
  by (simp_all add: p128_monitor_def)

lemma p128_body_points:
  assumes fit: "12 + unat block * (2 + (if conf then 4 else 3) * unat laser) \<le> length buf"
    and b: "unat block \<le> 8" and m: "unat block * unat laser \<le> 512"
    and n: "unat (f_packet_num f) < 5000"
    and q: "frame_start_azimuth (p14 s) = Fin q" and nf: "\<not> get_firetime_file (p14 s)"
    and k: "k = unat (f_packet_num f) * (unat block * unat laser)"
  shows "\<exists>f' s' s1. p128_body buf conf unit t laser block f s = Some (0, f', s') \<and>
     f_packet_num f' = f_packet_num f + 1 \<and>
     f_pointData f' = rows_points (p128_row buf conf (no_firetimes s1) unit t) (if conf then 4 else 3) 2
       (unat laser) 0 12 k (unat block) (f_pointData f)"
proof -
  let ?s = "s \<lparr> p14 := p128_monitor t (p14 s) \<rparr>" and ?u = "if conf then 4 else 3"
  let ?hdr = "p128_row buf conf (no_firetimes ?s) unit t"
  have ns: "no_firetimes ?s = ?s" using nf by (simp add: no_firetimes_same)
  have rows: "read_rows ?hdr (\<lambda>az f _. (f, az)) ?u 2 (unat laser) (unat block) 0 12 (int k) f 0 =
     Some (int (k + unat block * unat laser),
       f \<lparr> f_pointData := rows_points ?hdr ?u 2 (unat laser) 0 12 k (unat block) (f_pointData f) \<rparr>,
       snd (posts ?hdr (\<lambda>az f _. (f, az)) (2 + ?u * unat laser) (unat block) 0 12 f 0))"
    (is "_ = Some (_, ?f, ?az)")
    using p128_rows.rows [where pa = 12 and n = "unat block" and r = 0 and k = k and f = f and s = 0
        and lasers = "unat laser"] fit b points_fit [OF n m] k
    by (simp add: posts_keep_frame)
  obtain f' p' where "finish_packet p128_IsNeedFrameSplit ?az ?f (p14 ?s) = Some (f', p')"
    "f_packet_num f' = f_packet_num f + 1" "f_pointData f' = f_pointData ?f"
    using finish_packet_frame [of p128_IsNeedFrameSplit ?az "p14 ?s" ?f] p128_split_defined [of "p14 ?s" q] q
    by auto
  moreover have "first_index (f_packet_num f) block laser = int k"
    using first_index_small [OF n m] k by simp
  ultimately have "p128_body buf conf unit t laser block f s = Some (0, f', ?s \<lparr> p14 := p' \<rparr>)"
    using rows by (simp add: p128_body_def Let_def ns del: bind_Some_iff)
  then show ?thesis using \<open>f_packet_num f' = _\<close> \<open>f_pointData f' = _\<close> by auto
qed

text \<open>The end of what is read of a packet.\<close>

definition me4_end :: "HS_LIDAR_HEADER_ME_V4 \<Rightarrow> nat" where
  "me4_end hdr = me4_seq hdr + (if me4_HasSeqNum hdr then 4 else 0)"

lemma p128_prefix:
  assumes acc: "accepted pk (p14 s)" and n: "unat (f_packet_num f) < 5000"
    and hdr: "me4_header_at (up_buffer pk) 6 = Some hdr" and fit: "me4_end hdr \<le> 1500"
  shows "\<exists>f1 s1 t unit. p128_DecodePacket h f pk s = p128_body (up_buffer pk)
       (me4_HasConfidenceLevel hdr) unit t (me4_LaserNum hdr) (me4_BlockNum hdr) f1 s1 \<and>
     f_pointData f1 = f_pointData f \<and> f_packet_num f1 = f_packet_num f \<and>
     frame_start_azimuth (p14 s1) = frame_start_azimuth (p14 s) \<and>
     get_firetime_file (p14 s1) = get_firetime_file (p14 s)"
proof -
  let ?buf = "up_buffer pk"
  have len: "length ?buf = 1500" by (rule accepted_length [OF acc])
  obtain t where t: "me4_tail_at ?buf (me4_tail hdr) = Some t"
    using me4_tail_defined_iff [of ?buf "me4_tail hdr"] len fit by (fastforce simp: me4_end_def me4_seq_def)
  have "me4_lidar_state ?buf hdr \<noteq> None"
    using fit len by (simp add: me4_lidar_state_def ld8_def me4_end_def me4_seq_def me4_tail_def)
  then obtain state where state: "me4_lidar_state ?buf hdr = Some state" by blast
  obtain p2 where p2: "count_loss h (me4_HasSeqNum hdr) ?buf (me4_seq hdr) (p14 s) = Some p2"
    "frame_start_azimuth p2 = frame_start_azimuth (p14 s)" "get_firetime_file p2 = get_firetime_file (p14 s)"
    using count_loss_defined [of "me4_seq hdr" "me4_HasSeqNum hdr" ?buf h "p14 s"] fit len
    by (auto simp: me4_end_def)
  obtain g where g: "put_timestamp (unat (f_packet_num f)) (if f_use_timestamp_type f = 0
      then lidar_time_1_4 (h_timezone h) (me4_UTC t) (me4_Timestamp t) else up_recv_timestamp pk)
      (f \<lparr> f_lidar_state := state \<rparr>) = Some g" "f_pointData g = f_pointData f" "f_packet_num g = f_packet_num f"
    using put_timestamp_defined [OF n] by fastforce
  show ?thesis
    using acc accepted_bytes [OF acc] p2(2,3) g(2,3)
    unfolding p128_DecodePacket_def Let_def
    by (simp add: accepted_def hdr state p2(1) t g(1) del: bind_Some_iff)
      ((rule exI)+, rule conjI, (rule exI)+, rule refl, simp)
qed

lemma p128_overrun:
  assumes acc: "accepted pk (p14 s)" and hdr: "me4_header_at (up_buffer pk) 6 = Some hdr"
    and over: "1500 < me4_end hdr"
  shows "p128_DecodePacket h f pk s = None"
proof -
  let ?buf = "up_buffer pk"
  have len: "length ?buf = 1500" by (rule accepted_length [OF acc])
  have "count_loss h (me4_HasSeqNum hdr) ?buf (me4_seq hdr) (p14 s) = None \<or> me4_tail_at ?buf (me4_tail hdr) = None"
    using over len
    by (cases "me4_HasSeqNum hdr")
      (auto simp: count_loss_None me4_tail_defined_iff me4_end_def me4_seq_def)
  then show ?thesis
    using acc accepted_bytes [OF acc]
    unfolding p128_DecodePacket_def Let_def
    by (cases "me4_lidar_state ?buf hdr"; cases "count_loss h (me4_HasSeqNum hdr) ?buf (me4_seq hdr) (p14 s)")
      (simp_all add: accepted_def hdr del: bind_Some_iff)
qed

lemma p128_many_blocks:
  assumes "8 < unat block"
  shows "p128_body buf conf unit t laser block f s = None"
proof -
  have "p128_row buf conf s' unit t 8 pa = None" for s' pa
    by (simp add: p128_row_def me4_getAngleState_def)
  then have "read_rows (p128_row buf conf (s \<lparr> p14 := p128_monitor t (p14 s) \<rparr>) unit t) (\<lambda>az f _. (f, az))
      usz 2 (unat laser) (unat block) 0 12 (first_index (f_packet_num f) block laser) f (0 :: u16) = None" for usz
    using assms by (intro read_rows_None [of 0 8]) simp_all
  then show ?thesis by (simp add: p128_body_def Let_def del: bind_Some_iff)
qed

text \<open>What channel \<open>c\<close> of a block writes.\<close>

lemma p128_point:
  assumes "b < 8" and "row + 2 \<le> length buf" and "off + (if conf then 4 else 3) \<le> length buf"
  shows "\<exists>az. ld16 buf row = Some az \<and>
     (let d = the (snd (the (p128_row buf conf (no_firetimes s) unit t b row)) c off) m
      in pd_azimuth d = Fin (of_int (uint az)) \<and> ld16 buf off = Some (pd_distances d) \<and>
         ld8 buf (off + 2) = Some (pd_reflectivities d) \<and>
         (conf \<longrightarrow> ld8 buf (off + 3) = Some (pd_confidence d)))"
  using assms
  by (cases conf) (simp_all add: p128_row_def me4_getAngleState_def p128_channel_def p128_azimuth_plain
      f32_u16 load_def ld8_def Let_def)

text \<open>
  The points of a Pandar128 packet, for all combinations of the optional parts: when the packet
  announced by the header is inside the buffer and has at most 8 blocks, entry \<open>b * lasers + c\<close> from
  the packet's first one on is channel \<open>c\<close> of block \<open>b\<close>, with its confidence when channels have one,
  and the entries of other packets are unchanged. A header that announces more makes the decoder
  read behind the buffer, and one with more than 8 blocks makes it shift by a negative number.
\<close>

theorem p128_DecodePacket_points:
  assumes acc: "accepted pk (p14 s)" and n: "unat (f_packet_num f) < 5000"
    and q: "frame_start_azimuth (p14 s) = Fin q" and nf: "\<not> get_firetime_file (p14 s)"
    and hdr: "me4_header_at (up_buffer pk) 6 = Some hdr"
    and L: "L = unat (me4_LaserNum hdr)" and B: "B = unat (me4_BlockNum hdr)" and U: "U = me4_unit hdr"
    and k: "k = unat (f_packet_num f) * (B * L)"
  shows "if me4_end hdr \<le> 1500 \<and> B \<le> 8
     then \<exists>f' s'. p128_DecodePacket h f pk s = Some (0, f', s') \<and>
       f_packet_num f' = f_packet_num f + 1 \<and>
       (\<forall>b<B. \<forall>c<L. \<exists>az. ld16 (up_buffer pk) (12 + b * (2 + U * L)) = Some az \<and>
          (let d = f_pointData f' (k + b * L + c); off = 12 + b * (2 + U * L) + 2 + U * c
           in pd_azimuth d = Fin (of_int (uint az)) \<and>
              ld16 (up_buffer pk) off = Some (pd_distances d) \<and>
              ld8 (up_buffer pk) (off + 2) = Some (pd_reflectivities d) \<and>
              (me4_HasConfidenceLevel hdr \<longrightarrow> ld8 (up_buffer pk) (off + 3) = Some (pd_confidence d)))) \<and>
       (\<forall>j. j < k \<or> k + B * L \<le> j \<longrightarrow> f_pointData f' j = f_pointData f j)
     else p128_DecodePacket h f pk s = None"
proof (cases "me4_end hdr \<le> 1500")
  case False
  then show ?thesis using p128_overrun [OF acc hdr] by simp
next
  case fit: True
  let ?buf = "up_buffer pk" and ?conf = "me4_HasConfidenceLevel hdr"
  obtain f1 s1 t unit where 1: "p128_DecodePacket h f pk s =
      p128_body ?buf ?conf unit t (me4_LaserNum hdr) (me4_BlockNum hdr) f1 s1"
    "f_pointData f1 = f_pointData f" "f_packet_num f1 = f_packet_num f"
    "frame_start_azimuth (p14 s1) = Fin q" "\<not> get_firetime_file (p14 s1)"
    using p128_prefix [OF acc n hdr fit, of h] q nf by auto
  show ?thesis
  proof (cases "B \<le> 8")
    case False
    then show ?thesis using p128_many_blocks [of "me4_BlockNum hdr"] 1(1) B by simp
  next
    case True
    have U': "U = (if ?conf then 4 else 3)" by (simp add: U me4_unit_def)
    have len: "length ?buf = 1500" by (rule accepted_length [OF acc])
    have "12 + (2 + U * L) * B \<le> 1500"
      using fit by (simp add: me4_end_def me4_seq_def me4_tail_def me4_crc_def tail_offset_def L B U)
    note fits = rows_fit_points [OF this] row_in_buffer [OF rows_fit_points(2) [OF this]]
    have U3: "3 \<le> U" by (simp add: U')
    have n1: "unat (f_packet_num f1) < 5000" and k1: "k = unat (f_packet_num f1) * (unat (me4_BlockNum hdr) * unat (me4_LaserNum hdr))"
      using n 1(3) k L B by simp_all
    have fit': "12 + unat (me4_BlockNum hdr) * (2 + (if ?conf then 4 else 3) * unat (me4_LaserNum hdr)) \<le> length ?buf"
      using fits(2) [OF U3] unfolding len L B U' .
    obtain f' s' s2 where r: "p128_body ?buf ?conf unit t (me4_LaserNum hdr) (me4_BlockNum hdr) f1 s1 = Some (0, f', s')"
      "f_packet_num f' = f_packet_num f1 + 1"
      "f_pointData f' = rows_points (p128_row ?buf ?conf (no_firetimes s2) unit t) (if ?conf then 4 else 3) 2
        (unat (me4_LaserNum hdr)) 0 12 k (unat (me4_BlockNum hdr)) (f_pointData f1)"
      using p128_body_points [OF fit' True [unfolded B] fits(1) [OF U3, unfolded L B] n1 1(4,5) k1, of unit t]
      by (elim exE conjE)
    have 2: "p128_DecodePacket h f pk s = Some (0, f', s')" "f_packet_num f' = f_packet_num f + 1"
      "f_pointData f' = rows_points (p128_row ?buf ?conf (no_firetimes s2) unit t) U 2 L 0 12 k B (f_pointData f)"
      using r by (simp_all only: 1 L B U')
    have "\<exists>az. ld16 ?buf (12 + b * (2 + U * L)) = Some az \<and>
        (let d = f_pointData f' (k + b * L + c); off = 12 + b * (2 + U * L) + 2 + U * c
         in pd_azimuth d = Fin (of_int (uint az)) \<and> ld16 ?buf off = Some (pd_distances d) \<and>
            ld8 ?buf (off + 2) = Some (pd_reflectivities d) \<and>
            (?conf \<longrightarrow> ld8 ?buf (off + 3) = Some (pd_confidence d)))"
      if bc: "b < B" "c < L" for b c
    proof -
      have "12 + b * (2 + U * L) + 2 + U * c + U \<le> 1500" by (rule chan_in_buffer [OF fits(2) [OF U3] bc])
      then show ?thesis
        unfolding 2(3) rows_points_at [OF bc]
        using p128_point [of b "12 + b * (2 + U * L)" ?buf "12 + b * (2 + U * L) + 2 + U * c" ?conf] bc(1) True
        by (simp add: len U' del: Let_def)
    qed
    moreover have "f_pointData f' j = f_pointData f j" if "j < k \<or> k + B * L \<le> j" for j
      using that by (simp add: 2(3) rows_points_elsewhere)
    ultimately show ?thesis using 2(1,2) fit True by auto
  qed
qed

definition me4_ex :: "u8 \<Rightarrow> u8 \<Rightarrow> u8 \<Rightarrow> UdpPacket" where
  "me4_ex laser block status = packet_ex [0xEE, 0xFF, 1, 4, 0, 0, laser, block, 0, 4, 0, status]"

definition me4_header_ex :: "u8 \<Rightarrow> u8 \<Rightarrow> u8 \<Rightarrow> HS_LIDAR_HEADER_ME_V4" where
  "me4_header_ex laser block status = \<lparr> me4_LaserNum = laser, me4_BlockNum = block, me4_EchoCount = 0,
     me4_DistUnit = 4, me4_EchoNum = 0, me4_Status = status \<rparr>"

definition p128_ex :: udp1_4_parser where
  "p128_ex = \<lparr> p14 = parser_at 0 0 0, section_distance = Fin 0, firetime_section_values = (\<lambda>_ _ _. 0) \<rparr>"

lemma me4_ex_ok:
  "accepted (me4_ex laser block status) (p14 p128_ex)"
  "me4_header_at (up_buffer (me4_ex laser block status)) 6 = Some (me4_header_ex laser block status)"
  by (simp_all add: accepted_def me4_ex_def p128_ex_def packet_ex_wf packet_ex_nth parser_at_def parser_ex_def
      me4_header_at_def me4_header_ex_def ld8_def) (simp_all add: packet_ex_def)

theorem p128_DecodePacket_points_witness:
  "(\<exists>f' s'. p128_DecodePacket host_ex frame_ex (me4_ex 32 2 0x15) p128_ex = Some (0, f', s') \<and>
      pd_distances (f_pointData f' 33) = 0x0707 \<and> pd_confidence (f_pointData f' 33) = 7) \<and>
   p128_DecodePacket host_ex frame_ex (me4_ex 1 9 0) p128_ex = None \<and>
   p128_DecodePacket host_ex frame_ex (me4_ex 128 8 0) p128_ex = None"
proof -
  have p: "frame_start_azimuth (p14 p128_ex) = Fin 0" "\<not> get_firetime_file (p14 p128_ex)"
    by (simp_all add: p128_ex_def parser_at_def parser_ex_def)
  have f: "f_packet_num frame_ex = 0" by (simp add: frame_ex_def LidarDecodedFrame_new_def)
  note layout = me4_end_def me4_seq_def me4_tail_def me4_crc_def me4_unit_def tail_offset_def
    me4_header_ex_def me4_HasConfidenceLevel_def me4_HasFuncSafety_def me4_HasSeqNum_def
  have "p128_DecodePacket host_ex frame_ex (me4_ex 1 9 0) p128_ex = None"
    "p128_DecodePacket host_ex frame_ex (me4_ex 128 8 0) p128_ex = None"
    using p128_DecodePacket_points [OF me4_ex_ok(1) [of 1 9 0] _ p me4_ex_ok(2) refl refl refl refl,
        where f = frame_ex and h = host_ex]
      p128_DecodePacket_points [OF me4_ex_ok(1) [of 128 8 0] _ p me4_ex_ok(2) refl refl refl refl,
        where f = frame_ex and h = host_ex]
    by (simp_all add: f layout)
  moreover obtain f' s' where r: "p128_DecodePacket host_ex frame_ex (me4_ex 32 2 0x15) p128_ex = Some (0, f', s')"
    and a: "\<forall>b<2. \<forall>c<32. ld16 (up_buffer (me4_ex 32 2 0x15)) (12 + b * 130 + 2 + 4 * c) =
      Some (pd_distances (f_pointData f' (b * 32 + c))) \<and>
      ld8 (up_buffer (me4_ex 32 2 0x15)) (12 + b * 130 + 2 + 4 * c + 3) =
      Some (pd_confidence (f_pointData f' (b * 32 + c)))"
    using p128_DecodePacket_points [OF me4_ex_ok(1) [of 32 2 "0x15"] _ p me4_ex_ok(2) refl refl refl refl,
        where f = frame_ex and h = host_ex]
    by (fastforce simp: f layout Let_def)
  moreover have "pd_distances (f_pointData f' 33) = 0x0707" "pd_confidence (f_pointData f' 33) = 7"
    using a [rule_format, of 1 1] by (simp_all add: me4_ex_def packet_ex_ld16 packet_ex_ld8)
  ultimately show ?thesis by blast
qed

section \<open>The firing times\<close>

text \<open>
  The access of the firing times is out of bounds exactly for a laser beyond the 128 of the table,
  and in operation mode 3 for the angle states 2 and 3: the sections of mode 3 start at index 6 of an
  array of 8, while an angle state is two bits of the azimuth flag.
\<close>

theorem firetime_section_bounds:
  assumes "me4_getAngleState t block = Some angleState"
  shows "p128_GetFiretimesCorrection s laserId speed optMode angleState distance = None \<longleftrightarrow>
     optMode \<in> {0, 2, 3} \<and> (128 \<le> laserId \<or> optMode = 3 \<and> 2 \<le> angleState)"
proof -
  have "unat angleState \<le> 3"
  proof -
    have "angleState = ucast (drop_bit (2 * (7 - block)) (me4_AzimuthFlag t) AND 0x03)"
      using assms by (simp add: me4_getAngleState_def split: if_splits)
    then have "unat angleState \<le> unat (drop_bit (2 * (7 - block)) (me4_AzimuthFlag t) AND 0x03)"
      by (simp only: unsigned_ucast_eq take_bit_nat_less_eq_self)
    moreover have "drop_bit (2 * (7 - block)) (me4_AzimuthFlag t) AND 0x03 \<le> 3" by (rule word_and_le1)
    ultimately show ?thesis by (simp add: word_le_nat_alt)
  qed
  then show ?thesis
    by (auto simp: p128_GetFiretimesCorrection_def Let_def word_le_nat_alt)
qed

theorem firetime_section_bounds_witness:
  "\<exists>t. me4_getAngleState t 7 = Some 2 \<and>
     p128_GetFiretimesCorrection p128_ex 0 (Fin 600) 3 2 (Fin 1) = None \<and>
     p128_GetFiretimesCorrection p128_ex 0 (Fin 600) 2 2 (Fin 1) \<noteq> None"
proof -
  define t :: HS_LIDAR_TAIL_ME_V4 where "t = \<lparr> me4_reservedInfo1 = (0, 0), me4_reservedInfo2 = (0, 0),
    me4_reservedInfo3 = (0, 0), me4_AzimuthFlag = 2, me4_RunningMode = 3, me4_ReturnMode = 0,
    me4_MotorSpeed = 0, me4_UTC = [], me4_Timestamp = 0, me4_FactoryInfo = 0 \<rparr>"
  have t: "me4_getAngleState t 7 = Some 2" by (simp add: me4_getAngleState_def t_def)
  show ?thesis
    using firetime_section_bounds [OF t, of p128_ex 0 "Fin 600" 3 "Fin 1"]
      firetime_section_bounds [OF t, of p128_ex 0 "Fin 600" 2 "Fin 1"] t
    by auto
qed

end
