(* ===== verification/Et_Decoder.thy ===== *)
theory Et_Decoder
  imports Row_Decoder
begin

text \<open>
  What the decoders of the ET family share: the header of \<open>udp_protocol_v2_4.h\<close> and
  \<open>udp_protocol_v2_5.h\<close>, the loops over blocks, sequences and units of \<open>udp2_4_parser.cc\<close> and
  \<open>udp2_5_parser.cc\<close>, and the division by the number of the frame of all three classes. A block is
  a point number of two bytes and some sequences; a sequence is a pair of angles and the units of its
  share of the lasers, so that it is a row of Row\_Decoder. The tail is found by counting back from the
  end of the packet, whose size the header tells as a 16-bit number.
\<close>

section \<open>The header\<close>

record HS_LIDAR_HEADER_ET_V4 =
  et_LaserNum :: u8
  et_BlockNum :: u8
  et_EchoCount :: u8
  et_DistUnit :: u8
  et_EchoNum :: u8
  et_SeqNum :: u8
  et_Reserved2 :: u8

definition et_header_at :: "u8 list \<Rightarrow> nat \<Rightarrow> HS_LIDAR_HEADER_ET_V4 option" where
  "et_header_at buf off = do {
     l \<leftarrow> ld8 buf off;
     b \<leftarrow> ld8 buf (off + 1);
     ec \<leftarrow> ld8 buf (off + 2);
     du \<leftarrow> ld8 buf (off + 3);
     en \<leftarrow> ld8 buf (off + 4);
     sn \<leftarrow> ld8 buf (off + 5);
     r \<leftarrow> ld8 buf (off + 6);
     Some \<lparr> et_LaserNum = l, et_BlockNum = b, et_EchoCount = ec, et_DistUnit = du, et_EchoNum = en,
            et_SeqNum = sn, et_Reserved2 = r \<rparr> }"

definition et_GetDistUnit :: "u8 \<Rightarrow> fp" where
  "et_GetDistUnit unit = fdiv (f32_of_int (uint unit)) (Fin 1000)"

definition et_HasSeqNum :: "u8 \<Rightarrow> bool" where
  "et_HasSeqNum reserved2 \<longleftrightarrow> bit reserved2 0"

text \<open>\<open>GetLaserNum() / GetSeqNum()\<close>, which has no value when a packet has no sequences.\<close>

definition et_units :: "nat \<Rightarrow> u8 \<Rightarrow> nat option" where
  "et_units lasers seqs = (if seqs = 0 then None else Some (lasers div unat seqs))"

text \<open>\<open>horizontalAngle / 512.0f\<close>\<close>

definition et_raw_angle :: "u16 \<Rightarrow> fp" where
  "et_raw_angle a = fdiv (f32_of_int (sint a)) (Fin 512)"

section \<open>State\<close>

record et_parser =
  p2 :: parser
  et_get_correction_file :: bool
  et_last_frameid :: int

definition et_IsNeedFrameSplit :: "'a et_parser_scheme \<Rightarrow> u8 \<Rightarrow> bool" where
  "et_IsNeedFrameSplit s frame_id \<longleftrightarrow> uint frame_id \<noteq> et_last_frameid s \<and> et_last_frameid s \<ge> 0"

text \<open>What follows the loops: the division of the frames.\<close>

definition et_finish :: "u8 \<Rightarrow> LidarDecodedFrame \<Rightarrow> 'a et_parser_scheme \<Rightarrow> int \<times> LidarDecodedFrame \<times> 'a et_parser_scheme" where
  "et_finish frame_id f s =
     (let f = (if use_angle (p2 s) \<and> et_IsNeedFrameSplit s frame_id then f \<lparr> f_scan_complete := True \<rparr> else f)
      in (0, f \<lparr> f_packet_num := f_packet_num f + 1 \<rparr>, s \<lparr> et_last_frameid := uint frame_id \<rparr>))"

lemma et_finish_effect:
  assumes "et_finish i f s = (r, f', s')"
  shows "r = 0" "f' = f \<lparr> f_scan_complete := (f_scan_complete f \<or> use_angle (p2 s) \<and> et_IsNeedFrameSplit s i),
      f_packet_num := f_packet_num f + 1 \<rparr>" "s' = s \<lparr> et_last_frameid := uint i \<rparr>"
  using assms by (auto simp: et_finish_def Let_def)

section \<open>The loops\<close>

text \<open>
  \<open>n\<close> blocks of \<open>S\<close> sequences are left; \<open>pa\<close> is \<open>pSeq2\<close>. A sequence has a header of \<open>asz\<close> bytes and
  \<open>L\<close> units of \<open>usz\<close> bytes, and two bytes are skipped after a block.
\<close>

definition no_post :: "('i, unit) row_post" where
  "no_post i f s = (f, s)"

fun read_blocks :: "'i row_reader \<Rightarrow> nat \<Rightarrow> nat \<Rightarrow> nat \<Rightarrow> nat \<Rightarrow> nat \<Rightarrow> nat \<Rightarrow> int \<Rightarrow> LidarDecodedFrame \<Rightarrow>
    (int \<times> LidarDecodedFrame) option" where
  "read_blocks hdr usz asz L S 0 pa index f = Some (index, f)"
| "read_blocks hdr usz asz L S (Suc n) pa index f = do {
     (index, f, _) \<leftarrow> read_rows hdr no_post usz asz L S 0 pa index f ();
     read_blocks hdr usz asz L S n (pa + S * (asz + usz * L) + 2) index f }"

section \<open>Decoding of a packet\<close>

text \<open>
  Where the two protocols differ: the sizes of a unit and of the angles, the bytes behind the sequence
  number of the packet, the reader of a sequence, and the tail.
\<close>

record 't et_format =
  ef_usz :: nat
  ef_asz :: nat
  ef_trailer :: nat
  ef_row :: "u8 list \<Rightarrow> 't \<Rightarrow> unit row_reader"
  ef_tail_at :: "u8 list \<Rightarrow> nat \<Rightarrow> 't option"
  ef_frame_id :: "'t \<Rightarrow> u8"
  ef_shutdown :: "'t \<Rightarrow> u8"
  ef_echo_mode :: "'t \<Rightarrow> u8"
  ef_time :: "int \<Rightarrow> 't \<Rightarrow> u64"

definition et_body_size :: "'t et_format \<Rightarrow> HS_LIDAR_HEADER_ET_V4 \<Rightarrow> nat \<Rightarrow> nat" where
  "et_body_size fmt hdr units =
     (2 + (ef_usz fmt * units + ef_asz fmt) * unat (et_SeqNum hdr)) * unat (et_BlockNum hdr)"

definition et_GetPacketSize :: "'t et_format \<Rightarrow> HS_LIDAR_HEADER_ET_V4 \<Rightarrow> u16 option" where
  "et_GetPacketSize fmt hdr = do {
     units \<leftarrow> et_units (unat (et_LaserNum hdr)) (et_SeqNum hdr);
     Some (word_of_nat (6 + 7 + et_body_size fmt hdr units + 4 + 23 + 4 + ef_trailer fmt)) }"

text \<open>The address of the tail, and of the sequence number behind it.\<close>

definition et_tail :: "'t et_format \<Rightarrow> HS_LIDAR_HEADER_ET_V4 \<Rightarrow> nat option" where
  "et_tail fmt hdr = do {
     size \<leftarrow> et_GetPacketSize fmt hdr;
     nat_index (uint size - int (ef_trailer fmt) - 4 - 23) }"

definition et_body :: "'t et_format \<Rightarrow> u8 list \<Rightarrow> HS_LIDAR_HEADER_ET_V4 \<Rightarrow> 't \<Rightarrow> LidarDecodedFrame \<Rightarrow>
    'a et_parser_scheme \<Rightarrow> (int \<times> LidarDecodedFrame \<times> 'a et_parser_scheme) option" where
  "et_body fmt buf hdr t f s = do {
     units \<leftarrow> et_units (unat (et_LaserNum hdr)) (et_SeqNum hdr);
     (_, f) \<leftarrow> read_blocks (ef_row fmt buf t) (ef_usz fmt) (ef_asz fmt) units (unat (et_SeqNum hdr))
       (unat (et_BlockNum hdr)) 15 (first_index (f_packet_num f) (et_BlockNum hdr) (et_LaserNum hdr)) f;
     Some (et_finish (ef_frame_id fmt t) f s) }"

definition et_DecodePacket :: "'t et_format \<Rightarrow> host \<Rightarrow> LidarDecodedFrame \<Rightarrow> UdpPacket \<Rightarrow> 'a et_parser_scheme \<Rightarrow>
    (int \<times> LidarDecodedFrame \<times> 'a et_parser_scheme) option" where
  "et_DecodePacket fmt h f pk s =
     (let buf = up_buffer pk in
      if \<not> et_get_correction_file s then Some (-1, f, s)
      else do {
        b0 \<leftarrow> ld8 buf 0;
        b1 \<leftarrow> ld8 buf 1;
        if b0 \<noteq> 0xEE \<or> b1 \<noteq> 0xFF then Some (-1, f, s)
        else do {
          pHeader \<leftarrow> et_header_at buf 6;
          tail \<leftarrow> et_tail fmt pHeader;
          p \<leftarrow> count_loss h (et_HasSeqNum (et_Reserved2 pHeader)) buf (tail + 23) (p2 s);
          pTail \<leftarrow> ef_tail_at fmt buf tail;
          let time = ef_time fmt (h_timezone h) pTail;
          let p = CalPktTimeLoss (h_time_tick h) time p;
          f \<leftarrow> put_timestamp (unat (f_packet_num f))
                (if f_use_timestamp_type f = 0 then time else up_recv_timestamp pk) f;
          let laser = et_LaserNum pHeader;
          let block = et_BlockNum pHeader;
          let f = f \<lparr> f_host_timestamp := h_now h,
                      f_work_mode := uint (ef_shutdown fmt pTail),
                      f_return_mode := ucast (ef_echo_mode fmt pTail),
                      f_distance_unit := et_GetDistUnit (et_DistUnit pHeader),
                      f_per_points_num := ucast block * ucast laser,
                      f_scan_complete := False,
                      f_block_num := ucast block, f_laser_num := ucast laser \<rparr>;
          et_body fmt buf pHeader pTail f (s \<lparr> p2 := p \<rparr>) } })"

section \<open>What the loops write\<close>

lemma read_rows_hdr_None:
  "q < n \<Longrightarrow> hdr (r + q) (pa + q * (asz + usz * L)) = None \<Longrightarrow> read_rows hdr post usz asz L n r pa index f s = None"
proof (induction q arbitrary: n r pa index f s)
  case 0
  then show ?case by (cases n) simp_all
next
  case (Suc q)
  then obtain n' where n: "n = Suc n'" "q < n'" by (cases n) auto
  have "read_rows hdr post usz asz L n' (Suc r) (pa + asz + usz * L) index' f' s' = None" for index' f' s'
    using Suc.IH [OF n(2), of "Suc r" "pa + asz + usz * L"] Suc.prems(2) by (simp add: algebra_simps)
  then show ?case
    unfolding n(1) by (cases "hdr r pa"; cases "read_row (snd (the (hdr r pa))) usz L 0 (pa + asz) index f")
      (auto simp: split_beta Let_def simp del: bind_Some_iff)
qed

lemma read_blocks_None:
  assumes "q < S" and "b < n" and "hdr q (pa + b * (2 + S * (asz + usz * L)) + q * (asz + usz * L)) = None"
  shows "read_blocks hdr usz asz L S n pa index f = None"
  using assms(2,3)
proof (induction b arbitrary: n pa index f)
  case 0
  then obtain n' where "n = Suc n'" by (cases n) auto
  then show ?case
    using 0 read_rows_hdr_None [OF assms(1), of hdr 0 pa asz usz L no_post index f "()"] by (simp del: bind_Some_iff)
next
  case (Suc b)
  then obtain n' where n: "n = Suc n'" "b < n'" by (cases n) auto
  have "read_blocks hdr usz asz L S n' (pa + S * (asz + usz * L) + 2) index' f' = None" for index' f'
    using Suc.IH [OF n(2), of "pa + S * (asz + usz * L) + 2"] Suc.prems(2) by (simp add: algebra_simps)
  then show ?case
    unfolding n(1) by (cases "read_rows hdr no_post usz asz L S 0 pa index f ()") (auto simp: split_beta simp del: bind_Some_iff)
qed

text \<open>Entry \<open>k + (b * S + q) * L + c\<close> is unit \<open>c\<close> of sequence \<open>q\<close> of block \<open>b\<close>.\<close>

definition et_unit_row :: "nat \<Rightarrow> nat \<Rightarrow> nat \<Rightarrow> nat \<Rightarrow> nat \<Rightarrow> nat \<Rightarrow> nat" where
  "et_unit_row usz asz L S b q = b * (2 + S * (asz + usz * L)) + q * (asz + usz * L)"

lemma et_unit_in:
  assumes "b < B" and "q < S" and "c < U"
  shows "et_unit_row usz asz U S b q + asz + usz * c + usz + 2 \<le> B * (2 + S * (asz + usz * U))"
proof -
  let ?R = "asz + usz * U"
  have "usz * c + usz \<le> usz * U" using mult_le_mono2 [of "Suc c" U usz] assms(3) by simp
  moreover have "q * ?R + ?R \<le> S * ?R" using mult_le_mono1 [of "Suc q" S ?R] assms(2) by simp
  moreover have "b * (2 + S * ?R) + (2 + S * ?R) \<le> B * (2 + S * ?R)"
    using mult_le_mono1 [of "Suc b" B "2 + S * ?R"] assms(1) by simp
  ultimately show ?thesis unfolding et_unit_row_def by linarith
qed

lemma read_blocks_points:
  assumes lay: "row_layout hdr no_post usz asz len S L"
    and "pa + n * (2 + S * (asz + usz * L)) \<le> len + 2" and "k + n * (S * L) \<le> 2560000"
  shows "\<exists>m. read_blocks hdr usz asz L S n pa (int k) f = Some (int (k + n * (S * L)), f \<lparr> f_pointData := m \<rparr>) \<and>
     (\<forall>b<n. \<forall>q<S. \<forall>c<L. m (k + (b * S + q) * L + c) =
        the (snd (the (hdr q (pa + et_unit_row usz asz L S b q))) c (pa + et_unit_row usz asz L S b q + asz + usz * c))
          (f_pointData f (k + (b * S + q) * L + c))) \<and>
     (\<forall>j. j < k \<or> k + n * (S * L) \<le> j \<longrightarrow> m j = f_pointData f j)"
  using assms(2,3)
proof (induction n arbitrary: pa k f)
  case 0
  have "f \<lparr> f_pointData := f_pointData f \<rparr> = f" by simp
  then show ?case by (intro exI [of _ "f_pointData f"]) simp
next
  case (Suc n)
  let ?m = "rows_points hdr usz asz L 0 pa k S (f_pointData f)"
  let ?g = "f \<lparr> f_pointData := ?m \<rparr>"
  let ?pa = "pa + S * (asz + usz * L) + 2" and ?k = "k + S * L"
  have p: "posts hdr no_post w S 0 pa f () = (f, ())" for w
    using posts_keep_frame [of hdr "\<lambda>_ s. s" w S 0 pa f "()"] by (simp add: no_post_def [abs_def] prod_eq_iff)
  have rows: "read_rows hdr no_post usz asz L S 0 pa (int k) f () = Some (int ?k, ?g, ())"
    using row_layout.rows [OF lay, of pa S k 0 f "()"] Suc.prems p by simp
  have "?pa + n * (2 + S * (asz + usz * L)) \<le> len + 2" "?k + n * (S * L) \<le> 2560000"
    using Suc.prems by simp_all
  from Suc.IH [OF this, of ?g] obtain m where m: "read_blocks hdr usz asz L S n ?pa (int ?k) ?g =
      Some (int (?k + n * (S * L)), ?g \<lparr> f_pointData := m \<rparr>)"
    and at: "\<forall>b<n. \<forall>q<S. \<forall>c<L. m (?k + (b * S + q) * L + c) =
        the (snd (the (hdr q (?pa + et_unit_row usz asz L S b q))) c (?pa + et_unit_row usz asz L S b q + asz + usz * c))
          (f_pointData ?g (?k + (b * S + q) * L + c))"
    and out: "\<forall>j. j < ?k \<or> ?k + n * (S * L) \<le> j \<longrightarrow> m j = f_pointData ?g j"
    by (elim exE conjE) (rule that, assumption+)
  have "read_blocks hdr usz asz L S (Suc n) pa (int k) f = Some (int (k + Suc n * (S * L)), f \<lparr> f_pointData := m \<rparr>)"
    using rows m by (simp add: add.assoc del: bind_Some_iff of_nat_add)
  moreover have "m (k + (b * S + q) * L + c) =
        the (snd (the (hdr q (pa + et_unit_row usz asz L S b q))) c (pa + et_unit_row usz asz L S b q + asz + usz * c))
          (f_pointData f (k + (b * S + q) * L + c))" if "b < Suc n" "q < S" "c < L" for b q c
  proof (cases b)
    case 0
    have "Suc q * L \<le> S * L" using that(2) by (intro mult_le_mono1) simp
    then have "k + q * L + c < ?k" using that(3) by simp
    then show ?thesis using out [rule_format, of "k + q * L + c"] rows_points_at [OF that(2,3), of hdr usz asz 0 pa k "f_pointData f"] 0
      by (simp add: et_unit_row_def add.assoc)
  next
    case (Suc b')
    have i: "k + (b * S + q) * L + c = ?k + (b' * S + q) * L + c" using Suc by (simp add: algebra_simps)
    have r: "pa + et_unit_row usz asz L S b q = ?pa + et_unit_row usz asz L S b' q"
      using Suc by (simp add: et_unit_row_def algebra_simps)
    have "?m (?k + (b' * S + q) * L + c) = f_pointData f (?k + (b' * S + q) * L + c)"
      by (rule rows_points_elsewhere) simp
    then show ?thesis using at [rule_format, of b' q c] that Suc unfolding i r by simp
  qed
  moreover have "m j = f_pointData f j" if "j < k \<or> k + Suc n * (S * L) \<le> j" for j
  proof -
    have "m j = ?m j" using that out [rule_format, of j] by auto
    then show ?thesis using that rows_points_elsewhere [of j k S L hdr usz asz 0 pa "f_pointData f"] by auto
  qed
  ultimately show ?case by blast
qed

section \<open>Packets inside the buffer\<close>

definition et_accepted :: "UdpPacket \<Rightarrow> 'a et_parser_scheme \<Rightarrow> bool" where
  "et_accepted pk s \<longleftrightarrow> packet_wf pk \<and> et_get_correction_file s \<and> up_buffer pk ! 0 = 0xEE \<and> up_buffer pk ! 1 = 0xFF"

lemma et_accepted_bytes:
  assumes "et_accepted pk s"
  shows "length (up_buffer pk) = 1500" "ld8 (up_buffer pk) 0 = Some 0xEE" "ld8 (up_buffer pk) 1 = Some 0xFF"
  using assms by (simp_all add: et_accepted_def packet_wf_def kBufSize_def ld8_def)

text \<open>The end of what is read of a packet with \<open>units\<close> units in a sequence.\<close>

definition et_end :: "'t et_format \<Rightarrow> HS_LIDAR_HEADER_ET_V4 \<Rightarrow> nat \<Rightarrow> nat" where
  "et_end fmt hdr units = 17 + et_body_size fmt hdr units + 23 + (if et_HasSeqNum (et_Reserved2 hdr) then 4 else 0)"

text \<open>
  The laws of a protocol of the family: the tail has 23 bytes, the angles of a sequence the first four of
  its header, and a unit that is inside the buffer can be read.
\<close>

locale et_layout =
  fixes fmt :: "'t et_format"
  assumes usz: "3 \<le> ef_usz fmt" "ef_usz fmt \<le> 4"
    and asz: "4 \<le> ef_asz fmt" "ef_asz fmt \<le> 5"
    and trailer: "ef_trailer fmt \<le> 40"
    and tail_in: "ef_tail_at fmt buf off \<noteq> None \<longleftrightarrow> off + 23 \<le> length buf"
    and row_out: "length buf < pa + 4 \<Longrightarrow> ef_row fmt buf t r pa = None"
    and row_in: "pa + ef_asz fmt \<le> length buf \<Longrightarrow> \<exists>rd. ef_row fmt buf t r pa = Some ((), rd)"
    and unit_in: "\<lbrakk>ef_row fmt buf t r pa = Some (i, rd); off + ef_usz fmt \<le> length buf\<rbrakk> \<Longrightarrow> rd c off \<noteq> None"
begin

lemma layout: "row_layout (ef_row fmt buf t) no_post (ef_usz fmt) (ef_asz fmt) (length buf) rows lasers"
  using row_in unit_in by unfold_locales (auto simp: no_post_def)

lemma tail_address:
  assumes "et_units (unat (et_LaserNum hdr)) (et_SeqNum hdr) = Some U" and "et_body_size fmt hdr U < 65000"
  shows "et_tail fmt hdr = Some (17 + et_body_size fmt hdr U)"
proof -
  let ?T = "6 + 7 + et_body_size fmt hdr U + 4 + 23 + 4 + ef_trailer fmt"
  have w: "uint (word_of_nat T :: u16) = int T" if "T < 65536" for T
    using that by (simp add: unsigned_of_nat take_bit_nat_eq_self)
  have "?T < 65536" using assms(2) trailer by simp
  then have "et_tail fmt hdr = nat_index (int ?T - int (ef_trailer fmt) - 4 - 23)"
    unfolding et_tail_def et_GetPacketSize_def assms(1) by (simp add: w del: of_nat_add)
  then show ?thesis by (simp add: nat_index_def nat_add_distrib)
qed

lemma body_size:
  "et_body_size fmt hdr U = unat (et_BlockNum hdr) * (2 + unat (et_SeqNum hdr) * (ef_asz fmt + ef_usz fmt * U))"
  by (simp add: et_body_size_def mult.commute add.commute)

text \<open>A packet whose size wraps around is too long for its sequences to be in the buffer.\<close>

lemma far_row:
  assumes "et_units (unat (et_LaserNum hdr)) (et_SeqNum hdr) = Some U" and "65000 \<le> et_body_size fmt hdr U"
    and "length buf = 1500"
  shows "et_body fmt buf hdr t f s = None"
proof -
  define B S where "B = unat (et_BlockNum hdr)" and "S = unat (et_SeqNum hdr)"
  let ?R = "ef_asz fmt + ef_usz fmt * U"
  have size: "65000 \<le> B * (2 + S * ?R)" using assms(2) by (simp add: body_size B_def S_def)
  have S0: "0 < S" using assms(1) by (simp add: et_units_def S_def unat_gt_0 split: if_splits)
  obtain b where b: "B = Suc b" using size by (cases B) auto
  obtain q where q: "S = Suc q" using S0 by (cases S) auto
  have "U = unat (et_LaserNum hdr) div unat (et_SeqNum hdr)" using assms(1) by (simp add: et_units_def split: if_splits)
  then have "U \<le> 255"
    using unat_u8_less [of "et_LaserNum hdr"] div_le_dividend [of "unat (et_LaserNum hdr)" "unat (et_SeqNum hdr)"] by linarith
  then have "ef_usz fmt * U \<le> 4 * 255" by (intro mult_le_mono usz(2))
  then have R: "?R \<le> 1025" using asz(2) by linarith
  have "et_unit_row (ef_usz fmt) (ef_asz fmt) U S b q + 2 + ?R = B * (2 + S * ?R)"
    by (simp add: et_unit_row_def b q algebra_simps)
  then have "1500 < 15 + et_unit_row (ef_usz fmt) (ef_asz fmt) U S b q + 4" using size R by linarith
  then have "ef_row fmt buf t q (15 + et_unit_row (ef_usz fmt) (ef_asz fmt) U S b q) = None"
    by (intro row_out) (simp add: assms(3))
  then have "read_blocks (ef_row fmt buf t) (ef_usz fmt) (ef_asz fmt) U S B 15 i f = None" for i
    using read_blocks_None [of q S b B "ef_row fmt buf t" 15 "ef_asz fmt" "ef_usz fmt" U i f]
    by (simp add: b q et_unit_row_def add.assoc)
  then show ?thesis by (simp add: et_body_def assms(1) B_def S_def)
qed

lemma overrun:
  assumes acc: "et_accepted pk s" and hdr: "et_header_at (up_buffer pk) 6 = Some hdr"
    and over: "et_SeqNum hdr = 0 \<or> 1500 < et_end fmt hdr (unat (et_LaserNum hdr) div unat (et_SeqNum hdr))"
  shows "et_DecodePacket fmt h f pk s = None"
proof (cases "et_SeqNum hdr = 0")
  case True
  then show ?thesis
    using acc et_accepted_bytes(2,3) [OF acc] unfolding et_DecodePacket_def Let_def
    by (simp add: et_accepted_def hdr et_tail_def et_GetPacketSize_def et_units_def)
next
  case False
  let ?buf = "up_buffer pk" and ?U = "unat (et_LaserNum hdr) div unat (et_SeqNum hdr)"
  note b = et_accepted_bytes [OF acc]
  have U: "et_units (unat (et_LaserNum hdr)) (et_SeqNum hdr) = Some ?U" using False by (simp add: et_units_def)
  show ?thesis
  proof (cases "et_body_size fmt hdr ?U < 65000")
    case True
    let ?tail = "17 + et_body_size fmt hdr ?U"
    have "count_loss h (et_HasSeqNum (et_Reserved2 hdr)) ?buf (?tail + 23) (p2 s) = None \<or> ef_tail_at fmt ?buf ?tail = None"
    proof (cases "1500 < ?tail + 23")
      case True
      then show ?thesis using tail_in [of ?buf ?tail] b(1) by linarith
    next
      case False
      then have "et_HasSeqNum (et_Reserved2 hdr)" "length ?buf < ?tail + 23 + 4"
        using over \<open>et_SeqNum hdr \<noteq> 0\<close> b(1) by (auto simp: et_end_def split: if_splits)
      then show ?thesis by (simp add: count_loss_None)
    qed
    then show ?thesis
      using acc b(2,3) tail_address [OF U True] unfolding et_DecodePacket_def Let_def
      by (auto simp: et_accepted_def hdr simp del: bind_Some_iff intro!: Option.bind_eq_None_conv [THEN iffD2])
  next
    case False
    then have "et_body fmt ?buf hdr t f s = None" for t f and s :: "'a et_parser_scheme"
      using far_row [OF U _ b(1)] by simp
    then show ?thesis
      using acc b(2,3) unfolding et_DecodePacket_def Let_def
      by (simp add: et_accepted_def hdr Option.bind_rzero del: bind_Some_iff)
  qed
qed

text \<open>The lasers that do not fill a sequence are few enough for the points of the packet to be in the frame.\<close>

lemma fits:
  assumes "0 < S" and "B * (2 + S * (ef_asz fmt + ef_usz fmt * (L div S))) \<le> 1460"
  shows "B * L \<le> 512" and "B * (S * (L div S)) \<le> B * L"
proof -
  let ?U = "L div S"
  have "S * ?U + L mod S = L" "L mod S < S" using assms(1) by simp_all
  then have "L \<le> S * (?U + 1)" by (simp only: distrib_left)
  then have 1: "B * L \<le> B * (S * (?U + 1))" by (rule mult_le_mono2)
  have "3 * ?U \<le> ef_usz fmt * ?U" by (rule mult_le_mono1 [OF usz(1)])
  then have "3 * (?U + 1) \<le> ef_asz fmt + ef_usz fmt * ?U" using asz(1) unfolding distrib_left by linarith
  then have "B * (S * (3 * (?U + 1))) \<le> B * (2 + S * (ef_asz fmt + ef_usz fmt * ?U))"
    by (intro mult_le_mono2) (metis mult_le_mono2 trans_le_add2)
  then have "3 * (B * (S * (?U + 1))) \<le> 1460" using assms(2) by (simp only: mult.left_commute [of _ 3])
  then show "B * L \<le> 512" using 1 by linarith
  show "B * (S * ?U) \<le> B * L" by (intro mult_le_mono2) simp
qed

lemma prefix:
  assumes acc: "et_accepted pk s" and n: "unat (f_packet_num f) < 5000"
    and hdr: "et_header_at (up_buffer pk) 6 = Some hdr"
    and U: "et_units (unat (et_LaserNum hdr)) (et_SeqNum hdr) = Some U" and fit: "et_end fmt hdr U \<le> 1500"
  shows "\<exists>t f1 p1. ef_tail_at fmt (up_buffer pk) (17 + et_body_size fmt hdr U) = Some t \<and>
     et_DecodePacket fmt h f pk s = et_body fmt (up_buffer pk) hdr t f1 (s \<lparr> p2 := p1 \<rparr>) \<and>
     f_pointData f1 = f_pointData f \<and> f_packet_num f1 = f_packet_num f \<and> \<not> f_scan_complete f1 \<and>
     f_block_num f1 = ucast (et_BlockNum hdr) \<and> f_laser_num f1 = ucast (et_LaserNum hdr) \<and>
     use_angle p1 = use_angle (p2 s)"
proof -
  let ?buf = "up_buffer pk" and ?tail = "17 + et_body_size fmt hdr U"
  note b = et_accepted_bytes [OF acc]
  obtain q where q: "count_loss h (et_HasSeqNum (et_Reserved2 hdr)) ?buf (?tail + 23) (p2 s) = Some q"
    "use_angle q = use_angle (p2 s)"
    using count_loss_defined [of "?tail + 23" "et_HasSeqNum (et_Reserved2 hdr)" ?buf h "p2 s"] fit b(1)
    by (auto simp: et_end_def)
  obtain t where t: "ef_tail_at fmt ?buf ?tail = Some t"
    using tail_in [of ?buf ?tail] b(1) fit by (fastforce simp: et_end_def)
  obtain g where g: "put_timestamp (unat (f_packet_num f)) (if f_use_timestamp_type f = 0
      then ef_time fmt (h_timezone h) t else up_recv_timestamp pk) f = Some g"
    "f_pointData g = f_pointData f" "f_packet_num g = f_packet_num f"
    using put_timestamp_defined [OF n, where f = f] by metis
  have "et_body_size fmt hdr U < 65000" using fit by (simp add: et_end_def)
  note tail = tail_address [OF U this]
  have q': "count_loss h (et_HasSeqNum (et_Reserved2 hdr)) ?buf (40 + et_body_size fmt hdr U) (p2 s) = Some q"
    using q(1) by simp
  show ?thesis
    using acc b(2,3) q(2) g(2,3) t unfolding et_DecodePacket_def Let_def
    by (simp add: et_accepted_def hdr tail q' g(1) del: bind_Some_iff)
      ((rule exI)+, rule conjI, rule refl, simp)
qed

lemma decoded:
  assumes acc: "et_accepted pk s" and n: "unat (f_packet_num f) < 5000"
    and hdr: "et_header_at (up_buffer pk) 6 = Some hdr"
    and L: "L = unat (et_LaserNum hdr)" and B: "B = unat (et_BlockNum hdr)" and S: "S = unat (et_SeqNum hdr)"
    and k: "k = unat (f_packet_num f) * (B * L)" and U: "U = L div S"
    and fit: "0 < S" "et_end fmt hdr U \<le> 1500"
  shows "\<exists>t f' s'. ef_tail_at fmt (up_buffer pk) (17 + et_body_size fmt hdr U) = Some t \<and>
     et_DecodePacket fmt h f pk s = Some (0, f', s') \<and> f_packet_num f' = f_packet_num f + 1 \<and>
     (\<forall>b<B. \<forall>q<S. \<forall>c<U. f_pointData f' (k + (b * S + q) * U + c) =
        the (snd (the (ef_row fmt (up_buffer pk) t q (15 + et_unit_row (ef_usz fmt) (ef_asz fmt) U S b q))) c
             (15 + et_unit_row (ef_usz fmt) (ef_asz fmt) U S b q + ef_asz fmt + ef_usz fmt * c))
          (f_pointData f (k + (b * S + q) * U + c))) \<and>
     (\<forall>j. j < k \<or> k + B * (S * U) \<le> j \<longrightarrow> f_pointData f' j = f_pointData f j) \<and>
     f_scan_complete f' = (use_angle (p2 s) \<and> 0 \<le> et_last_frameid s \<and> et_last_frameid s \<noteq> uint (ef_frame_id fmt t)) \<and>
     use_angle (p2 s') = use_angle (p2 s) \<and> et_last_frameid s' = uint (ef_frame_id fmt t)"
proof -
  let ?buf = "up_buffer pk"
  note len = et_accepted_bytes(1) [OF acc]
  have S0: "et_SeqNum hdr \<noteq> 0" using fit(1) S by auto
  have units: "et_units (unat (et_LaserNum hdr)) (et_SeqNum hdr) = Some U" using S0 by (simp add: et_units_def U L S)
  obtain t f1 p1 where t: "ef_tail_at fmt ?buf (17 + et_body_size fmt hdr U) = Some t"
    and 1: "et_DecodePacket fmt h f pk s = et_body fmt ?buf hdr t f1 (s \<lparr> p2 := p1 \<rparr>)"
    "f_pointData f1 = f_pointData f" "f_packet_num f1 = f_packet_num f" "\<not> f_scan_complete f1" "use_angle p1 = use_angle (p2 s)"
    using prefix [OF acc n hdr units fit(2), of h] by blast
  have size: "B * (2 + S * (ef_asz fmt + ef_usz fmt * U)) \<le> 1460"
    using fit(2) by (simp add: et_end_def body_size B S)
  note small = fits [OF fit(1) size [unfolded U]]
  have index: "first_index (f_packet_num f) (et_BlockNum hdr) (et_LaserNum hdr) = int k"
    using first_index_small [OF n] small(1) k L B by simp
  have "k + B * (S * U) \<le> 2560000"
  proof -
    have "k \<le> 4999 * 512" unfolding k by (rule mult_le_mono) (use n small(1) in linarith)+
    then show ?thesis using small unfolding U by linarith
  qed
  moreover have "15 + B * (2 + S * (ef_asz fmt + ef_usz fmt * U)) \<le> length ?buf + 2" using size len by simp
  note read_blocks_points [OF layout this calculation, of t f1]
  then obtain m where m: "read_blocks (ef_row fmt ?buf t) (ef_usz fmt) (ef_asz fmt) U S B 15 (int k) f1 =
      Some (int (k + B * (S * U)), f1 \<lparr> f_pointData := m \<rparr>)"
    and at: "\<forall>b<B. \<forall>q<S. \<forall>c<U. m (k + (b * S + q) * U + c) =
        the (snd (the (ef_row fmt ?buf t q (15 + et_unit_row (ef_usz fmt) (ef_asz fmt) U S b q))) c
             (15 + et_unit_row (ef_usz fmt) (ef_asz fmt) U S b q + ef_asz fmt + ef_usz fmt * c))
          (f_pointData f1 (k + (b * S + q) * U + c))"
    and out: "\<forall>j. j < k \<or> k + B * (S * U) \<le> j \<longrightarrow> m j = f_pointData f1 j"
    by (elim exE conjE) (rule that, assumption+)
  define g where "g = f1 \<lparr> f_pointData := m \<rparr>"
  obtain f' s' where fin: "et_finish (ef_frame_id fmt t) g (s \<lparr> p2 := p1 \<rparr>) = (0, f', s')"
    by (simp add: et_finish_def Let_def)
  have fs: "f_pointData f' = m" "f_packet_num f' = f_packet_num f + 1"
    "f_scan_complete f' = (use_angle (p2 s) \<and> 0 \<le> et_last_frameid s \<and> et_last_frameid s \<noteq> uint (ef_frame_id fmt t))"
    "use_angle (p2 s') = use_angle (p2 s)" "et_last_frameid s' = uint (ef_frame_id fmt t)"
    using et_finish_effect [OF fin] 1(3-5) by (auto simp: g_def et_IsNeedFrameSplit_def)
  have dec: "et_DecodePacket fmt h f pk s = Some (0, f', s')"
    using m fin unfolding 1(1) et_body_def units 1(3) index S [symmetric] B [symmetric] g_def by simp
  note pts = at [folded fs(1), unfolded 1(2)] out [folded fs(1), unfolded 1(2)]
  show ?thesis by (intro exI conjI) (rule t dec fs pts)+
qed

end

section \<open>An example\<close>

text \<open>One block of two sequences of one unit, or without sequences.\<close>

definition et_bytes_ex :: "u8 \<Rightarrow> u8 list" where
  "et_bytes_ex seqs = [0xEE, 0xFF, 2, 5, 0, 0, 2, 1, 0, 4, 0, seqs, 0, 9, 9, 0, 4, 0, 2, 0, 10, 1, 7, 0, 6, 0, 1, 0, 20, 1, 8]"

definition et_ex :: "u8 \<Rightarrow> UdpPacket" where
  "et_ex seqs = packet_ex (et_bytes_ex seqs)"

definition et_parser_ex :: "et_parser" where
  "et_parser_ex = \<lparr> p2 = (parser_at 0 0 7600) \<lparr> use_angle := True \<rparr>, et_get_correction_file = True, et_last_frameid = 5 \<rparr>"

definition et_header_ex :: "u8 \<Rightarrow> HS_LIDAR_HEADER_ET_V4" where
  "et_header_ex seqs = \<lparr> et_LaserNum = 2, et_BlockNum = 1, et_EchoCount = 0, et_DistUnit = 4, et_EchoNum = 0,
     et_SeqNum = seqs, et_Reserved2 = 0 \<rparr>"

lemma et_bytes_length [simp]: "length (et_bytes_ex seqs) = 31"
  by (simp add: et_bytes_ex_def)

lemma et_ex_ok:
  assumes "et_get_correction_file s"
  shows "et_accepted (et_ex seqs) s" "et_header_at (up_buffer (et_ex seqs)) 6 = Some (et_header_ex seqs)"
  by (simp add: et_accepted_def et_ex_def packet_ex_wf packet_ex_nth assms, simp add: et_bytes_ex_def packet_ex_def)
    (simp add: et_header_at_def et_ex_def packet_ex_prefix, simp add: et_bytes_ex_def et_header_ex_def ld8_def)

end
