(* ===== verification/Correction_Data.thy ===== *)
theory Correction_Data
  imports Prelude
begin

text \<open>
  What the loaders of binary correction files share: arrays of a fixed length, the copy of a table of
  integers out of the bytes of a file, and, for the round trips, the encoding of such a table.
\<close>

text \<open>An access to an array of \<open>n\<close> entries.\<close>

definition arr :: "nat \<Rightarrow> (nat \<Rightarrow> 'a) \<Rightarrow> nat \<Rightarrow> 'a option" where
  "arr n a i = (if i < n then Some (a i) else None)"

text \<open>\<open>memcpy\<close> of \<open>n\<close> integers of \<open>sz\<close> bytes into an array of \<open>len\<close> entries.\<close>

definition copy_words :: "nat \<Rightarrow> nat \<Rightarrow> nat \<Rightarrow> u8 list \<Rightarrow> nat \<Rightarrow> (nat \<Rightarrow> 'a::len word) \<Rightarrow> (nat \<Rightarrow> 'a word) option" where
  "copy_words len sz n data off a =
     (if n \<le> len \<and> off + sz * n \<le> length data
      then Some (\<lambda>i. if i < n then the (load sz data (off + sz * i)) else a i) else None)"

text \<open>A table of integers of \<open>sz\<close> bytes.\<close>

definition encode_words :: "nat \<Rightarrow> 'a::len word list \<Rightarrow> u8 list" where
  "encode_words sz ws = concat (map (\<lambda>w. le_bytes sz (unat w)) ws)"

lemma length_encode_words [simp]: "length (encode_words sz ws) = sz * length ws"
  by (induction ws) (simp_all add: encode_words_def)

lemma load_encoded:
  fixes ws :: "'a::len word list"
  assumes "i < length ws" and "LENGTH('a) \<le> 8 * sz"
  shows "load sz (pre @ encode_words sz ws @ post) (length pre + sz * i) = Some (ws ! i)"
proof -
  have "encode_words sz ws = encode_words sz (take i ws) @ le_bytes sz (unat (ws ! i)) @
      encode_words sz (drop (Suc i) ws)"
    by (subst id_take_nth_drop [OF assms(1)]) (simp add: encode_words_def)
  then show ?thesis
    using load_le_bytes [OF assms(2), of "pre @ encode_words sz (take i ws)" "ws ! i"] assms(1)
    by (simp add: min_def)
qed

lemma copy_encoded:
  fixes ws :: "'a::len word list"
  assumes "length ws \<le> len" and "LENGTH('a) \<le> 8 * sz" and "length pre = off" and "length ws = n"
  shows "copy_words len sz n (pre @ encode_words sz ws @ post) off a = Some (\<lambda>i. if i < n then ws ! i else a i)"
  using assms(1,3,4) load_encoded [OF _ assms(2), of _ ws pre post] by (auto simp: copy_words_def fun_eq_iff)

end
