(* ===== verification/Et_Corrections.thy ===== *)
theory Et_Corrections
  imports Et_Decoder Compute_Points Correction_Data
begin

text \<open>
  The correction files of the ET family and the geometry of its points:
  \<open>src/libhesai/UdpParser/include/udp2_5_parser.h\<close>, the versions of the binary file of
  \<open>udp2_5_parser.cc\<close>, and the angles that \<open>udp2_4_parser.cc\<close>, \<open>udp2_5_parser.cc\<close> and \<open>udp2_6_parser.cc\<close>
  compute alike. Fields of \<open>ETCorrections\<close> that no code reads or writes are left out.
\<close>

section \<open>Structs\<close>

record ETCorrectionsHeader =
  eh_delimiter :: "u8 \<times> u8"
  eh_major_version :: u8
  eh_min_version :: u8
  eh_reserved1 :: u8
  eh_reserved2 :: u8
  eh_channel_number :: u16
  eh_mirror_number :: u8
  eh_angle_division :: u16
  eh_apha :: u16
  eh_beta :: u16
  eh_gamma :: u16

text \<open>The first six bytes of every version, and the last eight of versions 1 to 3.\<close>

definition et_start_at :: "u8 list \<Rightarrow> ETCorrectionsHeader \<Rightarrow> ETCorrectionsHeader option" where
  "et_start_at buf h = do {
     d0 \<leftarrow> ld8 buf 0;
     d1 \<leftarrow> ld8 buf 1;
     ma \<leftarrow> ld8 buf 2;
     mi \<leftarrow> ld8 buf 3;
     r1 \<leftarrow> ld8 buf 4;
     r2 \<leftarrow> ld8 buf 5;
     Some (h \<lparr> eh_delimiter := (d0, d1), eh_major_version := ma, eh_min_version := mi, eh_reserved1 := r1,
            eh_reserved2 := r2 \<rparr>) }"

definition et_angles_at :: "u8 list \<Rightarrow> nat \<Rightarrow> ETCorrectionsHeader \<Rightarrow> ETCorrectionsHeader option" where
  "et_angles_at buf off h = do {
     ad \<leftarrow> ld16 buf off;
     a \<leftarrow> ld16 buf (off + 2);
     b \<leftarrow> ld16 buf (off + 4);
     g \<leftarrow> ld16 buf (off + 6);
     Some (h \<lparr> eh_angle_division := ad, eh_apha := a, eh_beta := b, eh_gamma := g \<rparr>) }"

text \<open>\<open>ETCorrectionsHeader_V1V2\<close> with \<open>getDataFromV1V2\<close>: 16 bytes, a channel number of one byte.\<close>

definition getDataFromV1V2 :: "u8 list \<Rightarrow> ETCorrectionsHeader \<Rightarrow> ETCorrectionsHeader option" where
  "getDataFromV1V2 buf h = do {
     h \<leftarrow> et_start_at buf h;
     cn \<leftarrow> ld8 buf 6;
     mn \<leftarrow> ld8 buf 7;
     et_angles_at buf 8 (h \<lparr> eh_channel_number := ucast cn, eh_mirror_number := mn \<rparr>) }"

text \<open>\<open>ETCorrectionsHeader\<close> itself, the header of version 3: 17 bytes.\<close>

definition et_header_v3 :: "u8 list \<Rightarrow> ETCorrectionsHeader \<Rightarrow> ETCorrectionsHeader option" where
  "et_header_v3 buf h = do {
     h \<leftarrow> et_start_at buf h;
     cn \<leftarrow> ld16 buf 6;
     mn \<leftarrow> ld8 buf 8;
     et_angles_at buf 9 (h \<lparr> eh_channel_number := cn, eh_mirror_number := mn \<rparr>) }"

text \<open>\<open>ETCorrectionsHeader_V3_4\<close> with \<open>getDataFromV3_4\<close>, and the number of turns: 16 bytes, no \<open>gamma\<close>.\<close>

definition getDataFromV3_4 :: "u8 list \<Rightarrow> ETCorrectionsHeader \<Rightarrow> (ETCorrectionsHeader \<times> u8) option" where
  "getDataFromV3_4 buf h = do {
     h \<leftarrow> et_start_at buf h;
     cn \<leftarrow> ld16 buf 6;
     mn \<leftarrow> ld8 buf 8;
     tn \<leftarrow> ld8 buf 9;
     ad \<leftarrow> ld16 buf 10;
     a \<leftarrow> ld16 buf 12;
     b \<leftarrow> ld16 buf 14;
     Some (h \<lparr> eh_channel_number := cn, eh_mirror_number := mn, eh_angle_division := ad, eh_apha := a,
            eh_beta := b \<rparr>, tn) }"

record ETCorrections =
  ec_header :: ETCorrectionsHeader
  ec_min_version :: u8
  ec_turn_number :: u8
  ec_gamma :: "nat \<Rightarrow> u16"
  ec_gamma_f :: "nat \<Rightarrow> fp"
  ec_azimuths :: "nat \<Rightarrow> fp"
  ec_elevations :: "nat \<Rightarrow> fp"
  ec_raw_azimuths :: "nat \<Rightarrow> u16"
  ec_raw_elevations :: "nat \<Rightarrow> u16"
  ec_elevation_adjust :: "nat \<Rightarrow> u16"
  ec_azimuth_adjust :: "nat \<Rightarrow> u16"
  ec_elevation_offset_delta :: "nat \<Rightarrow> u16"
  ec_azimuth_offset_delta :: "nat \<Rightarrow> u16"
  ec_elevation_offset_delta_f :: "nat \<Rightarrow> fp"
  ec_azimuth_offset_delta_f :: "nat \<Rightarrow> fp"
  ec_azimuth_adjust_interval :: u8
  ec_elevation_adjust_interval :: u8
  ec_SHA_value :: "u8 list"

definition ET_MAX_CHANNEL_NUM :: nat where "ET_MAX_CHANNEL_NUM = 512"

section \<open>The parts of a file\<close>

text \<open>\<open>((float)(raw)) / division\<close>\<close>

definition et_angle :: "u16 \<Rightarrow> u16 \<Rightarrow> fp" where
  "et_angle division raw = fdiv (f32_of_int (sint raw)) (f32_of_int (uint division))"

text \<open>The angles of the channels go behind the three of the frame.\<close>

definition et_channels :: "nat \<Rightarrow> u16 \<Rightarrow> (nat \<Rightarrow> u16) \<Rightarrow> (nat \<Rightarrow> fp) \<Rightarrow> nat \<Rightarrow> fp" where
  "et_channels n division raw old = (\<lambda>i. if 3 \<le> i \<and> i < n + 3 then et_angle division (raw (i - 3)) else old i)"

definition et_load_angles :: "u8 list \<Rightarrow> nat \<Rightarrow> ETCorrections \<Rightarrow> ETCorrections option" where
  "et_load_angles data off c = do {
     let n = unat (eh_channel_number (ec_header c));
     let division = eh_angle_division (ec_header c);
     az \<leftarrow> copy_words ET_MAX_CHANNEL_NUM 2 n data off (ec_raw_azimuths c);
     el \<leftarrow> copy_words ET_MAX_CHANNEL_NUM 2 n data (off + 2 * n) (ec_raw_elevations c);
     Some (c \<lparr> ec_raw_azimuths := az, ec_raw_elevations := el,
       ec_azimuths := et_channels n division az (ec_azimuths c),
       ec_elevations := et_channels n division el (ec_elevations c) \<rparr>) }"

text \<open>The angles of the frame: \<open>apha\<close>, \<open>beta\<close> and, up to version 3, \<open>gamma\<close>.\<close>

definition et_frame_angles :: "bool \<Rightarrow> ETCorrections \<Rightarrow> ETCorrections" where
  "et_frame_angles with_gamma c =
     (let h = ec_header c; division = eh_angle_division h;
          e = (ec_elevations c)(0 := et_angle division (eh_apha h), 1 := et_angle division (eh_beta h))
      in c \<lparr> ec_elevations := (if with_gamma then e(2 := et_angle division (eh_gamma h)) else e) \<rparr>)"

text \<open>
  The two tables of adjustments, whose length is computed from the steps in the file (version 4 has other
  fields of view, and a table for each turn). The arrays have 3000 entries.
\<close>

definition et_adjust_len :: "u8 \<Rightarrow> u8 \<Rightarrow> int option" where
  "et_adjust_len H V = fp_to_int
     (dmul (dadd (ddiv (Fin 120) (dmul (f64_of_int (uint H)) (Fin (1 / 2)))) (Fin 1))
           (dadd (ddiv (Fin 25) (dmul (f64_of_int (uint V)) (Fin (1 / 2)))) (Fin 1)))"

definition et_adjust_len_v4 :: "u8 \<Rightarrow> u8 \<Rightarrow> u8 \<Rightarrow> int option" where
  "et_adjust_len_v4 T H V = fp_to_int
     (dmul (dmul (f64_of_int (uint T)) (dadd (ddiv (Fin 120) (dmul (f64_of_int (uint H)) (f64 (1 / 10)))) (Fin 1)))
           (dadd (ddiv (f64 (32 / 10)) (dmul (f64_of_int (uint V)) (f64 (1 / 10)))) (Fin 1)))"

definition et_load_adjust :: "(u8 \<Rightarrow> u8 \<Rightarrow> int option) \<Rightarrow> u8 list \<Rightarrow> nat \<Rightarrow> ETCorrections \<Rightarrow> ETCorrections option" where
  "et_load_adjust len data off c = do {
     H \<leftarrow> ld8 data off;
     V \<leftarrow> ld8 data (off + 1);
     angle_offset_len \<leftarrow> len H V;
     n \<leftarrow> nat_index angle_offset_len;
     az \<leftarrow> copy_words 3000 2 n data (off + 2) (ec_azimuth_adjust c);
     el \<leftarrow> copy_words 3000 2 n data (off + 2 + 2 * n) (ec_elevation_adjust c);
     sha \<leftarrow> bytes_at 32 data (off + 2 + 4 * n);
     Some (c \<lparr> ec_azimuth_adjust_interval := H, ec_elevation_adjust_interval := V, ec_azimuth_adjust := az,
       ec_elevation_adjust := el, ec_SHA_value := sha \<rparr>) }"

text \<open>The body of a file of version 1, of versions 2 and 3, and of version 4, from address \<open>off\<close> on.\<close>

definition et_load_1 :: "u8 list \<Rightarrow> nat \<Rightarrow> ETCorrections \<Rightarrow> ETCorrections option" where
  "et_load_1 data off c = do {
     c \<leftarrow> et_load_angles data off c;
     sha \<leftarrow> bytes_at 32 data (off + 4 * unat (eh_channel_number (ec_header c)));
     Some ((et_frame_angles True c) \<lparr> ec_SHA_value := sha \<rparr>) }"

definition et_load_2 :: "u8 list \<Rightarrow> nat \<Rightarrow> ETCorrections \<Rightarrow> ETCorrections option" where
  "et_load_2 data off c = do {
     c \<leftarrow> et_load_angles data off c;
     et_load_adjust et_adjust_len data (off + 4 * unat (eh_channel_number (ec_header c))) (et_frame_angles True c) }"

definition et_load_4 :: "u8 list \<Rightarrow> nat \<Rightarrow> ETCorrections \<Rightarrow> ETCorrections option" where
  "et_load_4 data off c = do {
     let M = unat (eh_mirror_number (ec_header c));
     let N = unat (eh_channel_number (ec_header c));
     let division = eh_angle_division (ec_header c);
     ga \<leftarrow> copy_words 8 2 M data off (ec_gamma c);
     c \<leftarrow> et_load_angles data (off + 2 * M) c;
     ao \<leftarrow> copy_words 8 2 M data (off + 2 * M + 4 * N) (ec_azimuth_offset_delta c);
     eo \<leftarrow> copy_words 8 2 M data (off + 4 * M + 4 * N) (ec_elevation_offset_delta c);
     let mirrors = (\<lambda>raw old i. if i < M then et_angle division (raw i) else old i);
     let c = (et_frame_angles False c) \<lparr> ec_gamma := ga, ec_azimuth_offset_delta := ao, ec_elevation_offset_delta := eo,
       ec_gamma_f := mirrors ga (ec_gamma_f c), ec_azimuth_offset_delta_f := mirrors ao (ec_azimuth_offset_delta_f c),
       ec_elevation_offset_delta_f := mirrors eo (ec_elevation_offset_delta_f c) \<rparr>;
     et_load_adjust (et_adjust_len_v4 (ec_turn_number c)) data (off + 6 * M + 4 * N) c }"

section \<open>Adjustments\<close>

text \<open>
  \<open>getAziAdjustV2\<close> and \<open>getEleAdjustV2\<close>, \<open>getAziAdjustV4\<close> and \<open>getEleAdjustV4\<close>: bilinear interpolation
  in a table over the field of view. They differ in the field of view and the resolution of the steps,
  and version 4 has a table for each turn.
\<close>

definition et_adjust :: "fp \<Rightarrow> fp \<Rightarrow> int \<Rightarrow> (nat \<Rightarrow> u16) \<Rightarrow> ETCorrections \<Rightarrow> fp \<Rightarrow> fp \<Rightarrow> fp option" where
  "et_adjust elevation_fov res turn table c azi ele = do {
     let azimuth_fov = Fin 120;
     let h = fmul (f32_of_int (uint (ec_azimuth_adjust_interval c))) res;
     let v = fmul (f32_of_int (uint (ec_elevation_adjust_interval c))) res;
     azimuth_offset_num \<leftarrow> fp_to_int (fadd (fdiv azimuth_fov h) (Fin 1));
     elevation_offset_num \<leftarrow> fp_to_int (fadd (fdiv elevation_fov v) (Fin 1));
     i1 \<leftarrow> fp_to_int (fdiv (fadd azi (fdiv azimuth_fov (Fin 2))) h);
     i2 \<leftarrow> fp_to_int (fdiv (fadd ele (fdiv elevation_fov (Fin 2))) v);
     if i1 \<ge> azimuth_offset_num - 1 \<or> i2 \<ge> elevation_offset_num - 1 \<or> i1 < 0 \<or> i2 < 0 then Some (Fin 0)
     else do {
       let c1 = fdiv (fsub (fsub (fmul (f32_of_int (i1 + 1)) h) azi) (fdiv azimuth_fov (Fin 2))) h;
       let c2 = fdiv (fsub (fsub (fmul (f32_of_int (i2 + 1)) v) ele) (fdiv elevation_fov (Fin 2))) v;
       let mr_offset = azimuth_offset_num * elevation_offset_num * turn;
       let cell = (\<lambda>i. do { j \<leftarrow> nat_index i; a \<leftarrow> arr 3000 table j; Some (f32_of_int (sint a)) });
       let row = (\<lambda>i2. i1 + i2 * azimuth_offset_num + mr_offset);
       a00 \<leftarrow> cell (row i2);
       a01 \<leftarrow> cell (row i2 + 1);
       a10 \<leftarrow> cell (row (i2 + 1));
       a11 \<leftarrow> cell (row (i2 + 1) + 1);
       let offset1 = fadd (fmul c1 a00) (fmul (fsub (Fin 1) c1) a01);
       let offset2 = fadd (fmul c1 a10) (fmul (fsub (Fin 1) c1) a11);
       Some (fdiv (fadd (fmul c2 offset1) (fmul (fsub (Fin 1) c2) offset2))
         (f32_of_int (uint (eh_angle_division (ec_header c))))) } }"

definition getAziAdjustV2 :: "ETCorrections \<Rightarrow> fp \<Rightarrow> fp \<Rightarrow> fp option" where
  "getAziAdjustV2 c = et_adjust (Fin 25) (Fin (1 / 2)) 0 (ec_azimuth_adjust c) c"

definition getEleAdjustV2 :: "ETCorrections \<Rightarrow> fp \<Rightarrow> fp \<Rightarrow> fp option" where
  "getEleAdjustV2 c = et_adjust (Fin 25) (Fin (1 / 2)) 0 (ec_elevation_adjust c) c"

definition getAziAdjustV4 :: "ETCorrections \<Rightarrow> fp \<Rightarrow> fp \<Rightarrow> int \<Rightarrow> fp option" where
  "getAziAdjustV4 c azi ele mirror_id = et_adjust (f32 (32 / 10)) (f32 (1 / 10)) mirror_id (ec_azimuth_adjust c) c azi ele"

definition getEleAdjustV4 :: "ETCorrections \<Rightarrow> fp \<Rightarrow> fp \<Rightarrow> int \<Rightarrow> fp option" where
  "getEleAdjustV4 c azi ele mirror_id = et_adjust (f32 (32 / 10)) (f32 (1 / 10)) mirror_id (ec_elevation_adjust c) c azi ele"

section \<open>The angles of a point\<close>

text \<open>\<open>x * M_PI / 180\<close> in \<open>double\<close>.\<close>

definition et_rad :: "fp \<Rightarrow> fp" where
  "et_rad x = ddiv (dmul x M_PI) (Fin 180)"

text \<open>\<open>x * 180 / M_PI\<close>, the product in \<open>float\<close>.\<close>

definition et_deg :: "fp \<Rightarrow> fp" where
  "et_deg x = ddiv (fmul x (Fin 180)) M_PI"

abbreviation dsub :: "fp \<Rightarrow> fp \<Rightarrow> fp" where "dsub \<equiv> fp_sub f64"

text \<open>The azimuth and the elevation in degrees, before the adjustments.\<close>

definition et_angles :: "libm \<Rightarrow> fp \<Rightarrow> fp \<Rightarrow> fp \<Rightarrow> fp \<Rightarrow> fp \<Rightarrow> fp \<Rightarrow> fp \<Rightarrow> fp \<times> fp" where
  "et_angles lm apha beta gamma phi theta raw_azimuth raw_elevation =
     (let an = fadd apha phi;
          cos_an = m_cos lm (et_rad an);
          theta_n = to_float (dadd raw_elevation (ddiv theta cos_an));
          elv_v = to_float (dsub (dadd (et_rad raw_elevation) (et_rad theta))
                    (dmul (m_tan lm (et_rad raw_elevation)) (dsub (Fin 1) cos_an)));
          delt_azi_v = to_float (et_rad (et_rad (dmul (ddiv
                    (dmul (dmul (dmul (m_sin lm (et_rad an)) cos_an) theta_n) theta_n) (Fin 2)) (f64 (1016 / 1000)))));
          eta = to_float (dadd (dadd (dadd phi (et_deg delt_azi_v)) beta) (fdiv raw_azimuth (Fin 2)));
          delt_azi_h = to_float (dadd
                    (dmul (dmul (m_sin lm (et_rad eta)) (m_tan lm (et_rad (fmul (Fin 2) gamma)))) (m_tanf lm elv_v))
                    (et_rad (et_rad (dmul (dmul (m_sin lm (et_rad (fmul (Fin 2) eta))) gamma) gamma))));
          elv_h = to_float (dadd (et_deg elv_v) (dmul (dmul (m_cos lm (et_rad eta)) (Fin 2)) gamma));
          azi_h = to_float (dadd (dadd (dadd (fadd (Fin 90) raw_azimuth) (et_deg delt_azi_h)) (et_deg delt_azi_v)) phi)
      in (azi_h, elv_h))"

text \<open>\<open>(int)(v * kAllFineResolutionFloat + CIRCLE) % CIRCLE\<close>\<close>

definition et_index :: "fp \<Rightarrow> int option" where
  "et_index v = map_option (\<lambda>i. c_rem i CIRCLE) (fp_to_int (fadd (fmul v (Fin 25600)) (f32_of_int CIRCLE)))"

text \<open>From the field of view on. Unlike in the other classes the transformation is not applied.\<close>

definition et_place :: "parser \<Rightarrow> bool \<Rightarrow> u16 \<Rightarrow> int \<Rightarrow> LidarDecodedFrame \<Rightarrow> PointDecodeData \<Rightarrow> fp \<times> fp \<Rightarrow> fp \<Rightarrow>
    (LidarPoint \<Rightarrow> LidarPoint) option" where
  "et_place p with_confidence ring packet_index f d angles distance = do {
     let (azi_h, elv_h) = angles;
     azimuth \<leftarrow> et_index azi_h;
     if out_of_fov (f_config f) azimuth then Some (\<lambda>_. LidarPoint_zero)
     else do {
       elevation \<leftarrow> et_index elv_h;
       ce \<leftarrow> tab (cos_all_angle p) elevation;
       sa \<leftarrow> tab (sin_all_angle p) azimuth;
       ca \<leftarrow> tab (cos_all_angle p) azimuth;
       se \<leftarrow> tab (sin_all_angle p) elevation;
       let xyDistance = fmul distance ce;
       j \<leftarrow> nat_index packet_index;
       ts \<leftarrow> get_timestamp j f;
       Some (\<lambda>pt.
         let pt = setIntensity (pd_reflectivities d)
                    (setZ (fmul distance se) (setY (fmul xyDistance ca) (setX (fmul xyDistance sa) pt)));
             pt = (if with_confidence then setConfidence (pd_confidence d) pt else pt)
         in setRing ring (setTimestamp (ddiv (f64_of_int (uint ts)) (Fin 1000000)) pt)) } }"

section \<open>The tables of adjustments\<close>

text \<open>
  A whole number of halves \<open>H\<close> divides \<open>K\<close> halves into \<open>K div H\<close> steps, and rounding the quotient never
  reaches the next step. The first lemma is in \<open>float\<close>, as the tables are read, the second in
  \<open>double\<close>, as their length is computed when they are copied.
\<close>

lemma et_steps:
  assumes "1 \<le> H" "H \<le> 255" and "0 \<le> K" "K \<le> 240"
  shows "fp_to_int (fadd (fdiv (Fin (of_int K / 2)) (fmul (f32_of_int H) (Fin (1 / 2)))) (Fin 1)) = Some (K div H + 1)"
proof -
  have H: "fmul (f32_of_int H) (Fin (1 / 2)) = Fin (of_int H / 2)"
    using assms(1,2) f32_int [of H] f32_half [of H] by (simp add: f32_of_int_def)
  define n where "n = K div H"
  define q where "q = (of_int K / of_int H :: rat)"
  have n: "0 \<le> n" "n \<le> 240"
    using assms zdiv_mono2 [of K 1 H] by (simp_all add: n_def pos_imp_zdiv_nonneg_iff)
  have r: "K = n * H + K mod H" "0 \<le> K mod H" "K mod H \<le> H - 1"
    using assms(1) pos_mod_bound [of H K] by (simp_all add: n_def mult.commute)
  have "n * H \<le> K" "256 * K \<le> (256 * n + 255) * H"
  proof -
    show "n * H \<le> K" using r by linarith
    have "256 * (K mod H) \<le> 255 * H" using r(3) assms(2) by linarith
    then show "256 * K \<le> (256 * n + 255) * H" using r(1) by (simp add: algebra_simps)
  qed
  then have "of_int (n * H) \<le> (of_int K :: rat)" "(of_int (256 * K) :: rat) \<le> of_int ((256 * n + 255) * H)"
    by (simp_all only: of_int_le_iff)
  then have q: "of_int (256 * n) * 2 powi -8 \<le> q" "q \<le> of_int (256 * n + 255) * 2 powi -8"
    using assms(1) by (simp_all add: q_def field_simps)
  obtain x where x: "f32 q = Fin x" "of_int (256 * n) * 2 powi -8 \<le> x" "x \<le> of_int (256 * n + 255) * 2 powi -8"
    using f32_between_scaled [OF q] n by auto
  have "of_int (256 * (n + 1)) * 2 powi -8 \<le> x + 1" "x + 1 \<le> of_int (256 * (n + 1) + 255) * 2 powi -8"
    using x(2,3) by (simp_all add: field_simps)
  from f32_between_scaled [OF this] obtain y where y: "f32 (x + 1) = Fin y" "of_int (n + 1) \<le> y" "y < of_int (n + 2)"
    using n by (auto simp: field_simps)
  then have "trunc y = n + 1" using n(1) by (simp add: trunc_def floor_eq_iff)
  then show ?thesis using x(1) y(1) n H assms(1) by (simp add: q_def n_def fp_to_int_def)
qed

lemma et_steps_double:
  assumes "1 \<le> H" "H \<le> 255" and "0 \<le> K" "K \<le> 240"
  shows "\<exists>y. dadd (ddiv (Fin (of_int K / 2)) (dmul (f64_of_int H) (Fin (1 / 2)))) (Fin 1) = Fin y \<and>
     of_int (K div H + 1) \<le> y \<and> y \<le> 241"
proof -
  have H: "dmul (f64_of_int H) (Fin (1 / 2)) = Fin (of_int H / 2)"
    using assms(1,2) f64_int [of H] f64_half [of H] by (simp add: f64_of_int_def)
  define n where "n = K div H"
  have n: "0 \<le> n" "n \<le> 240" using assms zdiv_mono2 [of K 1 H] by (simp_all add: n_def pos_imp_zdiv_nonneg_iff)
  have "0 \<le> K mod H" using assms(1) by simp
  then have "n * H \<le> K" using minus_mod_eq_div_mult [of K H] unfolding n_def by linarith
  moreover have "K \<le> 240 * H" using assms by linarith
  ultimately have "of_int (n * H) \<le> (of_int K :: rat)" "(of_int K :: rat) \<le> of_int (240 * H)" by (simp_all only: of_int_le_iff)
  then have q: "of_int n \<le> (of_int K / of_int H :: rat)" "(of_int K / of_int H :: rat) \<le> of_int 240"
    using assms(1) by (simp_all add: field_simps)
  obtain x where x: "f64 (of_int K / of_int H) = Fin x" "of_int n \<le> x" "x \<le> 240"
    using f64_between [OF q] n by auto
  then obtain y where "f64 (x + 1) = Fin y" "of_int (n + 1) \<le> y" "y \<le> 241"
    using f64_between [of "n + 1" "x + 1" 241] n by auto
  then show ?thesis using x(1) H assms(1) by (simp add: n_def)
qed

lemma et_adjust_len_ge:
  assumes "0 < H" "0 < V"
  shows "\<exists>n. et_adjust_len H V = Some n \<and> (240 div uint H + 1) * (50 div uint V + 1) \<le> n"
proof -
  have b: "1 \<le> uint H" "uint H \<le> 255" "1 \<le> uint V" "uint V \<le> 255"
    using assms uint_bounded [of H] uint_bounded [of V] by (simp_all add: word_less_def)
  obtain y where y: "dadd (ddiv (Fin 120) (dmul (f64_of_int (uint H)) (Fin (1 / 2)))) (Fin 1) = Fin y"
    "of_int (240 div uint H + 1) \<le> y" "y \<le> 241" using et_steps_double [OF b(1,2), of 240] by auto
  obtain z where z: "dadd (ddiv (Fin 25) (dmul (f64_of_int (uint V)) (Fin (1 / 2)))) (Fin 1) = Fin z"
    "of_int (50 div uint V + 1) \<le> z" "z \<le> 241" using et_steps_double [OF b(3,4), of 50] by auto
  have pos: "0 \<le> 240 div uint H + 1" "0 \<le> 50 div uint V + 1"
    using b by (simp_all add: pos_imp_zdiv_nonneg_iff add_nonneg_nonneg)
  then have pos': "0 \<le> (of_int (240 div uint H + 1) :: rat)" "0 \<le> (of_int (50 div uint V + 1) :: rat)" by (simp_all only: of_int_0_le_iff)
  define N where "N = (240 div uint H + 1) * (50 div uint V + 1)"
  have lo: "of_int N \<le> y * z"
    unfolding N_def of_int_mult using mult_mono [OF y(2) z(2)] pos' y(2) by linarith
  have hi: "y * z \<le> of_int 58081" using mult_mono [OF y(3) z(3)] pos' y(2) z(2) by linarith
  have "0 \<le> N" using pos by (simp add: N_def)
  moreover have "N \<le> 58081" using order_trans [OF lo hi] by (simp only: of_int_le_iff)
  ultimately have N: "\<bar>N\<bar> < 9007199254740992" by simp
  obtain w where w: "f64 (y * z) = Fin w" "of_int N \<le> w" "w \<le> of_int 58081"
    using f64_between [OF lo hi N] by auto
  have "-2147483648 \<le> N" using \<open>0 \<le> N\<close> by simp
  then show ?thesis
    using fp_to_int_between [OF w(2,3)] w(1) by (auto simp: et_adjust_len_def y(1) z(1) N_def)
qed

definition et_table_ok :: "ETCorrections \<Rightarrow> bool" where
  "et_table_ok c \<longleftrightarrow> 0 < ec_azimuth_adjust_interval c \<and> 0 < ec_elevation_adjust_interval c \<and>
     (240 div uint (ec_azimuth_adjust_interval c) + 1) * (50 div uint (ec_elevation_adjust_interval c) + 1) \<le> 3000"

lemma et_position:
  assumes "1 \<le> H" "H \<le> 255" and "fp_abs 100000 v" and "\<bar>m\<bar> \<le> 60"
  shows "\<exists>i. fp_to_int (fdiv (fadd v (Fin m)) (Fin (of_int H / 2))) = Some i"
proof -
  have "fp_abs 60 (Fin m)" using assms(4) by (simp add: fp_abs_def)
  from fadd_abs [OF assms(3) this] obtain x where x: "fadd v (Fin m) = Fin x" "\<bar>x\<bar> \<le> of_int 100060"
    by (auto elim: fp_absE)
  have H: "1 \<le> (of_int H :: rat)" using assms(1) by simp
  have "\<bar>x / (of_int H / 2)\<bar> = 2 * \<bar>x\<bar> / of_int H" using H by (simp add: abs_mult)
  also have "\<dots> \<le> 2 * \<bar>x\<bar>" using H mult_left_mono [of 1 "of_int H :: rat" "2 * \<bar>x\<bar>"] by (simp add: divide_le_eq)
  finally have "\<bar>x / (of_int H / 2)\<bar> \<le> of_int 200120" using x(2) by simp
  then have "fp_abs 200120 (f32 (x / (of_int H / 2)))" by (rule f32_abs) simp
  then show ?thesis using to_int_abs [of 200120] x(1) assms(1) by auto
qed

lemma et_adjust_defined:
  assumes c: "et_table_ok c" and a: "fp_abs 100000 azi" "fp_abs 100000 ele"
  shows "et_adjust (Fin 25) (Fin (1 / 2)) 0 table c azi ele \<noteq> None"
proof -
  define H V where "H = uint (ec_azimuth_adjust_interval c)" and "V = uint (ec_elevation_adjust_interval c)"
  define na ne where "na = 240 div H + 1" and "ne = 50 div V + 1"
  have b: "1 \<le> H" "H \<le> 255" "1 \<le> V" "V \<le> 255" and t: "na * ne \<le> 3000"
    using c uint_bounded [of "ec_azimuth_adjust_interval c"] uint_bounded [of "ec_elevation_adjust_interval c"]
    by (simp_all add: et_table_ok_def H_def V_def na_def ne_def word_less_def)
  have n: "fp_to_int (fadd (fdiv (Fin 120) (fmul (f32_of_int H) (Fin (1 / 2)))) (Fin 1)) = Some na"
    "fp_to_int (fadd (fdiv (Fin 25) (fmul (f32_of_int V) (Fin (1 / 2)))) (Fin 1)) = Some ne"
    using et_steps [OF b(1,2), of 240] et_steps [OF b(3,4), of 50] by (simp_all add: na_def ne_def)
  have h: "fmul (f32_of_int H) (Fin (1 / 2)) = Fin (of_int H / 2)" "fmul (f32_of_int V) (Fin (1 / 2)) = Fin (of_int V / 2)"
    using b f32_int [of H] f32_int [of V] f32_half [of H] f32_half [of V] by (simp_all add: f32_of_int_def)
  have half: "fdiv (Fin 120) (Fin 2) = Fin 60" "fdiv (Fin 25) (Fin 2) = Fin (25 / 2)"
    using f32_int [of 60] f32_half [of 25] by simp_all
  obtain i1 where i1: "fp_to_int (fdiv (fadd azi (Fin 60)) (Fin (of_int H / 2))) = Some i1"
    using et_position [OF b(1,2) a(1), of 60] by auto
  obtain i2 where i2: "fp_to_int (fdiv (fadd ele (Fin (25 / 2))) (Fin (of_int V / 2))) = Some i2"
    using et_position [OF b(3,4) a(2), of "25 / 2"] by auto
  show ?thesis
  proof (cases "i1 \<ge> na - 1 \<or> i2 \<ge> ne - 1 \<or> i1 < 0 \<or> i2 < 0")
    case True
    then show ?thesis
      unfolding et_adjust_def Let_def H_def [symmetric] V_def [symmetric] n h half
      using n(1,2) [unfolded h] by (simp add: i1 i2 del: bind_Some_iff fp_div.simps fp_add.simps)
  next
    case False
    then have i: "0 \<le> i1" "0 \<le> i2" "i1 + 1 \<le> na - 1" "i2 + 1 \<le> ne - 1" by simp_all
    have cell: "\<exists>a. nat_index (j + d) = Some a \<and> a < 3000"
      if "0 \<le> d" "d \<le> i1 + 1 - i1" "j = i1 + k * na" "0 \<le> k" "k \<le> i2 + 1" for j d k
    proof -
      have "k * na \<le> (ne - 1) * na" "0 \<le> k * na" using i that(4,5) by (auto intro!: mult_right_mono)
      then have "j + d \<le> na * ne - 1" "0 \<le> j + d" using that(1-3) i by (simp_all add: algebra_simps)
      then show ?thesis using t by (simp add: nat_index_def)
    qed
    obtain a where a: "nat_index (i1 + i2 * na + 0) = Some a" "a < 3000" using cell [of 0 _ i2] i by fastforce
    obtain a' where a': "nat_index (i1 + i2 * na + 1) = Some a'" "a' < 3000" using cell [of 1 _ i2] i by fastforce
    obtain b' where b': "nat_index (i1 + (i2 + 1) * na + 0) = Some b'" "b' < 3000" using cell [of 0 _ "i2 + 1"] i by fastforce
    obtain d where d: "nat_index (i1 + (i2 + 1) * na + 1) = Some d" "d < 3000" using cell [of 1 _ "i2 + 1"] i by fastforce
    show ?thesis
      unfolding et_adjust_def Let_def H_def [symmetric] V_def [symmetric] n h half
      using False n(1,2) [unfolded h] a a' b' d
      by (simp add: i1 i2 arr_def del: bind_Some_iff fp_div.simps fp_add.simps fp_mul.simps)
  qed
qed

text \<open>A step of 0 makes the length infinite.\<close>

lemma et_adjust_len_0: "H = 0 \<or> V = 0 \<Longrightarrow> et_adjust_len H V = None"
proof -
  assume 0: "H = 0 \<or> V = 0"
  have z: "f64_of_int 0 = Fin 0" "f64 0 = Fin 0" using f64_int [of 0] by (simp_all add: f64_of_int_def)
  have i: "fp_to_int (dmul (dadd (Inf True) (Fin 1)) v) = None" "fp_to_int (dmul v (dadd (Inf True) (Fin 1))) = None" for v
    by (cases v; simp add: fp_to_int_def)+
  have "ddiv (Fin a) (dmul (f64_of_int (uint (0 :: u8))) (Fin (1 / 2))) = Inf True" if "0 < a" for a
    using that by (simp add: z)
  then show ?thesis using 0 i unfolding et_adjust_len_def by auto
qed

lemma et_load_angles_keeps:
  "et_load_angles data off c = Some c' \<Longrightarrow> ec_header c' = ec_header c"
  by (auto simp: et_load_angles_def Let_def)

lemma et_load_2_table:
  assumes "et_load_2 data off c = Some c'"
  shows "et_table_ok c'"
proof -
  obtain H V n m where len: "et_adjust_len H V = Some n" "nat_index n = Some m" "m \<le> 3000"
    and c': "ec_azimuth_adjust_interval c' = H" "ec_elevation_adjust_interval c' = V"
    using assms by (auto simp: et_load_2_def et_load_adjust_def copy_words_def split: if_splits)
  then have pos: "0 < H" "0 < V" using et_adjust_len_0 [of H V] by (auto simp: word_gt_0)
  then have "(240 div uint H + 1) * (50 div uint V + 1) \<le> n" using et_adjust_len_ge [of H V] len(1) by auto
  moreover have "n \<le> 3000" using len(2,3) by (simp add: nat_index_def split: if_splits)
  ultimately show ?thesis using pos c' by (simp add: et_table_ok_def)
qed

lemma et_load_2_defined:
  assumes c: "unat (eh_channel_number (ec_header c)) = n" "n \<le> 509"
    and len: "off + 4 * n + 2 + 4 * 3000 + 32 \<le> length data"
  defines "H \<equiv> data ! (off + 4 * n)" and "V \<equiv> data ! (off + 4 * n + 1)"
  shows "et_load_2 data off c = None \<longleftrightarrow> H = 0 \<or> V = 0 \<or> 3000 < the (et_adjust_len H V)"
proof -
  have "\<exists>c'. et_load_angles data off c = Some c' \<and> ec_header c' = ec_header c"
    using c len by (simp add: et_load_angles_def copy_words_def ET_MAX_CHANNEL_NUM_def Let_def)
  then obtain c' where c': "et_load_angles data off c = Some c'" "ec_header c' = ec_header c" by blast
  have hv: "ld8 data (off + 4 * n) = Some H" "ld8 data (off + 4 * n + 1) = Some V"
    using len by (simp_all add: ld8_def H_def V_def)
  show ?thesis
  proof (cases "H = 0 \<or> V = 0")
    case True
    have "et_load_2 data off c = None"
      using et_adjust_len_0 [OF True] hv
      by (simp add: et_load_2_def c' c(1) et_load_adjust_def del: bind_Some_iff)
    then show ?thesis using True by blast
  next
    case False
    then obtain m where m: "et_adjust_len H V = Some m" "(240 div uint H + 1) * (50 div uint V + 1) \<le> m"
      using et_adjust_len_ge [of H V] by (auto simp: word_gt_0)
    have "0 \<le> (240 div uint H + 1) * (50 div uint V + 1)"
      by (intro mult_nonneg_nonneg add_nonneg_nonneg) (simp_all add: div_int_pos_iff)
    then have "0 \<le> m" using m(2) by linarith
    then show ?thesis
      using False hv len
      by (auto simp: et_load_2_def c' c(1) et_load_adjust_def m(1) nat_index_def copy_words_def bytes_at_def
          simp del: bind_Some_iff split: Option.bind_splits)
  qed
qed

end
