(* ===== verification/Udp2_4.thy ===== *)
theory Udp2_4
  imports Et_Corrections
begin

text \<open>
  The parser of the ET lidars with protocol 2.4: \<open>src/libhesai/UdpParser/src/udp2_4_parser.cc\<close> and the
  structs of \<open>src/libhesai/UdpProtocol/udp_protocol_v2_4.h\<close>. Its correction file is version 1 of
  Et\_Corrections; \<open>ETCorrections_V4\<close> has the fields that version 1 uses. The loader of textual files is not
  modelled.
\<close>

section \<open>Structs\<close>

record HS_LIDAR_TAIL_ET_V4 =
  e4_reservedInfo1 :: "u16 \<times> u8"
  e4_reservedInfo2 :: "u16 \<times> u8"
  e4_reservedInfo3 :: "u16 \<times> u8"
  e4_FrameID :: u8
  e4_ShutDown :: u8
  e4_EchoMode :: u8
  e4_UTC :: "u8 list"
  e4_Timestamp :: u32
  e4_FactoryInfo :: u8

definition e4_tail_at :: "u8 list \<Rightarrow> nat \<Rightarrow> HS_LIDAR_TAIL_ET_V4 option" where
  "e4_tail_at buf off = do {
     r1 \<leftarrow> reserved_info_at buf off;
     r2 \<leftarrow> reserved_info_at buf (off + 3);
     r3 \<leftarrow> reserved_info_at buf (off + 6);
     fi \<leftarrow> ld8 buf (off + 9);
     sd \<leftarrow> ld8 buf (off + 10);
     em \<leftarrow> ld8 buf (off + 11);
     utc \<leftarrow> bytes_at 6 buf (off + 12);
     ts \<leftarrow> ld32 buf (off + 18);
     fa \<leftarrow> ld8 buf (off + 22);
     Some \<lparr> e4_reservedInfo1 = r1, e4_reservedInfo2 = r2, e4_reservedInfo3 = r3, e4_FrameID = fi,
            e4_ShutDown = sd, e4_EchoMode = em, e4_UTC = utc, e4_Timestamp = ts, e4_FactoryInfo = fa \<rparr> }"

record udp2_4_parser = et_parser +
  m_ET_corrections :: ETCorrections

definition Udp2_4Parser_new :: "libm \<Rightarrow> udp2_4_parser \<Rightarrow> udp2_4_parser" where
  "Udp2_4Parser_new lm mem = mem \<lparr> p2 := GeneralParser_new lm (p2 mem), et_get_correction_file := False,
     et_last_frameid := -1 \<rparr>"

section \<open>The correction file\<close>

definition e4_LoadCorrectionString :: "u8 list \<Rightarrow> udp2_4_parser \<Rightarrow> (int \<times> udp2_4_parser) option" where
  "e4_LoadCorrectionString data s = do {
     h \<leftarrow> getDataFromV1V2 data (ec_header (m_ET_corrections s));
     if eh_delimiter h = (0xee, 0xff) \<and> eh_min_version h = 1 then do {
       let c = (m_ET_corrections s) \<lparr> ec_header := h \<rparr>;
       if unat (eh_channel_number h) > ET_MAX_CHANNEL_NUM - 3 \<or> eh_angle_division h = 0
       then Some (-1, s \<lparr> m_ET_corrections := c \<rparr>)
       else do {
         c \<leftarrow> et_load_1 data 16 c;
         Some (0, s \<lparr> m_ET_corrections := c, et_get_correction_file := True \<rparr>) } }
     else Some (-1, s) }"

section \<open>The decoder\<close>

definition e4_row :: "u8 list \<Rightarrow> HS_LIDAR_TAIL_ET_V4 \<Rightarrow> unit row_reader" where
  "e4_row buf t r pa = do {
     horizontalAngle \<leftarrow> ld16 buf pa;
     verticalAngle \<leftarrow> ld16 buf (pa + 2);
     Some ((), \<lambda>i off. do {
       re \<leftarrow> ld8 buf (off + 2);
       co \<leftarrow> ld8 buf (off + 3);
       d \<leftarrow> ld16 buf off;
       Some (\<lambda>pd. pd \<lparr> pd_reflectivities := re, pd_confidence := co, pd_distances := d,
                        pd_azimuth := et_raw_angle horizontalAngle, pd_elevation := et_raw_angle verticalAngle \<rparr>) }) }"

definition e4_format :: "HS_LIDAR_TAIL_ET_V4 et_format" where
  "e4_format = \<lparr> ef_usz = 4, ef_asz = 4, ef_trailer = 4, ef_row = e4_row, ef_tail_at = e4_tail_at,
     ef_frame_id = e4_FrameID, ef_shutdown = e4_ShutDown, ef_echo_mode = e4_EchoMode,
     ef_time = (\<lambda>tz t. lidar_time_2_4 tz (e4_UTC t) (e4_Timestamp t)) \<rparr>"

definition e4_DecodePacket :: "host \<Rightarrow> LidarDecodedFrame \<Rightarrow> UdpPacket \<Rightarrow> udp2_4_parser \<Rightarrow>
    (int \<times> LidarDecodedFrame \<times> udp2_4_parser) option" where
  "e4_DecodePacket = et_DecodePacket e4_format"

section \<open>The points\<close>

definition e4_point :: "libm \<Rightarrow> udp2_4_parser \<Rightarrow> int \<Rightarrow> LidarDecodedFrame \<Rightarrow> nat \<Rightarrow> nat \<Rightarrow>
    (LidarPoint \<Rightarrow> LidarPoint) option" where
  "e4_point lm s packet_index f i k = do {
     d \<leftarrow> get_point_data k f;
     let c = m_ET_corrections s;
     let distance = to_float (dmul (f64_of_int (uint (pd_distances d))) (f_distance_unit f));
     phi \<leftarrow> arr ET_MAX_CHANNEL_NUM (ec_azimuths c) (i + 3);
     theta \<leftarrow> arr ET_MAX_CHANNEL_NUM (ec_elevations c) (i + 3);
     et_place (p2 s) True (word_of_nat i) packet_index f d
       (et_angles lm (ec_elevations c 0) (ec_elevations c 1) (ec_elevations c 2) phi theta (pd_azimuth d) (pd_elevation d))
       distance }"

definition e4_ComputeXYZI :: "libm \<Rightarrow> LidarDecodedFrame \<Rightarrow> int \<Rightarrow> udp2_4_parser \<Rightarrow>
    (int \<times> LidarDecodedFrame \<times> udp2_4_parser) option" where
  "e4_ComputeXYZI lm f packet_index s = do {
     f \<leftarrow> compute_blocks (\<lambda>_ _. Some (Some (e4_point lm s packet_index))) packet_index (unat (f_block_num f)) 0 f;
     Some (0, f, s \<lparr> p2 := FrameNumAdd (p2 s) \<rparr>) }"

section \<open>The protocol obeys the laws of the family\<close>

lemma e4_tail_in: "e4_tail_at buf off \<noteq> None \<longleftrightarrow> off + 23 \<le> length buf"
  by (auto simp: e4_tail_at_def load_def ld8_def bytes_at_def reserved_info_at_def split: Option.bind_splits if_splits)

lemma e4_row_out: "length buf < pa + 4 \<Longrightarrow> e4_row buf t r pa = None"
  by (auto simp: e4_row_def load_def split: Option.bind_splits)

lemma e4_row_in: "pa + 4 \<le> length buf \<Longrightarrow> \<exists>rd. e4_row buf t r pa = Some ((), rd)"
  by (simp add: e4_row_def load_def)

lemma e4_unit_in: "e4_row buf t r pa = Some (i, rd) \<Longrightarrow> off + 4 \<le> length buf \<Longrightarrow> rd c off \<noteq> None"
  by (auto simp: e4_row_def load_def ld8_def split: Option.bind_splits)

interpretation e4: et_layout e4_format
  using e4_tail_in e4_row_out e4_row_in e4_unit_in by unfold_locales (simp_all add: e4_format_def)

lemma e4_unit_data:
  assumes "row + 4 \<le> length buf" and "off + 4 \<le> length buf"
  shows "let m' = the (snd (the (e4_row buf t r row)) c off) m
    in (\<exists>h v. ld16 buf row = Some h \<and> ld16 buf (row + 2) = Some v \<and> pd_azimuth m' = et_raw_angle h \<and>
          pd_elevation m' = et_raw_angle v) \<and>
       ld16 buf off = Some (pd_distances m') \<and> ld8 buf (off + 2) = Some (pd_reflectivities m') \<and>
       ld8 buf (off + 3) = Some (pd_confidence m')"
proof -
  obtain h where h: "ld16 buf row = Some h" using assms(1) by (cases "ld16 buf row") (simp_all add: load_def)
  obtain v where v: "ld16 buf (row + 2) = Some v"
    using assms(1) by (cases "ld16 buf (row + 2)") (simp_all add: load_def)
  obtain d where d: "ld16 buf off = Some d" using assms(2) by (cases "ld16 buf off") (simp_all add: load_def)
  obtain re co where rc: "ld8 buf (off + 2) = Some re" "ld8 buf (off + 3) = Some co"
    using assms(2) by (simp add: ld8_def)
  show ?thesis using h v d rc by (simp add: e4_row_def Let_def)
qed

section \<open>Behaviour of the decoder\<close>

text \<open>
  A packet of protocol 2.4. When the blocks, the tail and the sequence number that the header announces
  are inside the buffer, every unit of every sequence is written into the frame with its own distance,
  reflectivity and confidence and the angles of its sequence, one entry after the other, and the entries
  of other packets do not change; a frame ends exactly when its number is not that of the packet
  before. Otherwise the decoder reads behind the buffer or divides by zero.
\<close>

theorem e4_DecodePacket_points:
  assumes acc: "et_accepted pk s" and n: "unat (f_packet_num f) < 5000"
    and hdr: "et_header_at (up_buffer pk) 6 = Some hdr"
    and L: "L = unat (et_LaserNum hdr)" and B: "B = unat (et_BlockNum hdr)" and S: "S = unat (et_SeqNum hdr)"
    and k: "k = unat (f_packet_num f) * (B * L)" and U: "U = L div S"
  shows "if 0 < S \<and> et_end e4_format hdr U \<le> 1500
     then \<exists>t f' s'. e4_tail_at (up_buffer pk) (17 + et_body_size e4_format hdr U) = Some t \<and>
       e4_DecodePacket h f pk s = Some (0, f', s') \<and> f_packet_num f' = f_packet_num f + 1 \<and>
       (\<forall>b<B. \<forall>q<S. \<forall>c<U. let m' = f_pointData f' (k + (b * S + q) * U + c);
            row = 15 + b * (2 + S * (4 + 4 * U)) + q * (4 + 4 * U); off = row + 4 + 4 * c
          in (\<exists>az el. ld16 (up_buffer pk) row = Some az \<and> ld16 (up_buffer pk) (row + 2) = Some el \<and>
                pd_azimuth m' = et_raw_angle az \<and> pd_elevation m' = et_raw_angle el) \<and>
             ld16 (up_buffer pk) off = Some (pd_distances m') \<and>
             ld8 (up_buffer pk) (off + 2) = Some (pd_reflectivities m') \<and>
             ld8 (up_buffer pk) (off + 3) = Some (pd_confidence m')) \<and>
       (\<forall>j. j < k \<or> k + B * (S * U) \<le> j \<longrightarrow> f_pointData f' j = f_pointData f j) \<and>
       f_scan_complete f' = (use_angle (p2 s) \<and> 0 \<le> et_last_frameid s \<and> et_last_frameid s \<noteq> uint (e4_FrameID t)) \<and>
       et_last_frameid s' = uint (e4_FrameID t)
     else e4_DecodePacket h f pk s = None"
proof (cases "0 < S \<and> et_end e4_format hdr U \<le> 1500")
  case False
  then have "et_SeqNum hdr = 0 \<or> 1500 < et_end e4_format hdr (unat (et_LaserNum hdr) div unat (et_SeqNum hdr))"
    unfolding L S U by (auto simp: unat_gt_0)
  then show ?thesis using False e4.overrun [OF acc hdr] by (simp add: e4_DecodePacket_def)
next
  case True
  let ?buf = "up_buffer pk"
  note len = et_accepted_bytes(1) [OF acc]
  have format: "ef_usz e4_format = 4" "ef_asz e4_format = 4" "ef_row e4_format = e4_row"
    "ef_tail_at e4_format = e4_tail_at" "ef_frame_id e4_format = e4_FrameID" by (simp_all add: e4_format_def)
  obtain t f' s' where 1: "e4_tail_at ?buf (17 + et_body_size e4_format hdr U) = Some t"
      "et_DecodePacket e4_format h f pk s = Some (0, f', s')" "f_packet_num f' = f_packet_num f + 1"
    and at: "\<forall>b<B. \<forall>q<S. \<forall>c<U. f_pointData f' (k + (b * S + q) * U + c) =
        the (snd (the (e4_row ?buf t q (15 + et_unit_row 4 4 U S b q))) c
             (15 + et_unit_row 4 4 U S b q + 4 + 4 * c)) (f_pointData f (k + (b * S + q) * U + c))"
    and 2: "\<forall>j. j < k \<or> k + B * (S * U) \<le> j \<longrightarrow> f_pointData f' j = f_pointData f j"
      "f_scan_complete f' = (use_angle (p2 s) \<and> 0 \<le> et_last_frameid s \<and> et_last_frameid s \<noteq> uint (e4_FrameID t))"
      "et_last_frameid s' = uint (e4_FrameID t)"
    using e4.decoded [OF acc n hdr L B S k U conjunct1 [OF True] conjunct2 [OF True], of h] unfolding format
    by (elim exE conjE) (rule that, assumption+)
  have size: "17 + B * (2 + S * (4 + 4 * U)) \<le> 1500"
    using True by (simp add: et_end_def e4.body_size format B S)
  have "let m' = f_pointData f' (k + (b * S + q) * U + c);
        row = 15 + b * (2 + S * (4 + 4 * U)) + q * (4 + 4 * U); off = row + 4 + 4 * c
      in (\<exists>az el. ld16 ?buf row = Some az \<and> ld16 ?buf (row + 2) = Some el \<and>
            pd_azimuth m' = et_raw_angle az \<and> pd_elevation m' = et_raw_angle el) \<and>
         ld16 ?buf off = Some (pd_distances m') \<and> ld8 ?buf (off + 2) = Some (pd_reflectivities m') \<and>
         ld8 ?buf (off + 3) = Some (pd_confidence m')" if bqc: "b < B" "q < S" "c < U" for b q c
  proof -
    let ?row = "15 + et_unit_row 4 4 U S b q"
    have "?row + 4 \<le> length ?buf" "?row + 4 + 4 * c + 4 \<le> length ?buf"
      using et_unit_in [OF bqc, of 4 4] size len by linarith+
    note e4_unit_data [OF this, where t = t and r = q and c = c and m = "f_pointData f (k + (b * S + q) * U + c)"]
    then show ?thesis using at [rule_format, OF bqc] by (simp add: et_unit_row_def Let_def add.assoc)
  qed
  then show ?thesis using True 1 2 by (simp add: e4_DecodePacket_def)
qed

end
