(* ===== verification/Udp2_5.thy ===== *)
theory Udp2_5
  imports Et_Corrections
begin

text \<open>
  The parser of ET25: \<open>src/libhesai/UdpParser/src/udp2_5_parser.cc\<close> and the structs of
  \<open>src/libhesai/UdpProtocol/udp_protocol_v2_5.h\<close>. The header of the packet and the loops are those of
  Et\_Decoder, the correction file and the angles those of Et\_Corrections. The textual correction file
  is not modelled here.
\<close>

section \<open>Structs\<close>

record HS_LIDAR_TAIL_ET_V5 =
  e5_reservedInfo1 :: "u16 \<times> u8"
  e5_Mirror_index :: u8
  e5_reserved :: "u8 list"
  e5_reservedInfo3 :: "u16 \<times> u8"
  e5_FrameID :: u8
  e5_ShutDown :: u8
  e5_EchoMode :: u8
  e5_UTC :: "u8 list"
  e5_Timestamp :: u32
  e5_FactoryInfo :: u8

definition e5_tail_at :: "u8 list \<Rightarrow> nat \<Rightarrow> HS_LIDAR_TAIL_ET_V5 option" where
  "e5_tail_at buf off = do {
     r1 \<leftarrow> reserved_info_at buf off;
     mi \<leftarrow> ld8 buf (off + 3);
     re \<leftarrow> bytes_at 2 buf (off + 4);
     r3 \<leftarrow> reserved_info_at buf (off + 6);
     fi \<leftarrow> ld8 buf (off + 9);
     sd \<leftarrow> ld8 buf (off + 10);
     em \<leftarrow> ld8 buf (off + 11);
     utc \<leftarrow> bytes_at 6 buf (off + 12);
     ts \<leftarrow> ld32 buf (off + 18);
     fa \<leftarrow> ld8 buf (off + 22);
     Some \<lparr> e5_reservedInfo1 = r1, e5_Mirror_index = mi, e5_reserved = re, e5_reservedInfo3 = r3, e5_FrameID = fi,
            e5_ShutDown = sd, e5_EchoMode = em, e5_UTC = utc, e5_Timestamp = ts, e5_FactoryInfo = fa \<rparr> }"

record udp2_5_parser = et_parser +
  e5_corrections :: ETCorrections

definition Udp2_5Parser_new :: "libm \<Rightarrow> udp2_5_parser \<Rightarrow> udp2_5_parser" where
  "Udp2_5Parser_new lm mem = mem \<lparr> p2 := GeneralParser_new lm (p2 mem), et_get_correction_file := False,
     et_last_frameid := -1 \<rparr>"

section \<open>The correction file\<close>

text \<open>The headers of the versions, with the number of turns of version 4, and the address behind them.\<close>

definition e5_header :: "u8 list \<Rightarrow> u8 \<Rightarrow> ETCorrections \<Rightarrow> (ETCorrections \<times> nat) option" where
  "e5_header data version c =
     (if version = 1 \<or> version = 2 then do {
        h \<leftarrow> getDataFromV1V2 data (ec_header c);
        Some (c \<lparr> ec_header := h \<rparr>, 16) }
      else if version = 3 then do {
        h \<leftarrow> et_header_v3 data (ec_header c);
        Some (c \<lparr> ec_header := h \<rparr>, 17) }
      else do {
        (h, turns) \<leftarrow> getDataFromV3_4 data (ec_header c);
        Some (c \<lparr> ec_header := h, ec_turn_number := turns \<rparr>, 16) })"

definition e5_LoadCorrectionDatData :: "u8 list \<Rightarrow> udp2_5_parser \<Rightarrow> (int \<times> udp2_5_parser) option" where
  "e5_LoadCorrectionDatData data s = do {
     ETheader \<leftarrow> et_header_v3 data (ec_header (e5_corrections s));
     let version = eh_min_version ETheader;
     if eh_delimiter ETheader = (0xee, 0xff) \<and> 1 \<le> version \<and> version \<le> 4 then do {
       (c, off) \<leftarrow> e5_header data version (e5_corrections s);
       let c = c \<lparr> ec_min_version := eh_min_version (ec_header c) \<rparr>;
       if unat (eh_channel_number (ec_header c)) > ET_MAX_CHANNEL_NUM - 3 \<or> eh_angle_division (ec_header c) = 0 \<or>
          version = 4 \<and> eh_mirror_number (ec_header c) > 8
       then Some (-1, s \<lparr> e5_corrections := c \<rparr>)
       else do {
         c \<leftarrow> (if version = 1 then et_load_1 data off c
               else if version = 4 then et_load_4 data off c
               else et_load_2 data off c);
         Some (0, s \<lparr> e5_corrections := c, et_get_correction_file := True \<rparr>) } }
     else Some (-1, s) }"

section \<open>The decoder\<close>

definition e5_row :: "u8 list \<Rightarrow> HS_LIDAR_TAIL_ET_V5 \<Rightarrow> unit row_reader" where
  "e5_row buf t r pa = do {
     horizontalAngle \<leftarrow> ld16 buf pa;
     verticalAngle \<leftarrow> ld16 buf (pa + 2);
     Some ((), \<lambda>i off. do {
       re \<leftarrow> ld8 buf (off + 2);
       d \<leftarrow> ld16 buf off;
       Some (\<lambda>pd. pd \<lparr> pd_reflectivities := re, pd_distances := d, pd_azimuth := et_raw_angle horizontalAngle,
                        pd_elevation := et_raw_angle verticalAngle, pd_mirror_index := e5_Mirror_index t \<rparr>) }) }"

definition e5_format :: "HS_LIDAR_TAIL_ET_V5 et_format" where
  "e5_format = \<lparr> ef_usz = 3, ef_asz = 5, ef_trailer = 36, ef_row = e5_row, ef_tail_at = e5_tail_at,
     ef_frame_id = e5_FrameID, ef_shutdown = e5_ShutDown, ef_echo_mode = e5_EchoMode,
     ef_time = (\<lambda>tz t. lidar_time_2_5 tz (e5_UTC t) (e5_Timestamp t)) \<rparr>"

definition e5_DecodePacket :: "host \<Rightarrow> LidarDecodedFrame \<Rightarrow> UdpPacket \<Rightarrow> udp2_5_parser \<Rightarrow>
    (int \<times> LidarDecodedFrame \<times> udp2_5_parser) option" where
  "e5_DecodePacket = et_DecodePacket e5_format"

section \<open>The points\<close>

definition e5_adjusted :: "ETCorrections \<Rightarrow> nat \<Rightarrow> int \<Rightarrow> fp \<times> fp \<Rightarrow> (fp \<times> fp) option" where
  "e5_adjusted c mirror_index turn_index angles =
     (let (azi_h, elv_h) = angles; version = eh_min_version (ec_header c) in
      if version = 2 \<or> version = 3 then do {
        a \<leftarrow> getAziAdjustV2 c (fsub azi_h (Fin 90)) elv_h;
        let azi_h = fadd azi_h a;
        e \<leftarrow> getEleAdjustV2 c (fsub azi_h (Fin 90)) elv_h;
        Some (azi_h, fadd elv_h e) }
      else if ec_min_version c = 4 then do {
        a \<leftarrow> getAziAdjustV4 c (fsub azi_h (Fin 90)) elv_h turn_index;
        let azi_h = fadd azi_h a;
        e \<leftarrow> getEleAdjustV4 c (fsub azi_h (Fin 90)) elv_h turn_index;
        let elv_h = fadd elv_h e;
        a \<leftarrow> arr 8 (ec_azimuth_offset_delta_f c) mirror_index;
        e \<leftarrow> arr 8 (ec_elevation_offset_delta_f c) mirror_index;
        Some (fadd azi_h a, fadd elv_h e) }
      else Some (azi_h, elv_h))"

definition e5_point :: "libm \<Rightarrow> udp2_5_parser \<Rightarrow> nat \<Rightarrow> int \<Rightarrow> fp \<Rightarrow> int \<Rightarrow> LidarDecodedFrame \<Rightarrow> nat \<Rightarrow> nat \<Rightarrow>
    (LidarPoint \<Rightarrow> LidarPoint) option" where
  "e5_point lm s mirror_index turn_index gamma packet_index f i k = do {
     d \<leftarrow> get_point_data k f;
     let c = e5_corrections s;
     let distance = to_float (dmul (f64_of_int (uint (pd_distances d))) (f_distance_unit f));
     phi \<leftarrow> arr ET_MAX_CHANNEL_NUM (ec_azimuths c) (i + 3);
     theta \<leftarrow> arr ET_MAX_CHANNEL_NUM (ec_elevations c) (i + 3);
     angles \<leftarrow> e5_adjusted c mirror_index turn_index
       (et_angles lm (ec_elevations c 0) (ec_elevations c 1) gamma phi theta (pd_azimuth d) (pd_elevation d));
     et_place (p2 s) False (word_of_nat i) packet_index f d angles distance }"

text \<open>The numbers of the mirror and of the turn are the halves of a byte of the first point.\<close>

definition e5_ComputeXYZI :: "libm \<Rightarrow> LidarDecodedFrame \<Rightarrow> int \<Rightarrow> udp2_5_parser \<Rightarrow>
    (int \<times> LidarDecodedFrame \<times> udp2_5_parser) option" where
  "e5_ComputeXYZI lm f packet_index s = do {
     let c = e5_corrections s;
     d \<leftarrow> get_point_data (unat ((word_of_int packet_index :: u32) * f_per_points_num f)) f;
     let mirror_index = unat (pd_mirror_index d) div 16;
     let turn_index = int (unat (pd_mirror_index d) mod 16);
     gamma \<leftarrow> (if ec_min_version c = 4 then arr 8 (ec_gamma_f c) mirror_index else Some (ec_elevations c 2));
     f \<leftarrow> compute_blocks (\<lambda>_ _. Some (Some (e5_point lm s mirror_index turn_index gamma packet_index)))
           packet_index (unat (f_block_num f)) 0 f;
     Some (0, f, s \<lparr> p2 := FrameNumAdd (p2 s) \<rparr>) }"

definition et_GetVecticalAngle :: "bool \<Rightarrow> (nat \<Rightarrow> fp) \<Rightarrow> nat \<Rightarrow> int option" where
  "et_GetVecticalAngle loaded elevations channel =
     (if \<not> loaded then Some (-1)
      else do { e \<leftarrow> arr ET_MAX_CHANNEL_NUM elevations channel; fp_to_range (-32768) 32767 e })"

section \<open>The protocol obeys the laws of the family\<close>

lemma e5_tail_in: "e5_tail_at buf off \<noteq> None \<longleftrightarrow> off + 23 \<le> length buf"
  by (auto simp: e5_tail_at_def load_def ld8_def bytes_at_def reserved_info_at_def split: Option.bind_splits if_splits)

lemma e5_row_out: "length buf < pa + 4 \<Longrightarrow> e5_row buf t r pa = None"
  by (auto simp: e5_row_def load_def split: Option.bind_splits)

lemma e5_row_in: "pa + 5 \<le> length buf \<Longrightarrow> \<exists>rd. e5_row buf t r pa = Some ((), rd)"
  by (simp add: e5_row_def load_def)

lemma e5_unit_in: "e5_row buf t r pa = Some (i, rd) \<Longrightarrow> off + 3 \<le> length buf \<Longrightarrow> rd c off \<noteq> None"
  by (auto simp: e5_row_def load_def ld8_def split: Option.bind_splits)

interpretation e5: et_layout e5_format
  using e5_tail_in e5_row_out e5_row_in e5_unit_in by unfold_locales (simp_all add: e5_format_def)

lemma e5_unit_data:
  assumes "row + 5 \<le> length buf" and "off + 3 \<le> length buf"
  shows "let m' = the (snd (the (e5_row buf t r row)) c off) m
    in (\<exists>h v. ld16 buf row = Some h \<and> ld16 buf (row + 2) = Some v \<and> pd_azimuth m' = et_raw_angle h \<and>
          pd_elevation m' = et_raw_angle v) \<and>
       ld16 buf off = Some (pd_distances m') \<and> ld8 buf (off + 2) = Some (pd_reflectivities m') \<and>
       pd_mirror_index m' = e5_Mirror_index t"
proof -
  obtain h where h: "ld16 buf row = Some h" using assms(1) by (cases "ld16 buf row") (simp_all add: load_def)
  obtain v where v: "ld16 buf (row + 2) = Some v"
    using assms(1) by (cases "ld16 buf (row + 2)") (simp_all add: load_def)
  obtain d where d: "ld16 buf off = Some d" using assms(2) by (cases "ld16 buf off") (simp_all add: load_def)
  obtain re where re: "ld8 buf (off + 2) = Some re" using assms(2) by (simp add: ld8_def)
  show ?thesis using h v d re by (simp add: e5_row_def Let_def)
qed

section \<open>Behaviour of the decoder\<close>

text \<open>
  A packet of ET25. When the blocks, the tail and the sequence number that the header announces are
  inside the buffer, every unit of every sequence is written into the frame with its own distance and
  reflectivity, the angles of its sequence and the mirror of the packet, one entry after the other, and
  the entries of other packets do not change; a frame ends exactly when its number is not that of the
  packet before. Otherwise the decoder reads behind the buffer, also where the announced size wraps
  around, and a header without sequences makes it divide by zero.
\<close>

theorem e5_DecodePacket_points:
  assumes acc: "et_accepted pk s" and n: "unat (f_packet_num f) < 5000"
    and hdr: "et_header_at (up_buffer pk) 6 = Some hdr"
    and L: "L = unat (et_LaserNum hdr)" and B: "B = unat (et_BlockNum hdr)" and S: "S = unat (et_SeqNum hdr)"
    and k: "k = unat (f_packet_num f) * (B * L)" and U: "U = L div S"
  shows "if 0 < S \<and> et_end e5_format hdr U \<le> 1500
     then \<exists>t f' s'. e5_tail_at (up_buffer pk) (17 + et_body_size e5_format hdr U) = Some t \<and>
       e5_DecodePacket h f pk s = Some (0, f', s') \<and> f_packet_num f' = f_packet_num f + 1 \<and>
       (\<forall>b<B. \<forall>q<S. \<forall>c<U. let m' = f_pointData f' (k + (b * S + q) * U + c);
            row = 15 + b * (2 + S * (5 + 3 * U)) + q * (5 + 3 * U); off = row + 5 + 3 * c
          in (\<exists>az el. ld16 (up_buffer pk) row = Some az \<and> ld16 (up_buffer pk) (row + 2) = Some el \<and>
                pd_azimuth m' = et_raw_angle az \<and> pd_elevation m' = et_raw_angle el) \<and>
             ld16 (up_buffer pk) off = Some (pd_distances m') \<and>
             ld8 (up_buffer pk) (off + 2) = Some (pd_reflectivities m') \<and>
             pd_mirror_index m' = e5_Mirror_index t) \<and>
       (\<forall>j. j < k \<or> k + B * (S * U) \<le> j \<longrightarrow> f_pointData f' j = f_pointData f j) \<and>
       f_scan_complete f' = (use_angle (p2 s) \<and> 0 \<le> et_last_frameid s \<and> et_last_frameid s \<noteq> uint (e5_FrameID t)) \<and>
       et_last_frameid s' = uint (e5_FrameID t)
     else e5_DecodePacket h f pk s = None"
proof (cases "0 < S \<and> et_end e5_format hdr U \<le> 1500")
  case False
  then have "et_SeqNum hdr = 0 \<or> 1500 < et_end e5_format hdr (unat (et_LaserNum hdr) div unat (et_SeqNum hdr))"
    unfolding L S U by (auto simp: unat_gt_0)
  then show ?thesis using False e5.overrun [OF acc hdr] by (simp add: e5_DecodePacket_def)
next
  case True
  let ?buf = "up_buffer pk"
  note len = et_accepted_bytes(1) [OF acc]
  have format: "ef_usz e5_format = 3" "ef_asz e5_format = 5" "ef_row e5_format = e5_row"
    "ef_tail_at e5_format = e5_tail_at" "ef_frame_id e5_format = e5_FrameID" by (simp_all add: e5_format_def)
  obtain t f' s' where 1: "e5_tail_at ?buf (17 + et_body_size e5_format hdr U) = Some t"
      "et_DecodePacket e5_format h f pk s = Some (0, f', s')" "f_packet_num f' = f_packet_num f + 1"
    and at: "\<forall>b<B. \<forall>q<S. \<forall>c<U. f_pointData f' (k + (b * S + q) * U + c) =
        the (snd (the (e5_row ?buf t q (15 + et_unit_row 3 5 U S b q))) c
             (15 + et_unit_row 3 5 U S b q + 5 + 3 * c)) (f_pointData f (k + (b * S + q) * U + c))"
    and 2: "\<forall>j. j < k \<or> k + B * (S * U) \<le> j \<longrightarrow> f_pointData f' j = f_pointData f j"
      "f_scan_complete f' = (use_angle (p2 s) \<and> 0 \<le> et_last_frameid s \<and> et_last_frameid s \<noteq> uint (e5_FrameID t))"
      "et_last_frameid s' = uint (e5_FrameID t)"
    using e5.decoded [OF acc n hdr L B S k U conjunct1 [OF True] conjunct2 [OF True], of h] unfolding format
    by (elim exE conjE) (rule that, assumption+)
  have size: "17 + B * (2 + S * (5 + 3 * U)) \<le> 1500"
    using True by (simp add: et_end_def e5.body_size format B S)
  have "let m' = f_pointData f' (k + (b * S + q) * U + c);
        row = 15 + b * (2 + S * (5 + 3 * U)) + q * (5 + 3 * U); off = row + 5 + 3 * c
      in (\<exists>az el. ld16 ?buf row = Some az \<and> ld16 ?buf (row + 2) = Some el \<and>
            pd_azimuth m' = et_raw_angle az \<and> pd_elevation m' = et_raw_angle el) \<and>
         ld16 ?buf off = Some (pd_distances m') \<and> ld8 ?buf (off + 2) = Some (pd_reflectivities m') \<and>
         pd_mirror_index m' = e5_Mirror_index t" if bqc: "b < B" "q < S" "c < U" for b q c
  proof -
    let ?row = "15 + et_unit_row 3 5 U S b q"
    have "?row + 5 \<le> length ?buf" "?row + 5 + 3 * c + 3 \<le> length ?buf"
      using et_unit_in [OF bqc, of 3 5] size len by linarith+
    note e5_unit_data [OF this, where t = t and r = q and c = c and m = "f_pointData f (k + (b * S + q) * U + c)"]
    then show ?thesis using at [rule_format, OF bqc] by (simp add: et_unit_row_def Let_def add.assoc)
  qed
  then show ?thesis using True 1 2 by (simp add: e5_DecodePacket_def)
qed

definition e5_parser_ex :: udp2_5_parser where
  "e5_parser_ex = et_parser.extend et_parser_ex \<lparr> e5_corrections = undefined \<rparr>"

lemma e5_parser_fields:
  "et_get_correction_file e5_parser_ex" "use_angle (p2 e5_parser_ex)" "et_last_frameid e5_parser_ex = 5"
  by (simp_all add: e5_parser_ex_def et_parser.defs et_parser_ex_def)

theorem e5_DecodePacket_points_witness:
  "(\<exists>f' s'. e5_DecodePacket host_ex frame_ex (et_ex 2) e5_parser_ex = Some (0, f', s') \<and> f_scan_complete f' \<and>
      pd_distances (f_pointData f' 1) = 276 \<and> pd_azimuth (f_pointData f' 1) = et_raw_angle 1536) \<and>
   e5_DecodePacket host_ex frame_ex (et_ex 0) e5_parser_ex = None"
proof -
  have f: "f_packet_num frame_ex = 0" by (simp add: frame_ex_def LidarDecodedFrame_new_def)
  note ok = et_ex_ok [OF e5_parser_fields(1)]
  have "e5_DecodePacket host_ex frame_ex (et_ex 0) e5_parser_ex = None"
    using e5_DecodePacket_points [OF ok(1) [of 0] _ ok(2) refl refl refl refl refl, where f = frame_ex and h = host_ex]
    by (simp add: f et_header_ex_def)
  moreover have h: "unat (et_LaserNum (et_header_ex 2)) = 2" "unat (et_BlockNum (et_header_ex 2)) = 1"
      "unat (et_SeqNum (et_header_ex 2)) = 2"
    and e: "et_end e5_format (et_header_ex 2) (Suc 0) = 58" "et_body_size e5_format (et_header_ex 2) (Suc 0) = 18"
    by (simp_all add: et_header_ex_def et_end_def et_body_size_def e5_format_def et_HasSeqNum_def)
  have b: "ld16 (up_buffer (et_ex 2)) 23 = Some 1536" "ld16 (up_buffer (et_ex 2)) 28 = Some 276"
    by (simp_all add: et_ex_def packet_ex_prefix) (simp_all add: et_bytes_ex_def load_def take_Cons')
  obtain t f' s' where t: "e5_tail_at (up_buffer (et_ex 2)) 35 = Some t"
    and 1: "e5_DecodePacket host_ex frame_ex (et_ex 2) e5_parser_ex = Some (0, f', s')"
    and p: "\<forall>q<2. \<exists>az. ld16 (up_buffer (et_ex 2)) (15 + q * 8) = Some az \<and> pd_azimuth (f_pointData f' q) = et_raw_angle az"
      "\<forall>q<2. ld16 (up_buffer (et_ex 2)) (20 + q * 8) = Some (pd_distances (f_pointData f' q))"
    and c: "f_scan_complete f' = (use_angle (p2 e5_parser_ex) \<and> 0 \<le> et_last_frameid e5_parser_ex \<and>
        et_last_frameid e5_parser_ex \<noteq> uint (e5_FrameID t))"
    using e5_DecodePacket_points [OF ok(1) [of 2] _ ok(2) refl refl refl refl refl, where f = frame_ex and h = host_ex]
    by (simp add: f h e Let_def e5_parser_fields) blast
  have "ld8 (up_buffer (et_ex 2)) 44 = Some 7"
    by (simp add: et_ex_def packet_ex_def ld8_def nth_append)
  then have "e5_FrameID t = 7" using t by (auto simp: e5_tail_at_def)
  then show ?thesis
    using calculation 1 c b p(1) [rule_format, of 1] p(2) [rule_format, of 1] by (auto simp: e5_parser_fields)
qed

section \<open>The tables of adjustments\<close>


text \<open>
  Which files of version 2 write behind the tables. The length of the tables comes from the two steps in the
  file and is not checked: loading a file that is otherwise in order and long enough is undefined exactly
  when a step is 0 or the tables would have more than the 3000 entries of the arrays, as with steps
  of one degree.
\<close>

theorem e5_table_overruns:
  assumes h: "getDataFromV1V2 data (ec_header (e5_corrections s)) = Some h"
    and ok: "eh_delimiter h = (0xee, 0xff)" "eh_min_version h = 2" "unat (eh_channel_number h) = n" "eh_angle_division h \<noteq> 0"
    and len: "16 + 4 * n + 2 + 4 * 3000 + 32 \<le> length data"
  defines "H \<equiv> data ! (16 + 4 * n)" and "V \<equiv> data ! (16 + 4 * n + 1)"
  shows "e5_LoadCorrectionDatData data s = None \<longleftrightarrow> H = 0 \<or> V = 0 \<or> 3000 < the (et_adjust_len H V)"
proof -
  let ?c = "e5_corrections s \<lparr> ec_header := h, ec_min_version := 2 \<rparr>"
  have "take_bit 16 (unat w) \<le> 509" for w :: u8
    using unat_u8_less [of w] take_bit_nat_less_eq_self [of 16 "unat w"] by linarith
  then have n: "n \<le> 509"
    using h ok(3) by (auto simp: getDataFromV1V2_def et_angles_at_def ld8_def unsigned_ucast_eq split: if_splits)
  obtain h' where h': "et_header_v3 data (ec_header (e5_corrections s)) = Some h'"
    "eh_delimiter h' = (0xee, 0xff)" "eh_min_version h' = 2"
    using h ok len by (fastforce simp: getDataFromV1V2_def et_header_v3_def et_start_at_def et_angles_at_def ld8_def load_def)
  have "e5_LoadCorrectionDatData data s = None \<longleftrightarrow> et_load_2 data 16 ?c = None"
    using n ok by (cases "et_load_2 data 16 ?c")
      (simp_all add: e5_LoadCorrectionDatData_def h' e5_header_def h Let_def ET_MAX_CHANNEL_NUM_def del: bind_Some_iff)
  then show ?thesis
    using et_load_2_defined [of ?c n 16 data] ok(3) n len unfolding H_def V_def by simp
qed

text \<open>A file without channels, with steps \<open>H\<close> and \<open>V\<close>.\<close>

definition e5_file_ex :: "u8 \<Rightarrow> u8 \<Rightarrow> nat \<Rightarrow> u8 list" where
  "e5_file_ex H V n = [0xee, 0xff, 1, 2, 0, 0, 0, 0, 1, 0, 0, 0, 0, 0, 0, 0, H, V] @ replicate n 0"

lemma e5_file_header:
  "\<exists>h. getDataFromV1V2 (e5_file_ex H V n) h0 = Some h \<and> eh_delimiter h = (0xee, 0xff) \<and> eh_min_version h = 2 \<and>
     eh_channel_number h = 0 \<and> eh_angle_division h = 1"
  by (simp add: getDataFromV1V2_def et_start_at_def et_angles_at_def e5_file_ex_def ld8_def load_def)

lemma et_adjust_len_ex: "et_adjust_len 240 50 = Some 4" "et_adjust_len 2 2 = Some 3146"
proof -
  have i: "f64 120 = Fin 120" "f64 25 = Fin 25" "f64 1 = Fin 1" "f64 2 = Fin 2" "f64 240 = Fin 240" "f64 50 = Fin 50"
    "f64 4 = Fin 4" "f64 121 = Fin 121" "f64 26 = Fin 26" "f64 3146 = Fin 3146"
    using f64_int [of 120] f64_int [of 25] f64_int [of 1] f64_int [of 2] f64_int [of 240] f64_int [of 50]
      f64_int [of 4] f64_int [of 121] f64_int [of 26] f64_int [of 3146] by simp_all
  show "et_adjust_len 240 50 = Some 4" "et_adjust_len 2 2 = Some 3146"
    using fp_to_int_of_int [of 4] fp_to_int_of_int [of 3146]
    by (simp_all add: et_adjust_len_def f64_of_int_def i)
qed

theorem e5_table_overruns_witness:
  "e5_LoadCorrectionDatData (e5_file_ex 2 2 13000) e5_parser_ex = None"
proof -
  obtain h where h: "getDataFromV1V2 (e5_file_ex 2 2 13000) (ec_header (e5_corrections e5_parser_ex)) = Some h"
    "eh_delimiter h = (0xee, 0xff)" "eh_min_version h = 2" "unat (eh_channel_number h) = 0" "eh_angle_division h \<noteq> 0"
    using e5_file_header [of 2 2 13000 "ec_header (e5_corrections e5_parser_ex)"] by auto
  show ?thesis
    using e5_table_overruns [OF h] et_adjust_len_ex(2) by (simp add: e5_file_ex_def)
qed


end
