(* ===== verification/Udp2_6.thy ===== *)
theory Udp2_6
  imports Et_Corrections
begin

text \<open>
  The parser of the ET lidars with protocol 2.6: \<open>src/libhesai/UdpParser/src/udp2_6_parser.cc\<close> and the
  structs of \<open>src/libhesai/UdpProtocol/udp_protocol_v2_6.h\<close>. A sequence has a unit for each laser of its
  share and then some units of second returns, which name their channel; the two kinds go to two parts
  of the entries of the packet. The number of lasers has 16 bits. The textual correction file is not
  modelled here.
\<close>

section \<open>Structs\<close>

record HS_LIDAR_HEADER_ET_V6 =
  e6_LaserNum :: u16
  e6_BlockNum :: u8
  e6_EchoCount :: u8
  e6_DistUnit :: u8
  e6_SeqNum :: u8
  e6_SecRetNum :: u8
  e6_Reserved2 :: u8

definition e6_header_at :: "u8 list \<Rightarrow> nat \<Rightarrow> HS_LIDAR_HEADER_ET_V6 option" where
  "e6_header_at buf off = do {
     l \<leftarrow> ld16 buf off;
     b \<leftarrow> ld8 buf (off + 2);
     ec \<leftarrow> ld8 buf (off + 3);
     du \<leftarrow> ld8 buf (off + 4);
     sn \<leftarrow> ld8 buf (off + 5);
     sr \<leftarrow> ld8 buf (off + 6);
     r \<leftarrow> ld8 buf (off + 7);
     Some \<lparr> e6_LaserNum = l, e6_BlockNum = b, e6_EchoCount = ec, e6_DistUnit = du, e6_SeqNum = sn,
            e6_SecRetNum = sr, e6_Reserved2 = r \<rparr> }"

record HS_LIDAR_TAIL_ET_V6 =
  e6_reservedInfo1 :: "u16 \<times> u8"
  e6_reservedInfo2 :: "u16 \<times> u8"
  e6_reservedInfo3 :: "u16 \<times> u8"
  e6_FrameID :: u8
  e6_ShutDown :: u8
  e6_UTC :: "u8 list"
  e6_Timestamp :: u32
  e6_FactoryInfo :: u8

definition e6_tail_at :: "u8 list \<Rightarrow> nat \<Rightarrow> HS_LIDAR_TAIL_ET_V6 option" where
  "e6_tail_at buf off = do {
     r1 \<leftarrow> reserved_info_at buf off;
     r2 \<leftarrow> reserved_info_at buf (off + 3);
     r3 \<leftarrow> reserved_info_at buf (off + 6);
     fi \<leftarrow> ld8 buf (off + 9);
     sd \<leftarrow> ld8 buf (off + 10);
     utc \<leftarrow> bytes_at 6 buf (off + 11);
     ts \<leftarrow> ld32 buf (off + 17);
     fa \<leftarrow> ld8 buf (off + 21);
     Some \<lparr> e6_reservedInfo1 = r1, e6_reservedInfo2 = r2, e6_reservedInfo3 = r3, e6_FrameID = fi,
            e6_ShutDown = sd, e6_UTC = utc, e6_Timestamp = ts, e6_FactoryInfo = fa \<rparr> }"

definition e6_row_size :: "HS_LIDAR_HEADER_ET_V6 \<Rightarrow> nat \<Rightarrow> nat" where
  "e6_row_size hdr units = 6 + 3 * units + 4 * unat (e6_SecRetNum hdr)"

definition e6_body_size :: "HS_LIDAR_HEADER_ET_V6 \<Rightarrow> nat \<Rightarrow> nat" where
  "e6_body_size hdr units = (2 + e6_row_size hdr units * unat (e6_SeqNum hdr)) * unat (e6_BlockNum hdr)"

definition e6_GetPacketSize :: "HS_LIDAR_HEADER_ET_V6 \<Rightarrow> u16 option" where
  "e6_GetPacketSize hdr = do {
     units \<leftarrow> et_units (unat (e6_LaserNum hdr)) (e6_SeqNum hdr);
     Some (word_of_nat (6 + 8 + e6_body_size hdr units + 22 + 4 + 32)) }"

definition e6_tail :: "HS_LIDAR_HEADER_ET_V6 \<Rightarrow> nat option" where
  "e6_tail hdr = do {
     size \<leftarrow> e6_GetPacketSize hdr;
     nat_index (uint size - 32 - 4 - 22) }"

record udp2_6_parser = et_parser +
  e6_corrections :: ETCorrections

definition Udp2_6Parser_new :: "libm \<Rightarrow> udp2_6_parser \<Rightarrow> udp2_6_parser" where
  "Udp2_6Parser_new lm mem = mem \<lparr> p2 := GeneralParser_new lm (p2 mem), et_get_correction_file := False,
     et_last_frameid := -1 \<rparr>"

section \<open>The correction file\<close>

definition e6_LoadCorrectionDatData :: "u8 list \<Rightarrow> udp2_6_parser \<Rightarrow> (int \<times> udp2_6_parser) option" where
  "e6_LoadCorrectionDatData data s = do {
     ETheader \<leftarrow> et_header_v3 data (ec_header (e6_corrections s));
     let version = eh_min_version ETheader;
     if eh_delimiter ETheader = (0xee, 0xff) \<and> (version = 1 \<or> version = 2) then do {
       h \<leftarrow> getDataFromV1V2 data (ec_header (e6_corrections s));
       let c = (e6_corrections s) \<lparr> ec_header := h \<rparr>;
       if unat (eh_channel_number h) > ET_MAX_CHANNEL_NUM - 3 \<or> eh_angle_division h = 0
       then Some (-1, s \<lparr> e6_corrections := c \<rparr>)
       else do {
         c \<leftarrow> (if version = 1 then et_load_1 data 16 c else et_load_2 data 16 c);
         Some (0, s \<lparr> e6_corrections := c, et_get_correction_file := True \<rparr>) } }
     else Some (-1, s) }"

section \<open>The decoder\<close>

definition e6_unit_1 :: "u8 list \<Rightarrow> u16 \<Rightarrow> u16 \<Rightarrow> point_reader" where
  "e6_unit_1 buf horizontalAngle verticalAngle unitId off = do {
     re \<leftarrow> ld8 buf (off + 2);
     d \<leftarrow> ld16 buf off;
     Some (\<lambda>pd. pd \<lparr> pd_reflectivities := re, pd_distances := d, pd_azimuth := et_raw_angle horizontalAngle,
                      pd_elevation := et_raw_angle verticalAngle, pd_chn_index := word_of_nat unitId \<rparr>) }"

definition e6_unit_2 :: "u8 list \<Rightarrow> u16 \<Rightarrow> u16 \<Rightarrow> point_reader" where
  "e6_unit_2 buf horizontalAngle verticalAngle unitId off = do {
     re \<leftarrow> ld8 buf (off + 3);
     d \<leftarrow> ld16 buf (off + 1);
     ci \<leftarrow> ld8 buf off;
     Some (\<lambda>pd. pd \<lparr> pd_reflectivities := re, pd_distances := d, pd_azimuth := et_raw_angle horizontalAngle,
                      pd_elevation := et_raw_angle verticalAngle, pd_chn_index := ci \<rparr>) }"

text \<open>
  \<open>n\<close> sequences are left; \<open>pa\<close> is \<open>pSeq2\<close>, \<open>i1\<close> and \<open>i2\<close> are \<open>index_unit\<close> and \<open>index_unit2\<close>. There is no loop over
  the blocks.
\<close>

fun e6_seqs :: "u8 list \<Rightarrow> nat \<Rightarrow> nat \<Rightarrow> nat \<Rightarrow> nat \<Rightarrow> int \<Rightarrow> int \<Rightarrow> LidarDecodedFrame \<Rightarrow> LidarDecodedFrame option" where
  "e6_seqs buf U R 0 pa i1 i2 f = Some f"
| "e6_seqs buf U R (Suc n) pa i1 i2 f = do {
     horizontalAngle \<leftarrow> ld16 buf pa;
     verticalAngle \<leftarrow> ld16 buf (pa + 2);
     (i1, f) \<leftarrow> read_row (e6_unit_1 buf horizontalAngle verticalAngle) 3 U 0 (pa + 6) i1 f;
     (i2, f) \<leftarrow> read_row (e6_unit_2 buf horizontalAngle verticalAngle) 4 R 0 (pa + 6 + 3 * U) i2 f;
     e6_seqs buf U R n (pa + 6 + 3 * U + 4 * R) i1 i2 f }"

text \<open>\<open>packet_num * (GetLaserNum() + GetSecRetNum() * GetSeqNum()) * GetBlockNum()\<close>, unsigned, assigned to an \<open>int\<close>.\<close>

definition e6_points_num :: "HS_LIDAR_HEADER_ET_V6 \<Rightarrow> nat" where
  "e6_points_num hdr = unat (e6_LaserNum hdr) + unat (e6_SecRetNum hdr) * unat (e6_SeqNum hdr)"

definition e6_first_index :: "u32 \<Rightarrow> HS_LIDAR_HEADER_ET_V6 \<Rightarrow> int" where
  "e6_first_index packet_num hdr = sint (packet_num * word_of_nat (e6_points_num hdr) * ucast (e6_BlockNum hdr))"

definition e6_body :: "u8 list \<Rightarrow> HS_LIDAR_HEADER_ET_V6 \<Rightarrow> HS_LIDAR_TAIL_ET_V6 \<Rightarrow> LidarDecodedFrame \<Rightarrow>
    udp2_6_parser \<Rightarrow> (int \<times> LidarDecodedFrame \<times> udp2_6_parser) option" where
  "e6_body buf hdr t f s = do {
     units \<leftarrow> et_units (unat (e6_LaserNum hdr)) (e6_SeqNum hdr);
     let index = e6_first_index (f_packet_num f) hdr;
     f \<leftarrow> e6_seqs buf units (unat (e6_SecRetNum hdr)) (unat (e6_SeqNum hdr)) 16 index
           (index + uint (e6_LaserNum hdr)) f;
     Some (et_finish (e6_FrameID t) f s) }"

definition e6_DecodePacket :: "host \<Rightarrow> LidarDecodedFrame \<Rightarrow> UdpPacket \<Rightarrow> udp2_6_parser \<Rightarrow>
    (int \<times> LidarDecodedFrame \<times> udp2_6_parser) option" where
  "e6_DecodePacket h f pk s =
     (let buf = up_buffer pk in
      if \<not> et_get_correction_file s then Some (-1, f, s)
      else do {
        b0 \<leftarrow> ld8 buf 0;
        b1 \<leftarrow> ld8 buf 1;
        if b0 \<noteq> 0xEE \<or> b1 \<noteq> 0xFF then Some (-1, f, s)
        else do {
          pHeader \<leftarrow> e6_header_at buf 6;
          tail \<leftarrow> e6_tail pHeader;
          p \<leftarrow> count_loss h (et_HasSeqNum (e6_Reserved2 pHeader)) buf (tail + 22) (p2 s);
          pTail \<leftarrow> e6_tail_at buf tail;
          let time = lidar_time_2_6 (h_timezone h) (e6_UTC pTail) (e6_Timestamp pTail);
          let p = CalPktTimeLoss (h_time_tick h) time p;
          f \<leftarrow> put_timestamp (unat (f_packet_num f))
                (if f_use_timestamp_type f = 0 then time else up_recv_timestamp pk) f;
          let f = f \<lparr> f_host_timestamp := h_now h,
                      f_work_mode := uint (e6_ShutDown pTail),
                      f_distance_unit := et_GetDistUnit (e6_DistUnit pHeader),
                      f_per_points_num := word_of_nat (e6_points_num pHeader * unat (e6_BlockNum pHeader)),
                      f_scan_complete := False,
                      f_block_num := ucast (e6_BlockNum pHeader), f_laser_num := e6_LaserNum pHeader \<rparr>;
          e6_body buf pHeader pTail f (s \<lparr> p2 := p \<rparr>) } })"

section \<open>The points\<close>

definition e6_adjusted :: "ETCorrections \<Rightarrow> fp \<times> fp \<Rightarrow> (fp \<times> fp) option" where
  "e6_adjusted c angles =
     (let (azi_h, elv_h) = angles; version = eh_min_version (ec_header c) in
      if version = 2 \<or> version = 3 then do {
        a \<leftarrow> getAziAdjustV2 c (fsub azi_h (Fin 90)) elv_h;
        let azi_h = fadd azi_h a;
        e \<leftarrow> getEleAdjustV2 c (fsub azi_h (Fin 90)) elv_h;
        Some (azi_h, fadd elv_h e) }
      else Some (azi_h, elv_h))"

text \<open>The channel is that of the decoded data, not the position in the packet.\<close>

definition e6_point :: "libm \<Rightarrow> udp2_6_parser \<Rightarrow> int \<Rightarrow> LidarDecodedFrame \<Rightarrow> nat \<Rightarrow> nat \<Rightarrow>
    (LidarPoint \<Rightarrow> LidarPoint) option" where
  "e6_point lm s packet_index f i k = do {
     d \<leftarrow> get_point_data k f;
     let c = e6_corrections s;
     let channel = unat (pd_chn_index d);
     let distance = to_float (dmul (f64_of_int (uint (pd_distances d))) (f_distance_unit f));
     phi \<leftarrow> arr ET_MAX_CHANNEL_NUM (ec_azimuths c) (channel + 3);
     theta \<leftarrow> arr ET_MAX_CHANNEL_NUM (ec_elevations c) (channel + 3);
     angles \<leftarrow> e6_adjusted c (et_angles lm (ec_elevations c 0) (ec_elevations c 1) (ec_elevations c 2) phi theta
       (pd_azimuth d) (pd_elevation d));
     et_place (p2 s) False (word_of_nat channel) packet_index f d angles distance }"

text \<open>One loop over the points, whose number is cut to 16 bits.\<close>

definition e6_ComputeXYZI :: "libm \<Rightarrow> LidarDecodedFrame \<Rightarrow> int \<Rightarrow> udp2_6_parser \<Rightarrow>
    (int \<times> LidarDecodedFrame \<times> udp2_6_parser) option" where
  "e6_ComputeXYZI lm f packet_index s = do {
     let points_num = (ucast (f_per_points_num f) :: u16);
     f \<leftarrow> compute_channels (e6_point lm s packet_index) packet_index 0 (unat points_num) 0 f;
     Some (0, f, s \<lparr> p2 := FrameNumAdd (p2 s) \<rparr>) }"

section \<open>What the loop writes\<close>

text \<open>The data of a unit of the two kinds, in the sequence at address \<open>row\<close>.\<close>

definition e6_first_return :: "u8 list \<Rightarrow> nat \<Rightarrow> nat \<Rightarrow> PointDecodeData \<Rightarrow> bool" where
  "e6_first_return buf row c pd \<longleftrightarrow>
     (\<exists>h v. ld16 buf row = Some h \<and> ld16 buf (row + 2) = Some v \<and> pd_azimuth pd = et_raw_angle h \<and>
        pd_elevation pd = et_raw_angle v) \<and>
     ld16 buf (row + 6 + 3 * c) = Some (pd_distances pd) \<and> ld8 buf (row + 6 + 3 * c + 2) = Some (pd_reflectivities pd) \<and>
     pd_chn_index pd = word_of_nat c"

definition e6_second_return :: "u8 list \<Rightarrow> nat \<Rightarrow> nat \<Rightarrow> nat \<Rightarrow> PointDecodeData \<Rightarrow> bool" where
  "e6_second_return buf row U c pd \<longleftrightarrow>
     (\<exists>h v. ld16 buf row = Some h \<and> ld16 buf (row + 2) = Some v \<and> pd_azimuth pd = et_raw_angle h \<and>
        pd_elevation pd = et_raw_angle v) \<and>
     ld8 buf (row + 6 + 3 * U + 4 * c) = Some (pd_chn_index pd) \<and>
     ld16 buf (row + 6 + 3 * U + 4 * c + 1) = Some (pd_distances pd) \<and>
     ld8 buf (row + 6 + 3 * U + 4 * c + 3) = Some (pd_reflectivities pd)"

lemma row_points_at: "c < n \<Longrightarrow> row_points rd usz 0 off k n m (k + c) = the (rd c (off + usz * c)) (m (k + c))"
  by (simp add: row_points_def)

lemma row_points_elsewhere: "j < k \<or> k + n \<le> j \<Longrightarrow> row_points rd usz c off k n m j = m j"
  by (auto simp: row_points_def)

lemma e6_unit_1_in: "off + 3 \<le> length buf \<Longrightarrow> e6_unit_1 buf h v c off \<noteq> None"
  by (auto simp: e6_unit_1_def load_def ld8_def)

lemma e6_unit_2_in: "off + 4 \<le> length buf \<Longrightarrow> e6_unit_2 buf h v c off \<noteq> None"
  by (auto simp: e6_unit_2_def load_def ld8_def)

lemma e6_unit_data:
  assumes h: "ld16 buf row = Some h" "ld16 buf (row + 2) = Some v"
  shows "row + 6 + 3 * c + 3 \<le> length buf \<Longrightarrow>
      e6_first_return buf row c (the (e6_unit_1 buf h v c (row + 6 + 3 * c)) m)"
    and "row + 6 + 3 * U + 4 * c + 4 \<le> length buf \<Longrightarrow>
      e6_second_return buf row U c (the (e6_unit_2 buf h v c (row + 6 + 3 * U + 4 * c)) m)"
proof -
  assume in1: "row + 6 + 3 * c + 3 \<le> length buf"
  obtain d where d: "ld16 buf (row + 6 + 3 * c) = Some d" using in1 by (cases "ld16 buf (row + 6 + 3 * c)") (simp_all add: load_def)
  obtain re where re: "ld8 buf (row + 6 + 3 * c + 2) = Some re" using in1 by (simp add: ld8_def)
  show "e6_first_return buf row c (the (e6_unit_1 buf h v c (row + 6 + 3 * c)) m)"
    using h d re by (simp add: e6_unit_1_def e6_first_return_def)
next
  let ?off = "row + 6 + 3 * U + 4 * c"
  assume in2: "?off + 4 \<le> length buf"
  obtain d where d: "ld16 buf (?off + 1) = Some d" using in2 by (cases "ld16 buf (?off + 1)") (simp_all add: load_def)
  obtain re ci where rc: "ld8 buf (?off + 3) = Some re" "ld8 buf ?off = Some ci" using in2 by (simp add: ld8_def)
  show "e6_second_return buf row U c (the (e6_unit_2 buf h v c ?off) m)"
    using h d rc by (simp add: e6_unit_2_def e6_second_return_def)
qed

lemma e6_seqs_points:
  assumes "pa + n * (6 + 3 * U + 4 * R) \<le> length buf" and "k1 + n * U \<le> k2" and "k2 + n * R \<le> 2560000"
  shows "\<exists>m. e6_seqs buf U R n pa (int k1) (int k2) f = Some (f \<lparr> f_pointData := m \<rparr>) \<and>
     (\<forall>q<n. \<forall>c<U. e6_first_return buf (pa + q * (6 + 3 * U + 4 * R)) c (m (k1 + q * U + c))) \<and>
     (\<forall>q<n. \<forall>c<R. e6_second_return buf (pa + q * (6 + 3 * U + 4 * R)) U c (m (k2 + q * R + c))) \<and>
     (\<forall>j. j < k1 \<or> k1 + n * U \<le> j \<and> j < k2 \<or> k2 + n * R \<le> j \<longrightarrow> m j = f_pointData f j)"
  using assms
proof (induction n arbitrary: pa k1 k2 f)
  case 0
  have "f \<lparr> f_pointData := f_pointData f \<rparr> = f" by simp
  then show ?case by (intro exI [of _ "f_pointData f"]) simp
next
  case (Suc n)
  let ?R = "6 + 3 * U + 4 * R"
  have len: "pa + ?R + n * ?R \<le> length buf" using Suc.prems(1) by simp
  obtain h where h: "ld16 buf pa = Some h" using len by (cases "ld16 buf pa") (simp_all add: load_def)
  obtain v where v: "ld16 buf (pa + 2) = Some v" using len by (cases "ld16 buf (pa + 2)") (simp_all add: load_def)
  define m1 where "m1 = row_points (e6_unit_1 buf h v) 3 0 (pa + 6) k1 U (f_pointData f)"
  define m2 where "m2 = row_points (e6_unit_2 buf h v) 4 0 (pa + 6 + 3 * U) k2 R m1"
  define g where "g = f \<lparr> f_pointData := m2 \<rparr>"
  have "read_row (e6_unit_1 buf h v) 3 U 0 (pa + 6) (int k1) f = Some (int (k1 + U), f \<lparr> f_pointData := m1 \<rparr>)"
    unfolding m1_def using read_row_points [of U "e6_unit_1 buf h v" 0 "pa + 6" 3 k1 f] Suc.prems len
    by (simp add: e6_unit_1_in del: of_nat_add)
  moreover have "read_row (e6_unit_2 buf h v) 4 R 0 (pa + 6 + 3 * U) (int k2) (f \<lparr> f_pointData := m1 \<rparr>) =
      Some (int (k2 + R), f \<lparr> f_pointData := m1 \<rparr> \<lparr> f_pointData := m2 \<rparr>)"
    unfolding m2_def using read_row_points [of R "e6_unit_2 buf h v" 0 "pa + 6 + 3 * U" 4 k2 "f \<lparr> f_pointData := m1 \<rparr>"]
      Suc.prems len by (simp add: e6_unit_2_in del: of_nat_add)
  ultimately have step: "e6_seqs buf U R (Suc n) pa (int k1) (int k2) f =
      e6_seqs buf U R n (pa + ?R) (int (k1 + U)) (int (k2 + R)) g"
    using h v by (simp add: g_def add.assoc del: bind_Some_iff of_nat_add)
  have "pa + ?R + n * ?R \<le> length buf" "k1 + U + n * U \<le> k2 + R" "k2 + R + n * R \<le> 2560000"
    using len Suc.prems(2,3) by simp_all
  from Suc.IH [OF this, of g] obtain m where m: "e6_seqs buf U R n (pa + ?R) (int (k1 + U)) (int (k2 + R)) g = Some (g \<lparr> f_pointData := m \<rparr>)"
    and one: "\<forall>q<n. \<forall>c<U. e6_first_return buf (pa + ?R + q * ?R) c (m (k1 + U + q * U + c))"
    and two: "\<forall>q<n. \<forall>c<R. e6_second_return buf (pa + ?R + q * ?R) U c (m (k2 + R + q * R + c))"
    and out: "\<forall>j. j < k1 + U \<or> k1 + U + n * U \<le> j \<and> j < k2 + R \<or> k2 + R + n * R \<le> j \<longrightarrow> m j = f_pointData g j"
    by (elim exE conjE) (rule that, assumption+)
  have "e6_first_return buf (pa + q * ?R) c (m (k1 + q * U + c))" if qc: "q < Suc n" "c < U" for q c
  proof (cases q)
    case 0
    have "m (k1 + c) = m2 (k1 + c)" using out [rule_format, of "k1 + c"] qc by (simp add: g_def)
    also have "\<dots> = m1 (k1 + c)" unfolding m2_def using qc Suc.prems(2) by (intro row_points_elsewhere) simp
    also have "\<dots> = the (e6_unit_1 buf h v c (pa + 6 + 3 * c)) (f_pointData f (k1 + c))"
      unfolding m1_def by (rule row_points_at) (rule qc)
    finally show ?thesis using e6_unit_data(1) [OF h v, of c] 0 qc len by simp
  next
    case (Suc p)
    then show ?thesis using one [rule_format, of p c] qc by (simp add: algebra_simps)
  qed
  moreover have "e6_second_return buf (pa + q * ?R) U c (m (k2 + q * R + c))" if qc: "q < Suc n" "c < R" for q c
  proof (cases q)
    case 0
    have "m (k2 + c) = m2 (k2 + c)" using out [rule_format, of "k2 + c"] qc Suc.prems(2) by (simp add: g_def)
    also have "\<dots> = the (e6_unit_2 buf h v c (pa + 6 + 3 * U + 4 * c)) (m1 (k2 + c))"
      unfolding m2_def by (rule row_points_at) (rule qc)
    finally show ?thesis using e6_unit_data(2) [OF h v, of U c] 0 qc len by simp
  next
    case (Suc p)
    then show ?thesis using two [rule_format, of p c] qc by (simp add: algebra_simps)
  qed
  moreover have "m j = f_pointData f j" if j: "j < k1 \<or> k1 + Suc n * U \<le> j \<and> j < k2 \<or> k2 + Suc n * R \<le> j" for j
  proof -
    have "m j = m2 j" using out [rule_format, of j] j by (auto simp: g_def)
    also have "\<dots> = m1 j" unfolding m2_def using j Suc.prems(2) by (intro row_points_elsewhere) auto
    also have "\<dots> = f_pointData f j" unfolding m1_def using j Suc.prems(2) by (intro row_points_elsewhere) auto
    finally show ?thesis .
  qed
  moreover have "e6_seqs buf U R (Suc n) pa (int k1) (int k2) f = Some (f \<lparr> f_pointData := m \<rparr>)"
    unfolding step m by (simp add: g_def)
  ultimately show ?case by (intro exI [of _ m]) simp
qed

section \<open>Packets that are too long\<close>

lemma read_row_None:
  assumes "c < n" and "rd (i + c) (off + usz * c) = None"
  shows "read_row rd usz n i off index f = None"
  using assms
proof (induction c arbitrary: n i off index f)
  case 0
  then show ?case by (cases n) (simp_all del: bind_Some_iff)
next
  case (Suc c)
  then obtain n' where n: "n = Suc n'" "c < n'" by (cases n) auto
  have "read_row rd usz n' (Suc i) (off + usz) index' f' = None" for index' f'
    using Suc.IH [OF n(2), of "Suc i" "off + usz"] Suc.prems(2) by (simp add: algebra_simps)
  then show ?case unfolding n(1) by (simp add: Option.bind_eq_None_conv del: bind_Some_iff)
qed

lemma e6_seqs_None:
  assumes "pa \<le> length buf + 2" and "length buf + 2 < pa + S * (6 + 3 * U + 4 * R)"
  shows "e6_seqs buf U R S pa i1 i2 f = None"
  using assms
proof (induction S arbitrary: pa i1 i2 f)
  case (Suc S)
  let ?R = "6 + 3 * U + 4 * R"
  show ?case
  proof (cases "length buf + 2 < pa + ?R")
    case False
    then have "length buf + 2 < pa + ?R + S * ?R" "pa + ?R \<le> length buf + 2" using Suc.prems by simp_all
    then have "e6_seqs buf U R S (pa + 6 + 3 * U + 4 * R) i1' i2' f' = None" for i1' i2' f'
      using Suc.IH [of "pa + ?R"] by (simp add: add.assoc)
    then show ?thesis by (simp add: Option.bind_eq_None_conv split_beta del: bind_Some_iff)
  next
    case True
    consider "length buf < pa + 4" | "0 < U" "length buf < pa + 6 + 3 * (U - 1) + 3"
      | "0 < R" "length buf < pa + 6 + 3 * U + 4 * (R - 1) + 4"
      using True by (cases U; cases R) force+
    then show ?thesis
    proof cases
      case 1
      then show ?thesis by (auto simp: load_def Option.bind_eq_None_conv simp del: bind_Some_iff)
    next
      case 2
      then have "read_row (e6_unit_1 buf h v) 3 U 0 (pa + 6) i1 f = None" for h v
        by (intro read_row_None [of "U - 1"]) (auto simp: e6_unit_1_def load_def ld8_def)
      then show ?thesis by (simp add: Option.bind_eq_None_conv del: bind_Some_iff)
    next
      case 3
      then have "read_row (e6_unit_2 buf h v) 4 R 0 (pa + 6 + 3 * U) i f = None" for h v i f
        by (intro read_row_None [of "R - 1"]) (auto simp: e6_unit_2_def load_def ld8_def)
      then show ?thesis by (simp add: Option.bind_eq_None_conv split_beta del: bind_Some_iff)
    qed
  qed
qed simp

section \<open>Behaviour of the decoder\<close>

definition e6_end :: "HS_LIDAR_HEADER_ET_V6 \<Rightarrow> nat \<Rightarrow> nat" where
  "e6_end hdr units = 14 + e6_body_size hdr units + 22 + (if et_HasSeqNum (e6_Reserved2 hdr) then 4 else 0)"

lemma e6_tail_in: "e6_tail_at buf off \<noteq> None \<longleftrightarrow> off + 22 \<le> length buf"
  by (auto simp: e6_tail_at_def load_def ld8_def bytes_at_def reserved_info_at_def split: Option.bind_splits if_splits)

lemma e6_tail_address:
  assumes "et_units (unat (e6_LaserNum hdr)) (e6_SeqNum hdr) = Some U" and "e6_body_size hdr U < 65000"
  shows "e6_tail hdr = Some (14 + e6_body_size hdr U)"
proof -
  let ?T = "6 + 8 + e6_body_size hdr U + 22 + 4 + 32"
  have w: "uint (word_of_nat T :: u16) = int T" if "T < 65536" for T
    using that by (simp add: unsigned_of_nat take_bit_nat_eq_self)
  have "?T < 65536" using assms(2) by simp
  then have "e6_tail hdr = nat_index (int ?T - 32 - 4 - 22)"
    unfolding e6_tail_def e6_GetPacketSize_def assms(1) by (simp add: w del: of_nat_add)
  then show ?thesis by (simp add: nat_index_def nat_add_distrib)
qed

lemma e6_overrun:
  assumes acc: "et_accepted pk s" and hdr: "e6_header_at (up_buffer pk) 6 = Some hdr" and B: "e6_BlockNum hdr = 1"
    and over: "e6_SeqNum hdr = 0 \<or> 1500 < e6_end hdr (unat (e6_LaserNum hdr) div unat (e6_SeqNum hdr))"
  shows "e6_DecodePacket h f pk s = None"
proof (cases "e6_SeqNum hdr = 0")
  case True
  then show ?thesis
    using acc et_accepted_bytes(2,3) [OF acc] unfolding e6_DecodePacket_def Let_def
    by (simp add: et_accepted_def hdr e6_tail_def e6_GetPacketSize_def et_units_def)
next
  case False
  let ?buf = "up_buffer pk" and ?U = "unat (e6_LaserNum hdr) div unat (e6_SeqNum hdr)"
  note b = et_accepted_bytes [OF acc]
  have U: "et_units (unat (e6_LaserNum hdr)) (e6_SeqNum hdr) = Some ?U" using False by (simp add: et_units_def)
  show ?thesis
  proof (cases "e6_body_size hdr ?U < 65000")
    case True
    let ?tail = "14 + e6_body_size hdr ?U"
    have "count_loss h (et_HasSeqNum (e6_Reserved2 hdr)) ?buf (?tail + 22) (p2 s) = None \<or> e6_tail_at ?buf ?tail = None"
    proof (cases "1500 < ?tail + 22")
      case True
      then show ?thesis using e6_tail_in [of ?buf ?tail] b(1) by linarith
    next
      case False
      then have "et_HasSeqNum (e6_Reserved2 hdr)" "length ?buf < ?tail + 22 + 4"
        using over \<open>e6_SeqNum hdr \<noteq> 0\<close> b(1) by (auto simp: e6_end_def split: if_splits)
      then show ?thesis by (simp add: count_loss_None)
    qed
    then show ?thesis
      using acc b(2,3) e6_tail_address [OF U True] unfolding e6_DecodePacket_def Let_def
      by (auto simp: et_accepted_def hdr simp del: bind_Some_iff intro!: Option.bind_eq_None_conv [THEN iffD2])
  next
    case big: False
    have "2 + (6 + 3 * ?U + 4 * unat (e6_SecRetNum hdr)) * unat (e6_SeqNum hdr) \<ge> 65000"
      using big B by (simp add: e6_body_size_def e6_row_size_def)
    then have "1502 < 16 + unat (e6_SeqNum hdr) * (6 + 3 * ?U + 4 * unat (e6_SecRetNum hdr))"
      by (simp add: mult.commute)
    then have "e6_seqs ?buf ?U (unat (e6_SecRetNum hdr)) (unat (e6_SeqNum hdr)) 16 i1 i2 f = None" for i1 i2 f
      by (intro e6_seqs_None) (simp_all add: b(1))
    then have "e6_body ?buf hdr t f s = None" for t f s by (simp add: e6_body_def U)
    then show ?thesis
      using acc b(2,3) unfolding e6_DecodePacket_def Let_def
      by (simp add: et_accepted_def hdr Option.bind_rzero del: bind_Some_iff)
  qed
qed

lemma e6_prefix:
  assumes acc: "et_accepted pk s" and n: "unat (f_packet_num f) < 5000"
    and hdr: "e6_header_at (up_buffer pk) 6 = Some hdr"
    and U: "et_units (unat (e6_LaserNum hdr)) (e6_SeqNum hdr) = Some U" and fit: "e6_end hdr U \<le> 1500"
  shows "\<exists>t f1 p1. e6_tail_at (up_buffer pk) (14 + e6_body_size hdr U) = Some t \<and>
     e6_DecodePacket h f pk s = e6_body (up_buffer pk) hdr t f1 (s \<lparr> p2 := p1 \<rparr>) \<and>
     f_pointData f1 = f_pointData f \<and> f_packet_num f1 = f_packet_num f \<and> \<not> f_scan_complete f1 \<and>
     use_angle p1 = use_angle (p2 s)"
proof -
  let ?buf = "up_buffer pk" and ?tail = "14 + e6_body_size hdr U"
  note b = et_accepted_bytes [OF acc]
  obtain q where q: "count_loss h (et_HasSeqNum (e6_Reserved2 hdr)) ?buf (?tail + 22) (p2 s) = Some q"
    "use_angle q = use_angle (p2 s)"
    using count_loss_defined [of "?tail + 22" "et_HasSeqNum (e6_Reserved2 hdr)" ?buf h "p2 s"] fit b(1)
    by (auto simp: e6_end_def)
  obtain t where t: "e6_tail_at ?buf ?tail = Some t"
    using e6_tail_in [of ?buf ?tail] b(1) fit by (fastforce simp: e6_end_def)
  obtain g where g: "put_timestamp (unat (f_packet_num f)) (if f_use_timestamp_type f = 0
      then lidar_time_2_6 (h_timezone h) (e6_UTC t) (e6_Timestamp t) else up_recv_timestamp pk) f = Some g"
    "f_pointData g = f_pointData f" "f_packet_num g = f_packet_num f"
    using put_timestamp_defined [OF n, where f = f] by metis
  have "e6_body_size hdr U < 65000" using fit by (simp add: e6_end_def)
  note tail = e6_tail_address [OF U this]
  have q': "count_loss h (et_HasSeqNum (e6_Reserved2 hdr)) ?buf (36 + e6_body_size hdr U) (p2 s) = Some q"
    using q(1) by simp
  show ?thesis
    using acc b(2,3) q(2) g(2,3) t unfolding e6_DecodePacket_def Let_def
    by (simp add: et_accepted_def hdr tail q' g(1) del: bind_Some_iff)
      ((rule exI)+, rule conjI, rule refl, simp)
qed

lemma e6_fits:
  fixes L S :: nat
  assumes "0 < S" and "0 < B" and "B * (2 + S * (6 + 3 * (L div S) + 4 * R)) \<le> 1464"
  shows "(L + R * S) * B \<le> 512" and "S * (L div S) \<le> L"
proof -
  let ?U = "L div S"
  have "S * ?U + L mod S = L" "L mod S < S" using assms(1) by simp_all
  then have L: "L \<le> S * (?U + 1)" "S * ?U \<le> L" by (simp_all only: distrib_left)
  have "3 * (?U + 1 + R) \<le> 6 + 3 * ?U + 4 * R" by simp
  then have "S * (3 * (?U + 1 + R)) \<le> S * (6 + 3 * ?U + 4 * R)" by (rule mult_le_mono2)
  then have "S * (3 * (?U + 1 + R)) \<le> 2 + S * (6 + 3 * ?U + 4 * R)" by (rule trans_le_add2)
  moreover have "3 * (L + R * S) \<le> S * (3 * (?U + 1 + R))" using L(1) by (simp add: algebra_simps)
  ultimately have "B * (3 * (L + R * S)) \<le> B * (2 + S * (6 + 3 * ?U + 4 * R))" by (intro mult_le_mono2) linarith
  then have "3 * (B * (L + R * S)) \<le> 1464" using assms(3) by (simp only: mult.left_commute)
  then show "(L + R * S) * B \<le> 512" by (simp add: mult.commute)
  show "S * ?U \<le> L" by (rule L(2))
qed

lemma e6_first_index_small:
  assumes "unat n < 5000" and "e6_points_num hdr * unat (e6_BlockNum hdr) \<le> 512"
  shows "e6_first_index n hdr = int (unat n * (e6_points_num hdr * unat (e6_BlockNum hdr)))"
proof -
  have "unat n * (e6_points_num hdr * unat (e6_BlockNum hdr)) \<le> 5000 * 512" using assms by (intro mult_le_mono) auto
  moreover have "n * word_of_nat (e6_points_num hdr) * ucast (e6_BlockNum hdr) =
      (word_of_nat (unat n * (e6_points_num hdr * unat (e6_BlockNum hdr))) :: u32)"
    by (simp add: unsigned_ucast_eq ac_simps)
  ultimately show ?thesis by (simp add: e6_first_index_def sint_u32_small del: of_nat_mult)
qed


text \<open>A block of one sequence of two lasers with one second return.\<close>

definition e6_bytes_ex :: "u8 \<Rightarrow> u8 list" where
  "e6_bytes_ex seqs = [0xEE, 0xFF, 2, 6, 0, 0, 2, 0, 1, 0, 4, seqs, 1, 0, 9, 9, 0, 4, 0, 2, 0, 0, 10, 1, 7, 20, 1, 8, 5, 30, 1, 9]"

definition e6_ex :: "u8 \<Rightarrow> UdpPacket" where
  "e6_ex seqs = packet_ex (e6_bytes_ex seqs)"

definition e6_parser_ex :: udp2_6_parser where
  "e6_parser_ex = et_parser.extend et_parser_ex \<lparr> e6_corrections = undefined \<rparr>"

definition e6_header_ex :: "u8 \<Rightarrow> HS_LIDAR_HEADER_ET_V6" where
  "e6_header_ex seqs = \<lparr> e6_LaserNum = 2, e6_BlockNum = 1, e6_EchoCount = 0, e6_DistUnit = 4, e6_SeqNum = seqs,
     e6_SecRetNum = 1, e6_Reserved2 = 0 \<rparr>"

lemma e6_bytes_length [simp]: "length (e6_bytes_ex seqs) = 32"
  by (simp add: e6_bytes_ex_def)

lemma e6_ex_ok:
  "et_accepted (e6_ex seqs) e6_parser_ex" "e6_header_at (up_buffer (e6_ex seqs)) 6 = Some (e6_header_ex seqs)"
  by (simp add: et_accepted_def e6_ex_def packet_ex_wf packet_ex_nth e6_parser_ex_def et_parser.defs et_parser_ex_def,
      simp add: e6_bytes_ex_def packet_ex_def)
    (simp add: e6_header_at_def e6_ex_def packet_ex_prefix, simp add: e6_bytes_ex_def e6_header_ex_def ld8_def load_def)


end
