(* ===== verification/Udp3_2.thy ===== *)
theory Udp3_2
  imports Row_Decoder Compute_Points
begin

text \<open>
  The decoder of QT128: \<open>src/libhesai/UdpParser/src/udp3_2_parser.cc\<close> and the structs of
  \<open>src/libhesai/UdpProtocol/udp_protocol_v3_2.h\<close>. The lidar fires in two alternating loops; the laser
  of a channel, and with it the firing time, is given by a table per loop when the packet says so.
\<close>

unbundle bit_operations_syntax

section \<open>Structs\<close>

record HS_LIDAR_HEADER_QT_V2 =
  qt2_LaserNum :: u8
  qt2_BlockNum :: u8
  qt2_EchoCount :: u8
  qt2_DistUnit :: u8
  qt2_EchoNum :: u8
  qt2_Status :: u8

definition qt2_header_at :: "u8 list \<Rightarrow> nat \<Rightarrow> HS_LIDAR_HEADER_QT_V2 option" where
  "qt2_header_at buf off = do {
     ln \<leftarrow> ld8 buf off;
     bn \<leftarrow> ld8 buf (off + 1);
     ec \<leftarrow> ld8 buf (off + 2);
     du \<leftarrow> ld8 buf (off + 3);
     en \<leftarrow> ld8 buf (off + 4);
     st \<leftarrow> ld8 buf (off + 5);
     Some \<lparr> qt2_LaserNum = ln, qt2_BlockNum = bn, qt2_EchoCount = ec, qt2_DistUnit = du,
            qt2_EchoNum = en, qt2_Status = st \<rparr> }"

definition qt2_GetDistUnit :: "HS_LIDAR_HEADER_QT_V2 \<Rightarrow> fp" where
  "qt2_GetDistUnit hdr = fdiv (f32_of_int (uint (qt2_DistUnit hdr))) (Fin 1000)"

definition qt2_HasSeqNum :: "HS_LIDAR_HEADER_QT_V2 \<Rightarrow> bool" where
  "qt2_HasSeqNum hdr \<longleftrightarrow> qt2_Status hdr AND 0x01 \<noteq> 0"

definition qt2_HasFunctionSafety :: "HS_LIDAR_HEADER_QT_V2 \<Rightarrow> bool" where
  "qt2_HasFunctionSafety hdr \<longleftrightarrow> qt2_Status hdr AND 0x04 \<noteq> 0"

definition qt2_HasConfidenceLevel :: "HS_LIDAR_HEADER_QT_V2 \<Rightarrow> bool" where
  "qt2_HasConfidenceLevel hdr \<longleftrightarrow> qt2_Status hdr AND 0x10 \<noteq> 0"

definition qt2_HasSelfDefine :: "HS_LIDAR_HEADER_QT_V2 \<Rightarrow> bool" where
  "qt2_HasSelfDefine hdr \<longleftrightarrow> qt2_Status hdr AND 0x40 \<noteq> 0"

record HS_LIDAR_TAIL_QT_V2 =
  qt2_reservedInfo1 :: "u16 \<times> u8"
  qt2_reservedInfo2 :: u16
  qt2_ModeFlag :: u8
  qt2_reservedInfo3 :: "u16 \<times> u8"
  qt2_AzimuthFlag :: u16
  qt2_WorkingMode :: u8
  qt2_ReturnMode :: u8
  qt2_MotorSpeed :: u16
  qt2_UTC :: "u8 list"
  qt2_Timestamp :: u32
  qt2_FactoryInfo :: u8

definition qt2_tail_at :: "u8 list \<Rightarrow> nat \<Rightarrow> HS_LIDAR_TAIL_QT_V2 option" where
  "qt2_tail_at buf off = do {
     r1 \<leftarrow> reserved_info_at buf off;
     r2 \<leftarrow> ld16 buf (off + 3);
     mf \<leftarrow> ld8 buf (off + 5);
     r3 \<leftarrow> reserved_info_at buf (off + 6);
     af \<leftarrow> ld16 buf (off + 9);
     wm \<leftarrow> ld8 buf (off + 11);
     rm \<leftarrow> ld8 buf (off + 12);
     ms \<leftarrow> ld16 buf (off + 13);
     utc \<leftarrow> bytes_at 6 buf (off + 15);
     ts \<leftarrow> ld32 buf (off + 21);
     fi \<leftarrow> ld8 buf (off + 25);
     Some \<lparr> qt2_reservedInfo1 = r1, qt2_reservedInfo2 = r2, qt2_ModeFlag = mf, qt2_reservedInfo3 = r3,
            qt2_AzimuthFlag = af, qt2_WorkingMode = wm, qt2_ReturnMode = rm, qt2_MotorSpeed = ms,
            qt2_UTC = utc, qt2_Timestamp = ts, qt2_FactoryInfo = fi \<rparr> }"

section \<open>The class\<close>

record PandarQTChannelConfig =
  cc_sob :: u16
  cc_major_version :: u8
  cc_min_version :: u8
  cc_laser_num :: u8
  cc_BlockNum :: u8
  cc_ChannelConfigTable :: "int list list"
  cc_HashValue :: string
  cc_IsChannelConfigObtained :: bool

text \<open>\<open>qt128_firetime_\<close> is an array of 4 loops of 128 floats.\<close>

record udp3_2_parser =
  p32 :: parser
  qt128_firetime :: "nat \<Rightarrow> nat \<Rightarrow> fp"
  pandarQT_channel_config :: PandarQTChannelConfig

definition qt2_GetFiretimesCorrection :: "udp3_2_parser \<Rightarrow> int \<Rightarrow> fp \<Rightarrow> nat \<Rightarrow> fp option" where
  "qt2_GetFiretimesCorrection s laserId speed loopIndex =
     (if loopIndex < 4 \<and> 0 \<le> laserId \<and> laserId < 128
      then Some (dmul (dmul (qt128_firetime s loopIndex (nat laserId)) speed) (f64 (6 / 1000000)))
      else None)"

section \<open>The decoder\<close>

definition qt2_loopIndex :: "HS_LIDAR_TAIL_QT_V2 \<Rightarrow> nat \<Rightarrow> nat" where
  "qt2_loopIndex t i = (unat (qt2_ModeFlag t) + i div (if qt2_ReturnMode t < 0x39 then 1 else 2) + 1) mod 2"

text \<open>
  The laser of channel \<open>j\<close> in block \<open>i\<close>. The access is guarded by the number of the block, not by that
  of the channel.
\<close>

definition qt2_laserId :: "udp3_2_parser \<Rightarrow> HS_LIDAR_HEADER_QT_V2 \<Rightarrow> nat \<Rightarrow> nat \<Rightarrow> nat \<Rightarrow> int option" where
  "qt2_laserId s hdr loopIndex i j =
     (let cc = pandarQT_channel_config s in
      if qt2_HasSelfDefine hdr \<and> cc_IsChannelConfigObtained cc then do {
        row \<leftarrow> nth_opt (cc_ChannelConfigTable cc) loopIndex;
        if i < length row then do { l \<leftarrow> nth_opt row j; int_ok (l - 1) } else Some (int j) }
      else Some (int j))"

definition qt2_azimuth :: "udp3_2_parser \<Rightarrow> HS_LIDAR_TAIL_QT_V2 \<Rightarrow> nat \<Rightarrow> u16 \<Rightarrow> int \<Rightarrow> fp option" where
  "qt2_azimuth s t loopIndex az laserId =
     (if get_firetime_file (p32 s) then do {
        c \<leftarrow> qt2_GetFiretimesCorrection s laserId (f64_of_int (uint (qt2_MotorSpeed t))) loopIndex;
        Some (to_float (dadd (f64_of_int (uint az))
                (dmul (dmul (f64_of_int (rotation_flag (p32 s))) c) (Fin 100)))) }
      else Some (f32_of_int (uint az)))"

definition qt2_channel :: "u8 list \<Rightarrow> udp3_2_parser \<Rightarrow> HS_LIDAR_HEADER_QT_V2 \<Rightarrow> HS_LIDAR_TAIL_QT_V2 \<Rightarrow>
    nat \<Rightarrow> u16 \<Rightarrow> point_reader" where
  "qt2_channel buf s hdr t i az j off = do {
     let loopIndex = qt2_loopIndex t i;
     laserId \<leftarrow> qt2_laserId s hdr loopIndex i j;
     a \<leftarrow> qt2_azimuth s t loopIndex az laserId;
     d \<leftarrow> ld16 buf off;
     r \<leftarrow> ld8 buf (off + 2);
     if qt2_HasConfidenceLevel hdr then do {
       c \<leftarrow> ld8 buf (off + 3);
       Some (\<lambda>pd. pd \<lparr> pd_azimuth := a, pd_distances := d, pd_reflectivities := r, pd_confidence := c \<rparr>) }
     else Some (\<lambda>pd. pd \<lparr> pd_azimuth := a, pd_distances := d, pd_reflectivities := r \<rparr>) }"

definition qt2_row :: "u8 list \<Rightarrow> udp3_2_parser \<Rightarrow> HS_LIDAR_HEADER_QT_V2 \<Rightarrow> HS_LIDAR_TAIL_QT_V2 \<Rightarrow> u16 row_reader" where
  "qt2_row buf s hdr t i pAzimuth = do {
     az \<leftarrow> ld16 buf pAzimuth;
     Some (az, qt2_channel buf s hdr t i az) }"

text \<open>The size of a channel, and the addresses of the tail and of the sequence number.\<close>

definition qt2_unit :: "HS_LIDAR_HEADER_QT_V2 \<Rightarrow> nat" where
  "qt2_unit hdr = (if qt2_HasConfidenceLevel hdr then 4 else 3)"

definition qt2_tail :: "HS_LIDAR_HEADER_QT_V2 \<Rightarrow> nat" where
  "qt2_tail hdr = tail_offset 12 (qt2_unit hdr) (qt2_LaserNum hdr) (qt2_BlockNum hdr) + 4 +
     (if qt2_HasFunctionSafety hdr then 17 else 0)"

definition qt2_seq :: "HS_LIDAR_HEADER_QT_V2 \<Rightarrow> nat" where
  "qt2_seq hdr = qt2_tail hdr + 26"

text \<open>The loops and what follows them, the same in the two branches.\<close>

definition qt2_body :: "u8 list \<Rightarrow> HS_LIDAR_HEADER_QT_V2 \<Rightarrow> HS_LIDAR_TAIL_QT_V2 \<Rightarrow> int \<Rightarrow>
    LidarDecodedFrame \<Rightarrow> udp3_2_parser \<Rightarrow> (int \<times> LidarDecodedFrame \<times> udp3_2_parser) option" where
  "qt2_body buf hdr t index f s = do {
     (_, f, az) \<leftarrow> read_rows (qt2_row buf s hdr t) (\<lambda>az f _. (f, az)) (qt2_unit hdr) 2
        (unat (qt2_LaserNum hdr)) (unat (qt2_BlockNum hdr)) 0 12 index f 0;
     (f, p) \<leftarrow> finish_packet qt2_IsNeedFrameSplit az f (p32 s);
     Some (0, f, s \<lparr> p32 := p \<rparr>) }"

text \<open>
  The packet statistics and the host's time stamp, which only the branch with confidence levels has,
  and the time stamp of the packet.
\<close>

definition qt2_statistics :: "host \<Rightarrow> u8 list \<Rightarrow> HS_LIDAR_HEADER_QT_V2 \<Rightarrow> LidarDecodedFrame \<Rightarrow> parser \<Rightarrow>
    (LidarDecodedFrame \<times> parser) option" where
  "qt2_statistics h buf hdr f p =
     (if qt2_HasConfidenceLevel hdr then do {
        p \<leftarrow> count_loss h (qt2_HasSeqNum hdr) buf (qt2_seq hdr) p;
        t \<leftarrow> qt2_tail_at buf (qt2_tail hdr);
        let p = CalPktTimeLoss (h_time_tick h) (lidar_time_3_2 (h_timezone h) (qt2_UTC t) (qt2_Timestamp t)) p;
        Some (f \<lparr> f_host_timestamp := h_now h \<rparr>, p) }
      else Some (f, p))"

definition qt2_DecodePacket :: "host \<Rightarrow> LidarDecodedFrame \<Rightarrow> UdpPacket \<Rightarrow> udp3_2_parser \<Rightarrow>
    (int \<times> LidarDecodedFrame \<times> udp3_2_parser) option" where
  "qt2_DecodePacket h f pk s =
     (let buf = up_buffer pk in
      if \<not> get_correction_file (p32 s) then Some (-1, f, s)
      else do {
        b0 \<leftarrow> ld8 buf 0;
        b1 \<leftarrow> ld8 buf 1;
        if b0 \<noteq> 0xEE \<or> b1 \<noteq> 0xFF then Some (-1, f, s)
        else do {
          pHeader \<leftarrow> qt2_header_at buf 6;
          let laser = qt2_LaserNum pHeader;
          let block = qt2_BlockNum pHeader;
          let f = f \<lparr> f_per_points_num := ucast block * ucast laser,
                      f_scan_complete := False,
                      f_block_num := ucast block,
                      f_laser_num := ucast laser,
                      f_distance_unit := qt2_GetDistUnit pHeader \<rparr>;
          let index = first_index (f_packet_num f) block laser;
          (f, p) \<leftarrow> qt2_statistics h buf pHeader f (p32 s);
          pTail \<leftarrow> qt2_tail_at buf (qt2_tail pHeader);
          f \<leftarrow> put_timestamp (unat (f_packet_num f))
                (if f_use_timestamp_type f = 0
                 then lidar_time_3_2 (h_timezone h) (qt2_UTC pTail) (qt2_Timestamp pTail)
                 else up_recv_timestamp pk) f;
          let p = p \<lparr> spin_speed := qt2_MotorSpeed pTail \<rparr>;
          let f = f \<lparr> f_spin_speed := qt2_MotorSpeed pTail,
                      f_return_mode := ucast (qt2_ReturnMode pTail) \<rparr>;
          qt2_body buf pHeader pTail index f (s \<lparr> p32 := p \<rparr>) } })"

section \<open>The points\<close>

definition qt2_geometry :: geometry where
  "qt2_geometry = \<lparr> g_unit = f_distance_unit, g_uncorrected = (\<lambda>a. a),
     g_spot = (\<lambda>p d a. Some a), g_confidence = False \<rparr>"

definition qt2_ComputeXYZI :: "libm \<Rightarrow> LidarDecodedFrame \<Rightarrow> int \<Rightarrow> udp3_2_parser \<Rightarrow>
    (int \<times> LidarDecodedFrame \<times> udp3_2_parser) option" where
  "qt2_ComputeXYZI lm f packet_index s = do {
     (r, f, p) \<leftarrow> compute_xyzi qt2_geometry lm f packet_index (p32 s);
     Some (r, f, s \<lparr> p32 := p \<rparr>) }"

interpretation qt2_points: point_geometry qt2_geometry
  by unfold_locales (simp_all add: qt2_geometry_def CIRCLE_def)

section \<open>Behaviour\<close>

lemma qt2_tail_defined_iff: "qt2_tail_at buf off = None \<longleftrightarrow> length buf < off + 26"
  by (auto simp: qt2_tail_at_def reserved_info_at_def bytes_at_def load_def ld8_def)

text \<open>
  The channel table is usable for packets of \<open>L\<close> channels: it has two loops, whose rows are long
  enough.
\<close>

definition qt2_table_ok :: "udp3_2_parser \<Rightarrow> nat \<Rightarrow> bool" where
  "qt2_table_ok s L \<longleftrightarrow> (let cc = pandarQT_channel_config s in
     cc_IsChannelConfigObtained cc \<longrightarrow> 2 \<le> length (cc_ChannelConfigTable cc) \<and>
       (\<forall>row\<in>set (cc_ChannelConfigTable cc). L \<le> length row \<and> (\<forall>l\<in>set row. \<bar>l\<bar> \<le> 1000)))"

lemma qt2_laserId_defined:
  assumes "qt2_table_ok s L" and "j < L"
  shows "qt2_laserId s hdr (qt2_loopIndex t i) i j \<noteq> None"
proof (cases "qt2_HasSelfDefine hdr \<and> cc_IsChannelConfigObtained (pandarQT_channel_config s)")
  case True
  let ?tab = "cc_ChannelConfigTable (pandarQT_channel_config s)" and ?l = "qt2_loopIndex t i"
  have "?l < 2" by (simp add: qt2_loopIndex_def)
  then have l: "?l < length ?tab" using assms(1) True by (simp add: qt2_table_ok_def Let_def)
  then have "?tab ! ?l \<in> set ?tab" by simp
  then have "L \<le> length (?tab ! ?l)" "\<forall>x\<in>set (?tab ! ?l). \<bar>x\<bar> \<le> 1000"
    using assms(1) True by (auto simp: qt2_table_ok_def Let_def)
  moreover from this have "?tab ! ?l ! j \<in> set (?tab ! ?l)" using assms(2) by simp
  ultimately have "j < length (?tab ! ?l)" "\<bar>?tab ! ?l ! j\<bar> \<le> 1000" using assms(2) by auto
  then show ?thesis
    using l True
    by (cases "i < length (?tab ! ?l)")
      (simp_all add: qt2_laserId_def nth_opt_def int_ok_def abs_le_iff Let_def)
next
  case False
  then show ?thesis by (auto simp: qt2_laserId_def Let_def)
qed

lemma qt2_rows:
  assumes "qt2_table_ok s L" and "\<not> get_firetime_file (p32 s)"
  shows "row_layout (qt2_row buf s hdr t) (\<lambda>az f (_ :: u16). (f, az)) (qt2_unit hdr) 2 (length buf) B L"
proof
  fix r pa :: nat
  assume "pa + 2 \<le> length buf"
  then show "\<exists>i rd. qt2_row buf s hdr t r pa = Some (i, rd)" by (simp add: qt2_row_def load_def)
next
  fix r pa c off :: nat and i rd
  assume "qt2_row buf s hdr t r pa = Some (i, rd)" "c < L" "off + qt2_unit hdr \<le> length buf"
  then show "rd c off \<noteq> None"
    using qt2_laserId_defined [OF assms(1), of c hdr t r] assms(2)
    by (auto simp: qt2_row_def qt2_channel_def qt2_azimuth_def qt2_unit_def load_def ld8_def Let_def
        split: if_splits)
qed simp

lemma qt2_split_defined: "frame_start_azimuth p = Fin q \<Longrightarrow> qt2_IsNeedFrameSplit az p \<noteq> None"
  using split_defined by (simp add: qt2_IsNeedFrameSplit_def)

lemma qt2_body_points:
  assumes fit: "12 + B * (2 + qt2_unit hdr * L) \<le> length buf" and m: "B * L \<le> 512"
    and n: "unat (f_packet_num f) < 5000" and q: "frame_start_azimuth (p32 s) = Fin q"
    and nf: "\<not> get_firetime_file (p32 s)" and tab: "qt2_table_ok s L"
    and L: "L = unat (qt2_LaserNum hdr)" and B: "B = unat (qt2_BlockNum hdr)"
    and k: "k = unat (f_packet_num f) * (B * L)"
  shows "\<exists>f' s'. qt2_body buf hdr t (int k) f s = Some (0, f', s') \<and>
     f_packet_num f' = f_packet_num f + 1 \<and>
     f_pointData f' = rows_points (qt2_row buf s hdr t) (qt2_unit hdr) 2 L 0 12 k B (f_pointData f)"
proof -
  have rows: "read_rows (qt2_row buf s hdr t) (\<lambda>az f _. (f, az)) (qt2_unit hdr) 2 L B 0 12 (int k) f 0 =
     Some (int (k + B * L),
       f \<lparr> f_pointData := rows_points (qt2_row buf s hdr t) (qt2_unit hdr) 2 L 0 12 k B (f_pointData f) \<rparr>,
       snd (posts (qt2_row buf s hdr t) (\<lambda>az f _. (f, az)) (2 + qt2_unit hdr * L) B 0 12 f 0))"
    (is "_ = Some (_, ?f, ?az)")
    using row_layout.rows [OF qt2_rows [OF tab nf, of buf hdr t B] fit, of k 0 f 0] points_fit [OF n m] k
    by (simp add: posts_keep_frame)
  obtain f' p' where r: "finish_packet qt2_IsNeedFrameSplit ?az ?f (p32 s) = Some (f', p')"
    "f_packet_num f' = f_packet_num f + 1" "f_pointData f' = f_pointData ?f"
    using finish_packet_frame [of qt2_IsNeedFrameSplit ?az "p32 s" ?f] qt2_split_defined [OF q] by auto
  then have "qt2_body buf hdr t (int k) f s = Some (0, f', s \<lparr> p32 := p' \<rparr>)"
    using rows by (simp add: qt2_body_def L B del: bind_Some_iff)
  then show ?thesis using r(2,3) by auto
qed

definition qt2_end :: "HS_LIDAR_HEADER_QT_V2 \<Rightarrow> nat" where
  "qt2_end hdr = qt2_seq hdr + (if qt2_HasConfidenceLevel hdr \<and> qt2_HasSeqNum hdr then 4 else 0)"

lemma qt2_statistics_defined:
  assumes len: "length buf = 1500" and fit: "qt2_end hdr \<le> 1500"
  shows "\<exists>g p'. qt2_statistics h buf hdr f p = Some (g, p') \<and> f_pointData g = f_pointData f \<and>
    f_packet_num g = f_packet_num f \<and> f_use_timestamp_type g = f_use_timestamp_type f \<and>
    frame_start_azimuth p' = frame_start_azimuth p \<and> get_firetime_file p' = get_firetime_file p"
proof (cases "qt2_HasConfidenceLevel hdr")
  case True
  obtain p2 where "count_loss h (qt2_HasSeqNum hdr) buf (qt2_seq hdr) p = Some p2"
    "frame_start_azimuth p2 = frame_start_azimuth p" "get_firetime_file p2 = get_firetime_file p"
    using count_loss_defined [of "qt2_seq hdr" "qt2_HasSeqNum hdr" buf h p] fit len True
    by (auto simp: qt2_end_def)
  moreover obtain t where "qt2_tail_at buf (qt2_tail hdr) = Some t"
    using qt2_tail_defined_iff [of buf "qt2_tail hdr"] len fit by (fastforce simp: qt2_end_def qt2_seq_def)
  ultimately show ?thesis by (simp add: qt2_statistics_def True Let_def del: bind_Some_iff)
qed (simp add: qt2_statistics_def)

lemma qt2_prefix:
  assumes acc: "accepted pk (p32 s)" and n: "unat (f_packet_num f) < 5000"
    and hdr: "qt2_header_at (up_buffer pk) 6 = Some hdr" and fit: "qt2_end hdr \<le> 1500"
  shows "\<exists>f1 s1 t. qt2_DecodePacket h f pk s = qt2_body (up_buffer pk) hdr t
       (first_index (f_packet_num f) (qt2_BlockNum hdr) (qt2_LaserNum hdr)) f1 s1 \<and>
     f_pointData f1 = f_pointData f \<and> f_packet_num f1 = f_packet_num f \<and>
     frame_start_azimuth (p32 s1) = frame_start_azimuth (p32 s) \<and>
     get_firetime_file (p32 s1) = get_firetime_file (p32 s) \<and>
     pandarQT_channel_config s1 = pandarQT_channel_config s"
proof -
  let ?buf = "up_buffer pk"
  let ?f = "f \<lparr> f_per_points_num := ucast (qt2_BlockNum hdr) * ucast (qt2_LaserNum hdr),
     f_scan_complete := False, f_block_num := ucast (qt2_BlockNum hdr),
     f_laser_num := ucast (qt2_LaserNum hdr), f_distance_unit := qt2_GetDistUnit hdr \<rparr>"
  have len: "length ?buf = 1500" by (rule accepted_length [OF acc])
  obtain t where t: "qt2_tail_at ?buf (qt2_tail hdr) = Some t"
    using qt2_tail_defined_iff [of ?buf "qt2_tail hdr"] len fit by (fastforce simp: qt2_end_def qt2_seq_def)
  obtain f2 p2 where st: "qt2_statistics h ?buf hdr ?f (p32 s) = Some (f2, p2)"
    "f_pointData f2 = f_pointData f" "f_packet_num f2 = f_packet_num f"
    "frame_start_azimuth p2 = frame_start_azimuth (p32 s)" "get_firetime_file p2 = get_firetime_file (p32 s)"
    using qt2_statistics_defined [OF len fit, of h ?f "p32 s"] by auto
  obtain g where g: "put_timestamp (unat (f_packet_num f)) (if f_use_timestamp_type f2 = 0
      then lidar_time_3_2 (h_timezone h) (qt2_UTC t) (qt2_Timestamp t) else up_recv_timestamp pk) f2 = Some g"
    "f_pointData g = f_pointData f" "f_packet_num g = f_packet_num f"
    using put_timestamp_defined [OF n] st(2,3) by metis
  show ?thesis
    using acc accepted_bytes [OF acc] st(2-5) g(2,3)
    unfolding qt2_DecodePacket_def Let_def
    by (simp add: accepted_def hdr st(1) t g(1) del: bind_Some_iff)
      ((rule exI)+, rule conjI, (rule exI)+, rule refl, simp)
qed

lemma qt2_overrun:
  assumes acc: "accepted pk (p32 s)" and hdr: "qt2_header_at (up_buffer pk) 6 = Some hdr"
    and over: "1500 < qt2_end hdr"
  shows "qt2_DecodePacket h f pk s = None"
proof -
  let ?buf = "up_buffer pk"
  have len: "length ?buf = 1500" by (rule accepted_length [OF acc])
  consider "qt2_HasConfidenceLevel hdr" "qt2_HasSeqNum hdr" "1500 < qt2_seq hdr + 4"
    | "1500 < qt2_tail hdr + 26"
    using over by (auto simp: qt2_end_def qt2_seq_def split: if_splits)
  then have "(\<forall>g p. qt2_statistics h ?buf hdr g p = None) \<or> qt2_tail_at ?buf (qt2_tail hdr) = None"
    by cases (auto simp: qt2_statistics_def count_loss_None qt2_tail_defined_iff len)
  then show ?thesis
    using acc accepted_bytes [OF acc]
    unfolding qt2_DecodePacket_def Let_def
    by (auto simp: accepted_def hdr simp del: bind_Some_iff intro!: Option.bind_eq_None_conv [THEN iffD2])
qed

lemma qt2_point:
  assumes "row + 2 \<le> length buf" and "off + qt2_unit hdr \<le> length buf" and "c < L"
    and "qt2_table_ok s L" and "\<not> get_firetime_file (p32 s)"
  shows "\<exists>az. ld16 buf row = Some az \<and>
     (let d = the (snd (the (qt2_row buf s hdr t b row)) c off) m
      in pd_azimuth d = Fin (of_int (uint az)) \<and> ld16 buf off = Some (pd_distances d) \<and>
         ld8 buf (off + 2) = Some (pd_reflectivities d) \<and>
         (qt2_HasConfidenceLevel hdr \<longrightarrow> ld8 buf (off + 3) = Some (pd_confidence d)))"
proof -
  obtain l where l: "qt2_laserId s hdr (qt2_loopIndex t b) b c = Some l"
    using qt2_laserId_defined [OF assms(4,3)] by blast
  show ?thesis
    using assms(1,2,5)
    by (cases "qt2_HasConfidenceLevel hdr") (simp_all add: qt2_row_def qt2_channel_def qt2_azimuth_def
        qt2_unit_def l f32_u16 load_def ld8_def Let_def)
qed

text \<open>
  The points of a QT128 packet, for all combinations of the optional parts and with a channel
  table that has enough entries: when the packet announced by the header is inside the buffer, entry
  \<open>b * lasers + c\<close> from the packet's first one on is channel \<open>c\<close> of block \<open>b\<close>, and the entries of
  other packets are unchanged; a header that announces more makes the decoder read behind the
  buffer.
\<close>

theorem qt2_DecodePacket_points:
  assumes acc: "accepted pk (p32 s)" and n: "unat (f_packet_num f) < 5000"
    and q: "frame_start_azimuth (p32 s) = Fin q" and nf: "\<not> get_firetime_file (p32 s)"
    and hdr: "qt2_header_at (up_buffer pk) 6 = Some hdr"
    and L: "L = unat (qt2_LaserNum hdr)" and B: "B = unat (qt2_BlockNum hdr)" and U: "U = qt2_unit hdr"
    and tab: "qt2_table_ok s L" and k: "k = unat (f_packet_num f) * (B * L)"
  shows "if qt2_end hdr \<le> 1500
     then \<exists>f' s'. qt2_DecodePacket h f pk s = Some (0, f', s') \<and>
       f_packet_num f' = f_packet_num f + 1 \<and>
       (\<forall>b<B. \<forall>c<L. \<exists>az. ld16 (up_buffer pk) (12 + b * (2 + U * L)) = Some az \<and>
          (let d = f_pointData f' (k + b * L + c); off = 12 + b * (2 + U * L) + 2 + U * c
           in pd_azimuth d = Fin (of_int (uint az)) \<and>
              ld16 (up_buffer pk) off = Some (pd_distances d) \<and>
              ld8 (up_buffer pk) (off + 2) = Some (pd_reflectivities d) \<and>
              (qt2_HasConfidenceLevel hdr \<longrightarrow> ld8 (up_buffer pk) (off + 3) = Some (pd_confidence d)))) \<and>
       (\<forall>j. j < k \<or> k + B * L \<le> j \<longrightarrow> f_pointData f' j = f_pointData f j)
     else qt2_DecodePacket h f pk s = None"
proof (cases "qt2_end hdr \<le> 1500")
  case False
  then show ?thesis using qt2_overrun [OF acc hdr] by simp
next
  case fit: True
  let ?buf = "up_buffer pk"
  obtain f1 s1 t where 1: "qt2_DecodePacket h f pk s = qt2_body ?buf hdr t
       (first_index (f_packet_num f) (qt2_BlockNum hdr) (qt2_LaserNum hdr)) f1 s1"
    "f_pointData f1 = f_pointData f" "f_packet_num f1 = f_packet_num f"
    "frame_start_azimuth (p32 s1) = Fin q" "\<not> get_firetime_file (p32 s1)" "qt2_table_ok s1 L"
    using qt2_prefix [OF acc n hdr fit, of h] q nf tab by (auto simp: qt2_table_ok_def)
  have len: "length ?buf = 1500" by (rule accepted_length [OF acc])
  have "12 + (2 + U * L) * B \<le> 1500"
    using fit by (simp add: qt2_end_def qt2_seq_def qt2_tail_def tail_offset_def L B U)
  moreover have "3 \<le> U" by (simp add: U qt2_unit_def)
  ultimately have fits: "B * L \<le> 512" "12 + B * (2 + U * L) \<le> length ?buf"
    using rows_fit_points unfolding len by blast+
  have index: "first_index (f_packet_num f) (qt2_BlockNum hdr) (qt2_LaserNum hdr) = int k"
    using first_index_small [OF n] fits(1) k L B by simp
  obtain f' s' where 2: "qt2_DecodePacket h f pk s = Some (0, f', s')" "f_packet_num f' = f_packet_num f + 1"
    "f_pointData f' = rows_points (qt2_row ?buf s1 hdr t) U 2 L 0 12 k B (f_pointData f)"
    using qt2_body_points [OF fits(2) [unfolded U] fits(1) _ 1(4-6) L B, of f1 k t] 1(1-3) n k index U by auto
  have "\<exists>az. ld16 ?buf (12 + b * (2 + U * L)) = Some az \<and>
      (let d = f_pointData f' (k + b * L + c); off = 12 + b * (2 + U * L) + 2 + U * c
       in pd_azimuth d = Fin (of_int (uint az)) \<and> ld16 ?buf off = Some (pd_distances d) \<and>
          ld8 ?buf (off + 2) = Some (pd_reflectivities d) \<and>
          (qt2_HasConfidenceLevel hdr \<longrightarrow> ld8 ?buf (off + 3) = Some (pd_confidence d)))"
    if bc: "b < B" "c < L" for b c
  proof -
    have "12 + b * (2 + U * L) + 2 + U * c + U \<le> length ?buf" by (rule chan_in_buffer [OF fits(2) bc])
    then show ?thesis
      unfolding 2(3) rows_points_at [OF bc]
      using qt2_point [OF _ _ bc(2) 1(6,5), of "12 + b * (2 + U * L)" ?buf "12 + b * (2 + U * L) + 2 + U * c" hdr]
      by (simp add: U)
  qed
  moreover have "f_pointData f' j = f_pointData f j" if "j < k \<or> k + B * L \<le> j" for j
    using that by (simp add: 2(3) rows_points_elsewhere)
  ultimately show ?thesis using 2(1,2) fit by auto
qed

definition qt2_ex :: "u8 \<Rightarrow> u8 \<Rightarrow> u8 \<Rightarrow> UdpPacket" where
  "qt2_ex laser block status = packet_ex [0xEE, 0xFF, 3, 2, 0, 0, laser, block, 0, 4, 0, status]"

definition qt2_header_ex :: "u8 \<Rightarrow> u8 \<Rightarrow> u8 \<Rightarrow> HS_LIDAR_HEADER_QT_V2" where
  "qt2_header_ex laser block status = \<lparr> qt2_LaserNum = laser, qt2_BlockNum = block, qt2_EchoCount = 0,
     qt2_DistUnit = 4, qt2_EchoNum = 0, qt2_Status = status \<rparr>"

definition qt2_parser_ex :: udp3_2_parser where
  "qt2_parser_ex = \<lparr> p32 = parser_at 0 0 0, qt128_firetime = (\<lambda>_ _. Fin 0),
     pandarQT_channel_config = \<lparr> cc_sob = 0, cc_major_version = 1, cc_min_version = 0, cc_laser_num = 128, cc_BlockNum = 2,
       cc_ChannelConfigTable = [replicate 128 5, replicate 128 6], cc_HashValue = [],
       cc_IsChannelConfigObtained = True \<rparr> \<rparr>"

lemma qt2_ex_ok:
  "accepted (qt2_ex laser block status) (p32 qt2_parser_ex)"
  "qt2_header_at (up_buffer (qt2_ex laser block status)) 6 = Some (qt2_header_ex laser block status)"
  by (simp_all add: accepted_def qt2_ex_def qt2_parser_ex_def packet_ex_wf packet_ex_nth parser_at_def parser_ex_def
      qt2_header_at_def qt2_header_ex_def ld8_def) (simp_all add: packet_ex_def)

theorem qt2_DecodePacket_points_witness:
  "(\<exists>f' s'. qt2_DecodePacket host_ex frame_ex (qt2_ex 128 2 0x51) qt2_parser_ex = Some (0, f', s') \<and>
      pd_distances (f_pointData f' 129) = 0x0707) \<and>
   qt2_DecodePacket host_ex frame_ex (qt2_ex 128 3 0x51) qt2_parser_ex = None"
proof -
  have p: "frame_start_azimuth (p32 qt2_parser_ex) = Fin 0" "\<not> get_firetime_file (p32 qt2_parser_ex)"
    by (simp_all add: qt2_parser_ex_def parser_at_def parser_ex_def)
  have f: "f_packet_num frame_ex = 0" by (simp add: frame_ex_def LidarDecodedFrame_new_def)
  have tab: "qt2_table_ok qt2_parser_ex (unat (qt2_LaserNum (qt2_header_ex 128 n 0x51)))" for n
    by (simp add: qt2_table_ok_def qt2_parser_ex_def qt2_header_ex_def)
  note layout = qt2_end_def qt2_seq_def qt2_tail_def qt2_unit_def tail_offset_def
    qt2_header_ex_def qt2_HasConfidenceLevel_def qt2_HasFunctionSafety_def qt2_HasSeqNum_def
  have "qt2_DecodePacket host_ex frame_ex (qt2_ex 128 3 0x51) qt2_parser_ex = None"
    using qt2_DecodePacket_points [OF qt2_ex_ok(1) [of 128 3 "0x51"] _ p qt2_ex_ok(2) refl refl refl tab refl,
        where f = frame_ex and h = host_ex] by (simp add: f layout)
  moreover obtain f' s' where "qt2_DecodePacket host_ex frame_ex (qt2_ex 128 2 0x51) qt2_parser_ex = Some (0, f', s')"
    and a: "\<forall>b<2. \<forall>c<128. ld16 (up_buffer (qt2_ex 128 2 0x51)) (12 + b * 514 + 2 + 4 * c) =
      Some (pd_distances (f_pointData f' (b * 128 + c)))"
    using qt2_DecodePacket_points [OF qt2_ex_ok(1) [of 128 2 "0x51"] _ p qt2_ex_ok(2) refl refl refl tab refl,
        where f = frame_ex and h = host_ex] by (fastforce simp: f layout Let_def)
  moreover have "pd_distances (f_pointData f' 129) = 0x0707"
    using a [rule_format, of 1 1] by (simp add: qt2_ex_def packet_ex_ld16)
  ultimately show ?thesis by blast
qed

end
