(* ===== verification/Udp4_3.thy ===== *)
theory Udp4_3
  imports Row_Decoder Compute_Points Correction_Data
begin

text \<open>
  The parser of AT128: \<open>src/libhesai/UdpParser/src/udp4_3_parser.cc\<close>, the corrections of
  \<open>src/libhesai/UdpParser/include/udp4_3_parser.h\<close> and the structs of
  \<open>src/libhesai/UdpProtocol/udp_protocol_v4_3.h\<close>. Three mirrors sweep the same view, so a turn of
  the motor has several frames, each with a range of azimuths that the correction file gives. A frame
  ends when the azimuth jumps from one block to the next, or by a time-out near the end of a range;
  after a time-out the next jump only re-arms the division. The class has its own flag
  \<open>get_correction_file_\<close>, which hides that of the base class.
\<close>

section \<open>Structs\<close>

record HS_LIDAR_HEADER_ST_V3 =
  at_LaserNum :: u8
  at_BlockNum :: u8
  at_EchoCount :: u8
  at_DistUnit :: u8
  at_EchoNum :: u8
  at_Status :: u8

definition at_header_at :: "u8 list \<Rightarrow> nat \<Rightarrow> HS_LIDAR_HEADER_ST_V3 option" where
  "at_header_at buf off = do {
     l \<leftarrow> ld8 buf off;
     b \<leftarrow> ld8 buf (off + 1);
     ec \<leftarrow> ld8 buf (off + 2);
     du \<leftarrow> ld8 buf (off + 3);
     en \<leftarrow> ld8 buf (off + 4);
     st \<leftarrow> ld8 buf (off + 5);
     Some \<lparr> at_LaserNum = l, at_BlockNum = b, at_EchoCount = ec, at_DistUnit = du, at_EchoNum = en,
            at_Status = st \<rparr> }"

definition at_GetDistUnit :: "HS_LIDAR_HEADER_ST_V3 \<Rightarrow> fp" where
  "at_GetDistUnit hdr = fdiv (f32_of_int (uint (at_DistUnit hdr))) (Fin 1000)"

definition at_HasSeqNum :: "HS_LIDAR_HEADER_ST_V3 \<Rightarrow> bool" where
  "at_HasSeqNum hdr \<longleftrightarrow> bit (at_Status hdr) 0"

record HS_LIDAR_TAIL_ST_V3 =
  at_reservedInfo1 :: "u16 \<times> u8"
  at_reservedInfo2 :: "u16 \<times> u8"
  at_Shutdown :: u8
  at_reservedInfo3 :: "u16 \<times> u8"
  at_UReserved :: "u8 list"
  at_MotorSpeed :: u16
  at_Timestamp :: u32
  at_ReturnMode :: u8
  at_FactoryInfo :: u8
  at_UTC :: "u8 list"

definition at_tail_at :: "u8 list \<Rightarrow> nat \<Rightarrow> HS_LIDAR_TAIL_ST_V3 option" where
  "at_tail_at buf off = do {
     r1 \<leftarrow> reserved_info_at buf off;
     r2 \<leftarrow> reserved_info_at buf (off + 3);
     sd \<leftarrow> ld8 buf (off + 6);
     r3 \<leftarrow> reserved_info_at buf (off + 7);
     ur \<leftarrow> bytes_at 8 buf (off + 10);
     ms \<leftarrow> ld16 buf (off + 18);
     ts \<leftarrow> ld32 buf (off + 20);
     rm \<leftarrow> ld8 buf (off + 24);
     fi \<leftarrow> ld8 buf (off + 25);
     utc \<leftarrow> bytes_at 6 buf (off + 26);
     Some \<lparr> at_reservedInfo1 = r1, at_reservedInfo2 = r2, at_Shutdown = sd, at_reservedInfo3 = r3,
            at_UReserved = ur, at_MotorSpeed = ms, at_Timestamp = ts, at_ReturnMode = rm,
            at_FactoryInfo = fi, at_UTC = utc \<rparr> }"

definition at_IsDualReturn :: "HS_LIDAR_TAIL_ST_V3 \<Rightarrow> bool" where
  "at_IsDualReturn t \<longleftrightarrow> at_ReturnMode t = 0x39"

text \<open>The address of the tail, behind the blocks and the checksum of the body.\<close>

definition at_tail :: "HS_LIDAR_HEADER_ST_V3 \<Rightarrow> nat" where
  "at_tail hdr = 12 + (2 + 1 + 4 * unat (at_LaserNum hdr)) * unat (at_BlockNum hdr) + 4"

section \<open>The corrections\<close>

record PandarATCorrectionsHeader =
  ach_delimiter :: "u8 \<times> u8"
  ach_version :: "u8 \<times> u8"
  ach_channel_number :: u8
  ach_mirror_number :: u8
  ach_frame_number :: u8
  ach_frame_config :: "u8 list"
  ach_resolution :: u8

text \<open>
  \<open>PandarATCorrections\<close>: the arrays of the struct \<open>l\<close> are the \<open>l_\<close> fields, the arrays of signed
  integers hold their representation. The 16-bit arrays of an older format and the sine and cosine
  maps, which no code uses, are left out, but for the elevations that \<open>GetVecticalAngle\<close> reads.
\<close>

record PandarATCorrections =
  ac_header :: PandarATCorrectionsHeader
  ac_elevation :: "nat \<Rightarrow> u16"
  ac_azimuth_offset :: "nat \<Rightarrow> u8"
  ac_elevation_offset :: "nat \<Rightarrow> u8"
  ac_SHA256 :: "u8 list"
  l_start_frame :: "nat \<Rightarrow> u32"
  l_end_frame :: "nat \<Rightarrow> u32"
  l_azimuth :: "nat \<Rightarrow> u32"
  l_elevation :: "nat \<Rightarrow> u32"

definition PandarATCorrections_new :: PandarATCorrections where
  "PandarATCorrections_new = \<lparr> ac_header = \<lparr> ach_delimiter = (0, 0), ach_version = (0, 0), ach_channel_number = 0,
       ach_mirror_number = 0, ach_frame_number = 0, ach_frame_config = replicate 8 0, ach_resolution = 0 \<rparr>,
     ac_elevation = (\<lambda>_. 0), ac_azimuth_offset = (\<lambda>_. 0), ac_elevation_offset = (\<lambda>_. 0), ac_SHA256 = replicate 32 0,
     l_start_frame = (\<lambda>_. 0), l_end_frame = (\<lambda>_. 0), l_azimuth = (\<lambda>_. 0), l_elevation = (\<lambda>_. 0) \<rparr>"

definition AT128_LASER_NUM :: nat where "AT128_LASER_NUM = 128"
definition CORRECTION_AZIMUTH_NUM :: nat where "CORRECTION_AZIMUTH_NUM = 180"
definition CIRCLE_ANGLE :: nat where "CIRCLE_ANGLE = 36000"

record udp4_3_parser =
  p43 :: parser
  at_view_mode :: int
  at_get_correction_file :: bool
  at_corrections :: PandarATCorrections

definition Udp4_3Parser_new :: "libm \<Rightarrow> udp4_3_parser \<Rightarrow> udp4_3_parser" where
  "Udp4_3Parser_new lm mem = mem \<lparr> p43 := GeneralParser_new lm (p43 mem), at_view_mode := 1,
     at_get_correction_file := False, at_corrections := PandarATCorrections_new \<rparr>"

definition ach_at :: "u8 list \<Rightarrow> nat \<Rightarrow> PandarATCorrectionsHeader option" where
  "ach_at buf off = do {
     d0 \<leftarrow> ld8 buf off;
     d1 \<leftarrow> ld8 buf (off + 1);
     v0 \<leftarrow> ld8 buf (off + 2);
     v1 \<leftarrow> ld8 buf (off + 3);
     cn \<leftarrow> ld8 buf (off + 4);
     mn \<leftarrow> ld8 buf (off + 5);
     fn \<leftarrow> ld8 buf (off + 6);
     fc \<leftarrow> bytes_at 8 buf (off + 7);
     re \<leftarrow> ld8 buf (off + 15);
     Some \<lparr> ach_delimiter = (d0, d1), ach_version = (v0, v1), ach_channel_number = cn,
            ach_mirror_number = mn, ach_frame_number = fn, ach_frame_config = fc, ach_resolution = re \<rparr> }"

text \<open>\<open>a[i] = a[i] * resolution\<close>, in unsigned arithmetic or narrowed to the width of the entry.\<close>

definition scale_words :: "nat \<Rightarrow> u8 \<Rightarrow> (nat \<Rightarrow> 'a::len word) \<Rightarrow> nat \<Rightarrow> 'a word" where
  "scale_words n res a = (\<lambda>i. if i < n then a i * ucast res else a i)"

text \<open>The same for \<open>int32_t\<close>, where the product must be in range.\<close>

definition scale_ints :: "nat \<Rightarrow> u8 \<Rightarrow> (nat \<Rightarrow> u32) \<Rightarrow> (nat \<Rightarrow> u32) option" where
  "scale_ints n res a =
     (if \<forall>i<n. int_ok (sint (a i) * uint res) \<noteq> None then Some (scale_words n res a) else None)"

definition at_LoadCorrectionString :: "u8 list \<Rightarrow> udp4_3_parser \<Rightarrow> (int \<times> udp4_3_parser) option" where
  "at_LoadCorrectionString data s = do {
     header \<leftarrow> ach_at data 0;
     if ach_delimiter header = (0xee, 0xff) \<and> snd (ach_version header) = 5 then do {
       let c = (at_corrections s) \<lparr> ac_header := header \<rparr>;
       let frame_num = unat (ach_frame_number header);
       let channel_num = unat (ach_channel_number header);
       if frame_num > 8 \<or> channel_num > AT128_LASER_NUM then Some (-1, s \<lparr> at_corrections := c \<rparr>)
       else do {
         let adjust_length = channel_num * CORRECTION_AZIMUTH_NUM;
         sf \<leftarrow> copy_words 8 4 frame_num data 16 (l_start_frame c);
         ef \<leftarrow> copy_words 8 4 frame_num data (16 + 4 * frame_num) (l_end_frame c);
         let p = 16 + 8 * frame_num;
         az \<leftarrow> copy_words AT128_LASER_NUM 4 channel_num data p (l_azimuth c);
         el \<leftarrow> copy_words AT128_LASER_NUM 4 channel_num data (p + 4 * channel_num) (l_elevation c);
         let p = p + 8 * channel_num;
         ao \<leftarrow> copy_words CIRCLE_ANGLE 1 adjust_length data p (ac_azimuth_offset c);
         eo \<leftarrow> copy_words CIRCLE_ANGLE 1 adjust_length data (p + adjust_length) (ac_elevation_offset c);
         sha \<leftarrow> bytes_at 32 data (p + 2 * adjust_length);
         let res = ach_resolution header;
         az \<leftarrow> scale_ints channel_num res az;
         el \<leftarrow> scale_ints channel_num res el;
         Some (0, s \<lparr> at_get_correction_file := True,
           at_corrections := c \<lparr> l_start_frame := scale_words frame_num res sf,
             l_end_frame := scale_words frame_num res ef, l_azimuth := az, l_elevation := el,
             ac_azimuth_offset := scale_words adjust_length res ao,
             ac_elevation_offset := scale_words adjust_length res eo, ac_SHA256 := sha \<rparr> \<rparr>) } }
     else Some (-1, s) }"

section \<open>The decoder\<close>

text \<open>\<open>m_PandarAT_corrections.l.start_frame[i] / ANGULAR_RESOLUTION + MARGINAL_ANGLE - last_azimuth_\<close>\<close>

definition at_margin :: "udp4_3_parser \<Rightarrow> nat \<Rightarrow> int" where
  "at_margin s i = sint (l_start_frame (at_corrections s) i div 256 + 7625 - word_of_int (last_azimuth (p43 s)))"

text \<open>The loop over the first three ranges, from range \<open>i\<close> on.\<close>

fun at_timeout :: "udp4_3_parser \<Rightarrow> nat \<Rightarrow> nat \<Rightarrow> bool option" where
  "at_timeout s 0 i = Some False"
| "at_timeout s (Suc n) i = do {
     a \<leftarrow> int_ok \<bar>at_margin s i\<bar>;
     if a < 200 then Some True else at_timeout s n (Suc i) }"

definition at_IsNeedFrameSplit :: "u16 \<Rightarrow> parser \<Rightarrow> bool" where
  "at_IsNeedFrameSplit azimuth p \<longleftrightarrow> \<bar>uint azimuth - last_azimuth p\<bar> > 1000 \<and> last_azimuth p \<noteq> 0"

definition at_azimuth :: "parser \<Rightarrow> int \<Rightarrow> nat \<Rightarrow> fp option" where
  "at_azimuth p azimuth i =
     (if get_firetime_file p then do {
        c \<leftarrow> GetFiretimesCorrection (int i) (f64_of_int (uint (spin_speed p))) p;
        Some (to_float (dadd (f64_of_int azimuth) (dmul (dmul c (Fin 25600)) (Fin 2)))) }
      else Some (f32_of_int azimuth))"

definition at_row :: "u8 list \<Rightarrow> parser \<Rightarrow> u16 row_reader" where
  "at_row buf p r pa = do {
     u16Azimuth \<leftarrow> ld16 buf pa;
     u8FineAzimuth \<leftarrow> ld8 buf (pa + 2);
     let azimuth = uint u16Azimuth * 256 + uint u8FineAzimuth;
     Some (u16Azimuth, \<lambda>i off. do {
       a \<leftarrow> at_azimuth p azimuth i;
       d \<leftarrow> ld16 buf off;
       re \<leftarrow> ld8 buf (off + 2);
       co \<leftarrow> ld8 buf (off + 3);
       Some (\<lambda>pd. pd \<lparr> pd_azimuth := a, pd_distances := d, pd_reflectivities := re, pd_confidence := co \<rparr>) }) }"

definition at_post :: "(u16, parser) row_post" where
  "at_post az f p =
     (let (f, p) = (if at_IsNeedFrameSplit az p
        then if \<not> use_angle p then (f, p \<lparr> use_angle := True \<rparr>) else (f \<lparr> f_scan_complete := True \<rparr>, p)
        else (f, p))
      in (f, p \<lparr> last_azimuth := uint az \<rparr>))"

definition at_body :: "u8 list \<Rightarrow> HS_LIDAR_HEADER_ST_V3 \<Rightarrow> int \<Rightarrow> LidarDecodedFrame \<Rightarrow> udp4_3_parser \<Rightarrow>
    (int \<times> LidarDecodedFrame \<times> udp4_3_parser) option" where
  "at_body buf hdr index f s = do {
     (_, f, p) \<leftarrow> read_rows (at_row buf (p43 s)) at_post 4 3 (unat (at_LaserNum hdr)) (unat (at_BlockNum hdr)) 0 12
        index f (p43 s);
     Some (0, f \<lparr> f_packet_num := f_packet_num f + 1 \<rparr>, s \<lparr> p43 := p \<rparr>) }"

definition at_packet :: "host \<Rightarrow> LidarDecodedFrame \<Rightarrow> UdpPacket \<Rightarrow> udp4_3_parser \<Rightarrow>
    (int \<times> LidarDecodedFrame \<times> udp4_3_parser) option" where
  "at_packet h f pk s = (let buf = up_buffer pk in do {
     b0 \<leftarrow> ld8 buf 0;
     b1 \<leftarrow> ld8 buf 1;
     if b0 \<noteq> 0xEE \<or> b1 \<noteq> 0xFF then Some (-1, f, s)
     else do {
       pHeader \<leftarrow> at_header_at buf 6;
       p \<leftarrow> count_loss h (at_HasSeqNum pHeader) buf (at_tail pHeader + 32) (p43 s);
       pTail \<leftarrow> at_tail_at buf (at_tail pHeader);
       let time = lidar_time_4_3 (h_timezone h) (at_UTC pTail) (at_Timestamp pTail);
       let p = CalPktTimeLoss (h_time_tick h) time p;
       let p = p \<lparr> spin_speed := at_MotorSpeed pTail, is_dual_return := at_IsDualReturn pTail \<rparr>;
       let f = f \<lparr> f_host_timestamp := h_now h,
                   f_spin_speed := at_MotorSpeed pTail,
                   f_return_mode := ucast (at_ReturnMode pTail),
                   f_work_mode := uint (at_Shutdown pTail),
                   f_distance_unit := at_GetDistUnit pHeader \<rparr>;
       f \<leftarrow> put_timestamp (unat (f_packet_num f))
             (if f_use_timestamp_type f = 0 then time else up_recv_timestamp pk) f;
       let laser = at_LaserNum pHeader;
       let block = at_BlockNum pHeader;
       let f = f \<lparr> f_laser_num := ucast laser, f_block_num := ucast block,
                   f_per_points_num := ucast block * ucast laser, f_scan_complete := False \<rparr>;
       at_body buf pHeader (first_index (f_packet_num f) block laser) f (s \<lparr> p43 := p \<rparr>) } })"

definition at_DecodePacket :: "host \<Rightarrow> LidarDecodedFrame \<Rightarrow> UdpPacket \<Rightarrow> udp4_3_parser \<Rightarrow>
    (int \<times> LidarDecodedFrame \<times> udp4_3_parser) option" where
  "at_DecodePacket h f pk s =
     (if \<not> at_get_correction_file s then Some (-1, f, s)
      else do {
        ends \<leftarrow> (if up_is_timeout pk then at_timeout s 3 0 else Some False);
        if ends then Some (0, f \<lparr> f_scan_complete := True \<rparr>, s \<lparr> p43 := p43 s \<lparr> use_angle := False \<rparr> \<rparr>)
        else at_packet h f pk s })"

section \<open>The points\<close>

text \<open>
  The search of the range of an azimuth: the condition of the \<open>while\<close> loop, in \<open>uint32_t\<close>, and the
  loop, which ends after \<open>frame_number\<close> steps at the latest. The result is the last \<open>field\<close> and
  \<open>count\<close>.
\<close>

definition at_outside :: "PandarATCorrections \<Rightarrow> int \<Rightarrow> nat \<Rightarrow> bool option" where
  "at_outside c Azimuth field = do {
     st \<leftarrow> arr 8 (l_start_frame c) field;
     en \<leftarrow> arr 8 (l_end_frame c) field;
     _ \<leftarrow> int_ok (Azimuth + CIRCLE);
     let a = (word_of_int Azimuth :: u32);
     let circle = (9216000 :: u32);
     Some ((a + circle - st) mod circle + (en + circle - a) mod circle \<noteq> (en + circle - st) mod circle) }"

function at_search :: "PandarATCorrections \<Rightarrow> int \<Rightarrow> nat \<Rightarrow> nat \<Rightarrow> (nat \<times> nat) option" where
  "at_search c Azimuth field count =
     (if count < unat (ach_frame_number (ac_header c)) then do {
        out \<leftarrow> at_outside c Azimuth field;
        if out then at_search c Azimuth ((field + 1) mod unat (ach_frame_number (ac_header c))) (count + 1)
        else Some (field, count) }
      else Some (field, count))"
  by pat_completeness auto
termination by (relation "measure (\<lambda>(c, _, _, count). unat (ach_frame_number (ac_header c)) - count)") auto

declare at_search.simps [simp del]

text \<open>\<open>round\<close>: to the nearest integer, halves away from zero.\<close>

fun fp_nearest :: "fp \<Rightarrow> fp" where
  "fp_nearest (Fin x) = Fin (of_int (if x < 0 then - \<lfloor>- x + 1 / 2\<rfloor> else \<lfloor>x + 1 / 2\<rfloor>))"
| "fp_nearest x = x"

fun fp_floor :: "fp \<Rightarrow> fp" where
  "fp_floor (Fin x) = Fin (of_int \<lfloor>x\<rfloor>)"
| "fp_floor x = x"

definition STEP3 :: int where "STEP3 = 51200"

text \<open>\<open>GetAzimuthAdjustV3\<close> and \<open>GetElevationAdjustV3\<close>, which differ in the array only.\<close>

definition at_adjust :: "(nat \<Rightarrow> u8) \<Rightarrow> u8 \<Rightarrow> u32 \<Rightarrow> fp option" where
  "at_adjust offs ch azi = do {
     i \<leftarrow> fp_to_int (fp_floor (fdiv (f32_of_int (uint azi)) (f32_of_int STEP3)));
     m \<leftarrow> int_ok (i * STEP3);
     let l = sint (azi - word_of_int m);
     let k = fdiv (f32_of_int l) (f32_of_int STEP3);
     j \<leftarrow> nat_index (int (unat ch * CORRECTION_AZIMUTH_NUM) + i);
     o1 \<leftarrow> arr CIRCLE_ANGLE offs j;
     o2 \<leftarrow> arr CIRCLE_ANGLE offs (j + 1);
     Some (fp_nearest (fadd (fmul (fp_sub f32 (Fin 1) k) (f32_of_int (sint o1))) (fmul k (f32_of_int (sint o2))))) }"

text \<open>
  The elevation and the azimuth of a channel: sums of an integer and a \<open>float\<close>, so they are rounded
  to a \<open>float\<close> before they are cut to an \<open>int\<close>; the integer part of the azimuth is a \<open>uint32_t\<close>.
\<close>

definition at_angles :: "udp4_3_parser \<Rightarrow> nat \<Rightarrow> nat \<Rightarrow> int \<Rightarrow> (int \<times> int) option" where
  "at_angles s field i Azimuth =
     (if at_get_correction_file s then do {
        let c = at_corrections s;
        le \<leftarrow> arr AT128_LASER_NUM (l_elevation c) i;
        ea \<leftarrow> at_adjust (ac_elevation_offset c) (word_of_nat i) (word_of_int Azimuth);
        elevation \<leftarrow> fp_to_int (fadd (f32_of_int (sint le)) (fmul ea (Fin 256)));
        elevation \<leftarrow> int_ok (CIRCLE + elevation);
        st \<leftarrow> arr 8 (l_start_frame c) field;
        la \<leftarrow> arr AT128_LASER_NUM (l_azimuth c) i;
        aa \<leftarrow> at_adjust (ac_azimuth_offset c) (word_of_nat i) (word_of_int Azimuth);
        _ \<leftarrow> int_ok (Azimuth + CIRCLE);
        azimuth \<leftarrow> fp_to_int (fadd (f32_of_int (uint ((word_of_int Azimuth + 9216000 - st) * 2 - la)))
          (fmul aa (Fin 256)));
        azimuth \<leftarrow> int_ok (CIRCLE + azimuth);
        Some (c_rem azimuth CIRCLE, c_rem elevation CIRCLE) }
      else Some (0, 0))"

definition at_point :: "libm \<Rightarrow> udp4_3_parser \<Rightarrow> nat \<Rightarrow> int \<Rightarrow> LidarDecodedFrame \<Rightarrow> nat \<Rightarrow> nat \<Rightarrow>
    (LidarPoint \<Rightarrow> LidarPoint) option" where
  "at_point lm s field packet_index f i k = do {
     d \<leftarrow> get_point_data k f;
     let distance = to_float (dmul (f64_of_int (uint (pd_distances d))) (f_distance_unit f));
     Azimuth \<leftarrow> fp_to_int (pd_azimuth d);
     (azimuth, elevation) \<leftarrow> at_angles s field i Azimuth;
     place_point lm (p43 s) True packet_index f i d azimuth elevation distance }"

text \<open>The range of a block; \<open>None\<close> inside means that the block is skipped.\<close>

definition at_field :: "udp4_3_parser \<Rightarrow> int \<Rightarrow> nat option option" where
  "at_field s Azimuth =
     (if at_get_correction_file s then do {
        (field, count) \<leftarrow> at_search (at_corrections s) Azimuth 0 0;
        Some (if count \<ge> unat (ach_frame_number (ac_header (at_corrections s))) then None else Some field) }
      else Some (Some 0))"

definition at_block :: "libm \<Rightarrow> udp4_3_parser \<Rightarrow> int \<Rightarrow> LidarDecodedFrame \<Rightarrow> nat \<Rightarrow> point_writer option option" where
  "at_block lm s packet_index f blockid = do {
     k \<leftarrow> nat_index (point_index f packet_index blockid 0);
     d \<leftarrow> get_point_data k f;
     Azimuth \<leftarrow> fp_to_int (pd_azimuth d);
     field \<leftarrow> at_field s Azimuth;
     Some (map_option (\<lambda>field. at_point lm s field packet_index) field) }"

definition at_ComputeXYZI :: "libm \<Rightarrow> LidarDecodedFrame \<Rightarrow> int \<Rightarrow> udp4_3_parser \<Rightarrow>
    (int \<times> LidarDecodedFrame \<times> udp4_3_parser) option" where
  "at_ComputeXYZI lm f packet_index s = do {
     f \<leftarrow> compute_blocks (at_block lm s packet_index) packet_index (unat (f_block_num f)) 0 f;
     Some (0, f, s \<lparr> p43 := FrameNumAdd (p43 s) \<rparr>) }"

text \<open>\<open>GetVecticalAngle\<close> reads the array of 16-bit elevations, which nothing fills.\<close>

definition at_GetVecticalAngle :: "udp4_3_parser \<Rightarrow> nat \<Rightarrow> int option" where
  "at_GetVecticalAngle s channel =
     (if \<not> at_get_correction_file s then Some (-1)
      else map_option sint (arr AT128_LASER_NUM (ac_elevation (at_corrections s)) channel))"

section \<open>The search of a range\<close>

text \<open>The azimuth \<open>a\<close> is on the arc from \<open>s\<close> to \<open>e\<close> in the direction of rotation.\<close>

definition on_arc :: "int \<Rightarrow> int \<Rightarrow> int \<Rightarrow> bool" where
  "on_arc s e a \<longleftrightarrow> (a - s) mod CIRCLE \<le> (e - s) mod CIRCLE"

lemma arc_sum:
  "((a - s) mod CIRCLE + (e - a) mod CIRCLE = (e - s) mod CIRCLE) = on_arc s e a"
proof -
  let ?x = "(a - s) mod CIRCLE" and ?y = "(e - a) mod CIRCLE" and ?z = "(e - s) mod CIRCLE"
  have b: "0 \<le> ?x" "?x < CIRCLE" "0 \<le> ?y" "?y < CIRCLE" "0 \<le> ?z" "?z < CIRCLE"
    by (simp_all add: CIRCLE_def)
  have m: "(?x + ?y) mod CIRCLE = ?z" by (simp add: mod_add_eq)
  have "?x + ?y = ?z \<or> ?x + ?y = ?z + CIRCLE"
  proof (cases "?x + ?y < CIRCLE")
    case True
    then show ?thesis using m b mod_pos_pos_trivial [of "?x + ?y" CIRCLE] by linarith
  next
    case False
    then have "(?x + ?y) mod CIRCLE = ?x + ?y - CIRCLE"
      using b mod_pos_geq [of CIRCLE "?x + ?y"] mod_pos_pos_trivial [of "?x + ?y - CIRCLE" CIRCLE] by linarith
    then show ?thesis using m by linarith
  qed
  then show ?thesis using b(2-4,6) unfolding on_arc_def by linarith
qed

definition range_ok :: "PandarATCorrections \<Rightarrow> bool" where
  "range_ok c \<longleftrightarrow> (\<forall>j<8. uint (l_start_frame c j) \<le> CIRCLE \<and> uint (l_end_frame c j) \<le> CIRCLE)"

definition in_range :: "PandarATCorrections \<Rightarrow> int \<Rightarrow> nat \<Rightarrow> bool" where
  "in_range c A j \<longleftrightarrow> on_arc (uint (l_start_frame c j)) (uint (l_end_frame c j)) A"

lemma uint_circle_diff:
  assumes "0 \<le> x" "x \<le> CIRCLE" "0 \<le> y" "y \<le> CIRCLE"
  shows "uint ((word_of_int x + 9216000 - word_of_int y :: u32) mod 9216000) = (x - y) mod CIRCLE"
proof -
  have e: "word_of_int x + 9216000 - word_of_int y = (word_of_int (x - y + CIRCLE) :: u32)"
    by (simp add: CIRCLE_def)
  have "uint (word_of_int (x - y + CIRCLE) :: u32) = x - y + CIRCLE"
    using assms by (simp add: uint_word_of_int CIRCLE_def del: of_int_add of_int_diff)
  then show ?thesis unfolding e uint_mod_distrib by (simp add: CIRCLE_def)
qed

lemma at_outside_arc:
  assumes "range_ok c" and A: "0 \<le> A" "A \<le> CIRCLE" and "j < 8"
  shows "at_outside c A j = Some (\<not> in_range c A j)"
proof -
  define s e where "s = uint (l_start_frame c j)" and "e = uint (l_end_frame c j)"
  have w: "l_start_frame c j = word_of_int s" "l_end_frame c j = word_of_int e"
    by (simp_all add: s_def e_def)
  have b: "0 \<le> s" "s \<le> CIRCLE" "0 \<le> e" "e \<le> CIRCLE"
    using assms(1,4) by (simp_all add: range_ok_def s_def e_def)
  let ?x = "(word_of_int A + 9216000 - word_of_int s :: u32) mod 9216000"
  let ?y = "(word_of_int e + 9216000 - word_of_int A :: u32) mod 9216000"
  let ?z = "(word_of_int e + 9216000 - word_of_int s :: u32) mod 9216000"
  note u = uint_circle_diff [OF A b(1,2)] uint_circle_diff [OF b(3,4) A] uint_circle_diff [OF b(3,4) b(1,2)]
  have "uint ?x < CIRCLE" "uint ?y < CIRCLE" unfolding u by (simp_all add: CIRCLE_def)
  then have "uint (?x + ?y) = uint ?x + uint ?y"
    by (intro uint_add_lem [THEN iffD1]) (simp add: CIRCLE_def)
  then have "(?x + ?y = ?z) = on_arc s e A"
    by (simp add: word_uint_eq_iff u arc_sum del: uint_add_lem)
  then have "(?x + ?y = ?z) = in_range c A j" by (simp add: in_range_def s_def e_def)
  then show ?thesis
    using assms(4) A by (simp add: at_outside_def arr_def w int_ok_def CIRCLE_def Let_def)
qed

lemma at_outside_behind: "8 \<le> j \<Longrightarrow> at_outside c A j = None"
  by (simp add: at_outside_def arr_def)

lemma at_search_from:
  assumes c: "range_ok c" and A: "0 \<le> A" "A \<le> CIRCLE" and N: "N = unat (ach_frame_number (ac_header c))"
    and j: "j < N"
  shows "at_search c A j j =
     (case List.find (in_range c A) [j..<min N 8] of Some i \<Rightarrow> Some (i, i)
      | None \<Rightarrow> if N \<le> 8 then Some (0, N) else None)"
  using j
proof (induction "N - j" arbitrary: j)
  case (Suc n)
  show ?case
  proof (cases "j < 8")
    case False
    then show ?thesis
      using Suc.prems by (subst at_search.simps) (simp add: at_outside_behind N [symmetric] del: bind_Some_iff)
  next
    case True
    have r: "[j..<min N 8] = j # [Suc j..<min N 8]"
      using True Suc.prems by (simp add: upt_conv_Cons)
    have step: "at_search c A j j =
        (if in_range c A j then Some (j, j) else at_search c A (Suc j mod N) (Suc j))"
      using Suc.prems at_outside_arc [OF c A True]
      by (subst at_search.simps) (simp add: N [symmetric] del: bind_Some_iff)
    show ?thesis
    proof (cases "Suc j < N")
      case True
      then show ?thesis
        using Suc.hyps(1) [of "Suc j"] Suc.hyps(2) step by (simp add: r)
    next
      case False
      then have "Suc j = N" "N \<le> 8" using Suc.prems \<open>j < 8\<close> by simp_all
      moreover from this have "[j..<min N 8] = [j]" by auto
      ultimately show ?thesis by (subst step) (simp add: at_search.simps [of c A 0 N] N [symmetric])
    qed
  qed
qed simp

lemma at_field_eq:
  assumes "range_ok (at_corrections s)" and "0 \<le> A" "A \<le> CIRCLE" and "at_get_correction_file s"
    and N: "N = unat (ach_frame_number (ac_header (at_corrections s)))"
  shows "at_field s A =
     (if N \<le> 8 \<or> (\<exists>j<8. in_range (at_corrections s) A j)
      then Some (List.find (in_range (at_corrections s) A) [0..<min N 8]) else None)"
proof (cases "N = 0")
  case True
  then show ?thesis using assms(4) N by (simp add: at_field_def at_search.simps)
next
  case False
  define r where "r = List.find (in_range (at_corrections s) A) [0..<min N 8]"
  have f: "i < N" if "r = Some i" for i
    using that by (auto simp: r_def find_Some_iff)
  have e: "(\<exists>j<8. in_range (at_corrections s) A j) \<longleftrightarrow> r \<noteq> None" if "8 < N"
    using that by (auto simp: r_def find_None_iff)
  have "at_search (at_corrections s) A 0 0 =
      (case r of Some i \<Rightarrow> Some (i, i) | None \<Rightarrow> if N \<le> 8 then Some (0, N) else None)"
    using at_search_from [OF assms(1-3) N, of 0] False by (simp add: r_def)
  then have "at_field s A = (if N \<le> 8 \<or> (\<exists>j<8. in_range (at_corrections s) A j) then Some r else None)"
    using assms(4) e f by (cases r) (auto simp: at_field_def N [symmetric] not_le)
  then show ?thesis by (simp add: r_def)
qed

text \<open>
  The search of the range of an azimuth ends, and finds the first range of the correction file
  whose arc from start to end contains the azimuth, or none. With a header that announces more than
  the eight ranges the arrays have, an azimuth in none of them makes it read behind the arrays.
\<close>

theorem at_field_first:
  assumes "range_ok (at_corrections s)" and "0 \<le> A" "A \<le> CIRCLE" and "at_get_correction_file s"
  defines "N \<equiv> unat (ach_frame_number (ac_header (at_corrections s)))"
    and "P \<equiv> in_range (at_corrections s) A"
  shows "if N \<le> 8 \<or> (\<exists>j<8. P j)
     then \<exists>r. at_field s A = Some r \<and>
       (case r of Some i \<Rightarrow> i < N \<and> i < 8 \<and> P i \<and> (\<forall>j<i. \<not> P j) | None \<Rightarrow> \<forall>j<min N 8. \<not> P j)
     else at_field s A = None"
proof -
  have f: "(case List.find P [0..<min N 8] of Some i \<Rightarrow> i < N \<and> i < 8 \<and> P i \<and> (\<forall>j<i. \<not> P j)
      | None \<Rightarrow> \<forall>j<min N 8. \<not> P j)"
    by (auto simp: find_Some_iff find_None_iff nth_append split: option.split)
  show ?thesis
    using at_field_eq [OF assms(1-4) refl] f unfolding N_def P_def by simp
qed

section \<open>Behaviour of the decoder\<close>

definition at_accepted :: "UdpPacket \<Rightarrow> udp4_3_parser \<Rightarrow> bool" where
  "at_accepted pk s \<longleftrightarrow> packet_wf pk \<and> at_get_correction_file s \<and> \<not> up_is_timeout pk \<and>
     up_buffer pk ! 0 = 0xEE \<and> up_buffer pk ! 1 = 0xFF"

lemma at_accepted_bytes:
  assumes "at_accepted pk s"
  shows "length (up_buffer pk) = 1500" "ld8 (up_buffer pk) 0 = Some 0xEE" "ld8 (up_buffer pk) 1 = Some 0xFF"
  using assms by (simp_all add: at_accepted_def packet_wf_def kBufSize_def ld8_def)

lemma at_tail_defined_iff: "at_tail_at buf off \<noteq> None \<longleftrightarrow> off + 32 \<le> length buf"
  by (auto simp: at_tail_at_def load_def ld8_def bytes_at_def reserved_info_at_def split: Option.bind_splits if_splits)

lemma at_azimuth_defined: "i < 512 \<Longrightarrow> \<exists>a. at_azimuth p az i = Some a"
  by (simp add: at_azimuth_def GetFiretimesCorrection_def MAX_LASER_NUM_def)

lemma at_rows: "L \<le> 512 \<Longrightarrow> row_layout (at_row buf p) at_post 4 3 (length buf) rows L"
proof unfold_locales
  fix r pa assume "r < rows" "pa + 3 \<le> length buf"
  then show "\<exists>i rd. at_row buf p r pa = Some (i, rd)"
    by (simp add: at_row_def load_def ld8_def Let_def)
next
  fix r pa i rd c off
  assume L: "L \<le> 512" and a: "at_row buf p r pa = Some (i, rd)" "c < L" "off + 4 \<le> length buf"
  then show "rd c off \<noteq> None"
    using at_azimuth_defined [of c p] L
    by (auto simp: at_row_def load_def ld8_def Let_def split: Option.bind_splits if_splits)
qed (simp add: at_post_def Let_def)

text \<open>Jumps of the azimuth along a sequence of blocks.\<close>

fun at_jumps :: "int \<Rightarrow> u16 list \<Rightarrow> nat" where
  "at_jumps prev [] = 0"
| "at_jumps prev (a # azs) =
     (if \<bar>uint a - prev\<bar> > 1000 \<and> prev \<noteq> 0 then 1 else 0) + at_jumps (uint a) azs"

definition block_azimuths :: "u8 list \<Rightarrow> nat \<Rightarrow> nat \<Rightarrow> nat \<Rightarrow> u16 list" where
  "block_azimuths buf row pa n = map (\<lambda>b. the (ld16 buf (pa + b * row))) [0..<n]"

lemma block_azimuths_Suc:
  "block_azimuths buf row pa (Suc n) = the (ld16 buf pa) # block_azimuths buf row (pa + row) n"
  by (simp add: block_azimuths_def upt_rec [of 0 "Suc n"] map_Suc_upt [symmetric] o_def add.assoc del: upt_Suc)

lemma at_post_eq:
  "at_post az f p = (f \<lparr> f_scan_complete := f_scan_complete f \<or> at_IsNeedFrameSplit az p \<and> use_angle p \<rparr>,
     p \<lparr> use_angle := use_angle p \<or> at_IsNeedFrameSplit az p, last_azimuth := uint az \<rparr>)"
  by (cases "use_angle p"; cases "at_IsNeedFrameSplit az p") (simp_all add: at_post_def)

lemma at_posts:
  assumes "pa + n * row \<le> length buf" and "3 \<le> row"
    and "posts (at_row buf q) at_post row n r pa f p = (f', p')"
  defines "J \<equiv> at_jumps (last_azimuth p) (block_azimuths buf row pa n)"
  shows "f' = f \<lparr> f_scan_complete := f_scan_complete f \<or> (if use_angle p then 1 else 2) \<le> J \<rparr> \<and>
     p' = p \<lparr> use_angle := use_angle p \<or> 1 \<le> J,
              last_azimuth := last (last_azimuth p # map uint (block_azimuths buf row pa n)) \<rparr>"
  using assms(1,3) unfolding J_def
proof (induction n arbitrary: r pa f p)
  case 0
  then show ?case by (simp add: block_azimuths_def)
next
  case (Suc n)
  let ?az = "the (ld16 buf pa) :: u16"
  have h: "fst (the (at_row buf q r pa)) = ?az"
    using Suc.prems(1) assms(2) by (simp add: at_row_def load_def ld8_def Let_def)
  define jump where "jump \<longleftrightarrow> at_IsNeedFrameSplit ?az p"
  let ?f = "f \<lparr> f_scan_complete := f_scan_complete f \<or> jump \<and> use_angle p \<rparr>"
  let ?p = "p \<lparr> use_angle := use_angle p \<or> jump, last_azimuth := uint ?az \<rparr>"
  have "posts (at_row buf q) at_post row n (Suc r) (pa + row) ?f ?p = (f', p')"
    using Suc.prems(2) by (simp add: h at_post_eq [of ?az] jump_def)
  note IH = Suc.IH [OF _ this]
  have J: "at_jumps (last_azimuth p) (block_azimuths buf row pa (Suc n)) =
      (if jump then 1 else 0) + at_jumps (uint ?az) (block_azimuths buf row (pa + row) n)"
    by (simp add: block_azimuths_Suc jump_def at_IsNeedFrameSplit_def)
  show ?case
    using IH Suc.prems(1) unfolding J
    by (cases jump; cases "use_angle p"; cases "f_scan_complete f") (simp_all add: block_azimuths_Suc)
qed

lemma at_body_points:
  assumes fit: "12 + B * (3 + 4 * L) \<le> length buf" and m: "B * L \<le> 512"
    and n: "unat (f_packet_num f) < 5000"
    and L: "L = unat (at_LaserNum hdr)" and B: "B = unat (at_BlockNum hdr)"
    and k: "k = unat (f_packet_num f) * (B * L)"
  defines "azs \<equiv> block_azimuths buf (3 + 4 * L) 12 B"
  shows "at_body buf hdr (int k) f s = Some (0,
     f \<lparr> f_scan_complete := f_scan_complete f \<or> (if use_angle (p43 s) then 1 else 2) \<le> at_jumps (last_azimuth (p43 s)) azs,
         f_pointData := rows_points (at_row buf (p43 s)) 4 3 L 0 12 k B (f_pointData f),
         f_packet_num := f_packet_num f + 1 \<rparr>,
     s \<lparr> p43 := p43 s \<lparr> use_angle := use_angle (p43 s) \<or> 1 \<le> at_jumps (last_azimuth (p43 s)) azs,
         last_azimuth := last (last_azimuth (p43 s) # map uint azs) \<rparr> \<rparr>)"
proof -
  have L512: "L \<le> 512" using L unat_u8_less [of "at_LaserNum hdr"] by linarith
  obtain f' p' where p: "posts (at_row buf (p43 s)) at_post (3 + 4 * L) B 0 12 f (p43 s) = (f', p')" by fastforce
  note q = at_posts [OF fit _ p, folded azs_def]
  have "read_rows (at_row buf (p43 s)) at_post 4 3 L B 0 12 (int k) f (p43 s) = Some (int (k + B * L),
      f' \<lparr> f_pointData := rows_points (at_row buf (p43 s)) 4 3 L 0 12 k B (f_pointData f) \<rparr>, p')"
    using row_layout.rows [OF at_rows [OF L512, of buf "p43 s" B] fit, of k 0 f "p43 s"] points_fit [OF n m] k p
    by simp
  then show ?thesis
    using q by (simp add: at_body_def L [symmetric] B [symmetric] del: bind_Some_iff of_nat_add of_nat_mult)
qed

definition at_end :: "HS_LIDAR_HEADER_ST_V3 \<Rightarrow> nat" where
  "at_end hdr = at_tail hdr + 32 + (if at_HasSeqNum hdr then 4 else 0)"

lemma at_prefix:
  assumes acc: "at_accepted pk s" and n: "unat (f_packet_num f) < 5000"
    and hdr: "at_header_at (up_buffer pk) 6 = Some hdr" and fit: "at_end hdr \<le> 1500"
  shows "\<exists>f1 p1. at_DecodePacket h f pk s = at_body (up_buffer pk) hdr
       (first_index (f_packet_num f) (at_BlockNum hdr) (at_LaserNum hdr)) f1 (s \<lparr> p43 := p1 \<rparr>) \<and>
     f_pointData f1 = f_pointData f \<and> f_packet_num f1 = f_packet_num f \<and> \<not> f_scan_complete f1 \<and>
     use_angle p1 = use_angle (p43 s) \<and> last_azimuth p1 = last_azimuth (p43 s) \<and>
     get_firetime_file p1 = get_firetime_file (p43 s)"
proof -
  let ?buf = "up_buffer pk"
  note b = at_accepted_bytes [OF acc]
  obtain p2 where p2: "count_loss h (at_HasSeqNum hdr) ?buf (at_tail hdr + 32) (p43 s) = Some p2"
    "use_angle p2 = use_angle (p43 s)" "last_azimuth p2 = last_azimuth (p43 s)"
    "get_firetime_file p2 = get_firetime_file (p43 s)"
    using count_loss_defined [of "at_tail hdr + 32" "at_HasSeqNum hdr" ?buf h "p43 s"] fit b(1)
    by (auto simp: at_end_def)
  obtain t where t: "at_tail_at ?buf (at_tail hdr) = Some t"
    using at_tail_defined_iff [of ?buf "at_tail hdr"] b(1) fit by (fastforce simp: at_end_def)
  let ?f = "f \<lparr> f_host_timestamp := h_now h, f_spin_speed := at_MotorSpeed t,
     f_return_mode := ucast (at_ReturnMode t), f_work_mode := uint (at_Shutdown t),
     f_distance_unit := at_GetDistUnit hdr \<rparr>"
  obtain g where g: "put_timestamp (unat (f_packet_num f)) (if f_use_timestamp_type f = 0
      then lidar_time_4_3 (h_timezone h) (at_UTC t) (at_Timestamp t) else up_recv_timestamp pk) ?f = Some g"
    "f_pointData g = f_pointData f" "f_packet_num g = f_packet_num f"
    using put_timestamp_defined [OF n, where f = ?f] by auto
  show ?thesis
    using acc b(2,3) p2(2-4) g(2,3)
    unfolding at_DecodePacket_def at_packet_def Let_def
    by (simp add: at_accepted_def hdr p2(1) t g(1) del: bind_Some_iff)
      ((rule exI)+, rule conjI, rule refl, simp)
qed

lemma at_overrun:
  assumes acc: "at_accepted pk s" and hdr: "at_header_at (up_buffer pk) 6 = Some hdr"
    and over: "1500 < at_end hdr"
  shows "at_DecodePacket h f pk s = None"
proof -
  let ?buf = "up_buffer pk"
  note b = at_accepted_bytes [OF acc]
  consider "at_HasSeqNum hdr" "1500 < at_tail hdr + 32 + 4" | "1500 < at_tail hdr + 32"
    using over by (auto simp: at_end_def split: if_splits)
  then have "count_loss h (at_HasSeqNum hdr) ?buf (at_tail hdr + 32) (p43 s) = None \<or>
      at_tail_at ?buf (at_tail hdr) = None"
    using b(1) at_tail_defined_iff [of ?buf "at_tail hdr"] by cases (auto simp: count_loss_None)
  then show ?thesis
    using acc b(2,3) unfolding at_DecodePacket_def at_packet_def Let_def
    by (auto simp: at_accepted_def hdr simp del: bind_Some_iff intro!: Option.bind_eq_None_conv [THEN iffD2])
qed

lemma at_point_data:
  assumes "row + 3 \<le> length buf" and "off + 4 \<le> length buf" and "\<not> get_firetime_file p"
  shows "let d = the (snd (the (at_row buf p r row)) c off) m
     in pd_azimuth d = Fin (of_int (uint (the (ld16 buf row) :: u16) * 256 + uint (the (ld8 buf (row + 2))))) \<and>
        ld16 buf off = Some (pd_distances d) \<and> ld8 buf (off + 2) = Some (pd_reflectivities d) \<and>
        ld8 buf (off + 3) = Some (pd_confidence d)"
proof -
  have "f32_of_int (uint (a :: u16) * 256 + uint (b :: u8)) = Fin (of_int (uint a * 256 + uint b))" for a b
    using uint_bounded [of a] uint_bounded [of b] f32_int [of "uint a * 256 + uint b"] by (simp add: f32_of_int_def)
  then show ?thesis
    using assms by (simp add: at_row_def at_azimuth_def load_def ld8_def Let_def)
qed

lemma at_decoded:
  assumes acc: "at_accepted pk s" and n: "unat (f_packet_num f) < 5000" and nf: "\<not> get_firetime_file (p43 s)"
    and hdr: "at_header_at (up_buffer pk) 6 = Some hdr" and fit: "at_end hdr \<le> 1500"
    and L: "L = unat (at_LaserNum hdr)" and B: "B = unat (at_BlockNum hdr)"
    and k: "k = unat (f_packet_num f) * (B * L)"
    and azs: "azs = block_azimuths (up_buffer pk) (3 + 4 * L) 12 B"
    and J: "J = at_jumps (last_azimuth (p43 s)) azs"
  shows "\<exists>f' s' p1. at_DecodePacket h f pk s = Some (0, f', s') \<and> \<not> get_firetime_file p1 \<and>
    f_pointData f' = rows_points (at_row (up_buffer pk) p1) 4 3 L 0 12 k B (f_pointData f) \<and>
    f_packet_num f' = f_packet_num f + 1 \<and>
    f_scan_complete f' = ((if use_angle (p43 s) then 1 else 2) \<le> J) \<and>
    use_angle (p43 s') = (use_angle (p43 s) \<or> 1 \<le> J) \<and>
    last_azimuth (p43 s') = last (last_azimuth (p43 s) # map uint azs)"
proof -
  let ?buf = "up_buffer pk"
  note len = at_accepted_bytes(1) [OF acc]
  obtain f1 p1 where 1: "at_DecodePacket h f pk s = at_body ?buf hdr
       (first_index (f_packet_num f) (at_BlockNum hdr) (at_LaserNum hdr)) f1 (s \<lparr> p43 := p1 \<rparr>)"
    "f_pointData f1 = f_pointData f" "f_packet_num f1 = f_packet_num f" "\<not> f_scan_complete f1"
    "use_angle p1 = use_angle (p43 s)" "last_azimuth p1 = last_azimuth (p43 s)" "\<not> get_firetime_file p1"
    using at_prefix [OF acc n hdr fit, of h] nf by auto
  have "12 + (3 + 4 * L) * B \<le> 1500" using fit by (simp add: at_end_def at_tail_def L B)
  then have fits: "B * L \<le> 512" "12 + B * (3 + 4 * L) \<le> length ?buf"
    using rows_fit_points [of 12 3 4 L B] unfolding len by simp_all
  have index: "first_index (f_packet_num f) (at_BlockNum hdr) (at_LaserNum hdr) = int k"
    using first_index_small [OF n] fits(1) k L B by simp
  note body = at_body_points [OF fits(2,1) _ L B, of f1 k "s \<lparr> p43 := p1 \<rparr>"]
  show ?thesis
    using body 1(2-7) n k index J azs by (auto simp: 1(1))
qed


definition at_parser_ex :: "bool \<Rightarrow> udp4_3_parser" where
  "at_parser_ex angle = \<lparr> p43 = (parser_at 0 0 7600) \<lparr> use_angle := angle \<rparr>, at_view_mode = 1,
     at_get_correction_file = True,
     at_corrections = PandarATCorrections_new \<lparr>
       ac_header := (ac_header PandarATCorrections_new) \<lparr> ach_frame_number := 3 \<rparr>,
       l_start_frame := (\<lambda>i. [0, 3072000, 6144000, 0, 0, 0, 0, 0] ! i),
       l_end_frame := (\<lambda>i. [3072000, 6144000, 9000000, 0, 0, 0, 0, 0] ! i) \<rparr> \<rparr>"

definition at_bytes_ex :: "u8 \<Rightarrow> u8 \<Rightarrow> u8 list" where
  "at_bytes_ex laser block = [0xEE, 0xFF, 4, 3, 0, 0, laser, block, 0, 4, 0, 0,
     0x14, 0x1E, 5, 9, 1, 7, 3, 100, 0, 6, 1, 2, 3, 4]"

definition at_ex :: "u8 \<Rightarrow> u8 \<Rightarrow> UdpPacket" where
  "at_ex laser block = packet_ex (at_bytes_ex laser block)"

definition at_header_ex :: "u8 \<Rightarrow> u8 \<Rightarrow> HS_LIDAR_HEADER_ST_V3" where
  "at_header_ex laser block = \<lparr> at_LaserNum = laser, at_BlockNum = block, at_EchoCount = 0, at_DistUnit = 4,
     at_EchoNum = 0, at_Status = 0 \<rparr>"

lemma at_bytes_length [simp]: "length (at_bytes_ex laser block) = 26"
  by (simp add: at_bytes_ex_def)

lemma at_ex_ok:
  "at_accepted (at_ex laser block) (at_parser_ex angle)"
  "at_header_at (up_buffer (at_ex laser block)) 6 = Some (at_header_ex laser block)"
  "block_azimuths (up_buffer (at_ex laser block)) 7 12 2 = [7700, 100]"
  "\<not> get_firetime_file (p43 (at_parser_ex angle))" "last_azimuth (p43 (at_parser_ex angle)) = 7600"
  by (simp add: at_accepted_def at_ex_def packet_ex_wf packet_ex_nth, simp add: at_bytes_ex_def at_parser_ex_def
      packet_ex_def)
    (simp add: at_header_at_def at_ex_def packet_ex_prefix, simp add: at_bytes_ex_def at_header_ex_def ld8_def,
     simp add: block_azimuths_def at_ex_def packet_ex_prefix upt_rec [of _ 2], simp add: at_bytes_ex_def load_def take_Cons',
     simp_all add: at_parser_ex_def parser_at_def parser_ex_def)

lemma at_ex_fields:
  "at_LaserNum (at_header_ex laser block) = laser" "at_BlockNum (at_header_ex laser block) = block"
  "use_angle (p43 (at_parser_ex angle)) = angle"
  by (simp_all add: at_header_ex_def at_parser_ex_def)

lemma at_ex_ends: "at_end (at_header_ex 1 2) = 62" "1500 < at_end (at_header_ex 255 255)"
  by (simp_all add: at_end_def at_tail_def at_header_ex_def at_HasSeqNum_def)


text \<open>The test of a time-out, for a correction file within a turn and an azimuth of a packet.\<close>

lemma at_timeout_iff:
  assumes "range_ok (at_corrections s)" and "0 \<le> last_azimuth (p43 s)" "last_azimuth (p43 s) \<le> 65535"
  defines "near \<equiv> \<lambda>i. \<bar>uint (l_start_frame (at_corrections s) i) div 256 + 7625 - last_azimuth (p43 s)\<bar> < 200"
  shows "i + n \<le> 8 \<Longrightarrow> at_timeout s n i = Some (\<exists>j. i \<le> j \<and> j < i + n \<and> near j)"
proof (induction n arbitrary: i)
  case (Suc n)
  define x where "x = uint (l_start_frame (at_corrections s) i)"
  have x: "l_start_frame (at_corrections s) i = word_of_int x" "0 \<le> x" "x \<le> 9216000"
    using assms(1) Suc.prems by (simp_all add: x_def range_ok_def CIRCLE_def)
  have "at_margin s i = x div 256 + 7625 - last_azimuth (p43 s)"
  proof -
    have "(word_of_int x :: u32) div 256 = word_of_int (x div 256)"
      using x(2,3) by (simp add: word_uint_eq_iff uint_div_distrib uint_word_of_int)
    then have "at_margin s i = sint (word_of_int (x div 256 + 7625 - last_azimuth (p43 s)) :: u32)"
      by (simp add: at_margin_def x(1))
    moreover have "0 \<le> x div 256" "x div 256 \<le> 36000" using x(2,3) by simp_all
    ultimately show ?thesis
      using assms(2,3) by (simp add: signed_of_int signed_take_bit_int_eq_self del: of_int_add of_int_diff)
  qed
  moreover have "(\<exists>j. i \<le> j \<and> j < i + Suc n \<and> near j) \<longleftrightarrow> near i \<or> (\<exists>j. Suc i \<le> j \<and> j < Suc i + n \<and> near j)"
    (is "?l \<longleftrightarrow> ?r")
  proof
    assume ?l
    then obtain j where "i \<le> j" "j < i + Suc n" "near j" by blast
    then show ?r by (cases "j = i") auto
  next
    assume ?r
    then show ?l by (auto intro: exI [of _ i] dest: Suc_leD)
  qed
  ultimately show ?case
    using Suc x(2,3) assms(2,3) by (auto simp: near_def int_ok_def simp flip: x_def)
qed auto

text \<open>
  A time-out and the jump that follows it do not end two frames. A time-out ends the frame when
  the last azimuth is within two degrees of the end of one of the first three ranges; the next packet
  then ends a frame only if its blocks jump twice, and one jump is enough again from then on.
\<close>

theorem at_timeout_ends_once:
  assumes t: "at_get_correction_file s" "up_is_timeout tpk"
    and r: "range_ok (at_corrections s)" "0 \<le> last_azimuth (p43 s)" "last_azimuth (p43 s) \<le> 65535"
    and near: "\<exists>i<3. \<bar>uint (l_start_frame (at_corrections s) i) div 256 + 7625 - last_azimuth (p43 s)\<bar> < 200"
    and acc: "at_accepted pk s" and n: "unat (f_packet_num f) < 5000" and nf: "\<not> get_firetime_file (p43 s)"
    and hdr: "at_header_at (up_buffer pk) 6 = Some hdr" and fit: "at_end hdr \<le> 1500"
    and J: "J = at_jumps (last_azimuth (p43 s)) (block_azimuths (up_buffer pk)
      (3 + 4 * unat (at_LaserNum hdr)) 12 (unat (at_BlockNum hdr)))"
  shows "\<exists>f0 s0 f1 s1. at_DecodePacket h g tpk s = Some (0, f0, s0) \<and> f_scan_complete f0 \<and>
     at_DecodePacket h f pk s0 = Some (0, f1, s1) \<and>
     f_scan_complete f1 = (2 \<le> J) \<and> use_angle (p43 s1) = (1 \<le> J)"
proof -
  let ?s = "s \<lparr> p43 := p43 s \<lparr> use_angle := False \<rparr> \<rparr>"
  have "at_timeout s 3 0 = Some True"
    using at_timeout_iff [OF r, of 0 3] near by auto
  then have "at_DecodePacket h g tpk s = Some (0, g \<lparr> f_scan_complete := True \<rparr>, ?s)"
    using t by (simp add: at_DecodePacket_def)
  moreover have "at_accepted pk ?s" using acc by (simp add: at_accepted_def)
  from at_decoded [OF this n _ hdr fit refl refl refl refl refl, of h]
  obtain f1 s1 where "at_DecodePacket h f pk ?s = Some (0, f1, s1)" "f_scan_complete f1 = (2 \<le> J)"
    "use_angle (p43 s1) = (1 \<le> J)"
    using nf J by auto
  ultimately show ?thesis by auto
qed

lemma at_ex_ranges: "range_ok (at_corrections (at_parser_ex angle))"
  by (simp add: range_ok_def at_parser_ex_def nth_Cons' CIRCLE_def)

theorem at_field_first_witness:
  "\<exists>r. at_field (at_parser_ex True) 4000000 = Some r \<and> (case r of Some i \<Rightarrow> i = 1 | None \<Rightarrow> False)"
proof -
  let ?P = "in_range (at_corrections (at_parser_ex True)) 4000000"
  have P: "\<not> ?P 0" "?P 1" "\<not> ?P 2"
    by (simp_all add: in_range_def on_arc_def at_parser_ex_def CIRCLE_def)
  have N: "unat (ach_frame_number (ac_header (at_corrections (at_parser_ex True)))) = 3"
    "at_get_correction_file (at_parser_ex True)"
    by (simp_all add: at_parser_ex_def)
  show ?thesis
    using at_field_first [OF at_ex_ranges _ _ N(2), of 4000000] P
    by (auto simp: N(1) CIRCLE_def numeral_3_eq_3 less_Suc_eq numeral_2_eq_2 split: option.splits)
qed

theorem at_timeout_ends_once_witness:
  "\<exists>f0 s0 f1 s1. at_DecodePacket host_ex frame_ex ((at_ex 1 2) \<lparr> up_is_timeout := True \<rparr>) (at_parser_ex True) =
       Some (0, f0, s0) \<and> f_scan_complete f0 \<and>
     at_DecodePacket host_ex frame_ex (at_ex 1 2) s0 = Some (0, f1, s1) \<and> \<not> f_scan_complete f1 \<and> use_angle (p43 s1)"
proof -
  have c: "at_get_correction_file (at_parser_ex True)" by (simp add: at_parser_ex_def)
  have near: "\<exists>i<3. \<bar>uint (l_start_frame (at_corrections (at_parser_ex True)) i) div 256 + 7625 -
      last_azimuth (p43 (at_parser_ex True))\<bar> < 200"
    by (rule exI [of _ 0]) (simp add: at_parser_ex_def parser_at_def)
  have f: "unat (f_packet_num frame_ex) < 5000" by (simp add: frame_ex_def LidarDecodedFrame_new_def)
  show ?thesis
    using at_timeout_ends_once [OF c _ at_ex_ranges _ _ near at_ex_ok(1) [of 1 2 True] f at_ex_ok(4) at_ex_ok(2) _ refl,
        where h = host_ex and tpk = "(at_ex 1 2) \<lparr> up_is_timeout := True \<rparr>"]
    by (simp add: at_ex_ok at_ex_fields at_ex_ends)
qed

section \<open>The points are computed within the tables\<close>

lemma step_floor:
  assumes "0 \<le> A" "A < CIRCLE"
  shows "fp_to_int (fp_floor (fdiv (f32_of_int A) (f32_of_int STEP3))) = Some (A div STEP3)"
proof -
  define n where "n = A div STEP3"
  have n: "n * 51200 \<le> A" "A < (n + 1) * 51200" "0 \<le> n" "n < 180"
    using assms by (simp_all add: n_def STEP3_def CIRCLE_def)
  let ?x = "of_int A / 51200 :: rat"
  have p: "(2 :: rat) powi - 16 = 1 / 65536" by (simp add: power_int_minus)
  have "(of_int (n * 51200) :: rat) \<le> of_int A" "(of_int A :: rat) \<le> of_int ((n + 1) * 51200 - 1)"
    using n(1,2) by (simp_all only: of_int_le_iff)
  then have lo: "of_int (65536 * n) * 2 powi - 16 \<le> ?x" and hi: "?x \<le> of_int (65536 * (n + 1) - 1) * 2 powi - 16"
    unfolding p by simp_all
  obtain r where r: "f32 ?x = Fin r" "of_int (65536 * n) * 2 powi - 16 \<le> r"
    "r \<le> of_int (65536 * (n + 1) - 1) * 2 powi - 16"
    using f32_between_scaled [OF lo hi] n(3,4) by auto
  have "of_int n \<le> r" "r < of_int (n + 1)" using r(2,3) unfolding p by simp_all
  then have "\<lfloor>r\<rfloor> = n" by (simp add: floor_unique)
  moreover have "fdiv (f32_of_int A) (f32_of_int STEP3) = Fin r"
    using assms f32_int [of A] f32_int [of STEP3] r(1) by (simp add: f32_of_int_def CIRCLE_def STEP3_def)
  ultimately show ?thesis using n(3,4) by (simp add: n_def)
qed

lemma weighted_between:
  assumes "0 \<le> c" "c \<le> (1 :: rat)"
  shows "\<exists>r. fmul (Fin c) (f32_of_int (sint (w :: u8))) = Fin r \<and> -128 \<le> r \<and> r \<le> 128"
proof -
  define v where "v = sint w"
  have v: "\<bar>v\<bar> \<le> 128" using sint_greater_eq [of w] sint_less [of w] by (simp add: v_def abs_le_iff)
  then have "\<bar>of_int v\<bar> \<le> (128 :: rat)" by (simp flip: of_int_abs)
  then have "\<bar>c * of_int v\<bar> \<le> 1 * 128"
    unfolding abs_mult using assms by (intro mult_mono) simp_all
  then have b: "of_int (-128) \<le> c * of_int v" "c * of_int v \<le> of_int 128"
    by (simp_all add: abs_le_iff)
  show ?thesis
    using f32_between [OF b] f32_int [of v] v by (simp add: f32_of_int_def flip: v_def)
qed

lemma nearest_between:
  assumes "-256 \<le> z" "z \<le> 256"
  shows "\<exists>r. fp_nearest (Fin z) = Fin (of_int r) \<and> \<bar>r\<bar> \<le> 256"
proof (cases "z < 0")
  case True
  have "0 \<le> \<lfloor>- z + 1 / 2\<rfloor>" "\<lfloor>- z + 1 / 2\<rfloor> \<le> 256"
    using True assms(1) by (simp_all add: le_floor_iff floor_le_iff)
  then show ?thesis using True by (intro exI [of _ "- \<lfloor>- z + 1 / 2\<rfloor>"]) simp
next
  case False
  have "0 \<le> \<lfloor>z + 1 / 2\<rfloor>" "\<lfloor>z + 1 / 2\<rfloor> \<le> 256"
    using False assms(2) by (simp_all add: le_floor_iff floor_le_iff)
  then show ?thesis using False by (intro exI [of _ "\<lfloor>z + 1 / 2\<rfloor>"]) simp
qed

lemma at_adjust_ok:
  assumes A: "0 \<le> A" "A < CIRCLE" and ch: "unat ch < 128"
  shows "\<exists>r. at_adjust offs ch (word_of_int A) = Some (Fin (of_int r)) \<and> \<bar>r\<bar> \<le> 256"
proof -
  let ?i = "A div STEP3"
  define l where "l = A mod STEP3"
  have u: "uint (word_of_int A :: u32) = A" using A by (simp add: uint_word_of_int CIRCLE_def)
  have i: "0 \<le> ?i" "?i < 180" using A by (simp_all add: STEP3_def CIRCLE_def)
  have l: "0 \<le> l" "l < 51200" by (simp_all add: l_def STEP3_def)
  have "word_of_int A - word_of_int (?i * STEP3) = (word_of_int l :: u32)"
    unfolding of_int_diff [symmetric] minus_div_mult_eq_mod l_def ..
  then have sl: "sint (word_of_int A - word_of_int (?i * STEP3) :: u32) = l"
    using l by (simp add: signed_of_int signed_take_bit_int_eq_self)
  obtain k where k: "fdiv (f32_of_int l) (f32_of_int STEP3) = Fin k" "0 \<le> k" "k \<le> 1"
    using f32_between [of 0 "of_int l / 51200" 1] l f32_int [of l] f32_int [of STEP3]
    by (auto simp: f32_of_int_def STEP3_def abs_less_iff)
  obtain k' where k': "fp_sub f32 (Fin 1) (Fin k) = Fin k'" "0 \<le> k'" "k' \<le> 1"
    using f32_between [of 0 "1 - k" 1] k by (auto simp: fp_sub_def)
  let ?j = "unat ch * CORRECTION_AZIMUTH_NUM + nat ?i"
  have j: "nat_index (int (unat ch * CORRECTION_AZIMUTH_NUM) + ?i) = Some ?j"
    using i by (simp add: nat_index_def nat_add_distrib del: of_nat_mult)
  have "?j + 1 < CIRCLE_ANGLE"
    using ch i by (simp add: CIRCLE_ANGLE_def CORRECTION_AZIMUTH_NUM_def)
  then have arrs: "arr CIRCLE_ANGLE offs ?j = Some (offs ?j)" "arr CIRCLE_ANGLE offs (?j + 1) = Some (offs (?j + 1))"
    by (simp_all add: arr_def)
  obtain x where x: "fmul (Fin k') (f32_of_int (sint (offs ?j))) = Fin x" "-128 \<le> x" "x \<le> 128"
    using weighted_between [OF k'(2,3)] by blast
  obtain y where y: "fmul (Fin k) (f32_of_int (sint (offs (?j + 1)))) = Fin y" "-128 \<le> y" "y \<le> 128"
    using weighted_between [OF k(2,3)] by blast
  obtain z where z: "fadd (Fin x) (Fin y) = Fin z" "-256 \<le> z" "z \<le> 256"
    using f32_between [of "-256" "x + y" 256] x(2,3) y(2,3) by auto
  obtain r where r: "fp_nearest (Fin z) = Fin (of_int r)" "\<bar>r\<bar> \<le> 256"
    using nearest_between [OF z(2,3)] by blast
  have "int_ok (?i * STEP3) = Some (?i * STEP3)"
    using i by (simp add: int_ok_def STEP3_def)
  then have "at_adjust offs ch (word_of_int A) = Some (Fin (of_int r))"
    unfolding at_adjust_def u step_floor [OF A] Let_def
    by (simp add: sl k(1) j arrs [simplified] k'(1) x(1) y(1) [simplified] z(1) r(1)
        del: bind_Some_iff fp_nearest.simps fp_add.simps of_int_mult of_nat_mult)
  then show ?thesis using r(2) by blast
qed

text \<open>
  A plausible correction file: ranges that do not cross the zero, elevations within a turn less the
  greatest adjustment, azimuths within a turn.
\<close>

definition at_table_ok :: "PandarATCorrections \<Rightarrow> bool" where
  "at_table_ok c \<longleftrightarrow> unat (ach_frame_number (ac_header c)) \<le> 8 \<and>
     (\<forall>j<8. l_start_frame c j \<le> l_end_frame c j \<and> uint (l_end_frame c j) < CIRCLE) \<and>
     (\<forall>i<128. \<bar>sint (l_elevation c i)\<bar> \<le> CIRCLE - 65536 \<and> \<bar>sint (l_azimuth c i)\<bar> \<le> CIRCLE)"

lemma at_table_ranges: "at_table_ok c \<Longrightarrow> range_ok c"
  by (fastforce simp: at_table_ok_def range_ok_def word_le_def)

lemma in_range_start:
  assumes "at_table_ok c" and "j < 8" and "0 \<le> A" "A < CIRCLE" and "in_range c A j"
  shows "uint (l_start_frame c j) \<le> A"
proof (rule ccontr)
  define s e where "s = uint (l_start_frame c j)" and "e = uint (l_end_frame c j)"
  have b: "0 \<le> s" "s \<le> e" "e < CIRCLE" using assms(1,2) by (auto simp: at_table_ok_def s_def e_def word_le_def)
  assume "\<not> ?thesis"
  then have "(A - s) mod CIRCLE = A - s + CIRCLE"
    using mod_pos_pos_trivial [of "A - s + CIRCLE" CIRCLE] assms(3) b by (simp add: s_def)
  moreover have "(e - s) mod CIRCLE = e - s" using b by simp
  ultimately show False
    using assms(3,5) b by (simp add: in_range_def on_arc_def s_def e_def)
qed

lemma adjusted_between:
  assumes "\<bar>r\<bar> \<le> 256"
  shows "fmul (Fin (of_int r)) (Fin 256) = Fin (of_int (r * 256))"
  using f32_int [of "r * 256"] assms by simp

lemma at_elevation_ok:
  assumes "\<bar>e\<bar> \<le> CIRCLE - 65536" and "\<bar>r\<bar> \<le> 256"
  shows "\<exists>x. fp_to_int (fadd (f32_of_int e) (fmul (Fin (of_int r)) (Fin 256))) = Some x \<and> \<bar>x\<bar> \<le> CIRCLE"
proof -
  have "f32_of_int e = Fin (of_int e)" using f32_int [of e] assms(1) by (simp add: f32_of_int_def CIRCLE_def)
  moreover have "fadd (Fin (of_int e)) (Fin (of_int (r * 256))) = Fin (of_int (e + r * 256))"
    using f32_int [of "e + r * 256"] assms by (simp add: CIRCLE_def abs_le_iff abs_less_iff)
  moreover have "fp_to_int (Fin (of_int (e + r * 256))) = Some (e + r * 256)"
    using assms by (intro fp_to_int_of_int) (simp add: CIRCLE_def abs_le_iff abs_less_iff)
  ultimately show ?thesis
    using assms unfolding adjusted_between [OF assms(2)]
    by (intro exI [of _ "e + r * 256"]) (simp add: CIRCLE_def abs_le_iff del: of_int_mult of_int_add)
qed

lemma at_azimuth_ok:
  assumes "CIRCLE \<le> v" "v \<le> 5 * CIRCLE" and "\<bar>r\<bar> \<le> 256"
  shows "\<exists>x. fp_to_int (fadd (f32_of_int v) (fmul (Fin (of_int r)) (Fin 256))) = Some x \<and> 0 \<le> x \<and> x \<le> 46145536"
proof -
  have "(of_int CIRCLE :: rat) \<le> of_int v" "(of_int v :: rat) \<le> of_int (5 * CIRCLE)"
    using assms(1,2) by (simp_all only: of_int_le_iff)
  then obtain y where y: "f32_of_int v = Fin y" "9216000 \<le> y" "y \<le> 46080000"
    using f32_between_scaled [of 2304000 2 "of_int v" 11520000] by (auto simp: f32_of_int_def CIRCLE_def)
  have "(of_int (-65536) :: rat) \<le> of_int (r * 256)" "(of_int (r * 256) :: rat) \<le> of_int 65536"
    using assms(3) by (simp_all only: of_int_le_iff abs_le_iff) linarith+
  then obtain z where z: "fadd (Fin y) (Fin (of_int (r * 256))) = Fin z" "of_int 0 \<le> z" "z \<le> of_int 46145536"
    using f32_between_scaled [of 0 2 "y + of_int (r * 256)" 11536384] y(2,3) by auto
  then show ?thesis
    using fp_to_int_between [OF z(2,3)] unfolding adjusted_between [OF assms(3)] y(1) by simp
qed

lemma at_angles_ok:
  assumes t: "at_table_ok (at_corrections s)" and A: "0 \<le> A" "A < CIRCLE" and i: "i < 128" and j: "j < 8"
    and start: "uint (l_start_frame (at_corrections s) j) \<le> A"
  shows "\<exists>az el. at_angles s j i A = Some (az, el) \<and> 0 \<le> az \<and> az < CIRCLE \<and> 0 \<le> el \<and> el < CIRCLE"
proof (cases "at_get_correction_file s")
  case True
  let ?c = "at_corrections s"
  have ch: "unat (word_of_nat i :: u8) < 128" using i by (simp add: unsigned_of_nat take_bit_nat_eq_self)
  obtain ra where ra: "at_adjust (ac_azimuth_offset ?c) (word_of_nat i) (word_of_int A) = Some (Fin (of_int ra))" "\<bar>ra\<bar> \<le> 256"
    using at_adjust_ok [OF A ch] by blast
  obtain re where re: "at_adjust (ac_elevation_offset ?c) (word_of_nat i) (word_of_int A) = Some (Fin (of_int re))" "\<bar>re\<bar> \<le> 256"
    using at_adjust_ok [OF A ch] by blast
  define st la where "st = uint (l_start_frame ?c j)" and "la = sint (l_azimuth ?c i)"
  have w: "l_start_frame ?c j = word_of_int st" "l_azimuth ?c i = word_of_int la" by (simp_all add: st_def la_def)
  have b: "0 \<le> st" "st \<le> A" "\<bar>la\<bar> \<le> CIRCLE" "\<bar>sint (l_elevation ?c i)\<bar> \<le> CIRCLE - 65536"
    using start t i by (simp_all add: st_def la_def at_table_ok_def)
  define v where "v = (A + CIRCLE - st) * 2 - la"
  have v: "CIRCLE \<le> v" "v \<le> 5 * CIRCLE" using b A by (simp_all add: v_def)
  have "(word_of_int A + 9216000 - l_start_frame ?c j) * 2 - l_azimuth ?c i = (word_of_int v :: u32)"
    by (simp add: w v_def CIRCLE_def)
  then have uv: "uint ((word_of_int A + 9216000 - l_start_frame ?c j) * 2 - l_azimuth ?c i) = v"
    using v by (simp add: uint_word_of_int CIRCLE_def)
  obtain az where az: "fp_to_int (fadd (f32_of_int v) (fmul (Fin (of_int ra)) (Fin 256))) = Some az" "0 \<le> az" "az \<le> 46145536"
    using at_azimuth_ok [OF v ra(2)] by blast
  obtain el where el: "fp_to_int (fadd (f32_of_int (sint (l_elevation ?c i))) (fmul (Fin (of_int re)) (Fin 256))) = Some el" "\<bar>el\<bar> \<le> CIRCLE"
    using at_elevation_ok [OF b(4) re(2)] by blast
  have ok: "int_ok (CIRCLE + az) = Some (CIRCLE + az)" "int_ok (CIRCLE + el) = Some (CIRCLE + el)"
    "int_ok (A + CIRCLE) = Some (A + CIRCLE)"
    using az(2,3) el(2) A by (simp_all add: int_ok_def CIRCLE_def abs_le_iff)
  have arrs: "arr AT128_LASER_NUM x i = Some (x i)" "arr 8 y j = Some (y j)" for x y :: "nat \<Rightarrow> u32"
    using i j by (simp_all add: arr_def AT128_LASER_NUM_def)
  have "at_angles s j i A = Some (c_rem (CIRCLE + az) CIRCLE, c_rem (CIRCLE + el) CIRCLE)"
    unfolding at_angles_def Let_def arrs bind.bind_lunit uv using True
    by (simp add: re(1) el(1) ok ra(1) az(1) del: bind_Some_iff fp_mul.simps)
  then show ?thesis using az(2) el(2) by (simp add: c_rem_nonneg CIRCLE_def abs_le_iff)
qed (simp add: at_angles_def CIRCLE_def)

lemma at_reads_points:
  "at_point lm s j x (f \<lparr> f_points := y \<rparr>) i k = at_point lm s j x f i k"
  "at_block lm s x (f \<lparr> f_points := y \<rparr>) b = at_block lm s x f b"
  unfolding at_point_def at_block_def place_point_def reads_not_points point_index_def by simp_all

text \<open>The azimuth of a block, as the decoder stores it in each of its channels.\<close>

definition block_azimuth :: "LidarDecodedFrame \<Rightarrow> nat \<Rightarrow> nat \<Rightarrow> int \<Rightarrow> bool" where
  "block_azimuth f k L A \<longleftrightarrow> 0 \<le> A \<and> A < CIRCLE \<and> (\<forall>c<L. pd_azimuth (f_pointData f (k + c)) = Fin (of_int A))"

lemma at_point_ok:
  assumes t: "at_table_ok (at_corrections s)" and A: "block_azimuth f (m * (B * L) + b * L) L A"
    and f: "sized f B L" "m < 5000" "b < B" "c < L" and L: "L \<le> 128"
    and j: "j < 8" "uint (l_start_frame (at_corrections s) j) \<le> A"
  shows "\<exists>u. at_point lm s j (int m) f c (m * (B * L) + b * L + c) = Some u"
proof -
  have a: "0 \<le> A" "A < CIRCLE" "pd_azimuth (f_pointData f (m * (B * L) + b * L + c)) = Fin (of_int A)"
    using A f(4) by (simp_all add: block_azimuth_def)
  obtain az el where ang: "at_angles s j c A = Some (az, el)" "0 \<le> az" "az < CIRCLE" "0 \<le> el" "el < CIRCLE"
    using at_angles_ok [OF t a(1,2) _ j, of c] f(4) L by auto
  have "fp_to_int (Fin (of_int A)) = Some A" using a(1,2) by (intro fp_to_int_of_int) (simp add: CIRCLE_def)
  then show ?thesis
    using place_point_defined [OF ang(2-5) f(2)] ang(1) a(3) point_in_frame [OF f]
    by (simp add: at_point_def get_point_data_def kMaxPointsNumPerFrame_def)
qed

lemma at_block_eq:
  assumes t: "at_table_ok (at_corrections s)" "at_get_correction_file s"
    and A: "block_azimuth f (m * (B * L) + b * L) L A"
    and f: "sized f B L" "m < 5000" "b < B" "0 < L"
  shows "at_block lm s (int m) f b = Some (map_option (\<lambda>j. at_point lm s j (int m))
     (List.find (in_range (at_corrections s) A) [0..<unat (ach_frame_number (ac_header (at_corrections s)))]))"
proof -
  let ?k = "m * (B * L) + b * L"
  have a: "0 \<le> A" "A < CIRCLE" "pd_azimuth (f_pointData f ?k) = Fin (of_int A)"
    using A f(4) by (auto simp: block_azimuth_def)
  have "fp_to_int (Fin (of_int A)) = Some A" using a(1,2) by (intro fp_to_int_of_int) (simp add: CIRCLE_def)
  moreover have "unat (ach_frame_number (ac_header (at_corrections s))) \<le> 8" using t(1) by (simp add: at_table_ok_def)
  ultimately show ?thesis
    using at_field_eq [OF at_table_ranges [OF t(1)] a(1) less_imp_le [OF a(2)] t(2) refl] a(3)
      point_index_eq [OF f] point_in_frame [OF f]
    by (simp add: at_block_def get_point_data_def kMaxPointsNumPerFrame_def min_absorb1 del: of_nat_add of_nat_mult)
qed

text \<open>
  C33. The points of a packet of AT128, with a plausible correction file and any number of channels up
  to the 128 of the tables. No index leaves the tables: every channel of a block whose azimuth is in
  a range of the file is computed with the first such range; the points of a block in no range are
  left as an earlier frame has written them; the points of other packets do not change.
\<close>

theorem at_ComputeXYZI_points:
  assumes t: "at_table_ok (at_corrections s)" "at_get_correction_file s"
    and f: "sized f B L" "m < 5000" and L: "0 < L" "L \<le> 128"
    and A: "\<forall>b<B. block_azimuth f (m * (B * L) + b * L) L (A b)"
    and N: "N = unat (ach_frame_number (ac_header (at_corrections s)))"
  shows "\<exists>f'. at_ComputeXYZI lm f (int m) s = Some (0, f', s \<lparr> p43 := FrameNumAdd (p43 s) \<rparr>) \<and>
     (\<forall>b<B. \<forall>c<L. let k = m * (B * L) + b * L + c in
        case List.find (in_range (at_corrections s) (A b)) [0..<N] of
          None \<Rightarrow> f_points f' k = f_points f k
        | Some j \<Rightarrow> \<exists>u. at_point lm s j (int m) f c k = Some u \<and> f_points f' k = u (f_points f k)) \<and>
     (\<forall>k. k < m * (B * L) \<or> m * (B * L) + B * L \<le> k \<longrightarrow> f_points f' k = f_points f k)"
proof -
  define F where "F b = List.find (in_range (at_corrections s) (A b)) [0..<N]" for b
  define u where "u b c = (case F b of None \<Rightarrow> \<lambda>pt. pt
      | Some j \<Rightarrow> the (at_point lm s j (int m) f c (m * (B * L) + b * L + c)))" for b c
  have point: "\<exists>v. at_point lm s j (int m) f c (m * (B * L) + b * L + c) = Some v"
    if "b < B" "c < L" "F b = Some j" for b c j
  proof -
    have "j < 8" "in_range (at_corrections s) (A b) j"
      using that(3) t(1) N by (auto simp: F_def find_Some_iff at_table_ok_def)
    then show ?thesis
      using at_point_ok [OF t(1) A [rule_format, OF that(1)] f that(1,2) L(2)]
        in_range_start [OF t(1), of j "A b"] A that(1) by (simp add: block_azimuth_def)
  qed
  have "block_writes (at_block lm s (int m)) B L m f u b" if "b < B" for b
    using at_block_eq [OF t A [rule_format, OF that] f that L(1), of lm] point [OF that]
    by (auto simp: block_writes_def N [symmetric] F_def [symmetric] u_def at_reads_points split: option.split)
  then have "at_ComputeXYZI lm f (int m) s = Some (0,
      f \<lparr> f_points := computed_points u L (m * (B * L)) 0 (B * L) (f_points f) \<rparr>, s \<lparr> p43 := FrameNumAdd (p43 s) \<rparr>)"
    using compute_blocks_points [OF f, of 0 B "at_block lm s (int m)" u] f(1)
    by (simp add: at_reads_points at_ComputeXYZI_def sized_def)
  moreover define f' where "f' = f \<lparr> f_points := computed_points u L (m * (B * L)) 0 (B * L) (f_points f) \<rparr>"
  ultimately have "at_ComputeXYZI lm f (int m) s = Some (0, f', s \<lparr> p43 := FrameNumAdd (p43 s) \<rparr>)" by simp
  moreover have "case F b of None \<Rightarrow> f_points f' (m * (B * L) + b * L + c) = f_points f (m * (B * L) + b * L + c)
      | Some j \<Rightarrow> \<exists>v. at_point lm s j (int m) f c (m * (B * L) + b * L + c) = Some v \<and>
          f_points f' (m * (B * L) + b * L + c) = v (f_points f (m * (B * L) + b * L + c))"
    if "b < B" "c < L" for b c
    using point [OF that] by (auto simp: f'_def computed_points_at [OF that] u_def split: option.split)
  moreover have "f_points f' k = f_points f k" if "k < m * (B * L) \<or> m * (B * L) + B * L \<le> k" for k
    using that by (auto simp: f'_def computed_points_def)
  ultimately show ?thesis
    by (intro exI [of _ f']) (simp add: Let_def F_def [symmetric])
qed

definition at_frame_ex :: LidarDecodedFrame where
  "at_frame_ex = frame_ex \<lparr> f_block_num := 1, f_laser_num := 1, f_per_points_num := 1,
     f_pointData := (\<lambda>k. f_pointData frame_ex k \<lparr> pd_azimuth := Fin 4000000 \<rparr>) \<rparr>"

theorem at_ComputeXYZI_points_witness:
  "\<exists>f'. at_ComputeXYZI libm_ex at_frame_ex 0 (at_parser_ex True) =
       Some (0, f', at_parser_ex True \<lparr> p43 := FrameNumAdd (p43 (at_parser_ex True)) \<rparr>) \<and>
     (\<exists>u. at_point libm_ex (at_parser_ex True) 1 0 at_frame_ex 0 0 = Some u \<and> f_points f' 0 = u (f_points at_frame_ex 0))"
proof -
  let ?c = "at_corrections (at_parser_ex True)"
  have t: "at_table_ok ?c" "at_get_correction_file (at_parser_ex True)"
    by (simp_all add: at_table_ok_def at_parser_ex_def PandarATCorrections_new_def nth_Cons' CIRCLE_def)
  have f: "sized at_frame_ex 1 1" by (simp add: sized_def at_frame_ex_def)
  have A: "\<forall>b<1. block_azimuth at_frame_ex (0 * (1 * 1) + b * 1) 1 4000000"
    by (simp add: block_azimuth_def at_frame_ex_def CIRCLE_def)
  have "unat (ach_frame_number (ac_header ?c)) = 3" by (simp add: at_parser_ex_def)
  moreover have "List.find (in_range ?c 4000000) [0..<3] = Some 1"
    by (simp add: upt_rec in_range_def on_arc_def at_parser_ex_def CIRCLE_def)
  ultimately show ?thesis
    using at_ComputeXYZI_points [OF t f _ _ _ A refl, of libm_ex] by auto
qed

section \<open>The correction file\<close>

text \<open>A file in format 1.5.\<close>

definition at_file_header :: "PandarATCorrectionsHeader \<Rightarrow> u8 list" where
  "at_file_header h = [fst (ach_delimiter h), snd (ach_delimiter h), fst (ach_version h), snd (ach_version h),
     ach_channel_number h, ach_mirror_number h, ach_frame_number h] @ ach_frame_config h @ [ach_resolution h]"

definition at_file :: "PandarATCorrectionsHeader \<Rightarrow> u32 list \<Rightarrow> u32 list \<Rightarrow> u32 list \<Rightarrow> u32 list \<Rightarrow> u8 list \<Rightarrow>
    u8 list \<Rightarrow> u8 list \<Rightarrow> u8 list" where
  "at_file h starts ends azs els aos eos sha = at_file_header h @ encode_words 4 starts @ encode_words 4 ends @
     encode_words 4 azs @ encode_words 4 els @ encode_words 1 aos @ encode_words 1 eos @ sha"

lemma ach_at_file:
  assumes "length (ach_frame_config h) = 8"
  shows "ach_at (at_file_header h @ rest) 0 = Some h"
  using assms by (simp add: ach_at_def at_file_header_def ld8_def bytes_at_def nth_append)

lemma at_file_parts:
  assumes h: "length (ach_frame_config h) = 8"
    and n: "length starts = fn" "length ends = fn" "fn \<le> 8" and c: "length azs = cn" "length els = cn" "cn \<le> 128"
    and o: "length aos = cn * 180" "length eos = cn * 180" and sha: "length sha = 32"
  shows "copy_words 8 4 fn (at_file h starts ends azs els aos eos sha) 16 a = Some (\<lambda>i. if i < fn then starts ! i else a i)"
    and "copy_words 8 4 fn (at_file h starts ends azs els aos eos sha) (16 + 4 * fn) a = Some (\<lambda>i. if i < fn then ends ! i else a i)"
    and "copy_words 128 4 cn (at_file h starts ends azs els aos eos sha) (16 + 8 * fn) a = Some (\<lambda>i. if i < cn then azs ! i else a i)"
    and "copy_words 128 4 cn (at_file h starts ends azs els aos eos sha) (16 + 8 * fn + 4 * cn) a = Some (\<lambda>i. if i < cn then els ! i else a i)"
    and "copy_words 36000 1 (cn * 180) (at_file h starts ends azs els aos eos sha) (16 + 8 * fn + 8 * cn) b = Some (\<lambda>i. if i < cn * 180 then aos ! i else b i)"
    and "copy_words 36000 1 (cn * 180) (at_file h starts ends azs els aos eos sha) (16 + 8 * fn + 8 * cn + cn * 180) b = Some (\<lambda>i. if i < cn * 180 then eos ! i else b i)"
    and "bytes_at 32 (at_file h starts ends azs els aos eos sha) (16 + 8 * fn + 8 * cn + 2 * (cn * 180)) = Some sha"
proof -
  let ?h = "at_file_header h"
  have lh: "length ?h = 16" using h by (simp add: at_file_header_def)
  note enc = copy_encoded [where 'a = 32 and sz = 4] copy_encoded [where 'a = 8 and sz = 1]
  show "copy_words 8 4 fn (at_file h starts ends azs els aos eos sha) 16 a = Some (\<lambda>i. if i < fn then starts ! i else a i)"
    using enc(1) [of starts 8 ?h 16 fn] n lh unfolding at_file_def by simp
  show "copy_words 8 4 fn (at_file h starts ends azs els aos eos sha) (16 + 4 * fn) a = Some (\<lambda>i. if i < fn then ends ! i else a i)"
    using enc(1) [of ends 8 "?h @ encode_words 4 starts" _ fn] n lh unfolding at_file_def by simp
  show "copy_words 128 4 cn (at_file h starts ends azs els aos eos sha) (16 + 8 * fn) a = Some (\<lambda>i. if i < cn then azs ! i else a i)"
    using enc(1) [of azs 128 "?h @ encode_words 4 starts @ encode_words 4 ends" _ cn] n c lh unfolding at_file_def by simp
  show "copy_words 128 4 cn (at_file h starts ends azs els aos eos sha) (16 + 8 * fn + 4 * cn) a = Some (\<lambda>i. if i < cn then els ! i else a i)"
    using enc(1) [of els 128 "?h @ encode_words 4 starts @ encode_words 4 ends @ encode_words 4 azs" _ cn] n c lh
    unfolding at_file_def by simp
  show "copy_words 36000 1 (cn * 180) (at_file h starts ends azs els aos eos sha) (16 + 8 * fn + 8 * cn) b = Some (\<lambda>i. if i < cn * 180 then aos ! i else b i)"
    using enc(2) [of aos 36000 "?h @ encode_words 4 starts @ encode_words 4 ends @ encode_words 4 azs @ encode_words 4 els"
        _ "cn * 180"] n c o lh unfolding at_file_def by simp
  show "copy_words 36000 1 (cn * 180) (at_file h starts ends azs els aos eos sha) (16 + 8 * fn + 8 * cn + cn * 180) b = Some (\<lambda>i. if i < cn * 180 then eos ! i else b i)"
    using enc(2) [of eos 36000 "?h @ encode_words 4 starts @ encode_words 4 ends @ encode_words 4 azs @ encode_words 4 els @
        encode_words 1 aos" _ "cn * 180"] n c o lh unfolding at_file_def by simp
  show "bytes_at 32 (at_file h starts ends azs els aos eos sha) (16 + 8 * fn + 8 * cn + 2 * (cn * 180)) = Some sha"
    using n c o lh sha by (simp add: bytes_at_def at_file_def)
qed

lemma scale_ints_in:
  assumes "\<forall>i<n. \<bar>sint (ws ! i) * uint res\<bar> < 2147483648"
  shows "scale_ints n res (\<lambda>i. if i < n then ws ! i else a i) =
     Some (scale_words n res (\<lambda>i. if i < n then ws ! i else a i))"
proof -
  have "int_ok (sint (ws ! i) * uint res) \<noteq> None" if "i < n" for i
    using assms that by (fastforce simp: int_ok_def abs_less_iff)
  then show ?thesis by (simp add: scale_ints_def)
qed

lemma sint_scaled:
  fixes w :: u32
  assumes "\<bar>sint w * uint res\<bar> < 2147483648"
  shows "sint (w * ucast (res :: u8)) = sint w * uint res"
proof -
  have "w * ucast res = word_of_int (sint w * uint res)" by simp
  then show ?thesis
    using assms by (simp add: signed_of_int signed_take_bit_int_eq_self abs_less_iff
        del: of_int_mult of_int_sint of_int_uint)
qed

text \<open>
  A correction file of AT128 in format 1.5 is read back: after loading the encoding of the tables
  of up to 8 ranges and 128 channels, every range, angle and adjustment of the parser is the one of
  the table times the resolution, the 8-bit adjustments modulo 256.
\<close>

theorem at_correction_roundtrip:
  assumes h: "ach_delimiter h = (0xee, 0xff)" "snd (ach_version h) = 5" "length (ach_frame_config h) = 8"
    and n: "length starts = unat (ach_frame_number h)" "length ends = unat (ach_frame_number h)"
      "unat (ach_frame_number h) \<le> 8"
    and c: "length azs = unat (ach_channel_number h)" "length els = unat (ach_channel_number h)"
      "unat (ach_channel_number h) \<le> 128"
    and o: "length aos = unat (ach_channel_number h) * 180" "length eos = unat (ach_channel_number h) * 180"
    and sha: "length sha = 32"
    and small: "\<forall>x \<in> set azs \<union> set els. \<bar>sint x * uint (ach_resolution h)\<bar> < 2147483648"
  shows "\<exists>s'. at_LoadCorrectionString (at_file h starts ends azs els aos eos sha) s = Some (0, s') \<and>
     at_get_correction_file s' \<and> ac_header (at_corrections s') = h \<and> ac_SHA256 (at_corrections s') = sha \<and>
     (\<forall>i<unat (ach_frame_number h). l_start_frame (at_corrections s') i = starts ! i * ucast (ach_resolution h) \<and>
        l_end_frame (at_corrections s') i = ends ! i * ucast (ach_resolution h)) \<and>
     (\<forall>i<unat (ach_channel_number h).
        sint (l_azimuth (at_corrections s') i) = sint (azs ! i) * uint (ach_resolution h) \<and>
        sint (l_elevation (at_corrections s') i) = sint (els ! i) * uint (ach_resolution h)) \<and>
     (\<forall>i<unat (ach_channel_number h) * 180.
        ac_azimuth_offset (at_corrections s') i = aos ! i * ach_resolution h \<and>
        ac_elevation_offset (at_corrections s') i = eos ! i * ach_resolution h)"
proof -
  note parts = at_file_parts [OF h(3) n c o sha]
  let ?r = "ach_resolution h" and ?cn = "unat (ach_channel_number h)"
  have m: "\<forall>i<?cn. \<bar>sint (azs ! i) * uint ?r\<bar> < 2147483648" "\<forall>i<?cn. \<bar>sint (els ! i) * uint ?r\<bar> < 2147483648"
    using small c(1,2) by (metis UnI1 UnI2 nth_mem)+
  have "ach_at (at_file h starts ends azs els aos eos sha) 0 = Some h"
    using ach_at_file [OF h(3)] by (simp add: at_file_def)
  then show ?thesis
    using h n(3) c(3) m
    by (simp add: at_LoadCorrectionString_def Let_def AT128_LASER_NUM_def CORRECTION_AZIMUTH_NUM_def CIRCLE_ANGLE_def
        parts parts [simplified] scale_ints_in scale_words_def sint_scaled del: bind_Some_iff)
qed

text \<open>
  A rejected correction file. A file with more ranges than the arrays have is refused, but its
  header is stored before the check: a parser with a loaded correction file keeps decoding, and the
  search of an azimuth that is in none of the eight ranges then reads behind the arrays.
\<close>

theorem at_rejected_file_overruns:
  assumes head: "ach_at data 0 = Some h" "ach_delimiter h = (0xee, 0xff)" "snd (ach_version h) = 5"
    and big: "8 < unat (ach_frame_number h)"
    and loaded: "at_get_correction_file s" "range_ok (at_corrections s)"
    and A: "0 \<le> A" "A \<le> CIRCLE" "\<forall>j<8. \<not> in_range (at_corrections s) A j"
  shows "\<exists>s'. at_LoadCorrectionString data s = Some (-1, s') \<and> at_get_correction_file s' \<and> at_field s' A = None"
proof -
  let ?s = "s \<lparr> at_corrections := (at_corrections s) \<lparr> ac_header := h \<rparr> \<rparr>"
  have "range_ok (at_corrections ?s)" "in_range (at_corrections ?s) A = in_range (at_corrections s) A"
    using loaded(2) by (simp_all add: range_ok_def in_range_def fun_eq_iff)
  then have "at_field ?s A = None"
    using at_field_eq [of ?s A] loaded(1) A big by simp
  moreover have "at_LoadCorrectionString data s = Some (-1, ?s)"
    using head big by (simp add: at_LoadCorrectionString_def Let_def)
  ultimately show ?thesis using loaded(1) by simp
qed

definition at_file_header_ex :: "u8 \<Rightarrow> PandarATCorrectionsHeader" where
  "at_file_header_ex frames = \<lparr> ach_delimiter = (0xee, 0xff), ach_version = (1, 5), ach_channel_number = 1,
     ach_mirror_number = 3, ach_frame_number = frames, ach_frame_config = replicate 8 0, ach_resolution = 2 \<rparr>"

theorem at_correction_roundtrip_witness:
  "\<exists>s'. at_LoadCorrectionString (at_file (at_file_header_ex 1) [10] [20] [-7] [9] (replicate 180 3) (replicate 180 0xff)
       (replicate 32 0)) (at_parser_ex True) = Some (0, s') \<and>
     l_end_frame (at_corrections s') 0 = 40 \<and> sint (l_azimuth (at_corrections s') 0) = -14 \<and>
     ac_elevation_offset (at_corrections s') 179 = 0xfe"
  using at_correction_roundtrip [of "at_file_header_ex 1" "[10]" "[20]" "[-7]" "[9]" "replicate 180 3" "replicate 180 0xff"
      "replicate 32 0" "at_parser_ex True"]
  by (auto simp: at_file_header_ex_def)

theorem at_rejected_file_overruns_witness:
  "\<exists>s'. at_LoadCorrectionString (at_file_header (at_file_header_ex 9)) (at_parser_ex True) = Some (-1, s') \<and>
     at_get_correction_file s' \<and> at_field s' 9100000 = None"
proof -
  have "ach_at (at_file_header (at_file_header_ex 9)) 0 = Some (at_file_header_ex 9)"
    using ach_at_file [of "at_file_header_ex 9" "[]"] by (simp add: at_file_header_ex_def)
  moreover have "\<forall>j<8. \<not> in_range (at_corrections (at_parser_ex True)) 9100000 j"
    by (simp add: in_range_def on_arc_def at_parser_ex_def nth_Cons' CIRCLE_def)
  ultimately show ?thesis
    using at_rejected_file_overruns [of "at_file_header (at_file_header_ex 9)" "at_file_header_ex 9" "at_parser_ex True" 9100000]
      at_ex_ranges by (simp add: at_file_header_ex_def at_parser_ex_def CIRCLE_def)
qed

end
