(* ===== verification/Udp4_7.thy ===== *)
theory Udp4_7
  imports Row_Decoder Compute_Points Correction_Data
begin

text \<open>
  The parser of ATX: \<open>src/libhesai/UdpParser/src/udp4_7_parser.cc\<close>, the corrections of
  \<open>src/libhesai/UdpParser/include/udp4_7_parser.h\<close> and the structs of
  \<open>src/libhesai/UdpProtocol/udp_protocol_v4_7.h\<close>. The last bit of the frame number in the tail tells the
  frames apart: a frame ends when it changes. The azimuth of a channel has a correction that may depend
  on that bit, and the elevation one that depends on the azimuth. The class has its own flag
  \<open>get_correction_file_\<close>, which hides that of the base class.
\<close>

section \<open>Structs\<close>

record HS_LIDAR_HEADER_ST_V7 =
  ax_LaserNum :: u8
  ax_BlockNum :: u8
  ax_EchoCount :: u8
  ax_DistUnit :: u8
  ax_EchoNum :: u8
  ax_Status :: u8

definition ax_header_at :: "u8 list \<Rightarrow> nat \<Rightarrow> HS_LIDAR_HEADER_ST_V7 option" where
  "ax_header_at buf off = do {
     l \<leftarrow> ld8 buf off;
     b \<leftarrow> ld8 buf (off + 1);
     ec \<leftarrow> ld8 buf (off + 2);
     du \<leftarrow> ld8 buf (off + 3);
     en \<leftarrow> ld8 buf (off + 4);
     st \<leftarrow> ld8 buf (off + 5);
     Some \<lparr> ax_LaserNum = l, ax_BlockNum = b, ax_EchoCount = ec, ax_DistUnit = du, ax_EchoNum = en,
            ax_Status = st \<rparr> }"

definition ax_GetDistUnit :: "HS_LIDAR_HEADER_ST_V7 \<Rightarrow> fp" where
  "ax_GetDistUnit hdr = fdiv (f32_of_int (uint (ax_DistUnit hdr))) (Fin 1000)"

definition ax_HasSeqNum :: "HS_LIDAR_HEADER_ST_V7 \<Rightarrow> bool" where
  "ax_HasSeqNum hdr \<longleftrightarrow> bit (ax_Status hdr) 0"

record HS_LIDAR_TAIL_ST_V7 =
  ax_reservedInfo1 :: "u16 \<times> u8"
  ax_UReserved0 :: "u8 list"
  ax_FrameID :: u8
  ax_UReserved1 :: "u8 list"
  ax_MotorSpeed :: u16
  ax_Timestamp :: u32
  ax_ReturnMode :: u8
  ax_FactoryInfo :: u8
  ax_UTC :: "u8 list"

definition ax_tail_at :: "u8 list \<Rightarrow> nat \<Rightarrow> HS_LIDAR_TAIL_ST_V7 option" where
  "ax_tail_at buf off = do {
     r1 \<leftarrow> reserved_info_at buf off;
     u0 \<leftarrow> bytes_at 7 buf (off + 3);
     fi \<leftarrow> ld8 buf (off + 10);
     u1 \<leftarrow> bytes_at 7 buf (off + 11);
     ms \<leftarrow> ld16 buf (off + 18);
     ts \<leftarrow> ld32 buf (off + 20);
     rm \<leftarrow> ld8 buf (off + 24);
     fa \<leftarrow> ld8 buf (off + 25);
     utc \<leftarrow> bytes_at 6 buf (off + 26);
     Some \<lparr> ax_reservedInfo1 = r1, ax_UReserved0 = u0, ax_FrameID = fi, ax_UReserved1 = u1, ax_MotorSpeed = ms,
            ax_Timestamp = ts, ax_ReturnMode = rm, ax_FactoryInfo = fa, ax_UTC = utc \<rparr> }"

definition ax_IsDualReturn :: "HS_LIDAR_TAIL_ST_V7 \<Rightarrow> bool" where
  "ax_IsDualReturn t \<longleftrightarrow> ax_ReturnMode t = 0x39"

text \<open>The address of the tail, behind the blocks and the checksum of the body.\<close>

definition ax_tail :: "HS_LIDAR_HEADER_ST_V7 \<Rightarrow> nat" where
  "ax_tail hdr = 12 + (2 + 1 + 4 * unat (ax_LaserNum hdr)) * unat (ax_BlockNum hdr) + 4"

section \<open>Corrections and firing times\<close>

record ATXCorrectionsHeader =
  axh_delimiter :: "u8 \<times> u8"
  axh_version :: "u8 \<times> u8"
  axh_reserved1 :: u8
  axh_reserved2 :: u8
  axh_channel_number :: u8
  axh_angle_division :: u16

text \<open>\<open>ATXFiretimesHeader\<close> has the same fields. The arrays of signed integers hold their representation.\<close>

type_synonym ATXFiretimesHeader = ATXCorrectionsHeader

record ATXCorrections =
  axc_header :: ATXCorrectionsHeader
  raw_azimuths :: "nat \<Rightarrow> u16"
  raw_azimuths_even :: "nat \<Rightarrow> u16"
  raw_azimuths_odd :: "nat \<Rightarrow> u16"
  raw_elevations :: "nat \<Rightarrow> u16"
  raw_elevations_adjust :: "nat \<Rightarrow> u16"
  axc_azimuth :: "nat \<Rightarrow> fp"
  axc_azimuth_even :: "nat \<Rightarrow> fp"
  axc_azimuth_odd :: "nat \<Rightarrow> fp"
  axc_elevation :: "nat \<Rightarrow> fp"
  axc_elevation_adjust :: "nat \<Rightarrow> fp"
  axc_SHA_value :: "u8 list"

record ATXFiretimes =
  axf_header :: ATXFiretimesHeader
  raw_even_firetime :: "nat \<Rightarrow> u16"
  raw_odd_firetime :: "nat \<Rightarrow> u16"
  even_firetime :: "nat \<Rightarrow> fp"
  odd_firetime :: "nat \<Rightarrow> fp"
  axf_SHA_value :: "u8 list"

definition ATX_LASER_NUM :: nat where "ATX_LASER_NUM = 512"
definition kLenElevationAdjust :: nat where "kLenElevationAdjust = 70"

definition ATXCorrections_new :: ATXCorrections where
  "ATXCorrections_new = \<lparr> axc_header = \<lparr> axh_delimiter = (0, 0), axh_version = (0, 0), axh_reserved1 = 0, axh_reserved2 = 0,
       axh_channel_number = 0, axh_angle_division = 0 \<rparr>, raw_azimuths = (\<lambda>_. 0), raw_azimuths_even = (\<lambda>_. 0),
     raw_azimuths_odd = (\<lambda>_. 0), raw_elevations = (\<lambda>_. 0), raw_elevations_adjust = (\<lambda>_. 0), axc_azimuth = (\<lambda>_. Fin 0),
     axc_azimuth_even = (\<lambda>_. Fin 0), axc_azimuth_odd = (\<lambda>_. Fin 0), axc_elevation = (\<lambda>_. Fin 0),
     axc_elevation_adjust = (\<lambda>_. Fin 0), axc_SHA_value = replicate 32 0 \<rparr>"

record udp4_7_parser =
  p47 :: parser
  ax_get_correction_file :: bool
  ax_last_frameid :: int
  ax_corrections :: ATXCorrections
  ax_firetimes :: ATXFiretimes

definition Udp4_7Parser_new :: "libm \<Rightarrow> udp4_7_parser \<Rightarrow> udp4_7_parser" where
  "Udp4_7Parser_new lm mem = mem \<lparr> p47 := GeneralParser_new lm (p47 mem), ax_get_correction_file := False,
     ax_last_frameid := -1, ax_corrections := ATXCorrections_new \<rparr>"

definition axh_at :: "u8 list \<Rightarrow> nat \<Rightarrow> ATXCorrectionsHeader option" where
  "axh_at buf off = do {
     d0 \<leftarrow> ld8 buf off;
     d1 \<leftarrow> ld8 buf (off + 1);
     v0 \<leftarrow> ld8 buf (off + 2);
     v1 \<leftarrow> ld8 buf (off + 3);
     r1 \<leftarrow> ld8 buf (off + 4);
     r2 \<leftarrow> ld8 buf (off + 5);
     cn \<leftarrow> ld8 buf (off + 6);
     ad \<leftarrow> ld16 buf (off + 7);
     Some \<lparr> axh_delimiter = (d0, d1), axh_version = (v0, v1), axh_reserved1 = r1, axh_reserved2 = r2,
            axh_channel_number = cn, axh_angle_division = ad \<rparr> }"

text \<open>\<open>angle[i] = ((float)raw[i]) / (float)division\<close> for the first \<open>n\<close> entries.\<close>

definition ax_angle :: "u16 \<Rightarrow> u16 \<Rightarrow> fp" where
  "ax_angle division raw = fdiv (f32_of_int (sint raw)) (f32_of_int (uint division))"

definition ax_divide :: "nat \<Rightarrow> u16 \<Rightarrow> (nat \<Rightarrow> u16) \<Rightarrow> (nat \<Rightarrow> fp) \<Rightarrow> nat \<Rightarrow> fp" where
  "ax_divide n division raw old = (\<lambda>i. if i < n then ax_angle division (raw i) else old i)"

definition ax_load_1 :: "u8 list \<Rightarrow> nat \<Rightarrow> u16 \<Rightarrow> ATXCorrections \<Rightarrow> ATXCorrections option" where
  "ax_load_1 data channel_num division c = do {
     az \<leftarrow> copy_words ATX_LASER_NUM 2 channel_num data 9 (raw_azimuths c);
     el \<leftarrow> copy_words ATX_LASER_NUM 2 channel_num data (9 + 2 * channel_num) (raw_elevations c);
     sha \<leftarrow> bytes_at 32 data (9 + 4 * channel_num);
     Some (c \<lparr> raw_azimuths := az, raw_elevations := el,
       axc_azimuth := ax_divide channel_num division az (axc_azimuth c),
       axc_elevation := ax_divide channel_num division el (axc_elevation c), axc_SHA_value := sha \<rparr>) }"

text \<open>The tables that versions 2 and 3 have in common.\<close>

definition ax_load_even_odd :: "u8 list \<Rightarrow> nat \<Rightarrow> u16 \<Rightarrow> ATXCorrections \<Rightarrow> ATXCorrections option" where
  "ax_load_even_odd data channel_num division c = do {
     ev \<leftarrow> copy_words ATX_LASER_NUM 2 channel_num data 9 (raw_azimuths_even c);
     od \<leftarrow> copy_words ATX_LASER_NUM 2 channel_num data (9 + 2 * channel_num) (raw_azimuths_odd c);
     el \<leftarrow> copy_words ATX_LASER_NUM 2 channel_num data (9 + 4 * channel_num) (raw_elevations c);
     Some (c \<lparr> raw_azimuths_even := ev, raw_azimuths_odd := od, raw_elevations := el,
       axc_azimuth_even := ax_divide channel_num division ev (axc_azimuth_even c),
       axc_azimuth_odd := ax_divide channel_num division od (axc_azimuth_odd c),
       axc_elevation := ax_divide channel_num division el (axc_elevation c) \<rparr>) }"

definition ax_load_2 :: "u8 list \<Rightarrow> nat \<Rightarrow> u16 \<Rightarrow> ATXCorrections \<Rightarrow> ATXCorrections option" where
  "ax_load_2 data channel_num division c = do {
     c \<leftarrow> ax_load_even_odd data channel_num division c;
     sha \<leftarrow> bytes_at 32 data (9 + 6 * channel_num);
     Some (c \<lparr> axc_SHA_value := sha \<rparr>) }"

definition ax_load_3 :: "u8 list \<Rightarrow> nat \<Rightarrow> u16 \<Rightarrow> ATXCorrections \<Rightarrow> ATXCorrections option" where
  "ax_load_3 data channel_num division c = do {
     c \<leftarrow> ax_load_even_odd data channel_num division c;
     adj \<leftarrow> copy_words ATX_LASER_NUM 2 kLenElevationAdjust data (9 + 6 * channel_num) (raw_elevations_adjust c);
     sha \<leftarrow> bytes_at 32 data (9 + 6 * channel_num + 140);
     Some (c \<lparr> raw_elevations_adjust := adj,
       axc_elevation_adjust := ax_divide kLenElevationAdjust division adj (axc_elevation_adjust c), axc_SHA_value := sha \<rparr>) }"

definition ax_LoadCorrectionString :: "u8 list \<Rightarrow> udp4_7_parser \<Rightarrow> (int \<times> udp4_7_parser) option" where
  "ax_LoadCorrectionString data s = do {
     header \<leftarrow> axh_at data 0;
     let version = snd (axh_version header);
     if axh_delimiter header = (0xee, 0xff) \<and> (version = 1 \<or> version = 2 \<or> version = 3) then do {
       let c = (ax_corrections s) \<lparr> axc_header := header \<rparr>;
       let channel_num = unat (axh_channel_number header);
       let division = axh_angle_division header;
       if channel_num > ATX_LASER_NUM \<or> division = 0 then Some (-1, s \<lparr> ax_corrections := c \<rparr>)
       else do {
         c \<leftarrow> (if version = 1 then ax_load_1 data channel_num division c
               else if version = 2 then ax_load_2 data channel_num division c
               else ax_load_3 data channel_num division c);
         Some (0, s \<lparr> ax_corrections := c, ax_get_correction_file := True \<rparr>) } }
     else Some (-1, s) }"

definition ax_LoadFiretimesString :: "u8 list \<Rightarrow> udp4_7_parser \<Rightarrow> (int \<times> udp4_7_parser) option" where
  "ax_LoadFiretimesString data s = do {
     header \<leftarrow> axh_at data 0;
     if axh_delimiter header = (0xee, 0xff) \<and> snd (axh_version header) = 1 then do {
       let t = (ax_firetimes s) \<lparr> axf_header := header \<rparr>;
       let channel_num = unat (axh_channel_number header);
       if channel_num > ATX_LASER_NUM \<or> axh_angle_division header = 0 then Some (-1, s \<lparr> ax_firetimes := t \<rparr>)
       else do {
         ev \<leftarrow> copy_words ATX_LASER_NUM 2 channel_num data 9 (raw_even_firetime t);
         od \<leftarrow> copy_words ATX_LASER_NUM 2 channel_num data (9 + 2 * channel_num) (raw_odd_firetime t);
         sha \<leftarrow> bytes_at 32 data (9 + 4 * channel_num);
         let times = (\<lambda>raw old i. if i < channel_num then f64_of_int (uint (raw i :: u16)) else old i);
         Some (0, s \<lparr> ax_firetimes := t \<lparr> raw_even_firetime := ev, raw_odd_firetime := od,
             even_firetime := times ev (even_firetime t), odd_firetime := times od (odd_firetime t), axf_SHA_value := sha \<rparr>,
           p47 := p47 s \<lparr> get_firetime_file := True \<rparr> \<rparr>) } }
     else Some (-1, s) }"

section \<open>The decoder\<close>

definition ax_IsNeedFrameSplit :: "udp4_7_parser \<Rightarrow> u8 \<Rightarrow> bool" where
  "ax_IsNeedFrameSplit s frame_id \<longleftrightarrow> uint frame_id \<noteq> ax_last_frameid s \<and> ax_last_frameid s \<ge> 0"

definition ax_frame_bit :: "HS_LIDAR_TAIL_ST_V7 \<Rightarrow> u8" where
  "ax_frame_bit t = ax_FrameID t mod 2"

text \<open>The azimuth of a block: \<open>u32Azimuth * (kAllFineResolutionFloat / angle_division)\<close>, cut to an \<open>int\<close>.\<close>

definition ax_block_azimuth :: "ATXCorrections \<Rightarrow> u16 \<Rightarrow> int option" where
  "ax_block_azimuth c az = fp_to_int (fmul (f32_of_int (uint az))
     (fdiv (Fin 25600) (f32_of_int (uint (axh_angle_division (axc_header c))))))"

text \<open>
  The azimuth of a channel, before the firing time. In a version that no loader stores it keeps its
  value \<open>old\<close>.
\<close>

definition ax_channel_azimuth :: "ATXCorrections \<Rightarrow> HS_LIDAR_TAIL_ST_V7 \<Rightarrow> int \<Rightarrow> nat \<Rightarrow> fp \<Rightarrow> fp option" where
  "ax_channel_azimuth c t azimuth i old =
     (let version = snd (axh_version (axc_header c)) in
      if version = 1 then do {
        a \<leftarrow> arr ATX_LASER_NUM (axc_azimuth c) i;
        Some (fadd (f32_of_int azimuth) (fmul a (Fin 25600))) }
      else if version = 2 \<or> version = 3 then do {
        a \<leftarrow> arr ATX_LASER_NUM (if ax_frame_bit t = 0 then raw_azimuths_even c else raw_azimuths_odd c) i;
        Some (fadd (f32_of_int azimuth) (fdiv (fmul (f32_of_int (sint a)) (Fin 25600))
          (f32_of_int (uint (axh_angle_division (axc_header c)))))) }
      else Some old)"

text \<open>The firing time, in \<open>double\<close>.\<close>

definition ax_firetime :: "udp4_7_parser \<Rightarrow> HS_LIDAR_TAIL_ST_V7 \<Rightarrow> nat \<Rightarrow> fp \<Rightarrow> fp option" where
  "ax_firetime s t i azimuth =
     (if get_firetime_file (p47 s) then do {
        x \<leftarrow> (if ax_frame_bit t = 0 then arr ATX_LASER_NUM (even_firetime (ax_firetimes s)) i
              else map_option fp_neg (arr ATX_LASER_NUM (odd_firetime (ax_firetimes s)) i));
        Some (to_float (dadd azimuth (dmul (dmul x
          (ddiv (dmul (f64_of_int \<bar>sint (ax_MotorSpeed t)\<bar>) (f64 (1 / 1000000000))) (Fin 8))) (Fin 25600)))) }
      else Some azimuth)"

definition ax_row :: "u8 list \<Rightarrow> udp4_7_parser \<Rightarrow> HS_LIDAR_TAIL_ST_V7 \<Rightarrow> u16 row_reader" where
  "ax_row buf s t r pa = do {
     u32Azimuth \<leftarrow> ld16 buf pa;
     azimuth \<leftarrow> ax_block_azimuth (ax_corrections s) u32Azimuth;
     Some (u32Azimuth, \<lambda>i off. do {
       _ \<leftarrow> ax_channel_azimuth (ax_corrections s) t azimuth i (Fin 0);
       _ \<leftarrow> ax_firetime s t i (Fin 0);
       d \<leftarrow> ld16 buf off;
       re \<leftarrow> ld8 buf (off + 2);
       co \<leftarrow> ld8 buf (off + 3);
       Some (\<lambda>pd. pd \<lparr> pd_azimuth := the (ax_firetime s t i (the (ax_channel_azimuth (ax_corrections s) t azimuth i (pd_azimuth pd)))),
                        pd_reflectivities := re, pd_distances := d, pd_confidence := co \<rparr>) }) }"

definition ax_post :: "HS_LIDAR_TAIL_ST_V7 \<Rightarrow> (u16, udp4_7_parser) row_post" where
  "ax_post t az f s =
     (let frameID = ax_frame_bit t;
          f = (if use_angle (p47 s) \<and> ax_IsNeedFrameSplit s frameID then f \<lparr> f_scan_complete := True \<rparr> else f)
      in (f, s \<lparr> p47 := p47 s \<lparr> use_angle := True, last_azimuth := uint az \<rparr>, ax_last_frameid := uint frameID \<rparr>))"

definition ax_body :: "u8 list \<Rightarrow> HS_LIDAR_HEADER_ST_V7 \<Rightarrow> HS_LIDAR_TAIL_ST_V7 \<Rightarrow> int \<Rightarrow> LidarDecodedFrame \<Rightarrow> udp4_7_parser \<Rightarrow>
    (int \<times> LidarDecodedFrame \<times> udp4_7_parser) option" where
  "ax_body buf hdr t index f s = do {
     (_, f, s) \<leftarrow> read_rows (ax_row buf s t) (ax_post t) 4 3 (unat (ax_LaserNum hdr)) (unat (ax_BlockNum hdr)) 0 12 index f s;
     Some (0, f \<lparr> f_packet_num := f_packet_num f + 1 \<rparr>, s) }"

definition ax_DecodePacket :: "host \<Rightarrow> LidarDecodedFrame \<Rightarrow> UdpPacket \<Rightarrow> udp4_7_parser \<Rightarrow>
    (int \<times> LidarDecodedFrame \<times> udp4_7_parser) option" where
  "ax_DecodePacket h f pk s =
     (let buf = up_buffer pk in
      if \<not> ax_get_correction_file s then Some (-1, f, s)
      else do {
        b0 \<leftarrow> ld8 buf 0;
        b1 \<leftarrow> ld8 buf 1;
        if b0 \<noteq> 0xEE \<or> b1 \<noteq> 0xFF then Some (-1, f, s)
        else do {
          pHeader \<leftarrow> ax_header_at buf 6;
          p \<leftarrow> count_loss h (ax_HasSeqNum pHeader) buf (ax_tail pHeader + 32) (p47 s);
          pTail \<leftarrow> ax_tail_at buf (ax_tail pHeader);
          let time = lidar_time_4_7 (h_timezone h) (ax_UTC pTail) (ax_Timestamp pTail);
          let p = CalPktTimeLoss (h_time_tick h) time p;
          f \<leftarrow> put_timestamp (unat (f_packet_num f))
                (if f_use_timestamp_type f = 0 then time else up_recv_timestamp pk) f;
          let p = p \<lparr> spin_speed := ax_MotorSpeed pTail, is_dual_return := ax_IsDualReturn pTail,
                      return_mode := uint (ax_ReturnMode pTail) \<rparr>;
          let laser = ax_LaserNum pHeader;
          let block = ax_BlockNum pHeader;
          let f = f \<lparr> f_host_timestamp := h_now h,
                      f_spin_speed := ax_MotorSpeed pTail,
                      f_return_mode := ucast (ax_ReturnMode pTail),
                      f_per_points_num := ucast block * ucast laser,
                      f_scan_complete := False,
                      f_distance_unit := ax_GetDistUnit pHeader,
                      f_block_num := ucast block, f_laser_num := ucast laser \<rparr>;
          ax_body buf pHeader pTail (first_index (f_packet_num f) block laser) f (s \<lparr> p47 := p \<rparr>) } })"

section \<open>The points\<close>

text \<open>
  \<open>ElevationAdjust\<close>: the correction of the elevation between 20 and 158 degrees, by linear interpolation
  between the entries of a table in steps of 2 degrees.
\<close>

definition ax_ElevationAdjust :: "ATXCorrections \<Rightarrow> int \<Rightarrow> fp option" where
  "ax_ElevationAdjust c azimuth = do {
     a \<leftarrow> int_ok (CIRCLE + azimuth);
     let azimuth_angle = ddiv (f64_of_int (c_rem a CIRCLE)) (Fin 25600);
     if fp_lt azimuth_angle (Fin 20) \<or> fp_lt (Fin 158) azimuth_angle then Some (Fin 0)
     else do {
       index \<leftarrow> fp_to_int (ddiv (fp_sub f64 azimuth_angle (Fin 20)) (Fin 2));
       k \<leftarrow> nat_index index;
       if k = kLenElevationAdjust - 1 then arr ATX_LASER_NUM (axc_elevation_adjust c) k
       else do {
         let left_percent = to_float (ddiv (fp_sub f64 (fp_sub f64 azimuth_angle (Fin 20))
           (f64 (of_int (index * 2)))) (Fin 2));
         lo \<leftarrow> arr ATX_LASER_NUM (axc_elevation_adjust c) k;
         hi \<leftarrow> arr ATX_LASER_NUM (axc_elevation_adjust c) (k + 1);
         Some (fadd (fmul lo (fp_sub f32 (Fin 1) left_percent)) (fmul hi left_percent)) } } }"

definition ax_elevation :: "ATXCorrections \<Rightarrow> nat \<Rightarrow> int \<Rightarrow> int option" where
  "ax_elevation c i azimuth =
     (let version = snd (axh_version (axc_header c)) in
      if version = 1 \<or> version = 2 then do {
        e \<leftarrow> arr ATX_LASER_NUM (axc_elevation c) i;
        fp_to_int (fmul e (Fin 25600)) }
      else if version = 3 then do {
        e \<leftarrow> arr ATX_LASER_NUM (axc_elevation c) i;
        adj \<leftarrow> ax_ElevationAdjust c azimuth;
        fp_to_int (fadd (fmul e (Fin 25600)) (fmul adj (Fin 25600))) }
      else Some 0)"

definition ax_angles :: "udp4_7_parser \<Rightarrow> nat \<Rightarrow> int \<Rightarrow> (int \<times> int) option" where
  "ax_angles s i Azimuth =
     (if ax_get_correction_file s then do {
        a \<leftarrow> int_ok (CIRCLE + Azimuth);
        let azimuth = c_rem a CIRCLE;
        e \<leftarrow> ax_elevation (ax_corrections s) i azimuth;
        e \<leftarrow> int_ok (CIRCLE + e);
        Some (azimuth, c_rem e CIRCLE) }
      else Some (0, 0))"

definition ax_point :: "libm \<Rightarrow> udp4_7_parser \<Rightarrow> int \<Rightarrow> LidarDecodedFrame \<Rightarrow> nat \<Rightarrow> nat \<Rightarrow>
    (LidarPoint \<Rightarrow> LidarPoint) option" where
  "ax_point lm s packet_index f i k = do {
     d \<leftarrow> get_point_data k f;
     let distance = to_float (dmul (f64_of_int (uint (pd_distances d))) (f_distance_unit f));
     Azimuth \<leftarrow> fp_to_int (pd_azimuth d);
     (azimuth, elevation) \<leftarrow> ax_angles s i Azimuth;
     place_point lm (p47 s) True packet_index f i d azimuth elevation distance }"

definition ax_ComputeXYZI :: "libm \<Rightarrow> LidarDecodedFrame \<Rightarrow> int \<Rightarrow> udp4_7_parser \<Rightarrow>
    (int \<times> LidarDecodedFrame \<times> udp4_7_parser) option" where
  "ax_ComputeXYZI lm f packet_index s = do {
     f \<leftarrow> compute_blocks (\<lambda>_ _. Some (Some (ax_point lm s packet_index))) packet_index (unat (f_block_num f)) 0 f;
     Some (0, f, s \<lparr> p47 := FrameNumAdd (p47 s) \<rparr>) }"

text \<open>\<open>GetVecticalAngle\<close> cuts the angle in degrees to an \<open>int16_t\<close>.\<close>

definition ax_GetVecticalAngle :: "udp4_7_parser \<Rightarrow> nat \<Rightarrow> int option" where
  "ax_GetVecticalAngle s channel =
     (if \<not> ax_get_correction_file s then Some (-1)
      else do {
        e \<leftarrow> arr ATX_LASER_NUM (axc_elevation (ax_corrections s)) channel;
        fp_to_range (-32768) 32767 e })"

section \<open>Behaviour of the decoder\<close>

definition ax_accepted :: "UdpPacket \<Rightarrow> udp4_7_parser \<Rightarrow> bool" where
  "ax_accepted pk s \<longleftrightarrow> packet_wf pk \<and> ax_get_correction_file s \<and> up_buffer pk ! 0 = 0xEE \<and> up_buffer pk ! 1 = 0xFF"

lemma ax_accepted_bytes:
  assumes "ax_accepted pk s"
  shows "length (up_buffer pk) = 1500" "ld8 (up_buffer pk) 0 = Some 0xEE" "ld8 (up_buffer pk) 1 = Some 0xFF"
  using assms by (simp_all add: ax_accepted_def packet_wf_def kBufSize_def ld8_def)

lemma ax_tail_defined_iff: "ax_tail_at buf off \<noteq> None \<longleftrightarrow> off + 32 \<le> length buf"
  by (auto simp: ax_tail_at_def load_def ld8_def bytes_at_def reserved_info_at_def split: Option.bind_splits if_splits)

text \<open>The azimuth of a block is in range of \<open>int\<close> unless the division is 0.\<close>

lemma ax_block_azimuth_defined:
  assumes "axh_angle_division (axc_header c) \<noteq> 0"
  shows "\<exists>a. ax_block_azimuth c az = Some a"
proof -
  define d where "d = uint (axh_angle_division (axc_header c))"
  have "0 \<le> d" "d \<noteq> 0" "d < 65536"
    using assms uint_bounded [of "axh_angle_division (axc_header c)"] by (simp_all add: d_def uint_0_iff)
  then have d: "1 \<le> d" "d < 65536" by linarith+
  then have d1: "1 \<le> (of_int d :: rat)" by simp
  have q: "of_int 0 \<le> 25600 / (of_int d :: rat)" "25600 / (of_int d :: rat) \<le> of_int 25600"
    using d1 by (simp_all add: divide_le_eq)
  obtain r where r: "f32 (25600 / of_int d) = Fin r" "0 \<le> r" "r \<le> 25600"
    using f32_between [OF q] by auto
  define A where "A = uint az"
  have A: "0 \<le> A" "A \<le> 65535" "f32_of_int A = Fin (of_int A)"
    using uint_bounded [of az] f32_u16 [of az] by (simp_all add: A_def del: of_int_uint)
  then have az': "0 \<le> (of_int A :: rat)" "(of_int A :: rat) \<le> 65535" by simp_all
  have "of_int A * r \<le> 65535 * 25600" by (rule mult_mono [OF az'(2) r(3)]) (use r(2) in simp_all)
  then have hi: "of_int A * r \<le> of_int 13107000 * 2 powi 7" by simp
  have lo: "of_int 0 * 2 powi 7 \<le> of_int A * r" using az'(1) r(2) by simp
  obtain x where x: "f32 (of_int A * r) = Fin x" "0 \<le> x" "x \<le> 1677696000"
    using f32_between_scaled [OF lo hi] by auto
  have "fdiv (Fin 25600) (f32_of_int d) = Fin r" using d d1 r(1) f32_int [of d] by (simp add: f32_of_int_def)
  then have "fmul (f32_of_int A) (fdiv (Fin 25600) (f32_of_int d)) = Fin x" using x(1) A(3) by simp
  moreover obtain i where "fp_to_int (Fin x) = Some i" using fp_to_int_between [of 0 x 1677696000] x(2,3) by auto
  ultimately show ?thesis by (simp add: ax_block_azimuth_def d_def A_def)
qed

lemma ax_channel_azimuth_defined: "i < 512 \<Longrightarrow> \<exists>a. ax_channel_azimuth c t azimuth i old = Some a"
  by (simp add: ax_channel_azimuth_def arr_def ATX_LASER_NUM_def Let_def)

lemma ax_firetime_defined: "i < 512 \<Longrightarrow> \<exists>a. ax_firetime s t i x = Some a"
  by (simp add: ax_firetime_def arr_def ATX_LASER_NUM_def)

lemma ax_rows:
  assumes L: "L \<le> 512" and d: "axh_angle_division (axc_header (ax_corrections s)) \<noteq> 0"
  shows "row_layout (ax_row buf s t) (ax_post t) 4 3 (length buf) rows L"
proof unfold_locales
  fix r pa assume "r < rows" "pa + 3 \<le> length buf"
  then show "\<exists>i rd. ax_row buf s t r pa = Some (i, rd)"
    using ax_block_azimuth_defined [OF d] by (simp add: ax_row_def load_def)
next
  fix r pa i rd c off
  assume a: "ax_row buf s t r pa = Some (i, rd)" "c < L" "off + 4 \<le> length buf"
  obtain x where "ax_firetime s t c (Fin 0) = Some x" using ax_firetime_defined [of c] a(2) L by fastforce
  moreover obtain y where "ax_channel_azimuth (ax_corrections s) t z c (Fin 0) = Some (y z)" for z
    using ax_channel_azimuth_defined [of c "ax_corrections s" t _ "Fin 0"] a(2) L by (metis order_less_le_trans)
  ultimately show "rd c off \<noteq> None"
    using a by (auto simp: ax_row_def load_def ld8_def split: Option.bind_splits if_splits)
qed (simp add: ax_post_def Let_def)

text \<open>The frame number is that of the packet, so only its first block can end a frame.\<close>

definition ax_ends :: "udp4_7_parser \<Rightarrow> HS_LIDAR_TAIL_ST_V7 \<Rightarrow> nat \<Rightarrow> bool" where
  "ax_ends s t B \<longleftrightarrow> 0 < B \<and> use_angle (p47 s) \<and> 0 \<le> ax_last_frameid s \<and> ax_last_frameid s \<noteq> uint (ax_frame_bit t)"

lemma ax_posts:
  assumes "posts hdr (ax_post t) row n r pa f s = (f', s')"
  shows "f' = f \<lparr> f_scan_complete := f_scan_complete f \<or> ax_ends s t n \<rparr> \<and>
     use_angle (p47 s') = (use_angle (p47 s) \<or> 0 < n) \<and> get_correction_file (p47 s') = get_correction_file (p47 s) \<and>
     ax_last_frameid s' = (if n = 0 then ax_last_frameid s else uint (ax_frame_bit t)) \<and>
     ax_corrections s' = ax_corrections s \<and> ax_firetimes s' = ax_firetimes s \<and>
     ax_get_correction_file s' = ax_get_correction_file s"
  using assms
proof (induction n arbitrary: r pa f s)
  case 0
  then show ?case by (auto simp: ax_ends_def)
next
  case (Suc n)
  let ?az = "fst (the (hdr r pa))"
  obtain f1 s1 where 1: "ax_post t ?az f s = (f1, s1)" by fastforce
  then have e: "f1 = f \<lparr> f_scan_complete := f_scan_complete f \<or> ax_ends s t 1 \<rparr>"
    "s1 = s \<lparr> p47 := p47 s \<lparr> use_angle := True, last_azimuth := uint ?az \<rparr>, ax_last_frameid := uint (ax_frame_bit t) \<rparr>"
    by (auto simp: ax_post_def ax_ends_def ax_IsNeedFrameSplit_def Let_def)
  have "posts hdr (ax_post t) row n (Suc r) (pa + row) f1 s1 = (f', s')" using Suc.prems 1 by simp
  from Suc.IH [OF this] show ?case unfolding e by (auto simp: ax_ends_def)
qed

definition ax_end :: "HS_LIDAR_HEADER_ST_V7 \<Rightarrow> nat" where
  "ax_end hdr = ax_tail hdr + 32 + (if ax_HasSeqNum hdr then 4 else 0)"

lemma ax_prefix:
  assumes acc: "ax_accepted pk s" and n: "unat (f_packet_num f) < 5000"
    and hdr: "ax_header_at (up_buffer pk) 6 = Some hdr" and fit: "ax_end hdr \<le> 1500"
  shows "\<exists>t f1 p1. ax_tail_at (up_buffer pk) (ax_tail hdr) = Some t \<and>
     ax_DecodePacket h f pk s = ax_body (up_buffer pk) hdr t
       (first_index (f_packet_num f) (ax_BlockNum hdr) (ax_LaserNum hdr)) f1 (s \<lparr> p47 := p1 \<rparr>) \<and>
     f_pointData f1 = f_pointData f \<and> f_packet_num f1 = f_packet_num f \<and> \<not> f_scan_complete f1 \<and>
     use_angle p1 = use_angle (p47 s) \<and> get_firetime_file p1 = get_firetime_file (p47 s)"
proof -
  let ?buf = "up_buffer pk"
  note b = ax_accepted_bytes [OF acc]
  obtain p2 where p2: "count_loss h (ax_HasSeqNum hdr) ?buf (ax_tail hdr + 32) (p47 s) = Some p2"
    "use_angle p2 = use_angle (p47 s)" "get_firetime_file p2 = get_firetime_file (p47 s)"
    using count_loss_defined [of "ax_tail hdr + 32" "ax_HasSeqNum hdr" ?buf h "p47 s"] fit b(1)
    by (auto simp: ax_end_def)
  obtain t where t: "ax_tail_at ?buf (ax_tail hdr) = Some t"
    using ax_tail_defined_iff [of ?buf "ax_tail hdr"] b(1) fit by (fastforce simp: ax_end_def)
  obtain g where g: "put_timestamp (unat (f_packet_num f)) (if f_use_timestamp_type f = 0
      then lidar_time_4_7 (h_timezone h) (ax_UTC t) (ax_Timestamp t) else up_recv_timestamp pk) f = Some g"
    "f_pointData g = f_pointData f" "f_packet_num g = f_packet_num f"
    using put_timestamp_defined [OF n, where f = f] by metis
  show ?thesis
    using acc b(2,3) p2(2,3) g(2,3) t
    unfolding ax_DecodePacket_def Let_def
    by (simp add: ax_accepted_def hdr p2(1) g(1) del: bind_Some_iff)
      ((rule exI)+, rule conjI, rule refl, simp)
qed

lemma ax_overrun:
  assumes acc: "ax_accepted pk s" and hdr: "ax_header_at (up_buffer pk) 6 = Some hdr" and over: "1500 < ax_end hdr"
  shows "ax_DecodePacket h f pk s = None"
proof -
  let ?buf = "up_buffer pk"
  note b = ax_accepted_bytes [OF acc]
  consider "ax_HasSeqNum hdr" "1500 < ax_tail hdr + 32 + 4" | "1500 < ax_tail hdr + 32"
    using over by (auto simp: ax_end_def split: if_splits)
  then have "count_loss h (ax_HasSeqNum hdr) ?buf (ax_tail hdr + 32) (p47 s) = None \<or>
      ax_tail_at ?buf (ax_tail hdr) = None"
    using b(1) ax_tail_defined_iff [of ?buf "ax_tail hdr"] by cases (auto simp: count_loss_None)
  then show ?thesis
    using acc b(2,3) unfolding ax_DecodePacket_def Let_def
    by (auto simp: ax_accepted_def hdr simp del: bind_Some_iff intro!: Option.bind_eq_None_conv [THEN iffD2])
qed

lemma ax_point_data:
  assumes "row + 3 \<le> length buf" and "off + 4 \<le> length buf" and c: "c < 512"
    and a: "ax_block_azimuth (ax_corrections s) (the (ld16 buf row)) = Some a"
  shows "\<exists>x. ax_channel_azimuth (ax_corrections s) t a c (pd_azimuth m) = Some x \<and>
     (let m' = the (snd (the (ax_row buf s t r row)) c off) m
      in ax_firetime s t c x = Some (pd_azimuth m') \<and> ld16 buf off = Some (pd_distances m') \<and>
         ld8 buf (off + 2) = Some (pd_reflectivities m') \<and> ld8 buf (off + 3) = Some (pd_confidence m'))"
proof -
  obtain x where x: "ax_channel_azimuth (ax_corrections s) t a c (pd_azimuth m) = Some x"
    using ax_channel_azimuth_defined [OF c] by blast
  obtain y where y: "ax_channel_azimuth (ax_corrections s) t a c (Fin 0) = Some y"
    using ax_channel_azimuth_defined [OF c] by blast
  obtain z where z: "ax_firetime s t c x = Some z" using ax_firetime_defined [OF c] by blast
  obtain w where w: "ax_firetime s t c (Fin 0) = Some w" using ax_firetime_defined [OF c] by blast
  obtain v where v: "ld16 buf row = Some v" using assms(1) by (cases "ld16 buf row") (simp_all add: load_def)
  obtain d where d: "ld16 buf off = Some d" using assms(2) by (cases "ld16 buf off") (simp_all add: load_def)
  obtain re co where rc: "ld8 buf (off + 2) = Some re" "ld8 buf (off + 3) = Some co"
    using assms(2) by (simp add: ld8_def)
  have a': "ax_block_azimuth (ax_corrections s) v = Some a" using a v by simp
  show ?thesis using x y z w d rc by (simp add: Let_def ax_row_def v a')
qed

text \<open>
  C34. A packet of ATX. When the blocks, the tail and the optional sequence number announced by the header
  are inside the buffer, and the division of the correction file is not 0, every entry of the packet
  gets the distance, reflectivity and confidence of its channel and the azimuth of its block with the
  corrections of the channel for this half of the frames, and the other entries are unchanged. The
  packet ends a frame exactly when the last bit of its frame number is not that of the packet before. A
  header that announces more makes the decoder read behind the buffer.
\<close>

theorem ax_DecodePacket_points:
  assumes acc: "ax_accepted pk s" and n: "unat (f_packet_num f) < 5000"
    and d: "axh_angle_division (axc_header (ax_corrections s)) \<noteq> 0"
    and hdr: "ax_header_at (up_buffer pk) 6 = Some hdr"
    and L: "L = unat (ax_LaserNum hdr)" and B: "B = unat (ax_BlockNum hdr)"
    and k: "k = unat (f_packet_num f) * (B * L)"
  shows "if ax_end hdr \<le> 1500
     then \<exists>t f' s'. ax_tail_at (up_buffer pk) (ax_tail hdr) = Some t \<and>
       ax_DecodePacket h f pk s = Some (0, f', s') \<and> f_packet_num f' = f_packet_num f + 1 \<and>
       (\<forall>b<B. \<forall>c<L. let m = f_pointData f (k + b * L + c); m' = f_pointData f' (k + b * L + c);
            row = 12 + b * (3 + 4 * L); off = row + 3 + 4 * c
          in (\<exists>a x. ax_block_azimuth (ax_corrections s) (the (ld16 (up_buffer pk) row)) = Some a \<and>
                ax_channel_azimuth (ax_corrections s) t a c (pd_azimuth m) = Some x \<and>
                ax_firetime s t c x = Some (pd_azimuth m')) \<and>
             ld16 (up_buffer pk) off = Some (pd_distances m') \<and>
             ld8 (up_buffer pk) (off + 2) = Some (pd_reflectivities m') \<and>
             ld8 (up_buffer pk) (off + 3) = Some (pd_confidence m')) \<and>
       (\<forall>j. j < k \<or> k + B * L \<le> j \<longrightarrow> f_pointData f' j = f_pointData f j) \<and>
       f_scan_complete f' = (0 < B \<and> use_angle (p47 s) \<and> 0 \<le> ax_last_frameid s \<and>
         ax_last_frameid s \<noteq> uint (ax_frame_bit t)) \<and>
       (0 < B \<longrightarrow> use_angle (p47 s') \<and> ax_last_frameid s' = uint (ax_frame_bit t))
     else ax_DecodePacket h f pk s = None"
proof (cases "ax_end hdr \<le> 1500")
  case False
  then show ?thesis using ax_overrun [OF acc hdr] by simp
next
  case fit: True
  let ?buf = "up_buffer pk"
  note len = ax_accepted_bytes(1) [OF acc]
  obtain t f1 p1 where t: "ax_tail_at ?buf (ax_tail hdr) = Some t"
    and 1: "ax_DecodePacket h f pk s = ax_body ?buf hdr t
       (first_index (f_packet_num f) (ax_BlockNum hdr) (ax_LaserNum hdr)) f1 (s \<lparr> p47 := p1 \<rparr>)"
    "f_pointData f1 = f_pointData f" "f_packet_num f1 = f_packet_num f" "\<not> f_scan_complete f1"
    "use_angle p1 = use_angle (p47 s)" "get_firetime_file p1 = get_firetime_file (p47 s)"
    using ax_prefix [OF acc n hdr fit, of h] by blast
  let ?s = "s \<lparr> p47 := p1 \<rparr>"
  have "12 + (3 + 4 * L) * B \<le> 1500" using fit by (simp add: ax_end_def ax_tail_def L B)
  then have fits: "B * L \<le> 512" "12 + B * (3 + 4 * L) \<le> length ?buf"
    using rows_fit_points [of 12 3 4 L B] unfolding len by simp_all
  have L512: "L \<le> 512" using L unat_u8_less [of "ax_LaserNum hdr"] by linarith
  have index: "first_index (f_packet_num f) (ax_BlockNum hdr) (ax_LaserNum hdr) = int k"
    using first_index_small [OF n] fits(1) k L B by simp
  have d': "axh_angle_division (axc_header (ax_corrections ?s)) \<noteq> 0" using d by simp
  obtain f2 s2 where ps: "posts (ax_row ?buf ?s t) (ax_post t) (3 + 4 * L) B 0 12 f1 ?s = (f2, s2)" by fastforce
  note post = ax_posts [OF ps]
  define f' where "f' = f2 \<lparr> f_pointData := rows_points (ax_row ?buf ?s t) 4 3 L 0 12 k B (f_pointData f1), f_packet_num := f_packet_num f2 + 1 \<rparr>"
  have "read_rows (ax_row ?buf ?s t) (ax_post t) 4 3 L B 0 12 (int k) f1 ?s = Some (int (k + B * L),
      f2 \<lparr> f_pointData := rows_points (ax_row ?buf ?s t) 4 3 L 0 12 k B (f_pointData f1) \<rparr>, s2)"
    using row_layout.rows [OF ax_rows [OF L512 d', of ?buf t B] fits(2), of k 0 f1 ?s] points_fit [OF n fits(1)] k ps by simp
  then have 2: "ax_DecodePacket h f pk s = Some (0, f', s2)"
    unfolding 1(1) index by (simp add: ax_body_def L [symmetric] B [symmetric] f'_def del: bind_Some_iff of_nat_add of_nat_mult)
  have "let m = f_pointData f (k + b * L + c); m' = f_pointData f' (k + b * L + c); row = 12 + b * (3 + 4 * L); off = row + 3 + 4 * c
          in (\<exists>a x. ax_block_azimuth (ax_corrections s) (the (ld16 ?buf row)) = Some a \<and>
                ax_channel_azimuth (ax_corrections s) t a c (pd_azimuth m) = Some x \<and>
                ax_firetime s t c x = Some (pd_azimuth m')) \<and>
             ld16 ?buf off = Some (pd_distances m') \<and> ld8 ?buf (off + 2) = Some (pd_reflectivities m') \<and>
             ld8 ?buf (off + 3) = Some (pd_confidence m')" if bc: "b < B" "c < L" for b c
  proof -
    let ?row = "12 + b * (3 + 4 * L)"
    have off: "?row + 3 + 4 * c + 4 \<le> length ?buf" by (rule chan_in_buffer [OF fits(2) bc])
    have c: "c < 512" using bc(2) L512 by simp
    obtain a where a: "ax_block_azimuth (ax_corrections s) (the (ld16 ?buf ?row)) = Some a"
      using ax_block_azimuth_defined [OF d] by blast
    have ft: "ax_firetime ?s t c x = ax_firetime s t c x" for x using 1(6) by (simp add: ax_firetime_def)
    have row: "?row + 3 \<le> length ?buf" using off by linarith
    have a': "ax_block_azimuth (ax_corrections ?s) (the (ld16 ?buf ?row)) = Some a" using a by simp
    note pd = ax_point_data [where m = "f_pointData f1 (k + b * L + c)" and t = t and r = "0 + b", OF row off c a']
    have e: "f_pointData f' (k + b * L + c) =
        the (snd (the (ax_row ?buf ?s t (0 + b) ?row)) c (?row + 3 + 4 * c)) (f_pointData f1 (k + b * L + c))"
      unfolding f'_def using rows_points_at [OF bc, of "ax_row ?buf ?s t" 4 3 0 12 k "f_pointData f1"]
      by (simp add: add.assoc)
    show ?thesis using pd a unfolding Let_def e ft 1(2) by auto
  qed
  moreover have "f_pointData f' j = f_pointData f j" if "j < k \<or> k + B * L \<le> j" for j
    using that by (simp add: f'_def 1(2) rows_points_elsewhere)
  moreover have "f_packet_num f' = f_packet_num f + 1" using post 1(3) by (simp add: f'_def)
  moreover have "f_scan_complete f' = ax_ends s t B" using post 1(4,5) by (simp add: f'_def ax_ends_def)
  ultimately show ?thesis using 2 t fit post by (simp add: ax_ends_def)
qed

definition ax_parser_ex :: "udp4_7_parser" where
  "ax_parser_ex = \<lparr> p47 = (parser_at 0 0 7600) \<lparr> use_angle := True \<rparr>, ax_get_correction_file = True, ax_last_frameid = 0,
     ax_corrections = ATXCorrections_new \<lparr>
       axc_header := (axc_header ATXCorrections_new) \<lparr> axh_version := (1, 3), axh_angle_division := 256 \<rparr>,
       axc_elevation := (\<lambda>_. Fin (-7)), axc_elevation_adjust := (\<lambda>_. Fin 2) \<rparr>,
     ax_firetimes = undefined \<rparr>"

text \<open>Two blocks of one channel, a tail with an odd frame number.\<close>

definition ax_bytes_ex :: "u8 \<Rightarrow> u8 \<Rightarrow> u8 list" where
  "ax_bytes_ex laser block = [0xEE, 0xFF, 4, 7, 0, 0, laser, block, 0, 4, 0, 0,
     0x14, 0x1E, 0, 9, 1, 7, 3, 100, 0, 0, 1, 2, 3, 4, 0, 0, 0, 0, 0, 0, 0, 0, 0, 0, 0, 0, 0, 0, 7]"

definition ax_ex :: "u8 \<Rightarrow> u8 \<Rightarrow> UdpPacket" where
  "ax_ex laser block = packet_ex (ax_bytes_ex laser block)"

definition ax_header_ex :: "u8 \<Rightarrow> u8 \<Rightarrow> HS_LIDAR_HEADER_ST_V7" where
  "ax_header_ex laser block = \<lparr> ax_LaserNum = laser, ax_BlockNum = block, ax_EchoCount = 0, ax_DistUnit = 4,
     ax_EchoNum = 0, ax_Status = 0 \<rparr>"

lemma ax_bytes_length [simp]: "length (ax_bytes_ex laser block) = 41"
  by (simp add: ax_bytes_ex_def)

lemma ax_ex_ok:
  "ax_accepted (ax_ex laser block) ax_parser_ex"
  "ax_header_at (up_buffer (ax_ex laser block)) 6 = Some (ax_header_ex laser block)"
  "axh_angle_division (axc_header (ax_corrections ax_parser_ex)) \<noteq> 0"
  "use_angle (p47 ax_parser_ex)" "ax_last_frameid ax_parser_ex = 0"
  by (simp add: ax_accepted_def ax_ex_def packet_ex_wf packet_ex_nth, simp add: ax_bytes_ex_def ax_parser_ex_def
      packet_ex_def)
    (simp add: ax_header_at_def ax_ex_def packet_ex_prefix, simp add: ax_bytes_ex_def ax_header_ex_def ld8_def,
     simp_all add: ax_parser_ex_def)

lemma ax_ex_ends: "ax_end (ax_header_ex 1 2) = 62" "1500 < ax_end (ax_header_ex 255 255)"
  "ax_tail (ax_header_ex 1 2) = 30"
  by (simp_all add: ax_end_def ax_tail_def ax_header_ex_def ax_HasSeqNum_def)

lemma ax_ex_frame:
  assumes "ax_tail_at (up_buffer (ax_ex 1 2)) 30 = Some t"
  shows "ax_frame_bit t = 1"
proof -
  have "ld8 (up_buffer (ax_ex 1 2)) 40 = Some 7"
    by (simp add: ax_ex_def packet_ex_prefix) (simp add: ax_bytes_ex_def ld8_def)
  then show ?thesis using assms by (auto simp: ax_tail_at_def ax_frame_bit_def)
qed

theorem ax_DecodePacket_points_witness:
  "(\<exists>f' s'. ax_DecodePacket host_ex frame_ex (ax_ex 1 2) ax_parser_ex = Some (0, f', s') \<and>
      f_scan_complete f' \<and> ax_last_frameid s' = 1 \<and> pd_distances (f_pointData f' 1) = 513) \<and>
   ax_DecodePacket host_ex frame_ex (ax_ex 255 255) ax_parser_ex = None"
proof -
  have f: "f_packet_num frame_ex = 0" by (simp add: frame_ex_def LidarDecodedFrame_new_def)
  have "ax_DecodePacket host_ex frame_ex (ax_ex 255 255) ax_parser_ex = None"
    using ax_DecodePacket_points [OF ax_ex_ok(1) [of 255 255] _ ax_ex_ok(3) ax_ex_ok(2) refl refl refl,
        where f = frame_ex and h = host_ex] ax_ex_ends by (simp add: f)
  moreover have d: "ld16 (up_buffer (ax_ex 1 2)) 22 = Some 513"
    by (simp add: ax_ex_def packet_ex_prefix) (simp add: ax_bytes_ex_def load_def take_Cons')
  have h: "unat (ax_LaserNum (ax_header_ex 1 2)) = 1" "unat (ax_BlockNum (ax_header_ex 1 2)) = 2"
    by (simp_all add: ax_header_ex_def)
  obtain t f' s' where t: "ax_tail_at (up_buffer (ax_ex 1 2)) 30 = Some t"
    and 1: "ax_DecodePacket host_ex frame_ex (ax_ex 1 2) ax_parser_ex = Some (0, f', s')"
    and p: "\<forall>b<2. \<forall>c<1. ld16 (up_buffer (ax_ex 1 2)) (15 + b * 7 + 4 * c) = Some (pd_distances (f_pointData f' (b + c)))"
    and e: "f_scan_complete f' = (use_angle (p47 ax_parser_ex) \<and> 0 \<le> ax_last_frameid ax_parser_ex \<and>
        ax_last_frameid ax_parser_ex \<noteq> uint (ax_frame_bit t))" "ax_last_frameid s' = uint (ax_frame_bit t)"
    using ax_DecodePacket_points [OF ax_ex_ok(1) [of 1 2] _ ax_ex_ok(3) ax_ex_ok(2) refl refl refl,
        where f = frame_ex and h = host_ex]
    by (auto simp: f ax_ex_ends h Let_def add.assoc)
  ultimately show ?thesis
    using p [rule_format, of 1 0] e d 1 ax_ex_frame [OF t] by (simp add: ax_ex_ok)
qed

section \<open>No index leaves the tables\<close>

text \<open>A plausible correction file: elevations of at most half a turn, adjusted by at most 45 degrees.\<close>

definition ax_table_ok :: "ATXCorrections \<Rightarrow> bool" where
  "ax_table_ok c \<longleftrightarrow> list_all (\<lambda>i. fp_abs 180 (axc_elevation c i)) [0..<512] \<and>
     list_all (\<lambda>i. fp_abs 45 (axc_elevation_adjust c i)) [0..<70]"

lemma ax_adjust_index:
  assumes "0 \<le> a" "a \<le> (138 :: rat)"
  shows "\<exists>i. fp_to_int (ddiv (Fin a) (Fin 2)) = Some i \<and> 0 \<le> i \<and> i \<le> 69 \<and>
     fp_abs 1 (to_float (ddiv (fp_sub f64 (Fin a) (f64 (of_int (i * 2)))) (Fin 2)))"
proof -
  obtain z where z: "f64 (a / 2) = Fin z" "of_int 0 \<le> z" "z \<le> of_int 69"
    using f64_between [of 0 "a / 2" 69] assms by auto
  obtain i where i: "fp_to_int (Fin z) = Some i" "0 \<le> i" "i \<le> 69" using fp_to_int_between [OF z(2,3)] by auto
  then have t: "trunc z = i" by (simp add: fp_to_int_def split: if_splits)
  then have iz: "of_int i \<le> z" "z < of_int i + 1" using z(2) by (simp_all add: trunc_def split: if_splits) linarith+
  have "of_int (i - 1) \<le> a / 2"
  proof (rule ccontr)
    assume "\<not> of_int (i - 1) \<le> a / 2"
    then have "z \<le> of_int (i - 1)" using f64_between [of "-1" "a / 2" "i - 1"] assms i(2,3) z(1) by auto
    then show False using iz(1) by simp
  qed
  moreover have "a / 2 \<le> of_int (i + 1)"
  proof (rule ccontr)
    assume "\<not> a / 2 \<le> of_int (i + 1)"
    then have "of_int (i + 1) \<le> z" using f64_between [of "i + 1" "a / 2" 69] assms i(2,3) z(1) by auto
    then show False using iz(2) by simp
  qed
  ultimately have "\<bar>a - of_int (i * 2)\<bar> \<le> of_int 2" by (simp add: abs_le_iff)
  then obtain y where y: "f64 (a - of_int (i * 2)) = Fin y" "\<bar>y\<bar> \<le> of_int 2"
    using f64_abs [of "a - of_int (i * 2)" 2] by (auto elim: fp_absE)
  then obtain x where x: "f64 (y / 2) = Fin x" "\<bar>x\<bar> \<le> of_int 1"
    using f64_abs [of "y / 2" 1] by (auto elim: fp_absE)
  have "f64 (of_int (i * 2)) = Fin (of_int (i * 2))" by (rule f64_int) (use i(2,3) in simp)
  then have "to_float (ddiv (fp_sub f64 (Fin a) (f64 (of_int (i * 2)))) (Fin 2)) = f32 x"
    using y(1) x(1) by (simp add: fp_sub_def)
  moreover have "fp_abs 1 (f32 x)" using x(2) by (intro f32_abs) simp_all
  ultimately show ?thesis using i z(1) by simp
qed

lemma ax_adjust_ok:
  assumes c: "ax_table_ok c" and A: "0 \<le> A" "A < CIRCLE"
  shows "\<exists>v. ax_ElevationAdjust c A = Some v \<and> fp_abs 135 v"
proof -
  have adj: "fp_abs 45 (axc_elevation_adjust c k)" if "k < 70" for k
    using c that by (simp add: ax_table_ok_def list_all_iff)
  have ok: "int_ok (CIRCLE + A) = Some (CIRCLE + A)" "c_rem (CIRCLE + A) CIRCLE = A"
    using A by (simp_all add: int_ok_def CIRCLE_def c_rem_def)
  have Ai: "f64_of_int A = Fin (of_int A)" using f64_int [of A] A by (simp add: f64_of_int_def CIRCLE_def)
  obtain x where x: "f64 (of_int A / 25600) = Fin x" using A f64_between [of 0 "of_int A / 25600" 360]
    by (auto simp: CIRCLE_def)
  have d: "ddiv (f64_of_int A) (Fin 25600) = Fin x" using x Ai by simp
  show ?thesis
  proof (cases "fp_lt (Fin x) (Fin 20) \<or> fp_lt (Fin 158) (Fin x)")
    case True
    then show ?thesis by (simp add: ax_ElevationAdjust_def ok d fp_abs_def del: fp_lt.simps)
  next
    case False
    then obtain a where a: "f64 (x - 20) = Fin a" "0 \<le> a" "a \<le> 138"
      using f64_between [of 0 "x - 20" 138] by auto
    obtain i where i: "fp_to_int (ddiv (Fin a) (Fin 2)) = Some i" "0 \<le> i" "i \<le> 69"
      "fp_abs 1 (to_float (ddiv (fp_sub f64 (Fin a) (f64 (of_int (i * 2)))) (Fin 2)))"
      using ax_adjust_index [OF a(2,3)] by blast
    let ?l = "to_float (ddiv (fp_sub f64 (Fin a) (f64 (of_int (i * 2)))) (Fin 2))"
    have k: "nat_index i = Some (nat i)" "nat i < 70" using i(2,3) by (simp_all add: nat_index_def)
    have s: "fp_sub f64 (Fin x) (Fin 20) = Fin a" using a(1) by (simp add: fp_sub_def)
    show ?thesis
    proof (cases "nat i = 69")
      case True
      have "fp_abs 135 (axc_elevation_adjust c 69)"
        using adj [of 69] by (simp add: fp_abs_def split: fp.splits)
      then show ?thesis using False
        by (simp add: ax_ElevationAdjust_def ok d s i(1) k(1) True arr_def ATX_LASER_NUM_def kLenElevationAdjust_def
            del: fp_lt.simps fp_div.simps bind_Some_iff)
    next
      case neq: False
      then have lt: "nat i < 69" using k(2) by simp
      have "fp_abs 2 (fp_sub f32 (Fin 1) ?l)" using fsub_abs [of 1 "Fin 1" 1 ?l] i(4) by (simp add: fp_abs_def)
      then have "fp_abs (45 * 2) (fmul (axc_elevation_adjust c (nat i)) (fp_sub f32 (Fin 1) ?l))"
        by (intro fmul_abs adj) (use lt in simp_all)
      moreover have "fp_abs (45 * 1) (fmul (axc_elevation_adjust c (nat i + 1)) ?l)"
        by (intro fmul_abs adj i(4)) (use lt in simp_all)
      ultimately have "fp_abs 135 (fadd (fmul (axc_elevation_adjust c (nat i)) (fp_sub f32 (Fin 1) ?l))
          (fmul (axc_elevation_adjust c (nat i + 1)) ?l))"
        using fadd_abs [of 90 _ 45] by simp
      then show ?thesis using False lt
        by (simp add: ax_ElevationAdjust_def ok d s i(1) k(1) arr_def ATX_LASER_NUM_def kLenElevationAdjust_def Let_def
            del: fp_lt.simps fp_div.simps bind_Some_iff)
    qed
  qed
qed

lemma ax_elevation_ok:
  assumes c: "ax_table_ok c" and A: "0 \<le> A" "A < CIRCLE" and i: "i < 512"
  shows "\<exists>e. ax_elevation c i A = Some e \<and> \<bar>e\<bar> < CIRCLE"
proof -
  have "fp_abs 180 (axc_elevation c i)" using c i by (simp add: ax_table_ok_def list_all_iff)
  then have e: "fp_abs (180 * 25600) (fmul (axc_elevation c i) (Fin 25600))" by (rule fmul_abs) (simp_all add: fp_abs_def)
  obtain v where v: "ax_ElevationAdjust c A = Some v" "fp_abs 135 v" using ax_adjust_ok [OF c A] by blast
  have "fp_abs (135 * 25600) (fmul v (Fin 25600))" by (rule fmul_abs [OF v(2)]) (simp_all add: fp_abs_def)
  then have s: "fp_abs (180 * 25600 + 135 * 25600) (fadd (fmul (axc_elevation c i) (Fin 25600)) (fmul v (Fin 25600)))"
    by (rule fadd_abs [OF e]) simp
  obtain x y where "fp_to_int (fmul (axc_elevation c i) (Fin 25600)) = Some x" "\<bar>x\<bar> < CIRCLE"
    "fp_to_int (fadd (fmul (axc_elevation c i) (Fin 25600)) (fmul v (Fin 25600))) = Some y" "\<bar>y\<bar> < CIRCLE"
    using to_int_abs [OF e] to_int_abs [OF s] by (auto simp: CIRCLE_def)
  then show ?thesis
    using i by (simp add: ax_elevation_def arr_def ATX_LASER_NUM_def v(1) CIRCLE_def Let_def
        del: fp_mul.simps fp_add.simps bind_Some_iff)
qed

lemma ax_angles_ok:
  assumes c: "ax_table_ok (ax_corrections s)" and A: "\<bar>A\<bar> \<le> CIRCLE" and i: "i < 512"
  shows "\<exists>az el. ax_angles s i A = Some (az, el) \<and> 0 \<le> az \<and> az < CIRCLE \<and> 0 \<le> el \<and> el < CIRCLE"
proof (cases "ax_get_correction_file s")
  case True
  let ?a = "c_rem (CIRCLE + A) CIRCLE"
  have a: "int_ok (CIRCLE + A) = Some (CIRCLE + A)" "0 \<le> ?a" "?a < CIRCLE"
    using A by (simp_all add: int_ok_def CIRCLE_def c_rem_nonneg abs_le_iff)
  obtain e where e: "ax_elevation (ax_corrections s) i ?a = Some e" "\<bar>e\<bar> < CIRCLE"
    using ax_elevation_ok [OF c a(2,3) i] by blast
  then have "int_ok (CIRCLE + e) = Some (CIRCLE + e)" by (simp add: int_ok_def CIRCLE_def abs_less_iff)
  then have "ax_angles s i A = Some (?a, c_rem (CIRCLE + e) CIRCLE)"
    using True by (simp add: ax_angles_def a(1) e(1) Let_def del: bind_Some_iff)
  then show ?thesis using a(2,3) e(2) by (simp add: c_rem_nonneg CIRCLE_def abs_less_iff)
qed (simp add: ax_angles_def CIRCLE_def)

text \<open>
  The points of a packet of ATX, with a plausible correction file of any version, azimuths
  of at most a turn in magnitude and any number of channels up to the 512 of the tables. No index
  leaves a table, in particular not that of the adjustment of the elevation, and every point of the
  packet, and no other, is written from the data of its own channel.
\<close>

theorem ax_ComputeXYZI_points:
  assumes c: "ax_table_ok (ax_corrections s)" and f: "sized f B L" "m < 5000" and L: "L \<le> 512"
    and A: "\<forall>k. m * (B * L) \<le> k \<and> k < m * (B * L) + B * L \<longrightarrow> fp_abs CIRCLE (pd_azimuth (f_pointData f k))"
  shows "\<exists>f'. ax_ComputeXYZI lm f (int m) s = Some (0, f', s \<lparr> p47 := FrameNumAdd (p47 s) \<rparr>) \<and>
     (\<forall>b<B. \<forall>c<L. let k = m * (B * L) + b * L + c
        in \<exists>u. ax_point lm s (int m) f c k = Some u \<and> f_points f' k = u (f_points f k)) \<and>
     (\<forall>k. k < m * (B * L) \<or> m * (B * L) + B * L \<le> k \<longrightarrow> f_points f' k = f_points f k)"
proof -
  define u where "u b c = the (ax_point lm s (int m) f c (m * (B * L) + b * L + c))" for b c
  have point: "ax_point lm s (int m) f c (m * (B * L) + b * L + c) = Some (u b c)" if bc: "b < B" "c < L" for b c
  proof -
    let ?k = "m * (B * L) + b * L + c"
    have "fp_abs CIRCLE (pd_azimuth (f_pointData f ?k))" using A in_packet [OF bc] by simp
    then obtain a where a: "fp_to_int (pd_azimuth (f_pointData f ?k)) = Some a" "\<bar>a\<bar> \<le> CIRCLE"
      using to_int_abs [of CIRCLE] by (auto simp: CIRCLE_def)
    obtain az el where ang: "ax_angles s c a = Some (az, el)" "0 \<le> az" "az < CIRCLE" "0 \<le> el" "el < CIRCLE"
      using ax_angles_ok [OF c a(2), of c] bc(2) L by auto
    show ?thesis
      using place_point_defined [OF ang(2-5) f(2)] ang(1) a(1) point_in_frame [OF f bc] unfolding u_def
      by (simp add: ax_point_def get_point_data_def kMaxPointsNumPerFrame_def)
  qed
  have reads: "ax_point lm s x (g \<lparr> f_points := y \<rparr>) i k = ax_point lm s x g i k" for x g y i k
    unfolding ax_point_def place_point_def reads_not_points by simp
  have "block_writes (\<lambda>_ _. Some (Some (ax_point lm s (int m)))) B L m f u b" if "b < B" for b
    using point [OF that] by (simp add: block_writes_def reads)
  then have 1: "ax_ComputeXYZI lm f (int m) s = Some (0,
      f \<lparr> f_points := computed_points u L (m * (B * L)) 0 (B * L) (f_points f) \<rparr>, s \<lparr> p47 := FrameNumAdd (p47 s) \<rparr>)"
    using compute_blocks_points [OF f, of 0 B "\<lambda>_ _. Some (Some (ax_point lm s (int m)))" u] f(1)
    by (simp add: ax_ComputeXYZI_def sized_def)
  show ?thesis
    unfolding 1 using point by (auto simp: Let_def computed_points_at) (simp_all add: computed_points_def)
qed

section \<open>A rejected correction file\<close>

text \<open>
  A rejected correction file. A file whose header has an angle division of 0 is refused, but the header
  is stored before the check and a parser that had loaded a file keeps decoding: the azimuth of the
  first block is then divided by zero, and its conversion to an integer is undefined, whatever the
  packet.
\<close>

theorem ax_rejected_file_undefined:
  assumes head: "axh_at data 0 = Some fh" "axh_delimiter fh = (0xee, 0xff)" "snd (axh_version fh) \<in> {1, 2, 3}"
    and zero: "axh_angle_division fh = 0"
    and acc: "ax_accepted pk s" and n: "unat (f_packet_num f) < 5000"
    and hdr: "ax_header_at (up_buffer pk) 6 = Some hdr" "0 < ax_BlockNum hdr"
  shows "\<exists>s'. ax_LoadCorrectionString data s = Some (-1, s') \<and> ax_get_correction_file s' \<and>
     ax_DecodePacket h f pk s' = None"
proof -
  let ?s = "s \<lparr> ax_corrections := (ax_corrections s) \<lparr> axc_header := fh \<rparr> \<rparr>"
  have load: "ax_LoadCorrectionString data s = Some (-1, ?s)"
    using head zero by (auto simp: ax_LoadCorrectionString_def Let_def)
  have acc': "ax_accepted pk ?s" using acc by (simp add: ax_accepted_def)
  have "fp_to_int (fmul (f32_of_int (uint az)) (fdiv (Fin 25600) (f32_of_int 0))) = None" for az :: u16
    using f32_u16 [of az] f32_int [of 0] by (simp add: f32_of_int_def fp_to_int_def)
  then have row: "ax_row buf (?s \<lparr> p47 := p \<rparr>) t r pa = None" for buf p t r pa
    by (simp add: ax_row_def ax_block_azimuth_def zero Option.bind_eq_None_conv del: bind_Some_iff)
  obtain b where b: "unat (ax_BlockNum hdr) = Suc b"
    using hdr(2) by (metis gr0_implies_Suc unat_gt_0 word_gt_0)
  have "ax_DecodePacket h f pk ?s = None"
  proof (cases "ax_end hdr \<le> 1500")
    case True
    then show ?thesis
      using ax_prefix [OF acc' n hdr(1), of h] by (auto simp: ax_body_def b row)
  qed (use ax_overrun [OF acc' hdr(1)] in simp)
  then show ?thesis using load acc by (intro exI [of _ ?s]) (simp add: ax_accepted_def)
qed

lemma ax_table_ex: "ax_table_ok (ax_corrections ax_parser_ex)"
  by (simp add: ax_table_ok_def list_all_iff ax_parser_ex_def fp_abs_def)

definition ax_frame_ex :: LidarDecodedFrame where
  "ax_frame_ex = frame_ex \<lparr> f_block_num := 1, f_laser_num := 1, f_per_points_num := 1,
     f_pointData := (\<lambda>k. f_pointData frame_ex k \<lparr> pd_azimuth := Fin (of_int 4000000) \<rparr>) \<rparr>"

theorem ax_ComputeXYZI_points_witness:
  "\<exists>f'. ax_ComputeXYZI libm_ex ax_frame_ex 0 ax_parser_ex = Some (0, f', ax_parser_ex \<lparr> p47 := FrameNumAdd (p47 ax_parser_ex) \<rparr>) \<and>
     (\<exists>u. ax_point libm_ex ax_parser_ex 0 ax_frame_ex 0 0 = Some u \<and> f_points f' 0 = u (f_points ax_frame_ex 0))"
proof -
  have f: "sized ax_frame_ex 1 1" by (simp add: sized_def ax_frame_ex_def)
  have "\<forall>k. 0 * (1 * 1) \<le> k \<and> k < 0 * (1 * 1) + 1 * (1 :: nat) \<longrightarrow> fp_abs CIRCLE (pd_azimuth (f_pointData ax_frame_ex k))"
    using fp_absI [of CIRCLE 4000000] by (simp add: ax_frame_ex_def CIRCLE_def)
  then show ?thesis
    using ax_ComputeXYZI_points [OF ax_table_ex f, of 0 libm_ex] by (auto simp: Let_def)
qed

definition ax_bad_file :: "u8 list" where
  "ax_bad_file = [0xee, 0xff, 1, 2, 0, 0, 1, 0, 0]"

theorem ax_rejected_file_undefined_witness:
  "\<exists>s'. ax_LoadCorrectionString ax_bad_file ax_parser_ex = Some (-1, s') \<and> ax_get_correction_file s' \<and>
     ax_DecodePacket host_ex frame_ex (ax_ex 1 2) s' = None"
proof -
  have "\<exists>fh. axh_at ax_bad_file 0 = Some fh \<and> axh_delimiter fh = (0xee, 0xff) \<and> snd (axh_version fh) = 2 \<and>
      axh_angle_division fh = 0"
    by (simp add: axh_at_def ax_bad_file_def ld8_def load_def)
  then obtain fh where fh: "axh_at ax_bad_file 0 = Some fh" "axh_delimiter fh = (0xee, 0xff)"
    "snd (axh_version fh) \<in> {1, 2, 3}" "axh_angle_division fh = 0" by auto
  show ?thesis
    by (rule ax_rejected_file_undefined [OF fh ax_ex_ok(1) _ ax_ex_ok(2)])
      (simp_all add: frame_ex_def LidarDecodedFrame_new_def ax_header_ex_def)
qed

end
