(* ===== verification/Udp7_2.thy ===== *)
theory Udp7_2
  imports Row_Decoder Compute_Points
begin

text \<open>
  The parser of FT120: \<open>src/libhesai/UdpParser/src/udp7_2_parser.cc\<close> and the structs of
  \<open>src/libhesai/UdpProtocol/udp_protocol_v7_2.h\<close>. A packet is one column of the image; the angles of
  its points are looked up in two tables of 256 channels and 384 columns, which a correction file
  fills. A frame ends when the column number decreases.
\<close>

section \<open>Structs\<close>

record HS_LIDAR_HEADER_FT_V2 =
  ft_total_column :: u16
  ft_total_row :: u16
  ft_column_resolution :: u8
  ft_row_resolution :: u8
  ft_echo :: u8
  ft_dist_unit :: u8
  ft_block_index :: u8
  ft_channel_num :: u16
  ft_reserved :: "u8 list"

definition ft_header_at :: "u8 list \<Rightarrow> nat \<Rightarrow> HS_LIDAR_HEADER_FT_V2 option" where
  "ft_header_at buf off = do {
     tc \<leftarrow> ld16 buf off;
     tr \<leftarrow> ld16 buf (off + 2);
     cr \<leftarrow> ld8 buf (off + 4);
     rr \<leftarrow> ld8 buf (off + 5);
     ec \<leftarrow> ld8 buf (off + 6);
     du \<leftarrow> ld8 buf (off + 7);
     bi \<leftarrow> ld8 buf (off + 8);
     cn \<leftarrow> ld16 buf (off + 9);
     rs \<leftarrow> bytes_at 8 buf (off + 11);
     Some \<lparr> ft_total_column = tc, ft_total_row = tr, ft_column_resolution = cr, ft_row_resolution = rr,
            ft_echo = ec, ft_dist_unit = du, ft_block_index = bi, ft_channel_num = cn, ft_reserved = rs \<rparr> }"

definition ft_GetDistUnit :: "HS_LIDAR_HEADER_FT_V2 \<Rightarrow> fp" where
  "ft_GetDistUnit hdr = fdiv (f32_of_int (uint (ft_dist_unit hdr))) (Fin 1000)"

record HS_LIDAR_TAIL_FT_V2 =
  ft_reservedInfo1 :: "u16 \<times> u8"
  ft_reservedInfo2 :: "u16 \<times> u8"
  ft_status_mode :: u8
  ft_column_id :: u16
  ft_frame_flag :: u8
  ft_high_temperature_shutdown_flag :: u8
  ft_return_mode :: u8
  ft_frame_duration :: u16
  ft_utc :: "u8 list"
  ft_timestamp :: u32
  ft_factory :: u8
  ft_sequence_num :: u32

definition ft_tail_at :: "u8 list \<Rightarrow> nat \<Rightarrow> HS_LIDAR_TAIL_FT_V2 option" where
  "ft_tail_at buf off = do {
     r1 \<leftarrow> reserved_info_at buf off;
     r2 \<leftarrow> reserved_info_at buf (off + 3);
     sm \<leftarrow> ld8 buf (off + 6);
     ci \<leftarrow> ld16 buf (off + 7);
     ff \<leftarrow> ld8 buf (off + 9);
     ht \<leftarrow> ld8 buf (off + 10);
     rm \<leftarrow> ld8 buf (off + 11);
     fd \<leftarrow> ld16 buf (off + 12);
     utc \<leftarrow> bytes_at 6 buf (off + 14);
     ts \<leftarrow> ld32 buf (off + 20);
     fa \<leftarrow> ld8 buf (off + 24);
     seq \<leftarrow> ld32 buf (off + 25);
     Some \<lparr> ft_reservedInfo1 = r1, ft_reservedInfo2 = r2, ft_status_mode = sm, ft_column_id = ci,
            ft_frame_flag = ff, ft_high_temperature_shutdown_flag = ht, ft_return_mode = rm,
            ft_frame_duration = fd, ft_utc = utc, ft_timestamp = ts, ft_factory = fa,
            ft_sequence_num = seq \<rparr> }"

section \<open>The class\<close>

definition CHANNEL_MAX :: nat where "CHANNEL_MAX = 256"
definition COLUMN_MAX :: nat where "COLUMN_MAX = 384"

record udp7_2_parser =
  p72 :: parser
  last_cloumn_id :: int
  ft_azimuths :: "nat \<Rightarrow> nat \<Rightarrow> fp"
  ft_elevations :: "nat \<Rightarrow> nat \<Rightarrow> fp"

definition Udp7_2Parser_new :: "libm \<Rightarrow> udp7_2_parser \<Rightarrow> udp7_2_parser" where
  "Udp7_2Parser_new lm mem = mem \<lparr> p72 := (GeneralParser_new lm (p72 mem)) \<lparr> motor_speed := 0, return_mode := 0 \<rparr>,
     last_cloumn_id := -1 \<rparr>"

text \<open>An access of \<open>corrections_.azimuths[i][column]\<close>.\<close>

definition ft_cell :: "(nat \<Rightarrow> nat \<Rightarrow> fp) \<Rightarrow> nat \<Rightarrow> nat \<Rightarrow> fp option" where
  "ft_cell m i column = (if i < CHANNEL_MAX \<and> column < COLUMN_MAX then Some (m i column) else None)"

definition ft_put :: "nat \<Rightarrow> nat \<Rightarrow> fp \<Rightarrow> (nat \<Rightarrow> nat \<Rightarrow> fp) \<Rightarrow> (nat \<Rightarrow> nat \<Rightarrow> fp) option" where
  "ft_put i column v m =
     (if i < CHANNEL_MAX \<and> column < COLUMN_MAX then Some (m(i := (m i)(column := v))) else None)"

section \<open>The correction file\<close>

text \<open>
  \<open>LoadCorrectionDatData\<close>. The data are a \<open>char *\<close> without a length; a read behind the end of the
  file's bytes is \<open>None\<close>. The angles are signed numbers of 2 bytes in version 0 and of 4 bytes in
  version 1; in version 0 they are copied from the start of the data, over the header.
\<close>

definition ft_angle :: "nat \<Rightarrow> u8 list \<Rightarrow> nat \<Rightarrow> nat \<Rightarrow> int option" where
  "ft_angle esz data start idx =
     (if esz = 2 then map_option sint (ld16 data (start + 2 * idx))
      else map_option sint (ld32 data (start + 4 * idx)))"

fun ft_fill_row :: "(nat \<Rightarrow> int option) \<Rightarrow> fp \<Rightarrow> nat \<Rightarrow> nat \<Rightarrow> nat \<Rightarrow> nat \<Rightarrow> (nat \<Rightarrow> nat \<Rightarrow> fp) \<Rightarrow> (nat \<Rightarrow> nat \<Rightarrow> fp) option" where
  "ft_fill_row angle res row 0 col idx m = Some m"
| "ft_fill_row angle res row (Suc n) col idx m = do {
     a \<leftarrow> angle idx;
     m \<leftarrow> ft_put col row (fmul (f32_of_int a) res) m;
     ft_fill_row angle res row n (Suc col) (Suc idx) m }"

fun ft_fill :: "(nat \<Rightarrow> int option) \<Rightarrow> fp \<Rightarrow> nat \<Rightarrow> nat \<Rightarrow> nat \<Rightarrow> nat \<Rightarrow> (nat \<Rightarrow> nat \<Rightarrow> fp) \<Rightarrow> (nat \<Rightarrow> nat \<Rightarrow> fp) option" where
  "ft_fill angle res channel_num 0 row idx m = Some m"
| "ft_fill angle res channel_num (Suc n) row idx m = do {
     m \<leftarrow> ft_fill_row angle res row channel_num 0 idx m;
     ft_fill angle res channel_num n (Suc row) (idx + channel_num) m }"

definition ft_load :: "nat \<Rightarrow> nat \<Rightarrow> nat \<Rightarrow> nat \<Rightarrow> fp \<Rightarrow> u8 list \<Rightarrow> udp7_2_parser \<Rightarrow> (int \<times> udp7_2_parser) option" where
  "ft_load esz start column_num channel_num fResolution data s = do {
     let angleNum = column_num * channel_num;
     _ \<leftarrow> bytes_at (esz * (angleNum * 2)) data start;
     _ \<leftarrow> bytes_at 32 data (start + esz * (angleNum * 2));
     az \<leftarrow> ft_fill (ft_angle esz data start) fResolution channel_num column_num 0 0 (ft_azimuths s);
     el \<leftarrow> ft_fill (ft_angle esz data start) fResolution channel_num column_num 0 angleNum (ft_elevations s);
     Some (0, s \<lparr> ft_azimuths := az, ft_elevations := el,
                  p72 := p72 s \<lparr> get_correction_file := True \<rparr> \<rparr>) }"

definition ft_LoadCorrectionDatData :: "u8 list \<Rightarrow> udp7_2_parser \<Rightarrow> (int \<times> udp7_2_parser) option" where
  "ft_LoadCorrectionDatData data s = do {
     pilot0 \<leftarrow> ld8 data 0;
     pilot1 \<leftarrow> ld8 data 1;
     version1 \<leftarrow> ld8 data 3;
     column_number \<leftarrow> ld8 data 6;
     channel_number \<leftarrow> ld8 data 7;
     resolution \<leftarrow> ld8 data 8;
     let fResolution = f32_of_int (uint resolution);
     if pilot0 = 0xee \<and> pilot1 = 0xff then
       (if version1 = 0 then ft_load 2 0 (unat column_number) (unat channel_number) fResolution data s
        else if version1 = 1 then ft_load 4 9 (unat column_number) (unat channel_number) fResolution data s
        else Some (-1, s))
     else Some (-1, s) }"

section \<open>The decoder\<close>

definition ft_IsNeedFrameSplit :: "udp7_2_parser \<Rightarrow> u16 \<Rightarrow> bool" where
  "ft_IsNeedFrameSplit s column_id \<longleftrightarrow> uint column_id < last_cloumn_id s"

definition ft_channel :: "u8 list \<Rightarrow> udp7_2_parser \<Rightarrow> u16 \<Rightarrow> point_reader" where
  "ft_channel buf s column_id i off = do {
     a \<leftarrow> ft_cell (ft_azimuths s) i (unat column_id);
     e \<leftarrow> ft_cell (ft_elevations s) i (unat column_id);
     r \<leftarrow> ld8 buf (off + 2);
     d \<leftarrow> ld16 buf off;
     Some (\<lambda>pd. pd \<lparr> pd_azimuth := a, pd_elevation := e, pd_reflectivities := r, pd_distances := d \<rparr>) }"

definition ft_index :: "u32 \<Rightarrow> u16 \<Rightarrow> int" where
  "ft_index packet_num channels = sint (packet_num * ucast channels)"

definition ft_body :: "u8 list \<Rightarrow> HS_LIDAR_HEADER_FT_V2 \<Rightarrow> HS_LIDAR_TAIL_FT_V2 \<Rightarrow> LidarDecodedFrame \<Rightarrow>
    udp7_2_parser \<Rightarrow> (int \<times> LidarDecodedFrame \<times> udp7_2_parser) option" where
  "ft_body buf hdr t f s = do {
     (_, f) \<leftarrow> read_row (ft_channel buf s (ft_column_id t)) 5 (unat (ft_channel_num hdr)) 0 25
        (ft_index (f_packet_num f) (ft_channel_num hdr)) f;
     let f = (if ft_IsNeedFrameSplit s (ft_column_id t) then f \<lparr> f_scan_complete := True \<rparr> else f);
     Some (0, f \<lparr> f_packet_num := f_packet_num f + 1 \<rparr>, s \<lparr> last_cloumn_id := uint (ft_column_id t) \<rparr>) }"

definition ft_DecodePacket :: "host \<Rightarrow> LidarDecodedFrame \<Rightarrow> UdpPacket \<Rightarrow> udp7_2_parser \<Rightarrow>
    (int \<times> LidarDecodedFrame \<times> udp7_2_parser) option" where
  "ft_DecodePacket h f pk s =
     (let buf = up_buffer pk in
      if \<not> get_correction_file (p72 s) then Some (-1, f, s)
      else do {
        b0 \<leftarrow> ld8 buf 0;
        b1 \<leftarrow> ld8 buf 1;
        if b0 \<noteq> 0xEE \<or> b1 \<noteq> 0xFF then Some (-1, f, s)
        else do {
          pHeader \<leftarrow> ft_header_at buf 6;
          pTail \<leftarrow> ft_tail_at buf (25 + 5 * unat (ft_channel_num pHeader));
          let time = lidar_time_7_2 (h_timezone h) (ft_utc pTail) (ft_timestamp pTail);
          f \<leftarrow> put_timestamp (unat (f_packet_num f))
                (if f_use_timestamp_type f = 0 then time else up_recv_timestamp pk) f;
          let p = CalPktLoss (h_loss_tick h) (ft_sequence_num pTail) (p72 s);
          let p = CalPktTimeLoss (h_time_tick h) time p;
          let f = f \<lparr> f_host_timestamp := h_now h,
                      f_per_points_num := ucast (ft_channel_num pHeader),
                      f_scan_complete := False,
                      f_distance_unit := ft_GetDistUnit pHeader,
                      f_block_num := 1,
                      f_laser_num := ft_channel_num pHeader \<rparr>;
          ft_body buf pHeader pTail f (s \<lparr> p72 := p \<rparr>) } })"

section \<open>The points\<close>

definition ft_angles :: "udp7_2_parser \<Rightarrow> PointDecodeData \<Rightarrow> (int \<times> int) option" where
  "ft_angles s d =
     (if get_correction_file (p72 s) then do {
        azimuth \<leftarrow> fp_to_int (fmul (pd_azimuth d) (Fin 256));
        elevation \<leftarrow> fp_to_int (fmul (pd_elevation d) (Fin 256));
        elevation \<leftarrow> int_ok (CIRCLE + elevation);
        azimuth \<leftarrow> int_ok (CIRCLE + azimuth);
        Some (c_rem azimuth CIRCLE, c_rem elevation CIRCLE) }
      else Some (0, 0))"

definition ft_point :: "libm \<Rightarrow> udp7_2_parser \<Rightarrow> int \<Rightarrow> point_writer" where
  "ft_point lm s packet_index f i k = do {
     d \<leftarrow> get_point_data k f;
     let distance = to_float (dmul (f64_of_int (uint (pd_distances d))) (f_distance_unit f));
     (azimuth, elevation) \<leftarrow> ft_angles s d;
     place_point lm (p72 s) False packet_index f i d azimuth elevation distance }"

definition ft_ComputeXYZI :: "libm \<Rightarrow> LidarDecodedFrame \<Rightarrow> int \<Rightarrow> udp7_2_parser \<Rightarrow>
    (int \<times> LidarDecodedFrame \<times> udp7_2_parser) option" where
  "ft_ComputeXYZI lm f packet_index s = do {
     f \<leftarrow> compute_channels (ft_point lm s packet_index) packet_index 0 (unat (f_laser_num f)) 0 f;
     Some (0, f, s \<lparr> p72 := FrameNumAdd (p72 s) \<rparr>) }"

text \<open>For angles of at most a turn, no index leaves the tables, and every channel is computed.\<close>

definition turn_ok :: "fp \<Rightarrow> bool" where
  "turn_ok v \<longleftrightarrow> (case v of Fin a \<Rightarrow> \<bar>a\<bar> \<le> 36000 | _ \<Rightarrow> False)"

lemma ft_index_ok:
  assumes "turn_ok v"
  shows "\<exists>i. fp_to_int (fmul v (Fin 256)) = Some i \<and> \<bar>i\<bar> \<le> CIRCLE"
proof -
  obtain a where a: "v = Fin a" "\<bar>a\<bar> \<le> 36000" using assms by (auto simp: turn_ok_def split: fp.splits)
  obtain r where r: "f32 (a * 256) = Fin r" "of_int (-9216000) \<le> r" "r \<le> of_int 9216000"
    using f32_between [of "-9216000" "a * 256" 9216000] a(2) by (auto simp: abs_le_iff)
  then show ?thesis using fp_to_int_between [OF r(2,3)] by (auto simp: a(1) CIRCLE_def abs_le_iff)
qed

lemma ft_point_ok:
  assumes "turn_ok (pd_azimuth (f_pointData f k))" "turn_ok (pd_elevation (f_pointData f k))"
    and "m < 5000" and "k < 2560000"
  shows "\<exists>u. ft_point lm s (int m) f i k = Some u"
proof -
  obtain a e where ae: "fp_to_int (fmul (pd_azimuth (f_pointData f k)) (Fin 256)) = Some a" "\<bar>a\<bar> \<le> CIRCLE"
    "fp_to_int (fmul (pd_elevation (f_pointData f k)) (Fin 256)) = Some e" "\<bar>e\<bar> \<le> CIRCLE"
    using ft_index_ok [OF assms(1)] ft_index_ok [OF assms(2)] by blast
  then have "int_ok (CIRCLE + a) = Some (CIRCLE + a)" "int_ok (CIRCLE + e) = Some (CIRCLE + e)"
    by (simp_all add: int_ok_def CIRCLE_def abs_le_iff)
  then obtain az el where ang: "ft_angles s (f_pointData f k) = Some (az, el)" "0 \<le> az" "az < CIRCLE" "0 \<le> el" "el < CIRCLE"
    using ae by (cases "get_correction_file (p72 s)") (auto simp: ft_angles_def CIRCLE_def c_rem_nonneg abs_le_iff)
  show ?thesis
    using place_point_defined [OF ang(2-5) assms(3)] ang(1) assms(4)
    by (simp add: ft_point_def get_point_data_def kMaxPointsNumPerFrame_def)
qed

lemma ft_ComputeXYZI_points:
  assumes f: "sized f 1 L" "m < 5000"
    and ok: "\<forall>c<L. turn_ok (pd_azimuth (f_pointData f (m * L + c))) \<and> turn_ok (pd_elevation (f_pointData f (m * L + c)))"
  shows "\<exists>u. ft_ComputeXYZI lm f (int m) s =
       Some (0, f \<lparr> f_points := computed_points u L (m * L) 0 L (f_points f) \<rparr>, s \<lparr> p72 := FrameNumAdd (p72 s) \<rparr>) \<and>
     (\<forall>c<L. ft_point lm s (int m) f c (m * L + c) = Some (u 0 c))"
proof -
  define u where "u b c = the (ft_point lm s (int m) f c (m * (1 * L) + b * L + c))" for b c :: nat
  have u: "ft_point lm s (int m) f c (m * (1 * L) + 0 * L + c) = Some (u 0 c)" if "c < L" for c
    using ft_point_ok [of f "m * L + c" m lm s c] ok that f point_in_frame [OF f, of 0 c] by (auto simp: u_def)
  have upd: "ft_point lm s (int m) (f \<lparr> f_points := y \<rparr>) c k = ft_point lm s (int m) f c k" for f y c k
    unfolding ft_point_def place_point_def reads_not_points by simp
  show ?thesis
    using compute_channels_points [where upd = "ft_point lm s (int m)" and b = 0 and i = 0 and n = L and u = u, OF f] u upd f(1)
    by (intro exI [of _ u]) (simp add: ft_ComputeXYZI_def sized_def)
qed

section \<open>Behaviour of the loader\<close>

lemma ft_fill_row_cells:
  assumes "\<And>i. i < n \<Longrightarrow> angle (idx + i) \<noteq> None" and "col + n \<le> 256" and "row < 384"
  shows "ft_fill_row angle res row n col idx m = Some (\<lambda>c r. if r = row \<and> col \<le> c \<and> c < col + n
     then fmul (f32_of_int (the (angle (idx + (c - col))))) res else m c r)"
  using assms
proof (induction n arbitrary: col idx m)
  case 0
  then show ?case by (auto simp: fun_eq_iff)
next
  case (Suc n)
  obtain a where a: "angle idx = Some a" using Suc.prems(1) [of 0] by auto
  let ?m = "m(col := (m col)(row := fmul (f32_of_int a) res))"
  have IH: "ft_fill_row angle res row n (Suc col) (Suc idx) ?m = Some (\<lambda>c r. if r = row \<and> Suc col \<le> c \<and>
      c < Suc col + n then fmul (f32_of_int (the (angle (Suc idx + (c - Suc col))))) res else ?m c r)"
  proof (rule Suc.IH)
    fix i assume "i < n"
    then show "angle (Suc idx + i) \<noteq> None" using Suc.prems(1) [of "Suc i"] by simp
  qed (use Suc.prems in simp_all)
  have "(if r = row \<and> Suc col \<le> c \<and> c < Suc col + n
      then fmul (f32_of_int (the (angle (Suc idx + (c - Suc col))))) res else ?m c r) =
    (if r = row \<and> col \<le> c \<and> c < col + Suc n then fmul (f32_of_int (the (angle (idx + (c - col))))) res else m c r)"
    for c r
  proof (cases "Suc col \<le> c")
    case True
    then have "Suc idx + (c - Suc col) = idx + (c - col)" by simp
    then show ?thesis using True by simp
  qed (auto simp: a)
  then show ?case
    using Suc.prems(2,3) by (simp add: a IH ft_put_def CHANNEL_MAX_def COLUMN_MAX_def fun_eq_iff del: bind_Some_iff)
qed

lemma ft_fill_cells:
  assumes "\<And>i. i < n * chn \<Longrightarrow> angle (idx + i) \<noteq> None" and "chn \<le> 256" and "row + n \<le> 384"
  shows "\<exists>m'. ft_fill angle res chn n row idx m = Some m' \<and>
     (\<forall>c<chn. \<forall>i<n. m' c (row + i) = fmul (f32_of_int (the (angle (idx + i * chn + c)))) res) \<and>
     (\<forall>c r. r < row \<longrightarrow> m' c r = m c r)"
  using assms
proof (induction n arbitrary: row idx m)
  case (Suc n)
  let ?m = "\<lambda>c r. if r = row \<and> c < chn then fmul (f32_of_int (the (angle (idx + c)))) res else m c r"
  have 1: "ft_fill_row angle res row chn 0 idx m = Some ?m"
    using ft_fill_row_cells [of chn angle idx 0 row res m] Suc.prems
    by (simp add: diff_zero cong: if_cong)
  obtain m' where 2: "ft_fill angle res chn n (Suc row) (idx + chn) ?m = Some m'"
    "\<forall>c<chn. \<forall>i<n. m' c (Suc row + i) = fmul (f32_of_int (the (angle (idx + chn + i * chn + c)))) res"
    "\<forall>c r. r < Suc row \<longrightarrow> m' c r = ?m c r"
  proof -
    have "\<exists>m'. ft_fill angle res chn n (Suc row) (idx + chn) ?m = Some m' \<and>
       (\<forall>c<chn. \<forall>i<n. m' c (Suc row + i) = fmul (f32_of_int (the (angle (idx + chn + i * chn + c)))) res) \<and>
       (\<forall>c r. r < Suc row \<longrightarrow> m' c r = ?m c r)"
    proof (rule Suc.IH)
      fix i assume "i < n * chn"
      then show "angle (idx + chn + i) \<noteq> None" using Suc.prems(1) [of "chn + i"] by (simp add: add.assoc)
    qed (use Suc.prems in simp_all)
    then show ?thesis using that by blast
  qed
  have "m' c (row + i) = fmul (f32_of_int (the (angle (idx + i * chn + c)))) res" if "c < chn" "i < Suc n" for c i
    using that 2(2,3) by (cases i) (auto simp: add.assoc)
  then show ?case using 1 2(1,3) by auto
qed simp

lemma ft_angle_defined: "start + esz * (2 * n) \<le> length data \<Longrightarrow> esz \<in> {2, 4} \<Longrightarrow> idx < 2 * n \<Longrightarrow>
    ft_angle esz data start idx \<noteq> None"
  by (auto simp: ft_angle_def load_def)

lemma ft_load_tables:
  assumes fit: "start + esz * (column_num * channel_num * 2) + 32 \<le> length data" and esz: "esz \<in> {2, 4}"
    and c: "channel_num \<le> 256" and r: "column_num \<le> 384"
  shows "\<exists>s'. ft_load esz start column_num channel_num res data s = Some (0, s') \<and>
     get_correction_file (p72 s') \<and>
     (\<forall>c<channel_num. \<forall>r<column_num.
        ft_azimuths s' c r = fmul (f32_of_int (the (ft_angle esz data start (r * channel_num + c)))) res \<and>
        ft_elevations s' c r = fmul (f32_of_int (the (ft_angle esz data start
          (column_num * channel_num + (r * channel_num + c))))) res)"
proof -
  let ?n = "column_num * channel_num"
  have def: "ft_angle esz data start idx \<noteq> None" if "idx < 2 * ?n" for idx
    using fit esz that by (intro ft_angle_defined) (auto simp: mult.commute mult.left_commute)
  obtain az where az: "ft_fill (ft_angle esz data start) res channel_num column_num 0 0 (ft_azimuths s) = Some az"
    "\<forall>c<channel_num. \<forall>i<column_num. az c i = fmul (f32_of_int (the (ft_angle esz data start (i * channel_num + c)))) res"
    using ft_fill_cells [of column_num channel_num "ft_angle esz data start" 0 0 res "ft_azimuths s"] def c r by auto
  have def2: "ft_angle esz data start (?n + i) \<noteq> None" if "i < ?n" for i
    using that by (intro def) linarith
  obtain el where el: "ft_fill (ft_angle esz data start) res channel_num column_num 0 ?n (ft_elevations s) = Some el"
    "\<forall>c<channel_num. \<forall>i<column_num. el c i = fmul (f32_of_int (the (ft_angle esz data start (?n + i * channel_num + c)))) res"
    using ft_fill_cells [where idx = ?n and row = 0 and m = "ft_elevations s" and res = res and n = column_num and
        chn = channel_num and angle = "ft_angle esz data start", OF def2 c] r by auto
  show ?thesis
    using fit az el by (simp add: ft_load_def bytes_at_def Let_def add.assoc del: bind_Some_iff)
qed

text \<open>
  The binary correction file of FT120. When the header has the two marks and the version is 0 or
  1, and the file has all the angles of its header and the hash, both tables are filled row by row
  (they are large enough for every header), each entry with the signed angle times the resolution;
  the elevations follow the azimuths. In version 0 the angles are taken from the first byte of the
  file on, so the first of them are the bytes of the header.
\<close>

theorem ft_LoadCorrectionDatData_tables:
  assumes magic: "ld8 data 0 = Some 0xee" "ld8 data 1 = Some 0xff"
    and head: "ld8 data 3 = Some v" "ld8 data 6 = Some columns" "ld8 data 7 = Some channels" "ld8 data 8 = Some res"
    and v: "v = 0 \<and> start = 0 \<and> esz = 2 \<or> v = 1 \<and> start = 9 \<and> esz = 4"
    and fit: "start + esz * (unat columns * unat channels * 2) + 32 \<le> length data"
  shows "\<exists>s'. ft_LoadCorrectionDatData data s = Some (0, s') \<and> get_correction_file (p72 s') \<and>
     (\<forall>c<unat channels. \<forall>r<unat columns.
        ft_azimuths s' c r = fmul (f32_of_int (the (ft_angle esz data start (r * unat channels + c))))
          (f32_of_int (uint res)) \<and>
        ft_elevations s' c r = fmul (f32_of_int (the (ft_angle esz data start
          (unat columns * unat channels + (r * unat channels + c))))) (f32_of_int (uint res)))"
proof -
  have "unat channels \<le> 256" "unat columns \<le> 384"
    using unat_u8_less [of channels] unat_u8_less [of columns] by linarith+
  then obtain s' where "ft_load esz start (unat columns) (unat channels) (f32_of_int (uint res)) data s = Some (0, s')"
    and "get_correction_file (p72 s') \<and>
     (\<forall>c<unat channels. \<forall>r<unat columns.
        ft_azimuths s' c r = fmul (f32_of_int (the (ft_angle esz data start (r * unat channels + c))))
          (f32_of_int (uint res)) \<and>
        ft_elevations s' c r = fmul (f32_of_int (the (ft_angle esz data start
          (unat columns * unat channels + (r * unat channels + c))))) (f32_of_int (uint res)))"
    using ft_load_tables [OF fit, where s = s and res = "f32_of_int (uint res)"] v by blast
  then show ?thesis
    using v unfolding ft_LoadCorrectionDatData_def magic head Let_def by auto
qed

definition ft_file_ex :: "u8 list" where
  "ft_file_ex = [0xee, 0xff, 1, 1, 0, 0, 1, 1, 2, 5, 0, 0, 0, 0xff, 0xff, 0xff, 0xff] @ replicate 32 0"

definition ft_parser_ex :: udp7_2_parser where
  "ft_parser_ex = \<lparr> p72 = parser_at 0 0 0, last_cloumn_id = 3, ft_azimuths = (\<lambda>c r. Fin (of_nat c)),
     ft_elevations = (\<lambda>c r. Fin (of_nat r)) \<rparr>"

theorem ft_LoadCorrectionDatData_tables_witness:
  "\<exists>s'. ft_LoadCorrectionDatData ft_file_ex ft_parser_ex = Some (0, s') \<and> get_correction_file (p72 s') \<and>
     ft_azimuths s' 0 0 = fmul (f32_of_int 5) (f32_of_int 2) \<and>
     ft_elevations s' 0 0 = fmul (f32_of_int (-1)) (f32_of_int 2)"
  using ft_LoadCorrectionDatData_tables [of ft_file_ex 1 1 1 2 9 4 ft_parser_ex]
  by (simp add: ft_file_ex_def ft_angle_def ld8_def load_def)

section \<open>Behaviour of the decoder\<close>

lemma ft_index_small:
  assumes "unat n < 5000" and "unat c \<le> 256"
  shows "ft_index n c = int (unat n * unat c)"
proof -
  have "unat n * unat c \<le> 5000 * 256" using assms by (intro mult_le_mono) auto
  moreover have "n * ucast c = (word_of_nat (unat n * unat c) :: u32)"
    by (simp add: unsigned_ucast_eq)
  ultimately show ?thesis by (simp add: ft_index_def sint_u32_small del: of_nat_mult)
qed

lemma ft_header_defined: "off + 19 \<le> length buf \<Longrightarrow> ft_header_at buf off \<noteq> None"
  by (simp add: ft_header_at_def load_def ld8_def bytes_at_def)

lemma ft_tail_defined_iff: "ft_tail_at buf off \<noteq> None \<longleftrightarrow> off + 29 \<le> length buf"
  by (auto simp: ft_tail_at_def load_def ld8_def bytes_at_def reserved_info_at_def split: Option.bind_splits if_splits)

lemma ft_channel_defined:
  assumes "off + 5 \<le> length buf" and "i < 256" and "unat column < 384"
  shows "ft_channel buf s column i off = Some (\<lambda>pd. pd \<lparr> pd_azimuth := ft_azimuths s i (unat column),
    pd_elevation := ft_elevations s i (unat column), pd_reflectivities := the (ld8 buf (off + 2)),
    pd_distances := the (ld16 buf off) \<rparr>)"
  using assms by (simp add: ft_channel_def ft_cell_def CHANNEL_MAX_def COLUMN_MAX_def load_def ld8_def)

text \<open>The parser's part of a packet that the statistics do not touch.\<close>

lemma ft_body_points:
  assumes fit: "25 + 5 * C \<le> length buf" and C: "C = unat (ft_channel_num hdr)" "C \<le> 256"
    and col: "unat (ft_column_id t) < 384" and n: "unat (f_packet_num f) < 5000"
    and k: "k = unat (f_packet_num f) * C"
  shows "ft_body buf hdr t f s = Some (0,
     f \<lparr> f_pointData := row_points (ft_channel buf s (ft_column_id t)) 5 0 25 k C (f_pointData f),
         f_scan_complete := f_scan_complete f \<or> ft_IsNeedFrameSplit s (ft_column_id t),
         f_packet_num := f_packet_num f + 1 \<rparr>,
     s \<lparr> last_cloumn_id := uint (ft_column_id t) \<rparr>)"
proof -
  have "read_row (ft_channel buf s (ft_column_id t)) 5 C 0 25 (int k) f = Some (int (k + C),
     f \<lparr> f_pointData := row_points (ft_channel buf s (ft_column_id t)) 5 0 25 k C (f_pointData f) \<rparr>)"
  proof (rule read_row_points)
    fix i assume "i < C"
    then show "ft_channel buf s (ft_column_id t) (0 + i) (25 + 5 * i) \<noteq> None"
      using fit C(2) col by (simp add: ft_channel_defined)
  next
    show "k + C \<le> 2560000" using points_fit [OF n, of C] C(2) k by simp
  qed
  then show ?thesis
    using ft_index_small [OF n] C k by (simp add: ft_body_def Let_def del: bind_Some_iff)
qed

lemma ft_prefix:
  assumes acc: "accepted pk (p72 s)" and n: "unat (f_packet_num f) < 5000"
    and hdr: "ft_header_at (up_buffer pk) 6 = Some hdr"
    and t: "ft_tail_at (up_buffer pk) (25 + 5 * unat (ft_channel_num hdr)) = Some t"
  shows "\<exists>f1 p1. ft_DecodePacket h f pk s = ft_body (up_buffer pk) hdr t f1 (s \<lparr> p72 := p1 \<rparr>) \<and>
     f_pointData f1 = f_pointData f \<and> f_packet_num f1 = f_packet_num f \<and> \<not> f_scan_complete f1"
proof -
  obtain g where g: "put_timestamp (unat (f_packet_num f)) (if f_use_timestamp_type f = 0
      then lidar_time_7_2 (h_timezone h) (ft_utc t) (ft_timestamp t) else up_recv_timestamp pk) f = Some g"
    "f_pointData g = f_pointData f" "f_packet_num g = f_packet_num f"
    using put_timestamp_defined [OF n] by metis
  show ?thesis
    using acc accepted_bytes [OF acc] g(2,3)
    unfolding ft_DecodePacket_def Let_def
    by (simp add: accepted_def hdr t g(1) del: bind_Some_iff)
      (rule exI, rule conjI, rule exI, rule refl, simp)
qed

text \<open>
  A packet of FT120. When the channels it announces and the tail are inside the buffer, and its
  numbers of channels and its column are within the tables, every entry of the packet gets the
  angles of its channel and column from the tables and the distance and reflectivity of the channel,
  the other entries are unchanged, and the frame ends exactly when the column is smaller than that
  of the packet before. A header that announces more makes the decoder read behind the buffer.
\<close>

theorem ft_DecodePacket_points:
  assumes acc: "accepted pk (p72 s)" and n: "unat (f_packet_num f) < 5000"
    and hdr: "ft_header_at (up_buffer pk) 6 = Some hdr"
    and C: "C = unat (ft_channel_num hdr)" and k: "k = unat (f_packet_num f) * C"
  shows "if 25 + 5 * C + 29 \<le> 1500
     then \<exists>t. ft_tail_at (up_buffer pk) (25 + 5 * C) = Some t \<and>
       (C \<le> 256 \<and> unat (ft_column_id t) < 384 \<longrightarrow>
         (\<exists>f' s'. ft_DecodePacket h f pk s = Some (0, f', s') \<and> f_packet_num f' = f_packet_num f + 1 \<and>
            (\<forall>c<C. let d = f_pointData f' (k + c) in
               pd_azimuth d = ft_azimuths s c (unat (ft_column_id t)) \<and>
               pd_elevation d = ft_elevations s c (unat (ft_column_id t)) \<and>
               ld16 (up_buffer pk) (25 + 5 * c) = Some (pd_distances d) \<and>
               ld8 (up_buffer pk) (27 + 5 * c) = Some (pd_reflectivities d)) \<and>
            (\<forall>j. j < k \<or> k + C \<le> j \<longrightarrow> f_pointData f' j = f_pointData f j) \<and>
            f_scan_complete f' = (uint (ft_column_id t) < last_cloumn_id s) \<and>
            last_cloumn_id s' = uint (ft_column_id t)))
     else ft_DecodePacket h f pk s = None"
proof (cases "25 + 5 * C + 29 \<le> 1500")
  case False
  have "ft_tail_at (up_buffer pk) (25 + 5 * unat (ft_channel_num hdr)) = None"
    using ft_tail_defined_iff [of "up_buffer pk"] False accepted_length [OF acc] C
    by (metis option.exhaust)
  then show ?thesis
    using False acc accepted_bytes [OF acc] unfolding ft_DecodePacket_def Let_def
    by (simp add: accepted_def hdr del: bind_Some_iff)
next
  case fit: True
  let ?buf = "up_buffer pk"
  have len: "length ?buf = 1500" by (rule accepted_length [OF acc])
  obtain t where t: "ft_tail_at ?buf (25 + 5 * C) = Some t"
    using ft_tail_defined_iff [of ?buf "25 + 5 * C"] len fit by fastforce
  obtain f1 p1 where 1: "ft_DecodePacket h f pk s = ft_body ?buf hdr t f1 (s \<lparr> p72 := p1 \<rparr>)"
    "f_pointData f1 = f_pointData f" "f_packet_num f1 = f_packet_num f" "\<not> f_scan_complete f1"
    using ft_prefix [OF acc n hdr t [unfolded C], of h] by auto
  show ?thesis
  proof (cases "C \<le> 256 \<and> unat (ft_column_id t) < 384")
    case ok: True
    let ?s = "s \<lparr> p72 := p1 \<rparr>"
    define f' where "f' = f1 \<lparr> f_pointData := row_points (ft_channel ?buf ?s (ft_column_id t)) 5 0 25 k C (f_pointData f1),
         f_scan_complete := f_scan_complete f1 \<or> ft_IsNeedFrameSplit ?s (ft_column_id t),
         f_packet_num := f_packet_num f1 + 1 \<rparr>"
    have 2: "ft_DecodePacket h f pk s = Some (0, f', ?s \<lparr> last_cloumn_id := uint (ft_column_id t) \<rparr>)"
      unfolding 1(1) f'_def using ok fit len n 1(3) k by (intro ft_body_points [OF _ C]) simp_all
    have "f_pointData f' (k + c) = f_pointData f (k + c) \<lparr> pd_azimuth := ft_azimuths s c (unat (ft_column_id t)),
       pd_elevation := ft_elevations s c (unat (ft_column_id t)), pd_reflectivities := the (ld8 ?buf (27 + 5 * c)),
       pd_distances := the (ld16 ?buf (25 + 5 * c)) \<rparr>" if "c < C" for c
      using that ok fit len by (simp add: f'_def 1(2) row_points_def ft_channel_defined)
    then show ?thesis
      using 2 fit t 1(2-4) len
      by (auto simp: f'_def row_points_def ft_IsNeedFrameSplit_def load_def ld8_def)
  qed (use fit t in auto)
qed

definition ft_bytes_ex :: "u8 \<Rightarrow> u8 \<Rightarrow> u8 list" where
  "ft_bytes_ex lo hi = [0xEE, 0xFF, 7, 2, 0, 0, 0, 0, 0, 0, 0, 0, 0, 0, 0, lo, hi, 0, 0, 0, 0, 0, 0, 0, 0,
     9, 1, 7, 0, 0, 0, 0, 0, 0, 0, 0, 0, 2, 0]"

definition ft_ex :: "u8 \<Rightarrow> u8 \<Rightarrow> UdpPacket" where
  "ft_ex lo hi = packet_ex (ft_bytes_ex lo hi)"

definition ft_header_ex :: "u8 \<Rightarrow> u8 \<Rightarrow> HS_LIDAR_HEADER_FT_V2" where
  "ft_header_ex lo hi = \<lparr> ft_total_column = 0, ft_total_row = 0, ft_column_resolution = 0, ft_row_resolution = 0,
     ft_echo = 0, ft_dist_unit = 0, ft_block_index = 0, ft_channel_num = word_of_nat (le_val [lo, hi]),
     ft_reserved = replicate 8 0 \<rparr>"

lemma ft_bytes_length [simp]: "length (ft_bytes_ex lo hi) = 39"
  by (simp add: ft_bytes_ex_def)

lemma ft_ex_ok:
  "accepted (ft_ex lo hi) (p72 ft_parser_ex)"
  "ft_header_at (up_buffer (ft_ex lo hi)) 6 = Some (ft_header_ex lo hi)"
proof -
  show "accepted (ft_ex lo hi) (p72 ft_parser_ex)"
    by (simp add: accepted_def ft_ex_def packet_ex_wf packet_ex_nth) (simp add: ft_bytes_ex_def ft_parser_ex_def
      parser_at_def parser_ex_def)
  have "ft_header_at (up_buffer (ft_ex lo hi)) 6 = ft_header_at (ft_bytes_ex lo hi) 6"
    by (simp add: ft_header_at_def ft_ex_def packet_ex_prefix)
  also have "\<dots> = Some (ft_header_ex lo hi)"
    by (simp add: ft_header_at_def ft_header_ex_def ft_bytes_ex_def ld8_def load_def bytes_at_def take_Cons'
        eval_nat_numeral)
  finally show "ft_header_at (up_buffer (ft_ex lo hi)) 6 = Some (ft_header_ex lo hi)" .
qed

lemma ft_ex_loads:
  "ld16 (up_buffer (ft_ex lo hi)) 25 = Some 0x0109" "ld16 (up_buffer (ft_ex lo hi)) 37 = Some 2"
  by (simp_all add: ft_ex_def packet_ex_prefix) (simp_all add: ft_bytes_ex_def load_def take_Cons')

lemma ft_tail_ex: "ft_tail_at (up_buffer (ft_ex lo hi)) 30 = Some t \<Longrightarrow> ft_column_id t = 2"
  by (auto simp: ft_tail_at_def ft_ex_loads split: Option.bind_splits if_splits)

theorem ft_DecodePacket_points_witness:
  "(\<exists>f' s'. ft_DecodePacket host_ex frame_ex (ft_ex 1 0) ft_parser_ex = Some (0, f', s') \<and>
      pd_elevation (f_pointData f' 0) = Fin 2 \<and> pd_distances (f_pointData f' 0) = 0x0109 \<and> f_scan_complete f') \<and>
   ft_DecodePacket host_ex frame_ex (ft_ex 0x22 1) ft_parser_ex = None"
proof -
  have f: "f_packet_num frame_ex = 0" by (simp add: frame_ex_def LidarDecodedFrame_new_def)
  have c: "unat (ft_channel_num (ft_header_ex 1 0)) = 1" "unat (ft_channel_num (ft_header_ex 0x22 1)) = 290"
    by (simp_all add: ft_header_ex_def)
  have "ft_DecodePacket host_ex frame_ex (ft_ex 0x22 1) ft_parser_ex = None"
    using ft_DecodePacket_points [OF ft_ex_ok(1) [of "0x22" 1] _ ft_ex_ok(2) c(2) [symmetric] refl,
        where f = frame_ex and h = host_ex] by (simp add: f)
  moreover have "\<exists>f' s'. ft_DecodePacket host_ex frame_ex (ft_ex 1 0) ft_parser_ex = Some (0, f', s') \<and>
      pd_elevation (f_pointData f' 0) = Fin 2 \<and> pd_distances (f_pointData f' 0) = 0x0109 \<and> f_scan_complete f'"
    using ft_DecodePacket_points [OF ft_ex_ok(1) [of 1 0] _ ft_ex_ok(2) c(1) [symmetric] refl,
        where f = frame_ex and h = host_ex] ft_tail_ex [of 1 0]
    by (auto simp: f ft_ex_loads ft_parser_ex_def Let_def)
  ultimately show ?thesis by blast
qed

end
