(* ===== verification/Fault_Message.thy ===== *)
theory Fault_Message
  imports Lidar_Time Byte_Order Udp_Parser
begin

text \<open>
  Fault messages: the structs of \<open>src/libhesai/UdpProtocol/fault_message.h\<close>, the messages of AT128 and
  ATX in \<open>src/libhesai/UdpProtocol/udp_protocol_v4_3.h\<close> and \<open>udp_protocol_v4_7.h\<close>, and their dispatch in
  \<open>src/libhesai/UdpParser/udp_parser.cc\<close>. The union of the information is a datatype with a constructor
  for each of its members: the parsers write all of theirs. The lemmas show that a message is
  read as it was built, in the byte order of its version, and the states of the lens area by area.
\<close>

section \<open>The structs\<close>

datatype LensDirtyState = kUndefineData | kLensNormal | kPassable | kUnPassable

record FaultMessageInfo4_3 =
  i3_fault_code_type :: u8
  i3_rolling_counter :: u8
  i3_tdm_data_indicate :: u8
  i3_time_division_multiplexing :: "u8 list"
  i3_software_id :: u16
  i3_software_version :: u16
  i3_hardware_version :: u16
  i3_bt_version :: u16
  i3_heating_state :: u8
  i3_high_temperture_shutdown_state :: u8
  i3_reversed :: "u8 list"

record FaultMessageInfo4_7 =
  i7_tdm_data_indicate :: u8
  i7_time_division_multiplexing :: "u8 list"
  i7_internal_fault_id :: u8
  i7_fault_indicate :: "u8 list"
  i7_customer_id :: u8
  i7_software_version :: u8
  i7_iteration_version :: u8
  i7_reversed :: "u8 list"

datatype FaultMessageUnionInfo =
    No_Fault
  | Fault4_3 FaultMessageInfo4_3
  | Fault4_7 FaultMessageInfo4_7

record FaultMessageInfo =
  fi_fault_prase_version :: u8
  fi_version :: u8
  fi_utc_time :: "u8 list"
  fi_timestamp :: u32
  fi_total_time :: fp
  fi_operate_state :: u8
  fi_fault_state :: u8
  fi_total_faultcode_num :: u8
  fi_faultcode_id :: u8
  fi_faultcode :: u32
  fi_union_info :: FaultMessageUnionInfo

section \<open>AT128\<close>

record FaultMessageVersion4_3 =
  f3_sob :: u16
  f3_version_info :: u8
  f3_utc_time :: "u8 list"
  f3_time_stamp :: u32
  f3_operate_state :: u8
  f3_fault_state :: u8
  f3_fault_code_type :: u8
  f3_rolling_counter :: u8
  f3_total_fault_code_num :: u8
  f3_fault_code_id :: u8
  f3_fault_code :: u32
  f3_time_division_multiplexing :: "u8 list"
  f3_software_version :: "u8 list"
  f3_heating_state :: u8
  f3_lidar_high_temp_state :: u8
  f3_reversed :: "u8 list"
  f3_crc :: u32
  f3_cycber_security :: "u8 list"

definition f3_at :: "u8 list \<Rightarrow> FaultMessageVersion4_3 option" where
  "f3_at buf = do {
     sob \<leftarrow> load 2 buf 0; v \<leftarrow> ld8 buf 2; utc \<leftarrow> bytes_at 6 buf 3; ts \<leftarrow> load 4 buf 9;
     op \<leftarrow> ld8 buf 13; fs \<leftarrow> ld8 buf 14; ct \<leftarrow> ld8 buf 15; rc \<leftarrow> ld8 buf 16; tn \<leftarrow> ld8 buf 17;
     ci \<leftarrow> ld8 buf 18; fc \<leftarrow> load 4 buf 19; tdm \<leftarrow> bytes_at 27 buf 23; sw \<leftarrow> bytes_at 8 buf 50;
     hs \<leftarrow> ld8 buf 58; ht \<leftarrow> ld8 buf 59; rv \<leftarrow> bytes_at 3 buf 60; crc \<leftarrow> load 4 buf 63;
     sec \<leftarrow> bytes_at 32 buf 67;
     Some \<lparr> f3_sob = sob, f3_version_info = v, f3_utc_time = utc, f3_time_stamp = ts,
       f3_operate_state = op, f3_fault_state = fs, f3_fault_code_type = ct, f3_rolling_counter = rc,
       f3_total_fault_code_num = tn, f3_fault_code_id = ci, f3_fault_code = fc,
       f3_time_division_multiplexing = tdm, f3_software_version = sw, f3_heating_state = hs,
       f3_lidar_high_temp_state = ht, f3_reversed = rv, f3_crc = crc, f3_cycber_security = sec \<rparr> }"

definition f3_GetTimestamp :: "FaultMessageVersion4_3 \<Rightarrow> u32" where
  "f3_GetTimestamp m = big_to_native True (f3_time_stamp m)"

definition f3_GetFaultCode :: "FaultMessageVersion4_3 \<Rightarrow> u32" where
  "f3_GetFaultCode m = big_to_native True (f3_fault_code m)"

definition f3_GetMicroLidarTimeU64 :: "int \<Rightarrow> FaultMessageVersion4_3 \<Rightarrow> u64" where
  "f3_GetMicroLidarTimeU64 tz m =
     (let u = f3_utc_time m in
      if u ! 0 \<noteq> 0 then
        (let y = uint (u ! 0); y = (if y \<ge> 200 then y - 100 else y)
         in time_from_utc tz y u (f3_GetTimestamp m))
      else time_from_seconds u (f3_GetTimestamp m))"

text \<open>The state of one area: two bits of the 16 for its azimuth, moved to the top and back down.\<close>

definition lens_state :: "u8 list \<Rightarrow> nat \<Rightarrow> nat \<Rightarrow> LensDirtyState option" where
  "lens_state tdm i j = do {
     rawdata \<leftarrow> ld16 tdm (3 + i * 2);
     indicate \<leftarrow> ld8 tdm 0;
     let temp = push_bit ((8 - j - 1) * 2) rawdata;
     let temp1 = drop_bit ((8 - 1) * 2) temp;
     Some (if indicate = 1 then
             (if temp1 = 0 then kLensNormal else if temp1 = 1 then kPassable
              else if temp1 = 3 then kUnPassable else kUndefineData)
           else kUndefineData) }"

definition ParserLensDirtyState :: "FaultMessageVersion4_3 \<Rightarrow> LensDirtyState list list option" where
  "ParserLensDirtyState m =
     those (map (\<lambda>i. those (map (lens_state (f3_time_division_multiplexing m) i) [0 ..< 8])) [0 ..< 12])"

definition ParserTemperature :: "FaultMessageVersion4_3 \<Rightarrow> fp option" where
  "ParserTemperature m = do {
     t \<leftarrow> ld16 (f3_time_division_multiplexing m) 1;
     Some (fp_mul f64 (f64_of_int (uint t)) (f32 (1 / 10))) }"

definition total_time_of :: "u64 \<Rightarrow> fp" where
  "total_time_of us = fp_div f64 (f64_of_int (uint us)) (Fin 1000000)"

definition f3_ParserFaultMessage :: "int \<Rightarrow> FaultMessageVersion4_3 \<Rightarrow> FaultMessageInfo \<Rightarrow>
    FaultMessageInfo option" where
  "f3_ParserFaultMessage tz m info = do {
     ind \<leftarrow> ld8 (f3_time_division_multiplexing m) 0;
     sid \<leftarrow> ld16 (f3_software_version m) 0;
     sv \<leftarrow> ld16 (f3_software_version m) 2;
     hv \<leftarrow> ld16 (f3_software_version m) 4;
     bv \<leftarrow> ld16 (f3_software_version m) 6;
     Some (info \<lparr> fi_fault_prase_version := 0x43, fi_version := f3_version_info m,
       fi_utc_time := f3_utc_time m, fi_timestamp := f3_GetTimestamp m,
       fi_total_time := total_time_of (f3_GetMicroLidarTimeU64 tz m),
       fi_operate_state := f3_operate_state m, fi_fault_state := f3_fault_state m,
       fi_total_faultcode_num := f3_total_fault_code_num m, fi_faultcode_id := f3_fault_code_id m,
       fi_faultcode := f3_GetFaultCode m,
       fi_union_info := Fault4_3 \<lparr> i3_fault_code_type = f3_fault_code_type m,
         i3_rolling_counter = f3_rolling_counter m, i3_tdm_data_indicate = ind,
         i3_time_division_multiplexing = f3_time_division_multiplexing m,
         i3_software_id = sid, i3_software_version = sv, i3_hardware_version = hv, i3_bt_version = bv,
         i3_heating_state = f3_heating_state m,
         i3_high_temperture_shutdown_state = f3_lidar_high_temp_state m, i3_reversed = f3_reversed m \<rparr> \<rparr>) }"

section \<open>ATX\<close>

record FaultMessageVersion4_7 =
  f7_version_info :: u8
  f7_utc_time :: "u8 list"
  f7_time_stamp :: u32
  f7_operate_state :: u8
  f7_fault_state :: u8
  f7_total_fault_code_num :: u8
  f7_fault_code_id :: u8
  f7_fault_code :: u32
  f7_time_division_multiplexing :: "u8 list"
  f7_fault_indicate :: "u8 list"
  f7_software_version :: "u8 list"
  f7_reversed :: "u8 list"
  f7_E2Eheader :: "u8 list"
  f7_cycber_security :: "u8 list"

definition f7_at :: "u8 list \<Rightarrow> FaultMessageVersion4_7 option" where
  "f7_at buf = do {
     v \<leftarrow> ld8 buf 0; utc \<leftarrow> bytes_at 6 buf 1; ts \<leftarrow> load 4 buf 7; op \<leftarrow> ld8 buf 11; fs \<leftarrow> ld8 buf 12;
     tn \<leftarrow> ld8 buf 13; ci \<leftarrow> ld8 buf 14; fc \<leftarrow> load 4 buf 15; tdm \<leftarrow> bytes_at 15 buf 19;
     ind \<leftarrow> bytes_at 9 buf 34; sw \<leftarrow> bytes_at 3 buf 43; rv \<leftarrow> bytes_at 17 buf 46;
     e2e \<leftarrow> bytes_at 12 buf 63; sec \<leftarrow> bytes_at 24 buf 75;
     Some \<lparr> f7_version_info = v, f7_utc_time = utc, f7_time_stamp = ts, f7_operate_state = op,
       f7_fault_state = fs, f7_total_fault_code_num = tn, f7_fault_code_id = ci, f7_fault_code = fc,
       f7_time_division_multiplexing = tdm, f7_fault_indicate = ind, f7_software_version = sw,
       f7_reversed = rv, f7_E2Eheader = e2e, f7_cycber_security = sec \<rparr> }"

definition f7_GetTimestamp :: "FaultMessageVersion4_7 \<Rightarrow> u32" where
  "f7_GetTimestamp m = little_to_native True (f7_time_stamp m)"

definition f7_GetMicroLidarTimeU64 :: "int \<Rightarrow> FaultMessageVersion4_7 \<Rightarrow> u64" where
  "f7_GetMicroLidarTimeU64 tz m =
     (let u = f7_utc_time m in
      if u ! 0 \<noteq> 0 then
        (let y = uint (u ! 0); y = (if y \<ge> 200 then y - 100 else y)
         in time_from_utc tz y u (f7_GetTimestamp m))
      else time_from_seconds u (f7_GetTimestamp m))"

definition f7_ParserFaultMessage :: "int \<Rightarrow> FaultMessageVersion4_7 \<Rightarrow> FaultMessageInfo \<Rightarrow>
    FaultMessageInfo option" where
  "f7_ParserFaultMessage tz m info = do {
     ind \<leftarrow> ld8 (f7_time_division_multiplexing m) 0;
     tdm \<leftarrow> bytes_at 14 (f7_time_division_multiplexing m) 1;
     iid \<leftarrow> ld8 (f7_fault_indicate m) 0;
     fin \<leftarrow> bytes_at 8 (f7_fault_indicate m) 1;
     cu \<leftarrow> ld8 (f7_software_version m) 0;
     sv \<leftarrow> ld8 (f7_software_version m) 1;
     it \<leftarrow> ld8 (f7_software_version m) 2;
     Some (info \<lparr> fi_fault_prase_version := 0x47, fi_version := f7_version_info m,
       fi_utc_time := f7_utc_time m, fi_timestamp := f7_GetTimestamp m,
       fi_total_time := total_time_of (f7_GetMicroLidarTimeU64 tz m),
       fi_operate_state := f7_operate_state m, fi_fault_state := f7_fault_state m,
       fi_total_faultcode_num := f7_total_fault_code_num m, fi_faultcode_id := f7_fault_code_id m,
       fi_faultcode := f7_fault_code m,
       fi_union_info := Fault4_7 \<lparr> i7_tdm_data_indicate = ind, i7_time_division_multiplexing = tdm,
         i7_internal_fault_id = iid, i7_fault_indicate = fin, i7_customer_id = cu,
         i7_software_version = sv, i7_iteration_version = it, i7_reversed = f7_reversed m \<rparr> \<rparr>) }"

section \<open>The dispatch\<close>

text \<open>The virtual method of the parsers, which the other classes inherit from \<open>GeneralParser\<close>, with no effect.\<close>

definition gp_ParserFaultMessage :: "int \<Rightarrow> parser_class \<Rightarrow> UdpPacket \<Rightarrow> FaultMessageInfo \<Rightarrow>
    FaultMessageInfo option" where
  "gp_ParserFaultMessage tz c pk info = (case c of
      V4_3 \<Rightarrow> do { m \<leftarrow> f3_at (up_buffer pk); f3_ParserFaultMessage tz m info }
    | V4_7 \<Rightarrow> do { m \<leftarrow> f7_at (up_buffer pk); f7_ParserFaultMessage tz m info }
    | _ \<Rightarrow> Some info)"

definition us_ParserFaultMessage :: "int \<Rightarrow> UdpPacket \<Rightarrow> FaultMessageInfo \<Rightarrow> udp_parser \<Rightarrow>
    (int \<times> FaultMessageInfo) option" where
  "us_ParserFaultMessage tz pk info s = (case us_parser s of
      None \<Rightarrow> Some (-1, info)
    | Some (c, p) \<Rightarrow> do { info \<leftarrow> gp_ParserFaultMessage tz c pk info; Some (0, info) })"

section \<open>Messages on the wire\<close>

text \<open>
  The message of AT128 for the given information: time stamp and fault code in network order, the
  identifiers of the software in little-endian order; \<open>sob\<close> and \<open>tail\<close> are the fields that are not read.
\<close>

definition f3_wire :: "u16 \<Rightarrow> u8 list \<Rightarrow> FaultMessageInfo \<Rightarrow> FaultMessageInfo4_3 \<Rightarrow> u8 list" where
  "f3_wire sob tail info u =
     le_bytes 2 (unat sob) @ [fi_version info] @ fi_utc_time info @ be_bytes 4 (unat (fi_timestamp info)) @
     [fi_operate_state info, fi_fault_state info, i3_fault_code_type u, i3_rolling_counter u,
      fi_total_faultcode_num info, fi_faultcode_id info] @ be_bytes 4 (unat (fi_faultcode info)) @
     i3_time_division_multiplexing u @ le_bytes 2 (unat (i3_software_id u)) @
     le_bytes 2 (unat (i3_software_version u)) @ le_bytes 2 (unat (i3_hardware_version u)) @
     le_bytes 2 (unat (i3_bt_version u)) @ [i3_heating_state u, i3_high_temperture_shutdown_state u] @
     i3_reversed u @ tail"

text \<open>The message of ATX: all numbers in little-endian order, and the first byte of two arrays apart.\<close>

definition f7_wire :: "u8 list \<Rightarrow> FaultMessageInfo \<Rightarrow> FaultMessageInfo4_7 \<Rightarrow> u8 list" where
  "f7_wire tail info u =
     [fi_version info] @ fi_utc_time info @ le_bytes 4 (unat (fi_timestamp info)) @
     [fi_operate_state info, fi_fault_state info, fi_total_faultcode_num info, fi_faultcode_id info] @
     le_bytes 4 (unat (fi_faultcode info)) @
     i7_tdm_data_indicate u # i7_time_division_multiplexing u @
     i7_internal_fault_id u # i7_fault_indicate u @
     [i7_customer_id u, i7_software_version u, i7_iteration_version u] @ i7_reversed u @ tail"

text \<open>Information that a message can carry.\<close>

definition fault_info_wf :: "int \<Rightarrow> u8 \<Rightarrow> FaultMessageInfo \<Rightarrow> bool" where
  "fault_info_wf tz version info \<longleftrightarrow> fi_fault_prase_version info = version \<and> length (fi_utc_time info) = 6 \<and>
     fi_total_time info = total_time_of (lidar_time_4_3 tz (fi_utc_time info) (fi_timestamp info))"

definition i3_wf :: "FaultMessageInfo4_3 \<Rightarrow> bool" where
  "i3_wf u \<longleftrightarrow> length (i3_time_division_multiplexing u) = 27 \<and> length (i3_reversed u) = 3 \<and>
     i3_tdm_data_indicate u = i3_time_division_multiplexing u ! 0"

definition i7_wf :: "FaultMessageInfo4_7 \<Rightarrow> bool" where
  "i7_wf u \<longleftrightarrow> length (i7_time_division_multiplexing u) = 14 \<and> length (i7_fault_indicate u) = 8 \<and>
     length (i7_reversed u) = 17"

lemma fault_time: "f3_GetMicroLidarTimeU64 tz m = lidar_time_4_3 tz (f3_utc_time m) (f3_GetTimestamp m)"
    "f7_GetMicroLidarTimeU64 tz n = lidar_time_4_3 tz (f7_utc_time n) (f7_GetTimestamp n)"
  by (simp_all add: f3_GetMicroLidarTimeU64_def f7_GetMicroLidarTimeU64_def lidar_time_4_3_def Let_def)

text \<open>The chunks of a message, one after the other.\<close>

lemma drop_chunk:
  assumes "drop off buf = chunk @ rest" and "length chunk = n"
  shows "drop (off + n) buf = rest"
  using assms by (metis add.commute append_eq_conv_conj drop_drop)

lemma load_chunk:
  assumes "drop off buf = le_bytes n (unat (v :: 'a::len word)) @ rest" and "LENGTH('a) = 8 * n"
  shows "load n buf off = Some v"
proof -
  have "length (drop off buf) = n + length rest" using assms(1) by simp
  moreover have "0 < n" using assms(2) by (cases n) auto
  ultimately have "off + n \<le> length buf" by simp
  moreover have "unat v < 256 ^ n" using unsigned_less [of v, where 'a = nat] assms(2) by (simp add: power_mult)
  ultimately show ?thesis using assms(1) by (simp add: load_def)
qed

lemma load_be_chunk:
  assumes "drop off buf = be_bytes 4 (unat (v :: u32)) @ rest"
  shows "\<exists>w. load 4 buf off = Some w \<and> big_to_native True w = v"
proof -
  have v: "unat v < 256 ^ 4" using unsigned_less [of v, where 'a = nat] by simp
  have "length (drop off buf) = 4 + length rest" using assms by simp
  then have "off + 4 \<le> length buf" by simp
  then have "load 4 buf off = Some (word_of_nat (le_val (be_bytes 4 (unat v))) :: u32)"
    using assms by (simp add: load_def)
  moreover have "big_to_native True (word_of_nat (le_val (be_bytes 4 (unat v))) :: u32) = v"
    using reverseBytes_le_val [of "be_bytes 4 (unat v)", where 'a = 32] v
    by (simp add: big_to_native_def) (metis length_be_bytes list.size(3) zero_neq_numeral)
  ultimately show ?thesis by blast
qed

lemma ld8_chunk: "drop off buf = b # rest \<Longrightarrow> ld8 buf off = Some b"
  by (metis drop_eq_Nil2 hd_drop_conv_nth ld8_in linorder_not_le list.distinct(1) list.sel(1))

lemma bytes_chunk:
  assumes "drop off buf = chunk @ rest" and "length chunk = n" and "0 < n"
  shows "bytes_at n buf off = Some chunk"
proof -
  have "length (drop off buf) = n + length rest" using assms(1,2) by simp
  then have "off + n \<le> length buf" using assms(3) by simp
  then show ?thesis using assms by (simp add: bytes_at_def)
qed

lemma f3_wire_read:
  assumes "fault_info_wf tz 0x43 info" and "i3_wf u" and "fi_union_info info = Fault4_3 u"
    and "length tail = 36"
  shows "\<exists>m. f3_at (f3_wire sob tail info u @ rest) = Some m \<and>
    f3_ParserFaultMessage tz m old = Some info"
proof -
  let ?buf = "f3_wire sob tail info u @ rest"
  have w: "length (fi_utc_time info) = 6" "length (i3_time_division_multiplexing u) = 27" "length (i3_reversed u) = 3"
    using assms(1,2) by (simp_all add: fault_info_wf_def i3_wf_def)
  note f = f3_wire_def w
  have s: "ld16 ?buf 0 = Some sob" by (rule load_chunk) (simp_all add: f)
  have b: "ld8 ?buf 2 = Some (fi_version info)" "ld8 ?buf 13 = Some (fi_operate_state info)"
      "ld8 ?buf 14 = Some (fi_fault_state info)" "ld8 ?buf 15 = Some (i3_fault_code_type u)"
      "ld8 ?buf 16 = Some (i3_rolling_counter u)" "ld8 ?buf 17 = Some (fi_total_faultcode_num info)"
      "ld8 ?buf 18 = Some (fi_faultcode_id info)" "ld8 ?buf 58 = Some (i3_heating_state u)"
      "ld8 ?buf 59 = Some (i3_high_temperture_shutdown_state u)"
    by (rule ld8_chunk, simp add: f)+
  have a: "bytes_at 6 ?buf 3 = Some (fi_utc_time info)"
      "bytes_at 27 ?buf 23 = Some (i3_time_division_multiplexing u)" "bytes_at 3 ?buf 60 = Some (i3_reversed u)"
    by (rule bytes_chunk; simp add: f)+
  let ?sw = "le_bytes 2 (unat (i3_software_id u)) @ le_bytes 2 (unat (i3_software_version u)) @
      le_bytes 2 (unat (i3_hardware_version u)) @ le_bytes 2 (unat (i3_bt_version u))"
  have sw: "bytes_at 8 ?buf 50 = Some ?sw" by (rule bytes_chunk; simp add: f)
  have id: "ld16 ?sw 0 = Some (i3_software_id u)" "ld16 ?sw 2 = Some (i3_software_version u)"
      "ld16 ?sw 4 = Some (i3_hardware_version u)"
    by (rule load_chunk; simp)+
  have bt: "ld16 ?sw 6 = Some (i3_bt_version u)" by (rule load_chunk [where rest = "[]"]; simp)
  obtain ts where ts: "load 4 ?buf 9 = Some ts" "big_to_native True ts = fi_timestamp info"
    using load_be_chunk [of 9 ?buf "fi_timestamp info"] by (force simp: f)
  obtain fc where fc: "load 4 ?buf 19 = Some fc" "big_to_native True fc = fi_faultcode info"
    using load_be_chunk [of 19 ?buf "fi_faultcode info"] by (force simp: f)
  have "63 + 4 \<le> length ?buf" "67 + 32 \<le> length ?buf" using w assms(4) by (simp_all add: f3_wire_def)
  then obtain crc :: u32 and sec where unread: "load 4 ?buf 63 = Some crc" "bytes_at 32 ?buf 67 = Some sec"
    by (meson load_in bytes_at_in)
  let ?m = "\<lparr> f3_sob = sob, f3_version_info = fi_version info, f3_utc_time = fi_utc_time info,
      f3_time_stamp = ts, f3_operate_state = fi_operate_state info, f3_fault_state = fi_fault_state info,
      f3_fault_code_type = i3_fault_code_type u, f3_rolling_counter = i3_rolling_counter u,
      f3_total_fault_code_num = fi_total_faultcode_num info, f3_fault_code_id = fi_faultcode_id info,
      f3_fault_code = fc, f3_time_division_multiplexing = i3_time_division_multiplexing u,
      f3_software_version = ?sw, f3_heating_state = i3_heating_state u,
      f3_lidar_high_temp_state = i3_high_temperture_shutdown_state u, f3_reversed = i3_reversed u,
      f3_crc = crc, f3_cycber_security = sec \<rparr>"
  have m: "f3_at ?buf = Some ?m"
    unfolding f3_at_def s b a sw ts(1) fc(1) unread by simp
  have "ld8 (i3_time_division_multiplexing u) 0 = Some (i3_tdm_data_indicate u)"
    using assms(2) by (simp add: i3_wf_def ld8_def)
  then have "f3_ParserFaultMessage tz ?m old = Some info"
    using assms(1,3) ts(2) fc(2) id bt
    by (cases info; cases u) (simp add: f3_ParserFaultMessage_def fault_time f3_GetTimestamp_def f3_GetFaultCode_def fault_info_wf_def)
  then show ?thesis using m by blast
qed

lemma f7_wire_read:
  assumes "fault_info_wf tz 0x47 info" and "i7_wf u" and "fi_union_info info = Fault4_7 u"
    and "length tail = 36"
  shows "\<exists>m. f7_at (f7_wire tail info u @ rest) = Some m \<and> f7_ParserFaultMessage tz m old = Some info"
proof -
  let ?buf = "f7_wire tail info u @ rest"
  have w: "length (fi_utc_time info) = 6" "length (i7_time_division_multiplexing u) = 14"
      "length (i7_fault_indicate u) = 8" "length (i7_reversed u) = 17"
    using assms(1,2) by (simp_all add: fault_info_wf_def i7_wf_def)
  note f = f7_wire_def w
  have b: "ld8 ?buf 0 = Some (fi_version info)" "ld8 ?buf 11 = Some (fi_operate_state info)"
      "ld8 ?buf 12 = Some (fi_fault_state info)" "ld8 ?buf 13 = Some (fi_total_faultcode_num info)"
      "ld8 ?buf 14 = Some (fi_faultcode_id info)"
    by (rule ld8_chunk, simp add: f)+
  have n: "load 4 ?buf 7 = Some (fi_timestamp info)" "load 4 ?buf 15 = Some (fi_faultcode info)"
    by (rule load_chunk; simp add: f)+
  let ?tdm = "i7_tdm_data_indicate u # i7_time_division_multiplexing u"
    and ?ind = "i7_internal_fault_id u # i7_fault_indicate u"
    and ?sw = "[i7_customer_id u, i7_software_version u, i7_iteration_version u]"
  have a: "bytes_at 6 ?buf 1 = Some (fi_utc_time info)" "bytes_at 15 ?buf 19 = Some ?tdm"
      "bytes_at 9 ?buf 34 = Some ?ind" "bytes_at 3 ?buf 43 = Some ?sw" "bytes_at 17 ?buf 46 = Some (i7_reversed u)"
    by (rule bytes_chunk; simp add: f)+
  have "63 + 12 \<le> length ?buf" "75 + 24 \<le> length ?buf" using w assms(4) by (simp_all add: f7_wire_def)
  then obtain e2e sec where unread: "bytes_at 12 ?buf 63 = Some e2e" "bytes_at 24 ?buf 75 = Some sec"
    by (meson bytes_at_in)
  let ?m = "\<lparr> f7_version_info = fi_version info, f7_utc_time = fi_utc_time info,
      f7_time_stamp = fi_timestamp info, f7_operate_state = fi_operate_state info,
      f7_fault_state = fi_fault_state info, f7_total_fault_code_num = fi_total_faultcode_num info,
      f7_fault_code_id = fi_faultcode_id info, f7_fault_code = fi_faultcode info,
      f7_time_division_multiplexing = ?tdm, f7_fault_indicate = ?ind, f7_software_version = ?sw,
      f7_reversed = i7_reversed u, f7_E2Eheader = e2e, f7_cycber_security = sec \<rparr>"
  have m: "f7_at ?buf = Some ?m" unfolding f7_at_def b n a unread by simp
  have "f7_ParserFaultMessage tz ?m old = Some info"
    using assms(1,3) w
    by (cases info; cases u) (simp add: f7_ParserFaultMessage_def fault_time f7_GetTimestamp_def
        little_to_native_def fault_info_wf_def ld8_def bytes_at_def)
  then show ?thesis using m by blast
qed

text \<open>
  C26. Fault messages are read as they were built: with a parser of AT128 or ATX, the message of a lidar for
  any information that its version can carry yields exactly this information, whatever the information was
  before and whatever follows the message in the buffer. With any other parser the call succeeds as well,
  and the information keeps what it was.
\<close>

theorem fault_message_roundtrip:
  assumes "us_parser s = Some (c, p)" and "length tail = 36"
  shows "(c = V4_3 \<and> fault_info_wf tz 0x43 info \<and> i3_wf u3 \<and> fi_union_info info = Fault4_3 u3 \<and>
       up_buffer pk = f3_wire sob tail info u3 @ rest \<longrightarrow> us_ParserFaultMessage tz pk old s = Some (0, info)) \<and>
    (c = V4_7 \<and> fault_info_wf tz 0x47 info \<and> i7_wf u7 \<and> fi_union_info info = Fault4_7 u7 \<and>
       up_buffer pk = f7_wire tail info u7 @ rest \<longrightarrow> us_ParserFaultMessage tz pk old s = Some (0, info)) \<and>
    (c \<notin> {V4_3, V4_7} \<longrightarrow> us_ParserFaultMessage tz pk old s = Some (0, old))"
proof (intro conjI impI; (elim conjE)?)
  assume a: "c = V4_3" "fault_info_wf tz 0x43 info" "i3_wf u3" "fi_union_info info = Fault4_3 u3"
    "up_buffer pk = f3_wire sob tail info u3 @ rest"
  from f3_wire_read [OF a(2-4) assms(2), of sob rest old]
  show "us_ParserFaultMessage tz pk old s = Some (0, info)"
    using a(1,5) assms(1) by (auto simp: us_ParserFaultMessage_def gp_ParserFaultMessage_def)
next
  assume a: "c = V4_7" "fault_info_wf tz 0x47 info" "i7_wf u7" "fi_union_info info = Fault4_7 u7"
    "up_buffer pk = f7_wire tail info u7 @ rest"
  from f7_wire_read [OF a(2-4) assms(2), of rest old]
  show "us_ParserFaultMessage tz pk old s = Some (0, info)"
    using a(1,5) assms(1) by (auto simp: us_ParserFaultMessage_def gp_ParserFaultMessage_def)
next
  assume "c \<notin> {V4_3, V4_7}"
  then show "us_ParserFaultMessage tz pk old s = Some (0, old)"
    using assms(1) by (cases c) (simp_all add: us_ParserFaultMessage_def gp_ParserFaultMessage_def)
qed

definition fault_ex :: FaultMessageInfo where
  "fault_ex = \<lparr> fi_fault_prase_version = 0x47, fi_version = 1, fi_utc_time = [0, 0, 0, 0, 1, 0],
     fi_timestamp = 5, fi_total_time = total_time_of 256000005, fi_operate_state = 2, fi_fault_state = 3,
     fi_total_faultcode_num = 1, fi_faultcode_id = 1, fi_faultcode = 0x1234,
     fi_union_info = Fault4_7 \<lparr> i7_tdm_data_indicate = 1, i7_time_division_multiplexing = replicate 14 7,
       i7_internal_fault_id = 9, i7_fault_indicate = replicate 8 6, i7_customer_id = 1,
       i7_software_version = 2, i7_iteration_version = 3, i7_reversed = replicate 17 0 \<rparr> \<rparr>"

lemma fault_message_roundtrip_witness:
  "\<exists>buf. length buf = 99 \<and> us_ParserFaultMessage 0
       (packet_ex [0, 0] \<lparr> up_buffer := buf \<rparr>) fault_ex
       (UdpParser_new \<lparr> us_parser := Some (V4_7, parser_at 0 0 0) \<rparr>) = Some (0, fault_ex)"
proof -
  let ?s = "UdpParser_new \<lparr> us_parser := Some (V4_7, parser_at 0 0 0) \<rparr>"
  obtain u where u: "fi_union_info fault_ex = Fault4_7 u" "i7_wf u"
    by (simp add: fault_ex_def i7_wf_def)
  let ?buf = "f7_wire (replicate 36 0) fault_ex u"
  have wf: "fault_info_wf 0 0x47 fault_ex"
    by (simp add: fault_info_wf_def fault_ex_def lidar_time_4_3_def time_from_seconds_def be_val_def)
  have "us_parser ?s = Some (V4_7, parser_at 0 0 0)" "length (replicate 36 (0 :: u8)) = 36" by simp_all
  from fault_message_roundtrip [OF this, of 0 fault_ex _ "packet_ex [0, 0] \<lparr> up_buffer := ?buf \<rparr>" _ "[]" fault_ex u] u wf
  have "us_ParserFaultMessage 0 (packet_ex [0, 0] \<lparr> up_buffer := ?buf \<rparr>) fault_ex ?s = Some (0, fault_ex)" by simp
  moreover have "length ?buf = 99" using u(2) by (simp add: f7_wire_def fault_ex_def i7_wf_def)
  ultimately show ?thesis by blast
qed

section \<open>The lens\<close>

text \<open>The states of the lens as they are sent: two bits for each elevation, a word for each azimuth.\<close>

fun lens_code :: "LensDirtyState \<Rightarrow> nat" where
  "lens_code kLensNormal = 0"
| "lens_code kPassable = 1"
| "lens_code kUndefineData = 2"
| "lens_code kUnPassable = 3"

fun lens_word :: "LensDirtyState list \<Rightarrow> nat" where
  "lens_word [] = 0"
| "lens_word (s # ss) = lens_code s + 4 * lens_word ss"

definition lens_tdm :: "u8 list \<Rightarrow> LensDirtyState list list \<Rightarrow> u8 list" where
  "lens_tdm temp rows = 1 # temp @ concat (map (\<lambda>r. le_bytes 2 (lens_word r)) rows)"

lemma lens_code_less: "lens_code s < 4"
  by (cases s) simp_all

lemma lens_word_less: "lens_word ss < 4 ^ length ss"
proof (induction ss)
  case (Cons s ss)
  then show ?case using lens_code_less [of s] by simp
qed simp

lemma lens_word_nth: "j < length ss \<Longrightarrow> lens_word ss div 4 ^ j mod 4 = lens_code (ss ! j)"
proof (induction ss arbitrary: j)
  case (Cons s ss)
  show ?case
  proof (cases j)
    case 0
    then show ?thesis using lens_code_less [of s] by simp
  next
    case (Suc i)
    have "lens_word (s # ss) div 4 ^ j = (lens_code s + 4 * lens_word ss) div 4 div 4 ^ i"
      by (simp add: Suc div_mult2_eq)
    also have "(lens_code s + 4 * lens_word ss) div 4 = lens_word ss" using lens_code_less [of s] by simp
    finally show ?thesis using Cons Suc by simp
  qed
qed simp

text \<open>The bits that the two shifts leave.\<close>

lemma shifted_bits:
  assumes "j < 8"
  shows "unat (drop_bit ((8 - 1) * 2) (push_bit ((8 - j - 1) * 2) (w :: u16))) = unat w div 4 ^ j mod 4"
proof -
  let ?n = "(8 - j - 1) * 2"
  have n: "2 ^ 16 = (2 :: nat) ^ ?n * 2 ^ (2 * j + 2)" "2 ^ 14 = (2 :: nat) ^ ?n * 2 ^ (2 * j)"
      "(2 :: nat) ^ (2 * j + 2) = 4 ^ j * 4" "(2 :: nat) ^ (2 * j) = 4 ^ j"
  proof -
    have "j = 0 \<or> j = 1 \<or> j = 2 \<or> j = 3 \<or> j = 4 \<or> j = 5 \<or> j = 6 \<or> j = 7" using assms by linarith
    then show "2 ^ 16 = (2 :: nat) ^ ?n * 2 ^ (2 * j + 2)" "2 ^ 14 = (2 :: nat) ^ ?n * 2 ^ (2 * j)"
      by (elim disjE; simp)+
    show "(2 :: nat) ^ (2 * j + 2) = 4 ^ j * 4" "(2 :: nat) ^ (2 * j) = 4 ^ j"
      by (simp_all add: power_mult power_add)
  qed
  have "unat (drop_bit ((8 - 1) * 2) (push_bit ?n w)) = unat w * 2 ^ ?n mod 2 ^ 16 div 2 ^ 14"
  proof -
    have "unat (drop_bit 14 x) = unat x div 2 ^ 14" for x :: u16
      by (simp only: unat_drop_bit_eq drop_bit_eq_div [where 'a = nat])
    moreover have "unat (push_bit ?n w) = unat w * 2 ^ ?n mod 2 ^ 16"
      by (simp add: unsigned_push_bit_eq [where 'a = nat] push_bit_eq_mult [where 'a = nat] take_bit_eq_mod [where 'a = nat])
    ultimately show ?thesis by simp
  qed
  also have "... = unat w mod (4 ^ j * 4) div 4 ^ j"
    unfolding n(1,2) by (simp only: n(3,4) mult.commute [of "unat w"] mod_mult_mult1 div_mult_mult1 power_not_zero) simp
  also have "... = unat w div 4 ^ j mod 4" by (simp add: mod_mult2_eq)
  finally show ?thesis .
qed

lemma lens_state_row:
  assumes "length temp = 2" and "\<forall>r\<in>set rows. length r = 8" and "i < length rows" and "j < 8"
  shows "lens_state (lens_tdm temp rows) i j = Some (rows ! i ! j)"
proof -
  let ?w = "word_of_nat (lens_word (rows ! i)) :: u16"
  have l: "length (rows ! i) = 8" using assms(2,3) nth_mem by blast
  then have u: "unat ?w = lens_word (rows ! i)"
    using lens_word_less [of "rows ! i"] by (simp add: unat_of_nat)
  have "drop (2 * i) (concat (map (\<lambda>r. le_bytes 2 (lens_word r)) rows)) =
      le_bytes 2 (lens_word (rows ! i)) @ concat (map (\<lambda>r. le_bytes 2 (lens_word r)) (drop (Suc i) rows))"
    using assms(3)
  proof (induction rows arbitrary: i)
    case (Cons r rows)
    then show ?case by (cases i) simp_all
  qed simp
  then have "drop (3 + i * 2) (lens_tdm temp rows) =
      le_bytes 2 (unat ?w) @ concat (map (\<lambda>r. le_bytes 2 (lens_word r)) (drop (Suc i) rows))"
    using assms(1) u by (simp add: lens_tdm_def mult.commute numeral_3_eq_3)
  then have "ld16 (lens_tdm temp rows) (3 + i * 2) = Some ?w" by (rule load_chunk) simp
  moreover have "ld8 (lens_tdm temp rows) 0 = Some 1" by (simp add: lens_tdm_def ld8_def)
  moreover have "drop_bit ((8 - 1) * 2) (push_bit ((8 - j - 1) * 2) ?w) = word_of_nat (lens_code (rows ! i ! j))"
    (is "?d = _")
  proof -
    have "unat ?d = lens_code (rows ! i ! j)"
      using shifted_bits [OF assms(4), of ?w] lens_word_nth [of j "rows ! i"] l u assms(4) by simp
    moreover have "?d = word_of_nat (unat ?d)" by simp
    ultimately show ?thesis by simp
  qed
  ultimately show ?thesis
    by (cases "rows ! i ! j") (simp_all add: lens_state_def)
qed

lemma those_map_Some: "(\<And>x. x \<in> set xs \<Longrightarrow> f x = Some (g x)) \<Longrightarrow> those (map f xs) = Some (map g xs)"
  by (induction xs) simp_all

text \<open>
  The lens of AT128: whatever the temperature, the states of the 12 by 8 areas that a message carries are
  read back area by area, by shifts in 16 bits.
\<close>

theorem lens_roundtrip:
  assumes "f3_time_division_multiplexing m = lens_tdm temp rows" and "length temp = 2"
    and "length rows = 12" and "\<forall>r\<in>set rows. length r = 8"
  shows "ParserLensDirtyState m = Some rows"
proof -
  have row: "those (map (lens_state (lens_tdm temp rows) i) [0 ..< 8]) = Some (rows ! i)" if "i < 12" for i
  proof -
    have "length (rows ! i) = 8" using assms(3,4) that nth_mem by simp
    then have "map (\<lambda>j. rows ! i ! j) [0 ..< 8] = rows ! i" by (metis map_nth)
    moreover have "those (map (lens_state (lens_tdm temp rows) i) [0 ..< 8]) = Some (map (\<lambda>j. rows ! i ! j) [0 ..< 8])"
      using lens_state_row [OF assms(2,4)] that assms(3) by (intro those_map_Some) simp
    ultimately show ?thesis by simp
  qed
  have "map (\<lambda>i. rows ! i) [0 ..< 12] = rows" using assms(3) by (metis map_nth)
  moreover have "those (map (\<lambda>i. those (map (lens_state (lens_tdm temp rows) i) [0 ..< 8])) [0 ..< 12]) =
      Some (map (\<lambda>i. rows ! i) [0 ..< 12])"
    using row by (intro those_map_Some) simp
  ultimately show ?thesis unfolding ParserLensDirtyState_def assms(1) by simp
qed

lemma lens_roundtrip_witness:
  "\<exists>m. ParserLensDirtyState m = Some (replicate 12
     [kLensNormal, kPassable, kUnPassable, kUndefineData, kUnPassable, kPassable, kLensNormal, kUnPassable])"
proof -
  let ?r = "[kLensNormal, kPassable, kUnPassable, kUndefineData, kUnPassable, kPassable, kLensNormal, kUnPassable]"
  obtain m :: FaultMessageVersion4_3 where "f3_time_division_multiplexing m = lens_tdm [0, 0] (replicate 12 ?r)"
    by (metis FaultMessageVersion4_3.select_convs(12))
  from lens_roundtrip [OF this] show ?thesis by auto
qed

end
