(* ===== verification/Angle_Text.thy ===== *)
theory Angle_Text
  imports Text_Input General_Parser
begin

text \<open>
  The textual correction and firing-time files of the base class: \<open>LoadCorrectionFile\<close>,
  \<open>LoadCorrectionString\<close> and \<open>LoadFiretimesFile\<close> of \<open>src/libhesai/UdpParser/src/general_parser.cc\<close>, with the
  round trip from the angles to a text and back. A file is the list of its bytes, or \<open>None\<close> when it
  cannot be opened. A local variable that has not been written is \<open>None\<close>, and so is the result of a
  loader that reads it.
\<close>

section \<open>Files\<close>

text \<open>
  \<open>LoadCorrectionFile\<close>: the bytes of the file are read into a buffer of their number, which is passed to the
  loader of the class; its result is only logged.
\<close>

definition LoadCorrectionFile :: "(u8 list \<Rightarrow> 's \<Rightarrow> (int \<times> 's) option) \<Rightarrow> u8 list option \<Rightarrow> 's \<Rightarrow> 's option" where
  "LoadCorrectionFile loader content s =
     (case content of None \<Rightarrow> Some s | Some buffer \<Rightarrow> map_option snd (loader buffer s))"

section \<open>Elevation and azimuth of each laser\<close>

type_synonym angle_lists = "nat \<times> (nat \<rightharpoonup> fp) \<times> (nat \<rightharpoonup> fp)"

text \<open>A line behind the header, with \<open>lineCount\<close>, \<open>elevation_list\<close> and \<open>azimuth_list\<close>.\<close>

definition angle_line :: "string \<Rightarrow> angle_lists \<Rightarrow> angle_lists option" where
  "angle_line line = (\<lambda>(lineCount, elevation_list, azimuth_list).
     if length (split_string line CHR '','') < 3 then Some (lineCount, elevation_list, azimuth_list)
     else
       let lineCount = lineCount + 1;
           (subline, ss) = getline CHR '','' (istringstream line) [];
           laserId = extract_int subline 0;
           (subline, ss) = getline CHR '','' ss subline;
           elevation = extract_float subline None;
           (subline, ss) = getline CHR '','' ss subline;
           azimuth = extract_float subline None
       in if laserId > MAX_LASER_NUM \<or> laserId \<le> 0 \<or> laserId \<noteq> int lineCount
          then Some (lineCount, elevation_list, azimuth_list)
          else do {
            e \<leftarrow> elevation;
            a \<leftarrow> azimuth;
            Some (lineCount, elevation_list(nat laserId - 1 \<mapsto> e), azimuth_list(nat laserId - 1 \<mapsto> a)) })"

fun angle_loop :: "string list \<Rightarrow> angle_lists \<Rightarrow> angle_lists option" where
  "angle_loop [] st = Some st"
| "angle_loop (line # lines) st = do { st \<leftarrow> angle_line line st; angle_loop lines st }"

text \<open>The whole text, to the lists that the loaders copy: their first \<open>lineCount\<close> entries.\<close>

definition read_angles :: "string \<Rightarrow> (fp list \<times> fp list) option" where
  "read_angles text = do {
     let (line, ifs) = getline newline (istringstream text) [];
     first \<leftarrow> nth_opt (split_string line CHR '','') 0;
     let (line, ifs) = (if first = ''EEFF'' \<or> first = ''eeff'' then getline newline ifs line else (line, ifs));
     (lineCount, elevation_list, azimuth_list) \<leftarrow> angle_loop (read_lines newline ifs line) (0, Map.empty, Map.empty);
     es \<leftarrow> those (map elevation_list [0..<lineCount]);
     as \<leftarrow> those (map azimuth_list [0..<lineCount]);
     Some (es, as) }"

definition LoadCorrectionString :: "u8 list \<Rightarrow> parser \<Rightarrow> (int \<times> parser) option" where
  "LoadCorrectionString data s = do {
     text \<leftarrow> c_string data;
     (es, as) \<leftarrow> read_angles text;
     Some (0, s \<lparr> elevation_correction := es, azimuth_collection := as, get_correction_file := True \<rparr>) }"

definition gp_LoadCorrectionFile :: "u8 list option \<Rightarrow> parser \<Rightarrow> parser option" where
  "gp_LoadCorrectionFile = LoadCorrectionFile LoadCorrectionString"

section \<open>Firing times\<close>

definition firetime_line :: "string \<Rightarrow> parser \<Rightarrow> parser option" where
  "firetime_line line s =
     (if length (split_string line CHR '','') < 2 then Some s
      else
        let (subline, ss) = getline CHR '','' (istringstream line) [];
            laserId = extract_int subline 0;
            (subline, ss) = getline CHR '','' ss subline;
            deltTime = extract_float subline None
        in if laserId > MAX_LASER_NUM \<or> laserId \<le> 0 then Some s
           else do {
             t \<leftarrow> deltTime;
             Some (s \<lparr> firetime_correction := (firetime_correction s)(nat laserId - 1 := t) \<rparr>) })"

fun firetime_loop :: "string list \<Rightarrow> parser \<Rightarrow> parser option" where
  "firetime_loop [] s = Some s"
| "firetime_loop (line # lines) s = do { s \<leftarrow> firetime_line line s; firetime_loop lines s }"

definition LoadFiretimesFile :: "u8 list option \<Rightarrow> parser \<Rightarrow> parser option" where
  "LoadFiretimesFile content s =
     (case content of None \<Rightarrow> Some (s \<lparr> get_firetime_file := False \<rparr>)
      | Some bytes \<Rightarrow> do {
          let (line, inFile) = getline newline (istringstream (chars_of bytes)) [];
          s \<leftarrow> firetime_loop (read_lines newline inFile line) s;
          Some (s \<lparr> get_firetime_file := True \<rparr>) })"

section \<open>What a text means\<close>

lemma read_lines_Cons:
  "read_lines d st s = t # ts \<longleftrightarrow> (\<exists>st'. getline d st s = (t, st') \<and> \<not> is_fail st' \<and> read_lines d st' t = ts)"
  by (subst read_lines.simps) (auto split: prod.splits)

text \<open>The lines that are counted, and those that are written for the \<open>k\<close>-th laser.\<close>

definition angle_cells :: "string \<Rightarrow> string list" where
  "angle_cells line = split_string line CHR '','' "

definition angle_rows :: "string list \<Rightarrow> string list" where
  "angle_rows = filter (\<lambda>line. 3 \<le> length (angle_cells line))"

definition angle_row_ok :: "nat \<Rightarrow> string \<Rightarrow> bool" where
  "angle_row_ok k line \<longleftrightarrow> k < 512 \<and> extract_int (angle_cells line ! 0) 0 = int k + 1 \<and>
     extract_float (angle_cells line ! 1) None \<noteq> None \<and> extract_float (angle_cells line ! 2) None \<noteq> None"

definition cell_angle :: "nat \<Rightarrow> string \<Rightarrow> fp" where
  "cell_angle i line = the (extract_float (angle_cells line ! i) None)"

lemma angle_line_skipped: "\<not> 3 \<le> length (angle_cells line) \<Longrightarrow> angle_line line st = Some st"
  by (cases st) (simp add: angle_line_def angle_cells_def)

lemma angle_line_row:
  assumes "3 \<le> length (angle_cells line)"
  shows "angle_line line (n, el, az) =
     (if n < 512 \<and> extract_int (angle_cells line ! 0) 0 = int n + 1 then do {
        e \<leftarrow> extract_float (angle_cells line ! 1) None;
        a \<leftarrow> extract_float (angle_cells line ! 2) None;
        Some (Suc n, el(n \<mapsto> e), az(n \<mapsto> a)) }
      else Some (Suc n, el, az))"
proof -
  obtain a b c r where cells: "split_string line CHR '','' = a # b # c # r"
    using assms by (auto simp: angle_cells_def numeral_3_eq_3 Suc_le_length_iff)
  then obtain st1 st2 st3 where "getline CHR '','' (istringstream line) [] = (a, st1)"
    "getline CHR '','' st1 a = (b, st2)" "getline CHR '','' st2 b = (c, st3)"
    unfolding split_string_def read_lines_Cons by blast
  moreover have "nat (int n + 1) - Suc 0 = n" by simp
  ultimately show ?thesis
    by (auto simp: angle_line_def angle_cells_def cells MAX_LASER_NUM_def Let_def add.commute)
qed

lemma angle_line_count:
  assumes "3 \<le> length (angle_cells line)" and "angle_line line (n, el, az) = Some st"
  obtains el' az' where "st = (Suc n, el', az')" "\<And>j. j \<noteq> n \<Longrightarrow> el' j = el j"
    "el' n \<noteq> el n \<Longrightarrow> angle_row_ok n line"
  using assms(2) unfolding angle_line_row [OF assms(1)]
  by (auto simp: angle_row_ok_def split: if_splits Option.bind_splits)

lemma angle_loop_rows:
  assumes "\<forall>k<length (angle_rows lines). angle_row_ok (n + k) (angle_rows lines ! k)"
  shows "\<exists>el' az'. angle_loop lines (n, el, az) = Some (n + length (angle_rows lines), el', az') \<and>
     (\<forall>k<length (angle_rows lines). el' (n + k) = Some (cell_angle 1 (angle_rows lines ! k)) \<and>
        az' (n + k) = Some (cell_angle 2 (angle_rows lines ! k))) \<and>
     (\<forall>j<n. el' j = el j \<and> az' j = az j)"
  using assms
proof (induction lines arbitrary: n el az)
  case Nil
  then show ?case by (simp add: angle_rows_def)
next
  case (Cons line lines)
  show ?case
  proof (cases "3 \<le> length (angle_cells line)")
    case False
    then show ?thesis using Cons by (simp add: angle_line_skipped angle_rows_def)
  next
    case True
    then have rows: "angle_rows (line # lines) = line # angle_rows lines" by (simp add: angle_rows_def)
    have ok: "angle_row_ok n line" "\<forall>k<length (angle_rows lines). angle_row_ok (Suc n + k) (angle_rows lines ! k)"
      using Cons.prems unfolding rows by (force, force)
    let ?el = "el(n \<mapsto> cell_angle 1 line)" and ?az = "az(n \<mapsto> cell_angle 2 line)"
    have "angle_line line (n, el, az) = Some (Suc n, ?el, ?az)"
      using ok(1) unfolding angle_line_row [OF True] by (auto simp: angle_row_ok_def cell_angle_def)
    moreover obtain el' az' where loop: "angle_loop lines (Suc n, ?el, ?az) = Some (Suc n + length (angle_rows lines), el', az')"
      "\<forall>k<length (angle_rows lines). el' (Suc n + k) = Some (cell_angle 1 (angle_rows lines ! k)) \<and>
        az' (Suc n + k) = Some (cell_angle 2 (angle_rows lines ! k))"
      and old: "\<And>j. j < Suc n \<Longrightarrow> el' j = ?el j \<and> az' j = ?az j"
      using Cons.IH [OF ok(2)] by blast
    moreover have "el' n = Some (cell_angle 1 line)" "az' n = Some (cell_angle 2 line)"
      "\<forall>j<n. el' j = el j \<and> az' j = az j"
      using old by simp_all
    ultimately show ?thesis unfolding rows length_Cons All_less_Suc2
      by (intro exI [of _ el'] exI [of _ az']) simp
  qed
qed

lemma angle_loop_written:
  assumes "angle_loop lines (n, el, az) = Some (m, el', az')" and "\<forall>j\<ge>n. el j = None"
  shows "m = n + length (angle_rows lines)" "\<forall>j<n. el' j = el j"
    "\<forall>k<length (angle_rows lines). el' (n + k) \<noteq> None \<longrightarrow> angle_row_ok (n + k) (angle_rows lines ! k)"
  using assms
proof (induction lines arbitrary: n el az)
  case Nil
  { case 1 then show ?case by (simp add: angle_rows_def)
  next case 2 then show ?case by simp
  next case 3 then show ?case by (simp add: angle_rows_def) }
next
  case (Cons line lines)
  have "m = n + length (angle_rows (line # lines)) \<and> (\<forall>j<n. el' j = el j) \<and>
    (\<forall>k<length (angle_rows (line # lines)). el' (n + k) \<noteq> None \<longrightarrow> angle_row_ok (n + k) (angle_rows (line # lines) ! k))"
    if loop: "angle_loop (line # lines) (n, el, az) = Some (m, el', az')" and none: "\<forall>j\<ge>n. el j = None" for n el az
  proof (cases "3 \<le> length (angle_cells line)")
    case False
    then show ?thesis using loop Cons.IH [of n el az] none by (simp add: angle_line_skipped angle_rows_def)
  next
    case True
    then have rows: "angle_rows (line # lines) = line # angle_rows lines" by (simp add: angle_rows_def)
    obtain st where st: "angle_line line (n, el, az) = Some st" "angle_loop lines st = Some (m, el', az')"
      using loop by (cases "angle_line line (n, el, az)") simp_all
    obtain el1 az1 where 1: "st = (Suc n, el1, az1)" "\<And>j. j \<noteq> n \<Longrightarrow> el1 j = el j" "el1 n \<noteq> el n \<Longrightarrow> angle_row_ok n line"
      using angle_line_count [OF True st(1)] by blast
    have "\<forall>j\<ge>Suc n. el1 j = None" using 1(2) none by (metis Suc_leD Suc_n_not_le_n)
    note IH = Cons.IH [OF st(2) [unfolded 1(1)] this]
    have old: "el' n = el1 n" "\<forall>j<n. el' j = el j" using IH(2) 1(2) by auto
    moreover have "el' n \<noteq> None \<longrightarrow> angle_row_ok n line" using 1(3) none old(1) by force
    ultimately show ?thesis unfolding rows length_Cons All_less_Suc2 using IH(1,3) by simp
  qed
  note R = this
  { case 1 then show ?case using R by blast
  next case 2 then show ?case using R by blast
  next case 3 then show ?case using R by blast }
qed

text \<open>The lines of a text behind its header, if it has one: two lines when it starts with \<open>EEFF\<close>.\<close>

definition body_lines :: "string \<Rightarrow> string list option" where
  "body_lines text =
     (case read_lines newline (istringstream text) [] of
        [] \<Rightarrow> None
      | header # lines \<Rightarrow>
          if angle_cells header = [] then None
          else if angle_cells header ! 0 \<in> {''EEFF'', ''eeff''} then Some (drop 1 lines) else Some lines)"

definition well_numbered :: "string list \<Rightarrow> bool" where
  "well_numbered rows \<longleftrightarrow> (\<forall>k<length rows. angle_row_ok k (rows ! k))"

lemma read_lines_next:
  "getline d st s = (t, st') \<Longrightarrow> read_lines d st' t = drop 1 (read_lines d st s)"
  by (subst (2) read_lines.simps) (auto simp: read_lines_ended)

lemma those_map: "(\<And>x. x \<in> set xs \<Longrightarrow> f x = Some (g x)) \<Longrightarrow> those (map f xs) = Some (map g xs)"
  by (induction xs) simp_all

lemma those_map_None: "x \<in> set xs \<Longrightarrow> f x = None \<Longrightarrow> those (map f xs) = None"
  by (induction xs) (auto split: option.splits)

lemma loop_result:
  "do { (n, el, az) \<leftarrow> angle_loop lines (0, Map.empty, Map.empty);
        es \<leftarrow> those (map el [0..<n]); as \<leftarrow> those (map az [0..<n]); Some (es, as) } =
   (let rows = angle_rows lines in
    if well_numbered rows then Some (map (cell_angle 1) rows, map (cell_angle 2) rows) else None)"
proof (cases "well_numbered (angle_rows lines)")
  case True
  let ?rows = "angle_rows lines"
  obtain el az where loop: "angle_loop lines (0, Map.empty, Map.empty) = Some (length ?rows, el, az)"
    and "\<forall>k<length ?rows. el k = Some (cell_angle 1 (?rows ! k)) \<and> az k = Some (cell_angle 2 (?rows ! k))"
    using angle_loop_rows [of lines 0 Map.empty Map.empty] True by (auto simp: well_numbered_def)
  then have "those (map el [0..<length ?rows]) = Some (map (\<lambda>k. cell_angle 1 (?rows ! k)) [0..<length ?rows])"
    "those (map az [0..<length ?rows]) = Some (map (\<lambda>k. cell_angle 2 (?rows ! k)) [0..<length ?rows])"
    by (auto intro!: those_map)
  moreover have "map (\<lambda>k. f (?rows ! k)) [0..<length ?rows] = map f ?rows" for f :: "string \<Rightarrow> fp"
    by (metis map_map map_nth comp_def map_cong)
  ultimately show ?thesis using True loop by (simp add: Let_def)
next
  case False
  then obtain k where k: "k < length (angle_rows lines)" "\<not> angle_row_ok k (angle_rows lines ! k)"
    by (auto simp: well_numbered_def)
  have "those (map el [0..<n]) = None" if "angle_loop lines (0, Map.empty, Map.empty) = Some (n, el, az)" for n el az
  proof -
    note w = angle_loop_written [OF that]
    have "el k = None" "k \<in> set [0..<n]" using k w by auto
    then show ?thesis by (rule those_map_None [rotated])
  qed
  then show ?thesis using False by (cases "angle_loop lines (0, Map.empty, Map.empty)") (auto simp: Let_def split: prod.split)
qed

lemma read_angles_meaning:
  "read_angles text = (case body_lines text of None \<Rightarrow> None
     | Some lines \<Rightarrow> let rows = angle_rows lines in
         if well_numbered rows then Some (map (cell_angle 1) rows, map (cell_angle 2) rows) else None)"
proof -
  obtain line ifs where g: "getline newline (istringstream text) [] = (line, ifs)" by fastforce
  show ?thesis
  proof (cases "read_lines newline (istringstream text) []")
    case Nil
    then have "line = []"
      using g by (subst (asm) read_lines.simps) (auto simp: getline_def istringstream_def Let_def split: if_splits list.splits)
    then show ?thesis using Nil g by (simp add: read_angles_def body_lines_def split_string_def nth_opt_def)
  next
    case (Cons header lines)
    then have h: "line = header" "read_lines newline ifs line = lines"
      using g by (auto simp: read_lines_Cons)
    obtain line2 ifs2 where g2: "getline newline ifs line = (line2, ifs2)" by fastforce
    have l2: "read_lines newline ifs2 line2 = drop 1 lines" using read_lines_next [OF g2] h(2) by simp
    show ?thesis
      using Cons g g2 h(2) l2 loop_result [of lines] loop_result [of "drop 1 lines"] unfolding h(1)
      by (auto simp: read_angles_def body_lines_def angle_cells_def nth_opt_def Let_def split_beta)
  qed
qed

text \<open>
  C35. Reading a textual correction file. The first line is a header, the first two when the text starts
  with \<open>EEFF\<close>; the lines of fewer than three cells are skipped. When the other lines are numbered from 1
  on without gaps, at most 512, and have two angles, the elevations and the azimuths of the lasers are
  those of the lines, in their order. For every other text, one line out of order being enough, the
  loader copies entries of its arrays that have not been written or do not exist, and for data without
  a terminating zero or without a header it reads behind them.
\<close>

theorem correction_text_meaning:
  "LoadCorrectionString data s =
     (case c_string data of None \<Rightarrow> None
      | Some text \<Rightarrow> (case body_lines text of None \<Rightarrow> None
          | Some lines \<Rightarrow> let rows = angle_rows lines in
              if well_numbered rows
              then Some (0, s \<lparr> elevation_correction := map (cell_angle 1) rows,
                azimuth_collection := map (cell_angle 2) rows, get_correction_file := True \<rparr>)
              else None))"
  by (simp add: LoadCorrectionString_def read_angles_meaning Let_def split: option.splits)

section \<open>Printing and reading\<close>

type_synonym printed_angle = "bool \<times> nat \<times> string"

definition print_angle :: "printed_angle \<Rightarrow> string" where
  "print_angle = (\<lambda>(neg, ip, fr). fixed neg ip fr)"

definition angle_of :: "printed_angle \<Rightarrow> fp" where
  "angle_of = (\<lambda>(neg, ip, fr). stream_float (fixed_value neg ip fr))"

definition is_angle :: "printed_angle \<Rightarrow> bool" where
  "is_angle = (\<lambda>(neg, ip, fr). list_all (is_digit 10) fr)"

definition print_row :: "nat \<Rightarrow> printed_angle \<times> printed_angle \<Rightarrow> string" where
  "print_row k = (\<lambda>(e, a). dec (k + 1) @ CHR '','' # print_angle e @ CHR '','' # print_angle a)"

definition print_angles :: "(printed_angle \<times> printed_angle) list \<Rightarrow> string" where
  "print_angles xs = unlines newline (''Laser id,Elevation,Azimuth'' # map2 print_row [0..<length xs] xs)"

lemma print_angle_chars: "is_angle x \<Longrightarrow> c \<in> set (print_angle x) \<Longrightarrow> is_number_char c"
  by (cases x) (auto simp: is_angle_def print_angle_def list_all_iff dest: fixed_chars [rotated])

lemma print_angle_nonempty: "print_angle x \<noteq> []"
  by (cases x) (simp add: print_angle_def fixed_def)

lemma extract_angle: "is_angle x \<Longrightarrow> extract_float (print_angle x) None = Some (angle_of x)"
  by (cases x) (simp add: is_angle_def print_angle_def angle_of_def extract_fixed list_all_iff)

lemma print_row_cells:
  assumes "is_angle e" and "is_angle a"
  shows "angle_cells (print_row k (e, a)) = [dec (k + 1), print_angle e, print_angle a]"
proof -
  have "CHR '','' \<notin> set (dec (k + 1))" using dec_chars number_char_not by blast
  moreover have "CHR '','' \<notin> set (print_angle e)" "CHR '','' \<notin> set (print_angle a)"
    using print_angle_chars [OF assms(1)] print_angle_chars [OF assms(2)] number_char_not by blast+
  ultimately show ?thesis
    by (simp add: angle_cells_def print_row_def split_string_def read_lines_delim read_lines_last print_angle_nonempty)
qed

lemma print_row_ok:
  assumes "is_angle e" and "is_angle a" and "k < 512"
  shows "angle_row_ok k (print_row k (e, a))" "cell_angle 1 (print_row k (e, a)) = angle_of e"
    "cell_angle 2 (print_row k (e, a)) = angle_of a"
  using assms(3) int_dec(1) [of "k + 1"]
  by (simp_all add: angle_row_ok_def cell_angle_def print_row_cells [OF assms(1,2)] extract_angle [OF assms(1)]
      extract_angle [OF assms(2)])

lemma print_row_chars:
  "is_angle e \<Longrightarrow> is_angle a \<Longrightarrow> c \<in> set (print_row k (e, a)) \<Longrightarrow> is_number_char c \<or> c = CHR '','' "
  by (auto simp: print_row_def dest: dec_chars print_angle_chars)

lemma c_string_bytes:
  assumes "\<forall>c\<in>set text. 0 < (of_char c :: nat)"
  shows "c_string (bytes_of text @ 0 # rest) = Some text"
proof -
  have b: "unat (word_of_nat (of_char c) :: u8) = of_char c" for c
    by (simp add: unat_of_nat)
  have "(word_of_nat (of_char c) :: u8) \<noteq> 0" if "c \<in> set text" for c
    using b [of c] assms that by force
  then have "takeWhile (\<lambda>b. b \<noteq> 0) (bytes_of text @ 0 # rest) = bytes_of text"
    unfolding bytes_of_def by (intro token(1)) auto
  moreover have "map (\<lambda>b. char_of (unat b)) (bytes_of text) = text"
    unfolding bytes_of_def map_map comp_def b by simp
  ultimately show ?thesis by (simp add: c_string_def)
qed

lemma print_angles_read:
  assumes n: "length xs \<le> 512" and xs: "list_all (\<lambda>(e, a). is_angle e \<and> is_angle a) xs"
  shows "c_string (bytes_of (print_angles xs) @ 0 # rest) = Some (print_angles xs)"
    "read_angles (print_angles xs) = Some (map (\<lambda>(e, a). angle_of e) xs, map (\<lambda>(e, a). angle_of a) xs)"
proof -
  let ?rows = "map2 print_row [0..<length xs] xs"
  let ?header = "''Laser id,Elevation,Azimuth''"
  have ang: "is_angle (fst (xs ! k))" "is_angle (snd (xs ! k))" if "k < length xs" for k
    using xs that by (auto simp: list_all_length split_beta)
  have len: "length ?rows = length xs" by simp
  have row: "?rows ! k = print_row k (fst (xs ! k), snd (xs ! k))" if "k < length xs" for k
    using that by simp
  have chars: "is_number_char c \<or> c = CHR '','' " if "r \<in> set ?rows" "c \<in> set r" for r c
  proof -
    note r = that
    obtain k where "k < length xs" "r = ?rows ! k" using r(1) unfolding in_set_conv_nth len by blast
    then show ?thesis using print_row_chars [OF ang] row r(2) by metis
  qed
  have no_newline: "\<forall>t\<in>set (?header # ?rows). newline \<notin> set t"
    using chars number_char_not by (auto simp: newline_def)
  have "0 < (of_char c :: nat)" if r: "r \<in> set (?header # ?rows)" "c \<in> set (r @ [newline])" for r c
  proof (cases "r = ?header \<or> c = newline")
    case True
    then show ?thesis using r(2) by (auto simp: newline_def)
  next
    case False
    then have "r \<in> set ?rows" "c \<in> set r" using r by (simp_all del: set_map)
    from chars [OF this] show ?thesis using number_char_not [of c] by auto
  qed
  then show "c_string (bytes_of (print_angles xs) @ 0 # rest) = Some (print_angles xs)"
    by (intro c_string_bytes) (auto simp: print_angles_def unlines_def)
  have lines: "read_lines newline (istringstream (print_angles xs)) [] = ?header # ?rows"
    unfolding print_angles_def by (rule read_lines_unlines [OF no_newline])
  have header: "angle_cells ?header = [''Laser id'', ''Elevation'', ''Azimuth'']"
    using split_string_cells(1) [of "CHR '','' " "''Laser id''" "''Elevation,Azimuth''"]
      read_lines_delim [of "CHR '','' " "''Elevation''" "''Azimuth''"] read_lines_last [of "CHR '','' " "''Azimuth''"]
    by (simp add: angle_cells_def)
  have body: "body_lines (print_angles xs) = Some ?rows" by (simp add: body_lines_def lines header)
  have cells: "3 \<le> length (angle_cells r)" if r: "r \<in> set ?rows" for r
  proof -
    obtain k where "k < length xs" "r = ?rows ! k" using r unfolding in_set_conv_nth len by blast
    then show ?thesis using print_row_cells [OF ang [of k], of k] by simp
  qed
  then have all: "angle_rows ?rows = ?rows" by (simp add: angle_rows_def filter_id_conv)
  have ok: "angle_row_ok k (?rows ! k)" "cell_angle 1 (?rows ! k) = angle_of (fst (xs ! k))"
    "cell_angle 2 (?rows ! k) = angle_of (snd (xs ! k))" if "k < length xs" for k
    unfolding row [OF that] using print_row_ok [OF ang [OF that]] that n by simp_all
  have eq: "map f ?rows = map g xs" if fg: "\<And>k. k < length xs \<Longrightarrow> f (?rows ! k) = g (xs ! k)"
    for f :: "string \<Rightarrow> fp" and g
  proof (rule nth_equalityI)
    fix k assume "k < length (map f ?rows)"
    then show "map f ?rows ! k = map g xs ! k" using fg [of k] len by (simp only: nth_map length_map)
  qed simp
  have "map (cell_angle 1) ?rows = map (\<lambda>(e, a). angle_of e) xs" "map (cell_angle 2) ?rows = map (\<lambda>(e, a). angle_of a) xs"
    by (rule eq, simp only: ok split_beta)+
  moreover have "well_numbered ?rows" using ok(1) by (simp add: well_numbered_def)
  ultimately show "read_angles (print_angles xs) = Some (map (\<lambda>(e, a). angle_of e) xs, map (\<lambda>(e, a). angle_of a) xs)"
    by (simp add: read_angles_meaning body all)
qed

text \<open>
  C36. Printing the angles of up to 512 lasers, each as a number in fixed notation, and reading the text
  gives every laser its own two angles, each the \<open>float\<close> nearest to the printed number, whatever
  lies behind the text's terminating zero.
\<close>

theorem correction_text_roundtrip:
  assumes "length xs \<le> 512" and "list_all (\<lambda>(e, a). is_angle e \<and> is_angle a) xs"
  shows "LoadCorrectionString (bytes_of (print_angles xs) @ 0 # rest) s =
     Some (0, s \<lparr> elevation_correction := map (\<lambda>(e, a). angle_of e) xs,
       azimuth_collection := map (\<lambda>(e, a). angle_of a) xs, get_correction_file := True \<rparr>)"
  using print_angles_read [OF assms] by (simp add: LoadCorrectionString_def)

theorem correction_text_roundtrip_witness:
  "\<forall>s. \<exists>s'. LoadCorrectionString (bytes_of (print_angles [((True, 1, ''5''), False, 0, ''25'')]) @ [0, 7]) s = Some (0, s') \<and>
     elevation_correction s' = [Fin (- 3 / 2)] \<and> azimuth_collection s' = [Fin (1 / 4)]"
proof -
  let ?xs = "[((True, 1, ''5''), False, 0, ''25'')]"
  have "list_all (\<lambda>(e, a). is_angle e \<and> is_angle a) ?xs" by code_simp
  moreover have "angle_of (True, 1, ''5'') = Fin (- 3 / 2)" "angle_of (False, 0, ''25'') = Fin (1 / 4)" by code_simp+
  ultimately show ?thesis using correction_text_roundtrip [of ?xs "[7]"] by simp
qed

text \<open>
  \<open>LoadCorrectionFile\<close> passes the bytes of the file without their number and without a terminating
  zero, so for every file of text, which has no zero, the loader reads behind the buffer.
\<close>

theorem correction_file_overruns:
  assumes "0 \<notin> set buffer"
  shows "gp_LoadCorrectionFile (Some buffer) s = None"
  using assms by (simp add: gp_LoadCorrectionFile_def LoadCorrectionFile_def LoadCorrectionString_def c_string_def)

theorem correction_file_overruns_witness:
  "\<forall>s. gp_LoadCorrectionFile (Some (bytes_of (print_angles [((True, 1, ''5''), False, 0, ''25'')]))) s = None"
proof -
  have "0 \<notin> set (bytes_of (print_angles [((True, 1, ''5''), False, 0, ''25'')]))" by code_simp
  then show ?thesis by (intro allI correction_file_overruns)
qed

section \<open>Firing times\<close>

text \<open>Every laser gets the time of the last line with its number; a blank cell is read uninitialised.\<close>

definition firetime_rows :: "string list \<Rightarrow> string list" where
  "firetime_rows = filter (\<lambda>line. 2 \<le> length (angle_cells line) \<and>
     (let n = extract_int (angle_cells line ! 0) 0 in 1 \<le> n \<and> n \<le> 512))"

lemma firetime_line_cells:
  "firetime_line line s =
     (if line \<in> set (firetime_rows [line]) then do {
        t \<leftarrow> extract_float (angle_cells line ! 1) None;
        Some (s \<lparr> firetime_correction := (firetime_correction s)(nat (extract_int (angle_cells line ! 0) 0) - 1 := t) \<rparr>) }
      else Some s)"
proof (cases "2 \<le> length (split_string line CHR '','')")
  case True
  then obtain a b r where cells: "split_string line CHR '','' = a # b # r"
    by (auto simp: numeral_2_eq_2 Suc_le_length_iff)
  then obtain st1 st2 where "getline CHR '','' (istringstream line) [] = (a, st1)" "getline CHR '','' st1 a = (b, st2)"
    unfolding split_string_def read_lines_Cons by blast
  then show ?thesis using cells
    by (auto simp: firetime_line_def firetime_rows_def angle_cells_def MAX_LASER_NUM_def Let_def)
qed (simp add: firetime_line_def firetime_rows_def angle_cells_def)

definition firetime_put :: "string \<Rightarrow> (nat \<Rightarrow> fp) \<Rightarrow> nat \<Rightarrow> fp" where
  "firetime_put row m = m(nat (extract_int (angle_cells row ! 0) 0) - 1 := cell_angle 1 row)"

theorem firetime_loop_meaning:
  "firetime_loop lines s =
     (if \<exists>row\<in>set (firetime_rows lines). extract_float (angle_cells row ! 1) None = None then None
      else Some (s \<lparr> firetime_correction := fold firetime_put (firetime_rows lines) (firetime_correction s) \<rparr>))"
proof (induction lines arbitrary: s)
  case (Cons line lines)
  have "firetime_rows (line # lines) = firetime_rows [line] @ firetime_rows lines" by (simp add: firetime_rows_def)
  moreover have "firetime_rows [line] = [] \<or> firetime_rows [line] = [line]" by (simp add: firetime_rows_def)
  ultimately consider "firetime_rows (line # lines) = firetime_rows lines" "line \<notin> set (firetime_rows [line])"
    | "firetime_rows (line # lines) = line # firetime_rows lines" "line \<in> set (firetime_rows [line])"
    by fastforce
  then show ?case
  proof cases
    case 1
    then have "firetime_line line s = Some s" by (subst firetime_line_cells) (rule if_not_P)
    then show ?thesis by (simp only: firetime_loop.simps bind.bind_lunit Cons.IH 1(1))
  next
    case 2
    show ?thesis
    proof (cases "extract_float (angle_cells line ! 1) None")
      case None
      then have "firetime_line line s = None" using 2(2) by (subst firetime_line_cells) simp
      then show ?thesis unfolding 2(1) using None by simp
    next
      case (Some t)
      then have "firetime_line line s = Some (s \<lparr> firetime_correction := firetime_put line (firetime_correction s) \<rparr>)"
        using 2(2) by (subst firetime_line_cells) (simp add: cell_angle_def firetime_put_def)
      then show ?thesis unfolding 2(1) firetime_loop.simps using Some by (simp only: bind.bind_lunit Cons.IH) simp
    qed
  qed
qed (simp add: firetime_rows_def)

end
