(* ===== verification/Correction_Text.thy ===== *)
theory Correction_Text
  imports Angle_Text Udp2_4 Udp2_5 Udp2_6 Udp4_3 Udp4_7 Udp7_2
begin

text \<open>
  The textual correction files of the classes with fields of their own: the loaders of text in
  \<open>udp2_4_parser.cc\<close>, \<open>udp2_5_parser.cc\<close>, \<open>udp2_6_parser.cc\<close> and \<open>udp7_2_parser.cc\<close>, and the reading of a
  file into a buffer by every class. A loader that may throw returns \<open>Inl\<close> of what it leaves behind
  then.
\<close>

section \<open>The ET lidars\<close>

text \<open>The lists go to the first entries of the arrays.\<close>

definition put_list :: "'a list \<Rightarrow> (nat \<Rightarrow> 'a) \<Rightarrow> nat \<Rightarrow> 'a" where
  "put_list xs old = (\<lambda>i. if i < length xs then xs ! i else old i)"

definition et_put_angles :: "fp list \<times> fp list \<Rightarrow> ETCorrections \<Rightarrow> ETCorrections" where
  "et_put_angles = (\<lambda>(es, as) c. c \<lparr> ec_azimuths := put_list as (ec_azimuths c),
     ec_elevations := put_list es (ec_elevations c) \<rparr>)"

definition e5_LoadCorrectionCsvData :: "u8 list \<Rightarrow> udp2_5_parser \<Rightarrow> (int \<times> udp2_5_parser) option" where
  "e5_LoadCorrectionCsvData data s = do {
     text \<leftarrow> c_string data;
     angles \<leftarrow> read_angles text;
     Some (0, s \<lparr> e5_corrections := et_put_angles angles (e5_corrections s), et_get_correction_file := True \<rparr>) }"

definition e5_LoadCorrectionString :: "u8 list \<Rightarrow> udp2_5_parser \<Rightarrow> (int \<times> udp2_5_parser) option" where
  "e5_LoadCorrectionString data s = do {
     (r, s) \<leftarrow> e5_LoadCorrectionDatData data s;
     if r = 0 then Some (0, s) else e5_LoadCorrectionCsvData data s }"

definition e6_LoadCorrectionCsvData :: "u8 list \<Rightarrow> udp2_6_parser \<Rightarrow> (int \<times> udp2_6_parser) option" where
  "e6_LoadCorrectionCsvData data s = do {
     text \<leftarrow> c_string data;
     angles \<leftarrow> read_angles text;
     Some (0, s \<lparr> e6_corrections := et_put_angles angles (e6_corrections s), et_get_correction_file := True \<rparr>) }"

definition e6_LoadCorrectionString :: "u8 list \<Rightarrow> udp2_6_parser \<Rightarrow> (int \<times> udp2_6_parser) option" where
  "e6_LoadCorrectionString data s = do {
     (r, s) \<leftarrow> e6_LoadCorrectionDatData data s;
     if r = 0 then Some (0, s) else e6_LoadCorrectionCsvData data s }"

text \<open>
  Protocol 2.4 reads the file itself. The two columns of the lines with three cells are converted with
  \<open>std::stof\<close>, so that a cell without a number throws before anything is written.
\<close>

fun e4_columns :: "string list \<Rightarrow> (fp \<times> fp) list option" where
  "e4_columns [] = Some []"
| "e4_columns (line # lines) =
     (let row = split_string line CHR '','' in
      if length row < 3 then e4_columns lines
      else do {
        elevation \<leftarrow> stof (row ! 1);
        azimuth \<leftarrow> stof (row ! 2);
        rest \<leftarrow> e4_columns lines;
        Some ((elevation, azimuth) # rest) })"

definition e4_LoadCorrectionString_csv :: "u8 list option \<Rightarrow> udp2_4_parser \<Rightarrow> udp2_4_parser + int \<times> udp2_4_parser" where
  "e4_LoadCorrectionString_csv content s =
     (case content of None \<Rightarrow> Inr (0, s)
      | Some bytes \<Rightarrow>
        let (line, file) = getline newline (istringstream (chars_of bytes)) [] in
        case e4_columns (read_lines newline file line) of
          None \<Rightarrow> Inl s
        | Some columns \<Rightarrow>
            let c = m_ET_corrections s;
                h = (ec_header c) \<lparr> eh_delimiter := (0xee, 0xff), eh_major_version := 3, eh_min_version := 1,
                  eh_channel_number := 0x40, eh_angle_division := 1 \<rparr>;
                kept = take ET_MAX_CHANNEL_NUM columns
            in Inr (1, s \<lparr> m_ET_corrections := c \<lparr> ec_header := h,
                 ec_elevations := put_list (map fst kept) (ec_elevations c),
                 ec_azimuths := put_list (map snd kept) (ec_azimuths c) \<rparr> \<rparr>))"

text \<open>The extension of the path: the last four characters of a name that has them.\<close>

definition extension :: "string \<Rightarrow> string option" where
  "extension path = (if length path < 4 then None else Some (drop (length path - 4) path))"

definition e4_LoadCorrectionFile :: "string \<Rightarrow> u8 list option \<Rightarrow> udp2_4_parser \<Rightarrow> (udp2_4_parser + udp2_4_parser) option" where
  "e4_LoadCorrectionFile path content s =
     (if extension path = Some ''.bin'' then
        (case content of None \<Rightarrow> Some (Inr s)
         | Some buffer \<Rightarrow> do {
             (ret, s) \<leftarrow> e4_LoadCorrectionString buffer s;
             Some (Inr (if ret \<noteq> 0 then s else s \<lparr> et_get_correction_file := True \<rparr>)) })
      else if extension path = Some ''.csv'' then
        (case e4_LoadCorrectionString_csv content s of
           Inl s \<Rightarrow> Some (Inl s)
         | Inr (ret, s) \<Rightarrow> Some (Inr (if ret = 1 then s \<lparr> et_get_correction_file := True \<rparr> else s)))
      else Some (Inr s))"

section \<open>FT120\<close>

text \<open>
  A line has the number of the channel, that of the column and the two angles. A line may have fewer
  cells; then \<open>subline\<close> keeps the last one.
\<close>

definition ft_csv_line :: "string \<Rightarrow> udp7_2_parser \<Rightarrow> udp7_2_parser option" where
  "ft_csv_line line s =
     (let (subline, ss) = getline CHR '','' (istringstream line) [];
          lineId = extract_int subline 0;
          (subline, ss) = getline CHR '','' ss subline;
          columnId = extract_int subline 0;
          (subline, ss) = getline CHR '','' ss subline;
          elev = extract_float subline None;
          (subline, ss) = getline CHR '','' ss subline;
          azimuth = extract_float subline None
      in if lineId > int CHANNEL_MAX \<or> lineId \<le> 0 \<or> columnId > int COLUMN_MAX \<or> columnId \<le> 0 then Some s
         else do {
           e \<leftarrow> elev;
           el \<leftarrow> ft_put (nat lineId - 1) (nat columnId - 1) (fmul e (Fin 100)) (ft_elevations s);
           a \<leftarrow> azimuth;
           az \<leftarrow> ft_put (nat lineId - 1) (nat columnId - 1) (fmul a (Fin 100)) (ft_azimuths s);
           Some (s \<lparr> ft_elevations := el, ft_azimuths := az \<rparr>) })"

text \<open>A line of fewer than seven characters ends the reading with an error.\<close>

fun ft_csv_loop :: "string list \<Rightarrow> udp7_2_parser \<Rightarrow> (int \<times> udp7_2_parser) option" where
  "ft_csv_loop [] s = Some (0, s \<lparr> p72 := p72 s \<lparr> get_correction_file := True \<rparr> \<rparr>)"
| "ft_csv_loop (line # lines) s =
     (if length line < 7 then Some (-1, s) else do { s \<leftarrow> ft_csv_line line s; ft_csv_loop lines s })"

definition ft_LoadCorrectionCsvData :: "u8 list \<Rightarrow> udp7_2_parser \<Rightarrow> (int \<times> udp7_2_parser) option" where
  "ft_LoadCorrectionCsvData data s = do {
     text \<leftarrow> c_string data;
     let (line, ifs) = getline newline (istringstream text) [];
     ft_csv_loop (read_lines newline ifs line) s }"

definition ft_LoadCorrectionString :: "u8 list \<Rightarrow> udp7_2_parser \<Rightarrow> (int \<times> udp7_2_parser) option" where
  "ft_LoadCorrectionString data s = do {
     (r, s) \<leftarrow> ft_LoadCorrectionDatData data s;
     if r = 0 then Some (0, s) else ft_LoadCorrectionCsvData data s }"

section \<open>The file loaders of the classes\<close>

definition e5_LoadCorrectionFile :: "u8 list option \<Rightarrow> udp2_5_parser \<Rightarrow> udp2_5_parser option" where
  "e5_LoadCorrectionFile = LoadCorrectionFile e5_LoadCorrectionString"

definition e6_LoadCorrectionFile :: "u8 list option \<Rightarrow> udp2_6_parser \<Rightarrow> udp2_6_parser option" where
  "e6_LoadCorrectionFile = LoadCorrectionFile e6_LoadCorrectionString"

definition at_LoadCorrectionFile :: "u8 list option \<Rightarrow> udp4_3_parser \<Rightarrow> udp4_3_parser option" where
  "at_LoadCorrectionFile = LoadCorrectionFile at_LoadCorrectionString"

definition ax_LoadCorrectionFile :: "u8 list option \<Rightarrow> udp4_7_parser \<Rightarrow> udp4_7_parser option" where
  "ax_LoadCorrectionFile = LoadCorrectionFile ax_LoadCorrectionString"

definition ft_LoadCorrectionFile :: "u8 list option \<Rightarrow> udp7_2_parser \<Rightarrow> udp7_2_parser option" where
  "ft_LoadCorrectionFile = LoadCorrectionFile ft_LoadCorrectionString"

section \<open>Text for the ET lidars\<close>

lemma e5_not_binary:
  assumes "17 \<le> length data" and "data ! 0 \<noteq> 0xee"
  shows "e5_LoadCorrectionDatData data s = Some (-1, s)"
  using assms by (auto simp: e5_LoadCorrectionDatData_def et_header_v3_def et_start_at_def et_angles_at_def ld8_def
      load_def Let_def)

text \<open>
  A textual correction file of an ET lidar with protocol 2.5. The loader stores the angles of laser
  \<open>i\<close> in entry \<open>i\<close> of the arrays, but the geometry takes them from entry \<open>i + 3\<close>, and the first three
  elevations for the angles of the frame: every laser but the last three is computed with the angles of
  the laser three lines below.
\<close>

theorem e5_text_angles_shifted:
  assumes n: "length xs \<le> 512" and xs: "list_all (\<lambda>(e, a). is_angle e \<and> is_angle a) xs"
  shows "\<exists>s'. e5_LoadCorrectionString (bytes_of (print_angles xs) @ 0 # rest) s = Some (0, s') \<and> et_get_correction_file s' \<and>
     (\<forall>i lm m t g p f k. i + 3 < length xs \<longrightarrow> e5_point lm s' m t g p f i k = do {
        d \<leftarrow> get_point_data k f;
        angles \<leftarrow> e5_adjusted (e5_corrections s') m t (et_angles lm (ec_elevations (e5_corrections s') 0)
          (ec_elevations (e5_corrections s') 1) g (angle_of (snd (xs ! (i + 3)))) (angle_of (fst (xs ! (i + 3))))
          (pd_azimuth d) (pd_elevation d));
        et_place (p2 s') False (word_of_nat i) p f d angles
          (to_float (dmul (f64_of_int (uint (pd_distances d))) (f_distance_unit f))) })"
proof -
  let ?data = "bytes_of (print_angles xs) @ 0 # rest"
  have "17 \<le> length ?data" "?data ! 0 \<noteq> 0xee" by (simp_all add: print_angles_def bytes_of_def nth_append)
  note bin = e5_not_binary [OF this, of s]
  let ?c = "et_put_angles (map (\<lambda>(e, a). angle_of e) xs, map (\<lambda>(e, a). angle_of a) xs) (e5_corrections s)"
  let ?s = "s \<lparr> e5_corrections := ?c, et_get_correction_file := True \<rparr>"
  have load: "e5_LoadCorrectionString ?data s = Some (0, ?s)"
    using print_angles_read [OF n xs] bin by (simp add: e5_LoadCorrectionString_def e5_LoadCorrectionCsvData_def)
  have "ec_azimuths ?c j = angle_of (snd (xs ! j))" "ec_elevations ?c j = angle_of (fst (xs ! j))" if "j < length xs" for j
    using that by (simp_all add: et_put_angles_def put_list_def split_beta)
  then have "e5_point lm ?s m t g p f i k = do {
        d \<leftarrow> get_point_data k f;
        angles \<leftarrow> e5_adjusted ?c m t (et_angles lm (ec_elevations ?c 0) (ec_elevations ?c 1) g
          (angle_of (snd (xs ! (i + 3)))) (angle_of (fst (xs ! (i + 3)))) (pd_azimuth d) (pd_elevation d));
        et_place (p2 s) False (word_of_nat i) p f d angles
          (to_float (dmul (f64_of_int (uint (pd_distances d))) (f_distance_unit f))) }"
    if "i + 3 < length xs" for lm m t g p f i k
    using that n by (simp add: e5_point_def arr_def ET_MAX_CHANNEL_NUM_def Let_def)
  then show ?thesis using load by (intro exI [of _ ?s]) simp
qed

theorem e5_text_angles_shifted_witness:
  "\<exists>s'. e5_LoadCorrectionString (bytes_of (print_angles (replicate 4 ((True, 1, ''5''), False, 0, ''25''))) @ [0]) e5_parser_ex =
     Some (0, s') \<and> et_get_correction_file s'"
  using e5_text_angles_shifted [of "replicate 4 ((True, 1, ''5''), False, 0, ''25'')" "[]" e5_parser_ex]
  by (simp add: is_angle_def list_all_iff is_digit_def digit_value_def) blast

text \<open>A cell without a number makes the loader of protocol 2.4 throw, before it has changed anything.\<close>

theorem e4_text_throws:
  assumes "row \<in> set (drop 1 (read_lines newline (istringstream (chars_of bytes)) []))"
    and "3 \<le> length (split_string row CHR '','')" and "stof (split_string row CHR '','' ! i) = None" and "i = 1 \<or> i = 2"
    and "extension path = Some ''.csv''"
  shows "e4_LoadCorrectionFile path (Some bytes) s = Some (Inl s)"
proof -
  have "e4_columns lines = None" if "row \<in> set lines" for lines
    using that assms(2-4) by (induction lines) (auto simp: Let_def split: Option.bind_splits)
  moreover obtain line st where g: "getline newline (istringstream (chars_of bytes)) [] = (line, st)" by fastforce
  ultimately have "e4_columns (read_lines newline st line) = None"
    using assms(1) by (simp add: read_lines_next [OF g])
  then show ?thesis using assms(5) by (simp add: e4_LoadCorrectionFile_def e4_LoadCorrectionString_csv_def g)
qed

end
