(* ===== verification/Firetimes_Text.thy ===== *)
theory Firetimes_Text
  imports Angle_Text Udp1_4 Udp3_2 Udp4_7
begin

text \<open>
  The textual files of the classes with firing times of their own: \<open>LoadFiretimesFile\<close> of
  \<open>udp1_4_parser.cc\<close> and \<open>udp4_7_parser.cc\<close>, \<open>LoadFiretimesString\<close> and \<open>LoadChannelConfigString\<close> of
  \<open>udp3_2_parser.cc\<close> (under \<open>src/libhesai/UdpParser/src\<close>). A function that may leave with an exception
  returns \<open>Inl\<close> of the object as it is then, \<open>Inr\<close> of its result otherwise.
\<close>

section \<open>Pandar128\<close>

definition p128_put :: "nat \<Rightarrow> nat \<Rightarrow> int \<Rightarrow> int \<Rightarrow> udp1_4_parser \<Rightarrow> udp1_4_parser" where
  "p128_put idx k a b s =
     (let m = firetime_section_values s
      in s \<lparr> firetime_section_values := m(idx := (m idx)(k := (m idx k)(0 := a, 1 := b))) \<rparr>)"

text \<open>The cells of a line: pairs of integers, or numbers with \<open>-\<close> for none, from section \<open>k\<close> on.\<close>

fun p128_pairs :: "nat \<Rightarrow> string list \<Rightarrow> nat \<Rightarrow> udp1_4_parser \<Rightarrow> udp1_4_parser + udp1_4_parser" where
  "p128_pairs idx (x # y # cells) k s =
     (case stoi x of None \<Rightarrow> Inl s
      | Some a \<Rightarrow> (case stoi y of None \<Rightarrow> Inl s
          | Some b \<Rightarrow> p128_pairs idx cells (Suc k) (p128_put idx k a b s)))"
| "p128_pairs idx cells k s = Inr s"

fun p128_values :: "nat \<Rightarrow> string list \<Rightarrow> nat \<Rightarrow> udp1_4_parser \<Rightarrow> (udp1_4_parser + udp1_4_parser) option" where
  "p128_values idx [] k s = Some (Inr s)"
| "p128_values idx (cell # cells) k s =
     (if cell = ''-'' then p128_values idx cells (Suc k) (p128_put idx k 0 0 s)
      else case stof cell of None \<Rightarrow> Some (Inl s)
      | Some v \<Rightarrow> do {
          a \<leftarrow> fp_to_int (fmul v (Fin 1000));
          p128_values idx cells (Suc k) (p128_put idx k a a s) })"

text \<open>\<open>uselessLine\<close>, \<open>count\<close> and \<open>is_OT\<close>, with the object.\<close>

type_synonym p128_loop = "nat \<times> nat \<times> bool \<times> udp1_4_parser"

text \<open>The first line: the name of the format, or a text with the distance that separates the two values.\<close>

definition p128_first :: "string list \<Rightarrow> udp1_4_parser \<Rightarrow> (udp1_4_parser + bool \<times> udp1_4_parser) option" where
  "p128_first strList s = do {
     first \<leftarrow> nth_opt strList 0;
     if first = ''Operational State'' then Some (Inr (True, s))
     else let dist = filter (\<lambda>e. e = CHR ''.'' \<or> is_digit 10 e) first in
       if dist = [] then Some (Inr (False, s))
       else Some (case stod dist of None \<Rightarrow> Inl s | Some d \<Rightarrow> Inr (False, s \<lparr> section_distance := d \<rparr>)) }"

definition p128_row_values :: "nat \<Rightarrow> bool \<Rightarrow> string list \<Rightarrow> udp1_4_parser \<Rightarrow> (udp1_4_parser + udp1_4_parser) option" where
  "p128_row_values idx is_OT strList s =
     (if is_OT then p128_values idx (take 6 (drop 1 strList)) 0 s
      else Some (p128_pairs idx (take 16 (drop 1 strList)) 0 s))"

text \<open>
  A line with values. \<open>Inl\<close> ends the reading: an exception, which is caught, or an error of the file. A line for
  no laser is skipped without being counted. The last character of the line is read first, which an empty
  line does not have.
\<close>

definition p128_row_line :: "string \<Rightarrow> p128_loop \<Rightarrow> (udp1_4_parser + p128_loop) option" where
  "p128_row_line lineStr = (\<lambda>(uselessLine, count, is_OT, s).
     let strList = split_string lineStr CHR '','' in
     if lineStr = [] then None
     else if length strList < (if is_OT then 7 else 17) then Some (Inl s)
     else case stoi (strList ! 0) of None \<Rightarrow> Some (Inl s)
     | Some n \<Rightarrow> do {
         idx \<leftarrow> int_ok (n - 1);
         if idx \<ge> 128 \<or> idx < 0 then Some (Inr (uselessLine, count, is_OT, s))
         else do {
           r \<leftarrow> p128_row_values (nat idx) is_OT strList s;
           Some (case r of Inl s \<Rightarrow> Inl s
             | Inr s \<Rightarrow> if count + 1 > 128 then Inl s else Inr (uselessLine, count + 1, is_OT, s)) } })"

definition p128_firetime_line :: "string \<Rightarrow> p128_loop \<Rightarrow> (udp1_4_parser + p128_loop) option" where
  "p128_firetime_line lineStr = (\<lambda>(uselessLine, count, is_OT, s). do {
     r \<leftarrow> (if uselessLine = 0 then p128_first (split_string lineStr CHR '','') s else Some (Inr (is_OT, s)));
     case r of Inl s \<Rightarrow> Some (Inl s)
     | Inr (is_OT, s) \<Rightarrow>
         if uselessLine < (if is_OT then 2 else 3) then Some (Inr (uselessLine + 1, count, is_OT, s))
         else p128_row_line lineStr (uselessLine, count, is_OT, s) })"

fun p128_firetime_loop :: "string list \<Rightarrow> p128_loop \<Rightarrow> (udp1_4_parser + p128_loop) option" where
  "p128_firetime_loop [] st = Some (Inr st)"
| "p128_firetime_loop (line # lines) st = do {
     r \<leftarrow> p128_firetime_line line st;
     case r of Inl s \<Rightarrow> Some (Inl s) | Inr st \<Rightarrow> p128_firetime_loop lines st }"

definition p128_LoadFiretimesFile :: "u8 list option \<Rightarrow> udp1_4_parser \<Rightarrow> udp1_4_parser option" where
  "p128_LoadFiretimesFile content s =
     (let done = (\<lambda>ok s. s \<lparr> p14 := p14 s \<lparr> get_firetime_file := ok \<rparr> \<rparr>) in
      case content of None \<Rightarrow> Some (done False s)
      | Some bytes \<Rightarrow> do {
          r \<leftarrow> p128_firetime_loop (read_lines newline (istringstream (chars_of bytes)) []) (0, 0, False, s);
          Some (case r of Inl s \<Rightarrow> done False s | Inr (_, _, _, s) \<Rightarrow> done True s) })"

section \<open>QT128\<close>

text \<open>
  A line of the firing times: \<open>loopNum\<close> pairs of a laser and a time, from loop \<open>j\<close> on. The time is converted also
  for a laser that does not exist. The result is \<open>None\<close> when a conversion throws.
\<close>

fun qt2_firetime_cells :: "string list \<Rightarrow> nat \<Rightarrow> (nat \<Rightarrow> nat \<Rightarrow> fp) \<Rightarrow> (nat \<Rightarrow> nat \<Rightarrow> fp) option option" where
  "qt2_firetime_cells (x # y # cells) j m = do {
     n \<leftarrow> atoi x;
     laserId \<leftarrow> int_ok (n - 1);
     case stof y of None \<Rightarrow> Some None
     | Some t \<Rightarrow> qt2_firetime_cells cells (Suc j)
         (if laserId \<ge> 0 \<and> laserId < 128 then m(j := (m j)(nat laserId := t)) else m) }"
| "qt2_firetime_cells cells j m = Some (Some m)"

text \<open>
  \<open>n\<close> lines are left; behind the end of the text \<open>line\<close> keeps its content or is empty. \<open>Inl ()\<close> is the error of a line with a
  wrong number of cells.
\<close>

fun qt2_firetime_lines :: "nat \<Rightarrow> int \<Rightarrow> istream \<Rightarrow> string \<Rightarrow> (nat \<Rightarrow> nat \<Rightarrow> fp) \<Rightarrow>
    (unit + (nat \<Rightarrow> nat \<Rightarrow> fp)) option option" where
  "qt2_firetime_lines 0 loopNum st line m = Some (Some (Inr m))"
| "qt2_firetime_lines (Suc n) loopNum st line m = do {
     let (line, st) = getline newline st line;
     let cells = split_string line CHR '','';
     if loopNum \<le> 0 then qt2_firetime_lines n loopNum st line m
     else if int (length cells) \<noteq> loopNum * 2 then Some (Some (Inl ()))
     else do {
       r \<leftarrow> qt2_firetime_cells cells 0 m;
       case r of None \<Rightarrow> Some None | Some m \<Rightarrow> qt2_firetime_lines n loopNum st line m } }"

definition qt2_LoadFiretimesString :: "u8 list \<Rightarrow> udp3_2_parser \<Rightarrow> (udp3_2_parser + int \<times> udp3_2_parser) option" where
  "qt2_LoadFiretimesString data s = do {
     content \<leftarrow> c_string data;
     let (line, st) = getline newline (istringstream content) [];
     first \<leftarrow> nth_opt (split_string line CHR '','') 0;
     if first = ''EEFF'' \<or> first = ''eeff'' then do {
       let (line, st) = getline newline st line;
       cell \<leftarrow> nth_opt (split_string line CHR '','') 3;
       loopNum \<leftarrow> atoi cell;
       if loopNum > 4 then Some (Inr (-1, s))
       else do {
         let (line, st) = getline newline st line;
         r \<leftarrow> qt2_firetime_lines 128 loopNum st line (\<lambda>_ _. Fin 0);
         Some (case r of None \<Rightarrow> Inl s
           | Some (Inl _) \<Rightarrow> Inr (-1, s)
           | Some (Inr m) \<Rightarrow> Inr (0, s \<lparr> qt128_firetime := m, p32 := p32 s \<lparr> get_firetime_file := True \<rparr> \<rparr>)) } }
     else Some (Inr (-1, s)) }"

text \<open>The files of this class are read like the correction files; an exception leaves the function.\<close>

definition qt2_load_file :: "(u8 list \<Rightarrow> 's \<Rightarrow> ('s + int \<times> 's) option) \<Rightarrow> u8 list option \<Rightarrow> 's \<Rightarrow> ('s + 's) option" where
  "qt2_load_file loader content s =
     (case content of None \<Rightarrow> Some (Inr s)
      | Some buffer \<Rightarrow> map_option (map_sum id snd) (loader buffer s))"

definition qt2_LoadFiretimesFile :: "u8 list option \<Rightarrow> udp3_2_parser \<Rightarrow> (udp3_2_parser + udp3_2_parser) option" where
  "qt2_LoadFiretimesFile = qt2_load_file qt2_LoadFiretimesString"

text \<open>The channel table: a row for each loop; \<open>std::vector::resize\<close> keeps what a row has and fills it with 0.\<close>

definition resize :: "nat \<Rightarrow> 'a \<Rightarrow> 'a list \<Rightarrow> 'a list" where
  "resize n x xs = take n xs @ replicate (n - length xs) x"

text \<open>The cells of line \<open>i\<close>, from loop \<open>j\<close> on.\<close>

fun qt2_channel_cells :: "string list \<Rightarrow> nat \<Rightarrow> nat \<Rightarrow> int list list \<Rightarrow> int list list + int list list" where
  "qt2_channel_cells [] i j t = Inr t"
| "qt2_channel_cells (cell # cells) i j t =
     (case stoi cell of None \<Rightarrow> Inl t | Some v \<Rightarrow> qt2_channel_cells cells i (Suc j) (t[j := (t ! j)[i := v]]))"

text \<open>\<open>n\<close> lines are left. The result says how the loop ends: with an exception, with an error, or with the stream.\<close>

datatype loop_end = Threw | Failed | Went_on istream string

fun qt2_channel_lines :: "nat \<Rightarrow> nat \<Rightarrow> nat \<Rightarrow> istream \<Rightarrow> string \<Rightarrow> int list list \<Rightarrow> loop_end \<times> int list list" where
  "qt2_channel_lines loop_num 0 i st line t = (Went_on st line, t)"
| "qt2_channel_lines loop_num (Suc n) i st line t =
     (let (line, st) = getline newline st line;
          cells = split_string line CHR '',''
      in if loop_num \<noteq> 0 \<and> length cells \<noteq> loop_num then (Failed, t)
         else case qt2_channel_cells (take loop_num cells) i 0 t of
           Inl t \<Rightarrow> (Threw, t)
         | Inr t \<Rightarrow> qt2_channel_lines loop_num n (Suc i) st line t)"

definition qt2_LoadChannelConfigString :: "u8 list \<Rightarrow> udp3_2_parser \<Rightarrow> (udp3_2_parser + int \<times> udp3_2_parser) option" where
  "qt2_LoadChannelConfigString data s = do {
     content \<leftarrow> c_string data;
     let put = (\<lambda>c. s \<lparr> pandarQT_channel_config := c \<rparr>);
     let c = (pandarQT_channel_config s) \<lparr> cc_IsChannelConfigObtained := False \<rparr>;
     let (line, st) = getline newline (istringstream content) [];
     let versionLine = split_string line CHR '','';
     first \<leftarrow> nth_opt versionLine 0;
     if first \<noteq> ''EEFF'' \<and> first \<noteq> ''eeff'' then Some (Inr (-1, put c))
     else do {
       major \<leftarrow> nth_opt versionLine 1;
       case stoi major of None \<Rightarrow> Some (Inl (put c))
       | Some v \<Rightarrow> do {
       let c = c \<lparr> cc_major_version := word_of_int v \<rparr>;
       minor \<leftarrow> nth_opt versionLine 2;
       case stoi minor of None \<Rightarrow> Some (Inl (put c))
       | Some v \<Rightarrow> do {
       let c = c \<lparr> cc_min_version := word_of_int v \<rparr>;
       let (line, st) = getline newline st line;
       let channelNumLine = split_string line CHR '','';
       lasers \<leftarrow> nth_opt channelNumLine 1;
       case stoi lasers of None \<Rightarrow> Some (Inl (put c))
       | Some v \<Rightarrow> do {
       let c = c \<lparr> cc_laser_num := word_of_int v \<rparr>;
       blocks \<leftarrow> nth_opt channelNumLine 3;
       case stoi blocks of None \<Rightarrow> Some (Inl (put c))
       | Some v \<Rightarrow> do {
       let c = c \<lparr> cc_BlockNum := word_of_int v \<rparr>;
       if cc_laser_num c = 0 \<or> cc_BlockNum c = 0 then Some (Inr (-1, put c))
       else do {
         let (line, st) = getline newline st line;
         let loop_num = length (split_string line CHR '','');
         let lasers = unat (cc_laser_num c);
         let t = map (resize lasers 0) (resize loop_num [] (cc_ChannelConfigTable c));
         let (loop, t) = qt2_channel_lines loop_num lasers 0 st line t;
         let c = c \<lparr> cc_ChannelConfigTable := t \<rparr>;
         Some (case loop of Threw \<Rightarrow> Inl (put c)
           | Failed \<Rightarrow> Inr (-1, put c)
           | Went_on st line \<Rightarrow> Inr (0, put (c \<lparr> cc_HashValue := fst (getline newline st line),
               cc_IsChannelConfigObtained := True \<rparr>))) } } } } } } }"

definition qt2_LoadChannelConfigFile :: "u8 list option \<Rightarrow> udp3_2_parser \<Rightarrow> (udp3_2_parser + udp3_2_parser) option" where
  "qt2_LoadChannelConfigFile = qt2_load_file qt2_LoadChannelConfigString"

section \<open>ATX\<close>

text \<open>
  The lines of the file: the number of a laser and its times in the frames of both halves. The times are
  converted before their place is looked up.
\<close>

fun ax_firetime_lines :: "string list \<Rightarrow> udp4_7_parser \<Rightarrow> (udp4_7_parser + udp4_7_parser) option" where
  "ax_firetime_lines [] s = Some (Inr s)"
| "ax_firetime_lines (line # lines) s =
     (let (index, ss) = getline CHR '','' (istringstream line) [];
          (deltTime1, ss) = getline CHR '','' ss [];
          (deltTime2, ss) = getline CHR '','' ss []
      in case (stod deltTime1, stoi index) of
        (Some t1, Some n) \<Rightarrow> do {
          i \<leftarrow> int_ok (n - 1);
          if i < 0 \<or> i \<ge> int ATX_LASER_NUM then None
          else
            let t = ax_firetimes s;
                s = s \<lparr> ax_firetimes := t \<lparr> even_firetime := (even_firetime t)(nat i := t1) \<rparr> \<rparr>
            in case stod deltTime2 of None \<Rightarrow> Some (Inl s)
              | Some t2 \<Rightarrow>
                  let t = ax_firetimes s
                  in ax_firetime_lines lines (s \<lparr> ax_firetimes := t \<lparr> odd_firetime := (odd_firetime t)(nat i := t2) \<rparr> \<rparr>) }
      | _ \<Rightarrow> Some (Inl s))"

definition ax_LoadFiretimesFile :: "string \<Rightarrow> u8 list option \<Rightarrow> udp4_7_parser \<Rightarrow> (udp4_7_parser + udp4_7_parser) option" where
  "ax_LoadFiretimesFile path content s =
     (let ext = (if length path < 4 then [] else drop (length path - 4) path);
          done = (\<lambda>ok s. s \<lparr> p47 := p47 s \<lparr> get_firetime_file := ok \<rparr> \<rparr>) in
      if ext = ''.csv'' then
        (case content of None \<Rightarrow> Some (Inr (done False s))
         | Some bytes \<Rightarrow> do {
             let (line, inFile) = getline newline (istringstream (chars_of bytes)) [];
             r \<leftarrow> ax_firetime_lines (read_lines newline inFile line) s;
             Some (map_sum id (done True) r) })
      else if ext = ''.bin'' \<or> ext = ''.dat'' then
        (case content of None \<Rightarrow> Some (Inr s)
         | Some buffer \<Rightarrow> map_option (Inr \<circ> snd) (ax_LoadFiretimesString buffer s))
      else Some (Inr s))"

section \<open>The channel table of QT128\<close>

text \<open>The text of a table of \<open>n\<close> lasers, with a column for each loop.\<close>

definition print_config :: "nat \<Rightarrow> nat \<Rightarrow> nat \<Rightarrow> nat \<Rightarrow> string list \<Rightarrow> (nat \<Rightarrow> nat \<Rightarrow> nat) \<Rightarrow> string \<Rightarrow> string" where
  "print_config major minor n b loops v hash = unlines newline
     ([join [''EEFF'', dec major, dec minor], join [''laser num'', dec n, ''block num'', dec b], join loops] @
      map (\<lambda>i. join (map (\<lambda>j. dec (v j i)) [0..<length loops])) [0..<n] @ [hash])"

definition table_of :: "nat \<Rightarrow> nat \<Rightarrow> (nat \<Rightarrow> nat \<Rightarrow> int) \<Rightarrow> int list list" where
  "table_of L n f = map (\<lambda>j. map (f j) [0..<n]) [0..<L]"

lemma table_of_update: "j < L \<Longrightarrow> (table_of L n f)[j := (table_of L n f ! j)[i := x]] = table_of L n (f(j := (f j)(i := x)))"
  by (rule nth_equalityI) (auto simp: table_of_def nth_list_update intro!: nth_equalityI)

lemma length_resize [simp]: "length (resize n x xs) = n"
  by (simp add: resize_def)

lemma table_of_lists:
  assumes "length t = L" and "\<forall>r\<in>set t. length r = n"
  shows "t = table_of L n (\<lambda>j p. t ! j ! p)"
  using assms by (intro nth_equalityI) (auto simp: table_of_def intro!: nth_equalityI)

lemma channel_cells:
  assumes "\<forall>j. v j \<le> 2147483647" and "j \<le> L"
  shows "qt2_channel_cells (map (\<lambda>j. dec (v j)) [j..<L]) i j (table_of L n f) =
     Inr (table_of L n (\<lambda>k. if j \<le> k then (f k)(i := int (v k)) else f k))"
  using assms(2)
proof (induction "L - j" arbitrary: j f)
  case 0
  then show ?case by (simp add: table_of_def)
next
  case (Suc d)
  then have j: "j < L" by simp
  have "stoi (dec (v j)) = Some (int (v j))" using assms(1) by (intro int_dec) auto
  moreover have "table_of L n (\<lambda>k. if Suc j \<le> k then ((f(j := (f j)(i := int (v j)))) k)(i := int (v k))
        else (f(j := (f j)(i := int (v j)))) k) = table_of L n (\<lambda>k. if j \<le> k then (f k)(i := int (v k)) else f k)"
    by (auto simp: table_of_def not_less_eq_eq dest: antisym)
  ultimately show ?case
    using Suc.hyps(1) [of "Suc j"] Suc.hyps(2) j by (simp add: upt_conv_Cons table_of_update)
qed

lemma channel_lines:
  assumes v: "\<forall>j i. v j i \<le> 2147483647" and "i \<le> n"
  shows "\<exists>line'. qt2_channel_lines L (n - i) i
      (istringstream (unlines newline (map (\<lambda>i. join (map (\<lambda>j. dec (v j i)) [0..<L])) [i..<n] @ post))) line (table_of L n f) =
    (Went_on (istringstream (unlines newline post)) line',
     table_of L n (\<lambda>j p. if i \<le> p then int (v j p) else f j p))"
  using assms(2)
proof (induction "n - i" arbitrary: i f line)
  case 0
  then show ?case by (auto simp: table_of_def intro!: exI [of _ line])
next
  case (Suc d)
  then have i: "i < n" by simp
  let ?cells = "map (\<lambda>j. dec (v j i)) [0..<L]"
  have cells: "list_all is_cell ?cells" by (simp add: list_all_iff is_cell_dec)
  note get = getline_delim [OF join_line [OF this]]
  have "qt2_channel_cells ?cells i 0 (table_of L n f) = Inr (table_of L n (\<lambda>k. (f k)(i := int (v k i))))"
    using channel_cells [of "\<lambda>j. v j i" 0 L i n f] v by simp
  moreover have "table_of L n (\<lambda>j p. if Suc i \<le> p then int (v j p) else ((f j)(i := int (v j i))) p) =
      table_of L n (\<lambda>j p. if i \<le> p then int (v j p) else f j p)"
    by (auto simp: table_of_def not_less_eq_eq dest: antisym)
  moreover have "n - i = Suc (n - Suc i)" using i by simp
  ultimately show ?case
    using Suc.hyps(1) [of "Suc i" "join ?cells" "\<lambda>k. (f k)(i := int (v k i))"] Suc.hyps(2) i
    by (simp add: upt_conv_Cons get split_join [OF cells])
qed

text \<open>
  C37. Printing a channel table of up to 255 lasers, with any number of loops, and reading the text back
  gives the same table, whatever table was there before.
\<close>

theorem channel_config_roundtrip:
  assumes n: "0 < n" "n < 256" and b: "0 < b" "b < 256" and "major < 256" and "minor < 256"
    and loops: "list_all is_cell loops" and v: "\<forall>j i. v j i \<le> 2147483647"
    and hash: "\<forall>x\<in>set hash. x \<noteq> newline \<and> 0 < (of_char x :: nat)"
  shows "qt2_LoadChannelConfigString (bytes_of (print_config major minor n b loops v hash) @ 0 # rest) s =
     Some (Inr (0, s \<lparr> pandarQT_channel_config := (pandarQT_channel_config s) \<lparr>
       cc_major_version := word_of_nat major, cc_min_version := word_of_nat minor, cc_laser_num := word_of_nat n,
       cc_BlockNum := word_of_nat b,
       cc_ChannelConfigTable := map (\<lambda>j. map (\<lambda>i. int (v j i)) [0..<n]) [0..<length loops],
       cc_HashValue := hash, cc_IsChannelConfigObtained := True \<rparr> \<rparr>))"
proof -
  let ?L = "length loops"
  let ?first = "[''EEFF'', dec major, dec minor]" and ?second = "[''laser num'', dec n, ''block num'', dec b]"
  let ?rows = "map (\<lambda>i. join (map (\<lambda>j. dec (v j i)) [0..<?L])) [0..<n]"
  have cells: "list_all is_cell ?first" "list_all is_cell ?second"
    by (simp_all add: is_cell_dec) (simp_all add: is_cell_def newline_def)
  have rows: "list_all is_cell (map (\<lambda>j. dec (v j i)) [0..<?L])" for i by (simp add: list_all_iff is_cell_dec)
  obtain A B C where ABC: "A = join ?first" "B = join ?second" "C = join loops" by blast
  let ?text = "A @ newline # B @ newline # C @ newline # unlines newline (?rows @ [hash])"
  have print: "print_config major minor n b loops v hash = ?text" by (simp add: print_config_def ABC del: join.simps)
  have "\<forall>x\<in>set A. 0 < (of_char x :: nat)" "\<forall>x\<in>set B. 0 < (of_char x :: nat)" "\<forall>x\<in>set C. 0 < (of_char x :: nat)"
    unfolding ABC using join_chars [OF cells(1)] join_chars [OF cells(2)] join_chars [OF loops] by blast+
  moreover have "\<forall>r\<in>set (?rows @ [hash]). \<forall>x\<in>set r. 0 < (of_char x :: nat)"
    using join_chars [OF rows] hash by fastforce
  then have "\<forall>x\<in>set (unlines newline (?rows @ [hash])). 0 < (of_char x :: nat)"
    by (rule unlines_chars)
  ultimately have "\<forall>x\<in>set ?text. 0 < (of_char x :: nat)"
    unfolding set_append list.set ball_Un ball_simps by (simp add: newline_def)
  then have content: "c_string (bytes_of ?text @ 0 # rest) = Some ?text"
    by (rule c_string_bytes)
  have get: "getline newline (istringstream (A @ newline # ts)) s = (A, istringstream ts)"
    "getline newline (istringstream (B @ newline # ts)) s = (B, istringstream ts)"
    "getline newline (istringstream (C @ newline # ts)) s = (C, istringstream ts)"
    "getline newline (istringstream (hash @ newline # ts)) s = (hash, istringstream ts)" for ts s
    using join_line [OF cells(1)] join_line [OF cells(2)] join_line [OF loops] hash
    by (auto simp: ABC getline_delim simp del: join.simps)
  have split: "split_string A CHR '','' = ?first" "split_string B CHR '','' = ?second" "split_string C CHR '','' = loops"
    unfolding ABC by (rule split_join [OF cells(1)] split_join [OF cells(2)] split_join [OF loops])+
  define t where "t = map (resize n (0::int)) (resize ?L [] (cc_ChannelConfigTable (pandarQT_channel_config s)))"
  have t: "t = table_of ?L n (\<lambda>j p. t ! j ! p)" by (rule table_of_lists) (auto simp: t_def)
  obtain line' where lines: "qt2_channel_lines ?L n 0 (istringstream (unlines newline (?rows @ [hash]))) C t =
      (Went_on (istringstream (unlines newline [hash])) line', table_of ?L n (\<lambda>j p. int (v j p)))"
    using channel_lines [OF v, of 0 n ?L "[hash]" C "\<lambda>j p. t ! j ! p"] t by auto
  have numbers: "stoi (dec k) = Some (int k)" if "k < 256" for k using that by (intro int_dec) simp
  have "word_of_nat n \<noteq> (0::u8)" "word_of_nat b \<noteq> (0::u8)" "unat (word_of_nat n :: u8) = n"
    using n b by (auto simp: unat_of_nat word_of_nat_eq_0_iff nat_dvd_not_less)
  then show ?thesis
    using assms(2,4-6) lines unfolding print
    by (simp add: qt2_LoadChannelConfigString_def content get split nth_opt_def numbers t_def [symmetric] table_of_def
        del: map_append)
qed

theorem channel_config_roundtrip_witness:
  "\<exists>s'. qt2_LoadChannelConfigString
       (bytes_of (print_config 1 2 2 1 [''loop1'', ''loop2''] (\<lambda>j i. if j = i then 3 else 40) ''x'') @ [0]) qt2_parser_ex = Some (Inr (0, s')) \<and>
     cc_ChannelConfigTable (pandarQT_channel_config s') = [[3, 40], [40, 3]]"
  using channel_config_roundtrip [of 2 1 1 2 "[''loop1'', ''loop2'']" "\<lambda>j i. if j = i then 3 else 40" "''x''" "[]" qt2_parser_ex]
  by (simp add: is_cell_def newline_def upt_rec)

section \<open>The firing times of Pandar128 stay in their arrays\<close>

text \<open>The entries of 128 lasers, 8 sections and 2 values are the only ones that a file can change.\<close>

definition p128_same_outside :: "udp1_4_parser \<Rightarrow> udp1_4_parser \<Rightarrow> bool" where
  "p128_same_outside s s' \<longleftrightarrow> (\<forall>idx k j. 128 \<le> idx \<or> 8 \<le> k \<or> 2 \<le> j \<longrightarrow>
     firetime_section_values s' idx k j = firetime_section_values s idx k j)"

lemma p128_same_refl: "p128_same_outside s s"
  by (simp add: p128_same_outside_def)

lemma p128_same_trans: "p128_same_outside s t \<Longrightarrow> p128_same_outside t u \<Longrightarrow> p128_same_outside s u"
  by (simp add: p128_same_outside_def)

lemma p128_put_same: "idx < 128 \<Longrightarrow> k < 8 \<Longrightarrow> p128_same_outside s (p128_put idx k a b s)"
  by (auto simp: p128_same_outside_def p128_put_def Let_def)

definition p128_end :: "udp1_4_parser + udp1_4_parser \<Rightarrow> udp1_4_parser" where
  "p128_end = case_sum id id"

lemma p128_end_simps [simp]: "p128_end (Inl s) = s" "p128_end (Inr s) = s"
  by (simp_all add: p128_end_def)

lemma p128_pairs_same:
  "idx < 128 \<Longrightarrow> 2 * k + length cells \<le> 16 \<Longrightarrow> p128_same_outside s (p128_end (p128_pairs idx cells k s))"
proof (induction idx cells k s rule: p128_pairs.induct)
  case (1 idx x y cells k s)
  have "k < 8" using 1 by simp
  note put = p128_same_trans [OF p128_put_same [OF 1(2) this]]
  show ?case using 1 by (auto split: option.splits intro!: p128_same_refl intro: put)
qed (simp_all add: p128_same_refl)

lemma p128_values_same:
  "idx < 128 \<Longrightarrow> k + length cells \<le> 8 \<Longrightarrow> p128_values idx cells k s = Some r \<Longrightarrow> p128_same_outside s (p128_end r)"
proof (induction idx cells k s rule: p128_values.induct)
  case (2 idx cell cells k s)
  have "k < 8" using 2 by simp
  note put = p128_same_trans [OF p128_put_same [OF 2(3) this]]
  show ?case
  proof (cases "cell = ''-''")
    case True
    then show ?thesis using 2(1) [OF True] 2(3-) by (auto intro: put)
  next
    case False
    then show ?thesis using 2(2) [OF False] 2(3-)
      by (auto split: option.splits Option.bind_splits intro!: p128_same_refl intro: put)
  qed
qed (auto simp: p128_same_refl)

lemma p128_row_same:
  "i < 128 \<Longrightarrow> p128_row_values i ot cells s = Some r \<Longrightarrow> p128_same_outside s (p128_end r)"
  using p128_pairs_same [of i 0 "take 16 (drop 1 cells)" s] p128_values_same [of i 0 "take 6 (drop 1 cells)" s r]
  by (auto simp: p128_row_values_def split: if_splits)

text \<open>The object after a line, however the line ends.\<close>

definition p128_object :: "udp1_4_parser + p128_loop \<Rightarrow> udp1_4_parser" where
  "p128_object = case_sum id (\<lambda>(_, _, _, s). s)"

lemma p128_object_simps [simp]:
  "p128_object (Inl s) = s" "p128_object (Inr (u, n, ot, s)) = s"
  "p128_object (case r of Inl s \<Rightarrow> Inl s | Inr s \<Rightarrow> if c then Inl s else Inr (u, n, ot, s)) = p128_end r"
  by (auto simp: p128_object_def split: sum.split)

lemma p128_row_line_same:
  assumes "p128_row_line line (u, n, ot, s) = Some r"
  shows "p128_same_outside s (p128_object r)"
  using assms
  by (auto simp: p128_row_line_def Let_def p128_same_refl split: if_splits option.splits Option.bind_splits)
    (rule p128_row_same [rotated], assumption, simp)+

lemma p128_first_same:
  "p128_first cells s = Some q \<Longrightarrow> p128_same_outside s (case q of Inl t \<Rightarrow> t | Inr (b, t) \<Rightarrow> t)"
  by (auto simp: p128_first_def Let_def p128_same_outside_def split: if_splits option.splits Option.bind_splits)

lemma p128_line_same:
  assumes "p128_firetime_line line (u, n, ot, s) = Some r"
  shows "p128_same_outside s (p128_object r)"
proof -
  obtain q where q: "(if u = 0 then p128_first (split_string line CHR '','') s else Some (Inr (ot, s))) = Some q"
    using assms by (auto simp: p128_firetime_line_def split: Option.bind_splits)
  then have same: "p128_same_outside s (case q of Inl t \<Rightarrow> t | Inr (b, t) \<Rightarrow> t)"
    by (cases "u = 0") (auto simp: p128_same_refl dest: p128_first_same)
  have line: "p128_firetime_line line (u, n, ot, s) = (case q of Inl s \<Rightarrow> Some (Inl s)
     | Inr (is_OT, s) \<Rightarrow> if u < (if is_OT then 2 else 3) then Some (Inr (u + 1, n, is_OT, s))
         else p128_row_line line (u, n, is_OT, s))"
    unfolding p128_firetime_line_def prod.case q by simp
  show ?thesis
  proof (cases q)
    case (Inl t)
    then show ?thesis using assms line same by auto
  next
    case (Inr bt)
    then obtain b t where bt: "q = Inr (b, t)" by (cases bt) simp
    then have "r = Inr (u + 1, n, b, t) \<or> p128_row_line line (u, n, b, t) = Some r"
      using assms line by (simp split: if_splits)
    moreover have "p128_same_outside s t" using same bt by simp
    ultimately show ?thesis using p128_row_line_same p128_same_trans by (metis p128_object_simps(2))
  qed
qed

lemma p128_loop_same:
  "p128_firetime_loop lines (u, n, ot, s) = Some r \<Longrightarrow> p128_same_outside s (p128_object r)"
proof (induction lines arbitrary: u n ot s)
  case (Cons line lines)
  obtain r' where r': "p128_firetime_line line (u, n, ot, s) = Some r'" using Cons.prems by (auto split: Option.bind_splits)
  note same = p128_line_same [OF r']
  show ?case
  proof (cases r')
    case (Inl t)
    then show ?thesis using Cons.prems r' same by auto
  next
    case (Inr st)
    then obtain u' n' ot' t where "r' = Inr (u', n', ot', t)" by (cases st) auto
    then show ?thesis using Cons r' same by (auto intro: p128_same_trans)
  qed
qed (auto simp: p128_same_refl)

text \<open>
  Whatever a firing-time file of Pandar128 contains, the entries it changes are those of 128 lasers, 8
  sections and two values, and its times are used only when all of it was read.
\<close>

theorem p128_firetimes_in_bounds:
  assumes load: "p128_LoadFiretimesFile content s = Some s'"
  shows "p128_same_outside s s' \<and> (get_firetime_file (p14 s') \<longrightarrow> (\<exists>bytes st. content = Some bytes \<and>
      p128_firetime_loop (read_lines newline (istringstream (chars_of bytes)) []) (0, 0, False, s) = Some (Inr st)))"
proof (cases content)
  case None
  then show ?thesis using load by (auto simp: p128_LoadFiretimesFile_def Let_def p128_same_outside_def)
next
  case (Some bytes)
  let ?lines = "read_lines newline (istringstream (chars_of bytes)) []"
  obtain r where r: "p128_firetime_loop ?lines (0, 0, False, s) = Some r"
    using load Some by (auto simp: p128_LoadFiretimesFile_def Let_def split: Option.bind_splits)
  have s': "s' = (p128_object r) \<lparr> p14 := p14 (p128_object r) \<lparr> get_firetime_file := \<not> isl r \<rparr> \<rparr>"
    using load Some r by (cases r) (auto simp: p128_LoadFiretimesFile_def Let_def)
  have "p128_same_outside s s'" using p128_loop_same [OF r] unfolding s' by (simp add: p128_same_outside_def)
  moreover have "get_firetime_file (p14 s') = (\<not> isl r)" unfolding s' by simp
  then have "get_firetime_file (p14 s') \<longrightarrow> r = Inr (projr r)" by simp
  ultimately show ?thesis using Some r by metis
qed

theorem p128_firetimes_in_bounds_witness:
  "\<exists>s'. p128_LoadFiretimesFile (Some (bytes_of (unlines newline
       [''Operational State'', ''id'', ''1,0.5,-,-,-,-,-'']))) p128_ex = Some s' \<and> p128_same_outside p128_ex s'"
proof -
  have "p128_LoadFiretimesFile (Some (bytes_of (unlines newline [''Operational State'', ''id'', ''1,0.5,-,-,-,-,-'']))) p128_ex \<noteq> None"
    by code_simp
  then show ?thesis using p128_firetimes_in_bounds [of _ p128_ex] by blast
qed

end
