(* ===== verification/Spec2Isabelle.thy ===== *)
theory Spec2Isabelle
  imports Ring2D Blocking_Ring Crc Ptc_Commands Tcp_Ssl_Client Ptc_Connect Driver Lidar_Init Thread_Pool Receive_Thread Udp1_4 Udp2_4 Udp2_5 Udp2_6 Udp3_2 Udp4_3 Udp4_7 Udp7_2 Fault_Message Correction_Text Firetimes_Text
begin

text \<open>
  A verification of the Hesai lidar SDK 2.0, the library under \<open>src/libhesai\<close> and its driver
  \<open>src/driver/hesai_lidar_sdk.hpp\<close>.

  \<^bold>\<open>The program.\<close> A lidar sends UDP packets with the distances of a few blocks of channels. The driver
  (\<open>HesaiLidarSdk::Run\<close>) takes them one by one, \<open>UdpParser\<close> hands each to the parser class of the
  lidar, which decodes it into the current frame and decides whether the frame is complete, and
  parser threads turn the decoded data into Cartesian points. A second connection over TCP (PTC)
  queries and configures the lidar. Threads are joined by ring buffers.

  \<^bold>\<open>Foundations.\<close> Theory Prelude has the machine words, the reads of little-endian fields from byte
  buffers and the rules of the option monad; theory Float\_Model the \<open>float\<close> and \<open>double\<close> arithmetic,
  as rationals rounded to nearest even, with the lemmas on what rounding does not cross. Everywhere,
  \<open>None\<close> is undefined behaviour of C++: an access outside an object, an overflow of a signed integer, a
  conversion out of range, a shift by a negative number; so a result \<open>Some\<close> is a safety statement.

  \<^bold>\<open>Containers\<close> (\<open>Container/src\<close>). Ring is the bounded double-ended queue \<open>Ring<T, N>\<close>, with the
  contract \<open>bounded_deque\<close> over its list of elements; Ring2D is \<open>Ring2D_ex\<close>; Blocking\_Ring is
  \<open>BlockingRing\<close> as a step relation of a producer and a consumer, with first-in first-out order,
  bounded capacity and no lost wake-up.

  \<^bold>\<open>PTC\<close> (\<open>PtcClient/src\<close>, \<open>PtcParser/src\<close>). Crc has the table-driven checksum and its bitwise
  reference; Ptc\_Parser the message formats 1.0 and 2.0, with the contract \<open>ptc_format\<close>; Tcp\_Client the
  connection over a kernel whose answers are a script, with the contract \<open>client_base\<close>; Ptc\_Client the
  exchange \<open>QueryCommand\<close>, which is shown to end, to stay in its buffers and to return the response for
  both versions; Ptc\_Commands the commands built on it. Tcp\_Ssl\_Client is the connection over TLS, with
  the answers of OpenSSL as scripts: it gives \<open>client_base\<close> too, so the exchange is correct over it
  (contract \<open>ptc_session\<close>, interpreted for two transports and two versions), its objects are never
  used after their release, and it opens without looking at the connection. Ptc\_Connect is the
  constructor of \<open>PtcClient\<close> and the thread that opens either transport, with the waiting loops of
  Polling.

  \<^bold>\<open>Types and protocol\<close> (\<open>Lidar/lidar_types.h\<close>, \<open>UdpProtocol\<close>). Lidar\_Types has packets, points and
  frames; Byte\_Order the header of all packets and the byte order functions on either host; Lidar\_Time
  the time of a packet, checked against a calendar. Fault\_Message has the fault messages of AT128 and ATX
  with their dispatch: a message is read as it was built, and the states of the lens area by area.

  \<^bold>\<open>Parsers\<close> (\<open>UdpParser\<close>). General\_Parser has the fields and operations of the base class;
  Packet\_Stats its loss statistics; Frame\_Split the frame division of the spinning lidars, with the
  contract \<open>frame_splitter\<close>: over a whole run, the frames are as many as the rotation's passages of the
  start azimuth.

  The decoders come in two shapes. Packet\_Decoder has the loops of Pandar40, Pandar64, QT64 and XT
  (theories Udp\_P40, Udp\_P64, Udp3\_1, Udp6\_1), with the contracts \<open>packet_layout\<close> and
  \<open>headed_decoder\<close>. Row\_Decoder has the loops of the lidars whose rows differ in more than the azimuth,
  with the contract \<open>row_layout\<close>: Pandar128 (Udp1\_4), QT128 (Udp3\_2), AT128 (Udp4\_3), ATX
  (Udp4\_7) and FT120 (Udp7\_2). For each decoder, \<open>DecodePacket\<close> is shown to write exactly the points of the packet and
  nothing else when what the header announces is inside the 1500 bytes of the buffer, and to read
  behind the buffer otherwise. Compute\_Points has the loops of \<open>ComputeXYZI\<close>, with the contract
  \<open>point_geometry\<close>: indices of the tables stay in bounds, a packet writes only its own points, and the
  order of two packets does not matter. Udp4\_3, Udp4\_7 and Udp7\_2 also have the binary correction files
  of AT128, ATX and FT120, read with Correction\_Data, and what a refused file leaves behind; Udp4\_3 the
  search of the mirror range of an azimuth and the division by jumps and time-outs; Udp4\_7 the
  elevation that is adjusted by the azimuth. Et\_Decoder has what the decoders of the ET lidars share,
  with the contract \<open>et_layout\<close> interpreted on the formats 2.4 and 2.5 (Udp2\_4, Udp2\_5); Udp2\_6 has the
  format with second returns. Et\_Corrections has their correction files and tables of adjustments:
  a reading of a loaded table stays inside it, though the loader does not bound the table itself.

  \<^bold>\<open>Textual files\<close> (\<open>UdpParser/src\<close>). Text\_Input models the string streams and number conversions
  of the C++ library that the loaders use. Angle\_Text has the correction and firing-time files of the
  base class, with what every text means to the loader and the round trip; Correction\_Text the correction
  files of ET and FT120 and the loading of a file by each class; Firetimes\_Text the firing times of
  Pandar128, QT128 and ATX and the channel table of QT128, with its round trip. A local variable that has
  not been written is \<open>None\<close>, and an exception that leaves a function is a value of a sum type.

  \<^bold>\<open>Sources and threads\<close> (\<open>Source/src\<close>, \<open>Lidar/lidar.cc\<close>). Pcap has the reader and the writer of
  capture files over a map of file contents: reading is safe and ends on any file. Socket\_Source has
  the UDP socket over a kernel whose answers are a script. Receive\_Thread is the thread that feeds the
  driver's queue from either source, with the contracts \<open>packet_source\<close> and \<open>marking_source\<close>: nothing
  is lost, time-outs do not repeat, and replaying a recording gives the same queue. Thread\_Pool is
  \<open>ParserThread\<close> and \<open>HandleThread\<close> in every interleaving, with the contract \<open>commuting\<close> interpreted on
  \<open>ComputeXYZI\<close>: many threads compute what one does, and finish.

  \<^bold>\<open>Composition.\<close> Udp\_Parser chooses the parser class, and slows down a replay; Parser\_Keeps shows what
  decoding and computing keep of the parser's counters; Driver has the loop \<open>Run\<close> and a parser thread
  as a step relation over the shared frame, queue and counter, with the contract \<open>parser_contract\<close>
  interpreted on the modelled parsers: every published frame has all its points computed, and the
  driver waits for ever after a frame that was given up. Lidar\_Init has \<open>Lidar::Init\<close>, \<open>InitSetPtc\<close>,
  \<open>SetThreadNum\<close> and the destructor: which threads are started and joined, and when the
  initialisation of a replay ends.

  \<^bold>\<open>Bounds.\<close> A frame has 5000 packets and 2560000 points (\<open>lidar_types.h\<close>), so statements about an
  accepted packet assume a packet number below 5000, as the driver ensures; whatever fits a packet has
  at most 512 points. No definition uses fuel: the loops over counters of the packet are primitive
  recursion on the number of iterations left; the sentinel loop of \<open>CRCInit\<close>, the receive loops of \<open>QueryCommand\<close> and the loop of
  \<open>SplitFileFrames\<close>, which may not end, are partial functions with the result \<open>None\<close> then, and so are the
  loops that wait for another thread (\<open>spin\<close> in Polling); the loops of
  \<open>prepare_emplace_back\<close>, of the range search of AT128 and of \<open>sys_readn_by_ssl\<close> are functions with a measure. The tables of
  sine and cosine and the functions of the C library are a parameter (\<open>libm\<close>), as are the clock and
  the time zone of the host.

  \<^bold>\<open>Not modelled.\<close> The classes with fields of their own (Pandar128, QT128, AT128, ATX, FT120, ET) are verified by themselves; the
  driver's theorems are about the four classes whose state is that of the base class. OpenSSL, the kernel and
  the files are what the theorems quantify over: scripts of answers and maps of contents. The CUDA
  kernels (\<open>UdpParserGpu\<close>) repeat the geometry of the CPU parsers on a device that has no model here;
  logging, printing and the Windows branches only do input and output; \<open>Ring2D_shared\<close> is used by no
  class; the driver's registration of callbacks, the wrappers for recording and the accessors of the monitor
  information keep no state that another operation reads.
\<close>

end
